(* ===== verification/Prelude.thy ===== *)
theory Prelude
  imports Main "HOL-Library.Word" "HOL-Library.Monad_Syntax"
begin

text \<open>
  Shared vocabulary of the development: the machine integers and byte strings the C code
  works on, the byte order of the target (\<open>__BYTE_ORDER__\<close>), the layout of integers in
  memory, and reads and writes of a byte buffer that fail (\<open>None\<close>) outside of it.

  A pointer into a packet is an offset from \<open>ctx->data\<close>; a pointer variable that may be
  \<open>NULL\<close> is a \<open>nat option\<close>. An access through \<open>NULL\<close>, or one that is not inside
  \<open>data .. data_end\<close>, is \<open>None\<close> in the option monad: the program has left the memory it
  owns, and nothing after it is described.

  The locale \<open>layout\<close> is the interface of every type that is stored in a buffer: a
  width, an encoder and a decoder that are inverse to each other. Its lemmas are the laws
  of loads and stores (load after store, stores elsewhere, a store of what is there); it is
  interpreted for the integers here and for the packet headers in theory \<open>Headers\<close>.
\<close>

unbundle bit_operations_syntax

type_synonym u8 = "8 word"
type_synonym u16 = "16 word"
type_synonym u32 = "32 word"
type_synonym u64 = "64 word"
type_synonym bytes = "8 word list"
type_synonym ptr = "nat option"

datatype byte_order = LittleEndian | BigEndian

named_theorems layout_simps
  \<open>lengths and round trips of the byte encodings\<close>

section \<open>Integers as bytes\<close>

fun le_bytes :: "nat \<Rightarrow> 'a::len word \<Rightarrow> bytes" where
  "le_bytes 0 w = []"
| "le_bytes (Suc n) w = ucast w # le_bytes n (drop_bit 8 w)"

fun le_word :: "bytes \<Rightarrow> 'a::len word" where
  "le_word [] = 0"
| "le_word (b # bs) = ucast b OR push_bit 8 (le_word bs)"

definition encode_word :: "byte_order \<Rightarrow> nat \<Rightarrow> 'a::len word \<Rightarrow> bytes" where
  "encode_word bo n w =
     (case bo of LittleEndian \<Rightarrow> le_bytes n w | BigEndian \<Rightarrow> rev (le_bytes n w))"

definition decode_word :: "byte_order \<Rightarrow> bytes \<Rightarrow> 'a::len word" where
  "decode_word bo bs =
     (case bo of LittleEndian \<Rightarrow> le_word bs | BigEndian \<Rightarrow> le_word (rev bs))"

text \<open>Reading \<open>n\<close> bytes at an offset, and overwriting bytes at an offset.\<close>

definition read_bytes :: "nat \<Rightarrow> bytes \<Rightarrow> nat \<Rightarrow> bytes option" where
  "read_bytes n buf off =
     (if off + n \<le> length buf then Some (take n (drop off buf)) else None)"

definition write_bytes :: "bytes \<Rightarrow> nat \<Rightarrow> bytes \<Rightarrow> bytes option" where
  "write_bytes buf off bs =
     (if off + length bs \<le> length buf
      then Some (take off buf @ bs @ drop (off + length bs) buf) else None)"

definition nth_option :: "'a list \<Rightarrow> nat \<Rightarrow> 'a option" where
  "nth_option l i = (if i < length l then Some (l ! i) else None)"

definition load_word :: "byte_order \<Rightarrow> nat \<Rightarrow> bytes \<Rightarrow> nat \<Rightarrow> 'a::len word option" where
  "load_word bo n buf off = map_option (decode_word bo) (read_bytes n buf off)"

definition store_word :: "byte_order \<Rightarrow> nat \<Rightarrow> bytes \<Rightarrow> nat \<Rightarrow> 'a::len word \<Rightarrow> bytes option" where
  "store_word bo n buf off w = write_bytes buf off (encode_word bo n w)"

section \<open>Round trips of the integer encodings\<close>

lemma length_le_bytes [simp, layout_simps]: "length (le_bytes n w) = n"
  by (induction n w rule: le_bytes.induct) simp_all

lemma length_encode_word [simp, layout_simps]: "length (encode_word bo n w) = n"
  by (simp add: encode_word_def split: byte_order.split)

lemma bit_le_word:
  "bit (le_word bs :: 'a::len word) k \<longleftrightarrow>
     k < LENGTH('a) \<and> k div 8 < length bs \<and> bit (bs ! (k div 8)) (k mod 8)"
proof (induction bs arbitrary: k)
  case Nil
  then show ?case by simp
next
  case (Cons b bs)
  show ?case
  proof (cases "k < 8")
    case True
    then show ?thesis
      by (auto simp: bit_simps)
  next
    case False
    define j where "j = k - 8"
    then have k: "k = j + 8" using False by simp
    have "\<not> bit b k" using False by (auto dest: bit_imp_le_length)
    moreover have "k div 8 = Suc (j div 8)" "k mod 8 = j mod 8" by (simp_all add: k)
    ultimately show ?thesis
      using Cons.IH [of j] False by (auto simp: k bit_simps)
  qed
qed

lemma nth_le_bytes: "k < n \<Longrightarrow> le_bytes n w ! k = ucast (drop_bit (8 * k) w)"
proof (induction n w arbitrary: k rule: le_bytes.induct)
  case (2 n w)
  then show ?case by (cases k) (simp_all add: add.commute)
qed simp

lemma le_word_le_bytes:
  "8 * n \<ge> LENGTH('a) \<Longrightarrow> le_word (le_bytes n (w :: 'a::len word)) = w"
proof (rule bit_word_eqI)
  fix k
  assume n: "8 * n \<ge> LENGTH('a)" and k: "k < LENGTH('a)"
  then have kn: "k div 8 < n" by linarith
  have "8 * (k div 8) + k mod 8 = k" by simp
  then show "bit (le_word (le_bytes n w) :: 'a word) k = bit w k"
    using k kn by (simp add: bit_le_word nth_le_bytes bit_simps)
qed

lemma le_bytes_le_word:
  assumes "8 * length bs \<le> LENGTH('a)"
  shows "le_bytes (length bs) (le_word bs :: 'a::len word) = bs"
proof (rule nth_equalityI)
  show "length (le_bytes (length bs) (le_word bs :: 'a word)) = length bs" by simp
next
  fix i
  assume "i < length (le_bytes (length bs) (le_word bs :: 'a word))"
  then have i: "i < length bs" by simp
  show "le_bytes (length bs) (le_word bs :: 'a word) ! i = bs ! i"
  proof (rule bit_word_eqI)
    fix k
    assume "k < LENGTH(8)"
    then have k: "k < 8" by simp
    have "8 * i + k < LENGTH('a)" using i k assms by linarith
    moreover have "(8 * i + k) div 8 = i" "(8 * i + k) mod 8 = k" using k by auto
    ultimately show "bit (le_bytes (length bs) (le_word bs :: 'a word) ! i) k = bit (bs ! i) k"
      using i k by (simp add: nth_le_bytes bit_simps bit_le_word)
  qed
qed

lemma decode_encode_word:
  "8 * n \<ge> LENGTH('a) \<Longrightarrow> decode_word bo (encode_word bo n (w :: 'a::len word)) = w"
  by (simp add: decode_word_def encode_word_def le_word_le_bytes split: byte_order.split)

lemma encode_decode_word:
  assumes "length bs = n" "8 * n \<le> LENGTH('a)"
  shows "encode_word bo n (decode_word bo bs :: 'a::len word) = bs"
proof -
  have "le_bytes n (le_word bs :: 'a word) = bs" "le_bytes n (le_word (rev bs) :: 'a word) = rev bs"
    using assms le_bytes_le_word [of bs, where 'a = 'a] le_bytes_le_word [of "rev bs", where 'a = 'a]
    by simp_all
  then show ?thesis
    by (simp add: decode_word_def encode_word_def split: byte_order.split)
qed

section \<open>Buffers\<close>

lemma read_bytes_length: "read_bytes n buf off = Some bs \<Longrightarrow> length bs = n"
  by (auto simp: read_bytes_def split: if_splits)

lemma read_bytes_defined: "(\<exists>bs. read_bytes n buf off = Some bs) \<longleftrightarrow> off + n \<le> length buf"
  by (simp add: read_bytes_def)

lemma load_word_defined: "off + n \<le> length buf \<Longrightarrow> \<exists>v. load_word bo n buf off = Some v"
  by (simp add: load_word_def read_bytes_def)

lemma write_bytes_length: "write_bytes buf off bs = Some buf' \<Longrightarrow> length buf' = length buf"
  by (auto simp: write_bytes_def split: if_splits)

lemma write_bytes_defined: "(\<exists>b. write_bytes buf off bs = Some b) \<longleftrightarrow> off + length bs \<le> length buf"
  by (simp add: write_bytes_def)

lemma write_bytes_nth:
  assumes "write_bytes buf off bs = Some buf'" "k < length buf"
  shows "buf' ! k = (if off \<le> k \<and> k < off + length bs then bs ! (k - off) else buf ! k)"
  using assms by (auto simp: write_bytes_def nth_append split: if_splits)

lemma read_write_same:
  "write_bytes buf off bs = Some buf' \<Longrightarrow> read_bytes (length bs) buf' off = Some bs"
  by (auto simp: write_bytes_def read_bytes_def split: if_splits)

lemma read_write_disjoint:
  assumes "write_bytes buf off bs = Some buf'"
    and "off' + n \<le> off \<or> off + length bs \<le> off'"
  shows "read_bytes n buf' off' = read_bytes n buf off'"
proof -
  have len: "length buf' = length buf" using assms(1) by (rule write_bytes_length)
  have "take n (drop off' buf') = take n (drop off' buf)" if "off' + n \<le> length buf"
  proof (rule nth_equalityI)
    show "length (take n (drop off' buf')) = length (take n (drop off' buf))"
      by (simp add: len)
  next
    fix i
    assume "i < length (take n (drop off' buf'))"
    then have i: "i < n" by simp
    have "buf' ! (off' + i) = buf ! (off' + i)"
      using i assms that write_bytes_nth [OF assms(1), of "off' + i"] by auto
    then show "take n (drop off' buf') ! i = take n (drop off' buf) ! i"
      using i that len by simp
  qed
  then show ?thesis by (simp add: read_bytes_def len)
qed

lemma write_read_same: "read_bytes n buf off = Some bs \<Longrightarrow> write_bytes buf off bs = Some buf"
  by (auto simp: write_bytes_def read_bytes_def split: if_splits)
     (metis add.commute append_take_drop_id drop_drop)

section \<open>The interface of values stored in a buffer\<close>

locale layout =
  fixes width :: nat
    and enc :: "'v \<Rightarrow> bytes"
    and dec :: "bytes \<Rightarrow> 'v"
  assumes enc_width: "length (enc v) = width"
    and dec_enc: "dec (enc v) = v"
    and enc_dec: "length bs = width \<Longrightarrow> enc (dec bs) = bs"
begin

lemma load_defined:
  "(\<exists>v. map_option dec (read_bytes width buf off) = Some v) \<longleftrightarrow> off + width \<le> length buf"
  by (simp add: read_bytes_def)

lemma store_defined:
  "(\<exists>b. write_bytes buf off (enc v) = Some b) \<longleftrightarrow> off + width \<le> length buf"
  by (simp add: write_bytes_def enc_width)

lemma load_store:
  "write_bytes buf off (enc v) = Some buf' \<Longrightarrow> map_option dec (read_bytes width buf' off) = Some v"
  using read_write_same [of buf off "enc v" buf'] by (simp add: enc_width dec_enc)

lemma read_store_disjoint:
  assumes "write_bytes buf off (enc v) = Some buf'"
    and "off' + n \<le> off \<or> off + width \<le> off'"
  shows "read_bytes n buf' off' = read_bytes n buf off'"
  using read_write_disjoint [OF assms(1)] assms(2) by (simp add: enc_width)

lemma store_load:
  assumes "map_option dec (read_bytes width buf off) = Some v"
  shows "write_bytes buf off (enc v) = Some buf"
proof -
  from assms obtain bs where bs: "read_bytes width buf off = Some bs" and v: "v = dec bs"
    by auto
  from bs have "length bs = width" by (rule read_bytes_length)
  then have "enc v = bs" by (simp add: v enc_dec)
  with bs show ?thesis by (simp add: write_read_same)
qed

lemma enc_inject: "enc v = enc v' \<longleftrightarrow> v = v'"
  by (metis dec_enc)

lemma enc_bij: "bij_betw enc UNIV {bs. length bs = width}"
  by (rule bij_betw_byWitness [where f' = dec]) (auto simp: enc_width dec_enc enc_dec)

end

interpretation word16: layout 2 "encode_word bo 2 :: u16 \<Rightarrow> bytes" "decode_word bo"
  for bo
  by unfold_locales (simp_all add: decode_encode_word encode_decode_word)

interpretation word32: layout 4 "encode_word bo 4 :: u32 \<Rightarrow> bytes" "decode_word bo"
  for bo
  by unfold_locales (simp_all add: decode_encode_word encode_decode_word)

interpretation word64: layout 8 "encode_word bo 8 :: u64 \<Rightarrow> bytes" "decode_word bo"
  for bo
  by unfold_locales (simp_all add: decode_encode_word encode_decode_word)

end
