(* ===== verification/Headers.thy ===== *)
theory Headers
  imports Prelude
begin

text \<open>
  The packed structures of \<open>src/src/headers.h\<close>: the Ethernet, IPv4 and TCP headers the
  filter overlays on the packet, the connection key, the parse cursor and the three header
  pointers. Each structure is a record with the source's members, and its layout is the one
  the C compiler gives a packed structure: integers in the target's byte order, bit-fields
  allocated from the least significant bit on a little-endian target and from the most
  significant bit on a big-endian one. A member \<open>__u8 addr[6]\<close> is the 48-bit word whose
  byte \<open>i\<close> is array element \<open>i\<close>, in either byte order.

  Every layout is an instance of the locale \<open>layout\<close>, so that loads and stores of whole
  structures obey the laws proved there.
\<close>

section \<open>Bit-fields\<close>

text \<open>
  Two adjacent bit-fields that fill one storage unit; the first declared is \<open>a\<close>.
\<close>

definition pack2 :: "byte_order \<Rightarrow> 'a::len word \<Rightarrow> 'b::len word \<Rightarrow> 'c::len word" where
  "pack2 bo a b =
     (case bo of
        LittleEndian \<Rightarrow> ucast a OR push_bit LENGTH('a) (ucast b)
      | BigEndian \<Rightarrow> push_bit LENGTH('b) (ucast a) OR ucast b)"

definition field_first :: "byte_order \<Rightarrow> 'c::len word \<Rightarrow> 'a::len word" where
  "field_first bo c =
     (case bo of
        LittleEndian \<Rightarrow> ucast c
      | BigEndian \<Rightarrow> ucast (drop_bit (LENGTH('c) - LENGTH('a)) c))"

definition field_second :: "byte_order \<Rightarrow> 'c::len word \<Rightarrow> 'b::len word" where
  "field_second bo c =
     (case bo of
        LittleEndian \<Rightarrow> ucast (drop_bit (LENGTH('c) - LENGTH('b)) c)
      | BigEndian \<Rightarrow> ucast c)"

text \<open>The \<open>i\<close>-th of eight one-bit fields that fill a byte.\<close>

definition flag_pos :: "byte_order \<Rightarrow> nat \<Rightarrow> nat" where
  "flag_pos bo i = (case bo of LittleEndian \<Rightarrow> i | BigEndian \<Rightarrow> 7 - i)"

definition get_flag :: "byte_order \<Rightarrow> nat \<Rightarrow> u8 \<Rightarrow> 1 word" where
  "get_flag bo i b = ucast (drop_bit (flag_pos bo i) b)"

definition put_flag :: "byte_order \<Rightarrow> nat \<Rightarrow> 1 word \<Rightarrow> u8" where
  "put_flag bo i f = push_bit (flag_pos bo i) (ucast f)"

section \<open>The structures\<close>

record connection_t =
  conn_src_addr :: u32
  conn_dst_addr :: u32
  conn_src_port :: u16
  conn_dst_port :: u16

record hdr_cursor =
  pos :: nat

record ethernet_t =
  eth_dst_addr :: "48 word"
  eth_src_addr :: "48 word"
  ether_type :: u16

record ipv4_t =
  version :: "4 word"
  ihl :: "4 word"
  dscp :: "6 word"
  ecn :: "2 word"
  total_len :: u16
  identification :: u16
  ip_flags :: "3 word"
  frag_offset :: "13 word"
  ttl :: u8
  protocol :: u8
  hdr_checksum :: u16
  ip_src_addr :: u32
  ip_dst_addr :: u32

record tcp_t =
  src_port :: u16
  dst_port :: u16
  seq_no :: u32
  ack_no :: u32
  data_offset :: "4 word"
  res :: "4 word"
  cwr :: "1 word"
  ece :: "1 word"
  urg :: "1 word"
  ack :: "1 word"
  psh :: "1 word"
  rst :: "1 word"
  syn :: "1 word"
  fin :: "1 word"
  window :: u16
  checksum :: u16
  urgent_ptr :: u16

record headers_t =
  ether :: ptr
  ipv4 :: ptr
  tcp :: ptr

section \<open>Their layouts\<close>

definition bslice :: "nat \<Rightarrow> nat \<Rightarrow> bytes \<Rightarrow> bytes" where
  "bslice i n bs = take n (drop i bs)"

definition encode_connection :: "byte_order \<Rightarrow> connection_t \<Rightarrow> bytes" where
  "encode_connection bo c =
     encode_word bo 4 (conn_src_addr c) @ encode_word bo 4 (conn_dst_addr c) @
     encode_word bo 2 (conn_src_port c) @ encode_word bo 2 (conn_dst_port c)"

definition decode_connection :: "byte_order \<Rightarrow> bytes \<Rightarrow> connection_t" where
  "decode_connection bo bs =
     \<lparr> conn_src_addr = decode_word bo (bslice 0 4 bs),
       conn_dst_addr = decode_word bo (bslice 4 4 bs),
       conn_src_port = decode_word bo (bslice 8 2 bs),
       conn_dst_port = decode_word bo (bslice 10 2 bs) \<rparr>"

definition encode_ether :: "byte_order \<Rightarrow> ethernet_t \<Rightarrow> bytes" where
  "encode_ether bo e =
     encode_word LittleEndian 6 (eth_dst_addr e) @
     encode_word LittleEndian 6 (eth_src_addr e) @
     encode_word bo 2 (ether_type e)"

definition decode_ether :: "byte_order \<Rightarrow> bytes \<Rightarrow> ethernet_t" where
  "decode_ether bo bs =
     \<lparr> eth_dst_addr = decode_word LittleEndian (bslice 0 6 bs),
       eth_src_addr = decode_word LittleEndian (bslice 6 6 bs),
       ether_type = decode_word bo (bslice 12 2 bs) \<rparr>"

definition encode_ipv4 :: "byte_order \<Rightarrow> ipv4_t \<Rightarrow> bytes" where
  "encode_ipv4 bo h =
     encode_word bo 1 (pack2 bo (version h) (ihl h) :: u8) @
     encode_word bo 1 (pack2 bo (dscp h) (ecn h) :: u8) @
     encode_word bo 2 (total_len h) @
     encode_word bo 2 (identification h) @
     encode_word bo 2 (pack2 bo (ip_flags h) (frag_offset h) :: u16) @
     encode_word bo 1 (ttl h) @
     encode_word bo 1 (protocol h) @
     encode_word bo 2 (hdr_checksum h) @
     encode_word bo 4 (ip_src_addr h) @
     encode_word bo 4 (ip_dst_addr h)"

definition decode_ipv4 :: "byte_order \<Rightarrow> bytes \<Rightarrow> ipv4_t" where
  "decode_ipv4 bo bs =
     (let vi = decode_word bo (bslice 0 1 bs) :: u8;
          de = decode_word bo (bslice 1 1 bs) :: u8;
          ff = decode_word bo (bslice 6 2 bs) :: u16
      in \<lparr> version = field_first bo vi,
           ihl = field_second bo vi,
           dscp = field_first bo de,
           ecn = field_second bo de,
           total_len = decode_word bo (bslice 2 2 bs),
           identification = decode_word bo (bslice 4 2 bs),
           ip_flags = field_first bo ff,
           frag_offset = field_second bo ff,
           ttl = decode_word bo (bslice 8 1 bs),
           protocol = decode_word bo (bslice 9 1 bs),
           hdr_checksum = decode_word bo (bslice 10 2 bs),
           ip_src_addr = decode_word bo (bslice 12 4 bs),
           ip_dst_addr = decode_word bo (bslice 16 4 bs) \<rparr>)"

definition pack_flags :: "byte_order \<Rightarrow> tcp_t \<Rightarrow> u8" where
  "pack_flags bo t =
     put_flag bo 0 (cwr t) OR put_flag bo 1 (ece t) OR put_flag bo 2 (urg t) OR
     put_flag bo 3 (ack t) OR put_flag bo 4 (psh t) OR put_flag bo 5 (rst t) OR
     put_flag bo 6 (syn t) OR put_flag bo 7 (fin t)"

definition encode_tcp :: "byte_order \<Rightarrow> tcp_t \<Rightarrow> bytes" where
  "encode_tcp bo t =
     encode_word bo 2 (src_port t) @
     encode_word bo 2 (dst_port t) @
     encode_word bo 4 (seq_no t) @
     encode_word bo 4 (ack_no t) @
     encode_word bo 1 (pack2 bo (data_offset t) (res t) :: u8) @
     encode_word bo 1 (pack_flags bo t) @
     encode_word bo 2 (window t) @
     encode_word bo 2 (checksum t) @
     encode_word bo 2 (urgent_ptr t)"

definition decode_tcp :: "byte_order \<Rightarrow> bytes \<Rightarrow> tcp_t" where
  "decode_tcp bo bs =
     (let dr = decode_word bo (bslice 12 1 bs) :: u8;
          fl = decode_word bo (bslice 13 1 bs) :: u8
      in \<lparr> src_port = decode_word bo (bslice 0 2 bs),
           dst_port = decode_word bo (bslice 2 2 bs),
           seq_no = decode_word bo (bslice 4 4 bs),
           ack_no = decode_word bo (bslice 8 4 bs),
           data_offset = field_first bo dr,
           res = field_second bo dr,
           cwr = get_flag bo 0 fl,
           ece = get_flag bo 1 fl,
           urg = get_flag bo 2 fl,
           ack = get_flag bo 3 fl,
           psh = get_flag bo 4 fl,
           rst = get_flag bo 5 fl,
           syn = get_flag bo 6 fl,
           fin = get_flag bo 7 fl,
           window = decode_word bo (bslice 14 2 bs),
           checksum = decode_word bo (bslice 16 2 bs),
           urgent_ptr = decode_word bo (bslice 18 2 bs) \<rparr>)"

text \<open>The compiler's \<open>sizeof\<close> of each structure.\<close>

definition sizeof_ethernet_t :: nat where "sizeof_ethernet_t = 14"
definition sizeof_ipv4_t :: nat where "sizeof_ipv4_t = 20"
definition sizeof_tcp_t :: nat where "sizeof_tcp_t = 20"
definition sizeof_connection_t :: nat where "sizeof_connection_t = 12"

lemmas sizeof_defs = sizeof_ethernet_t_def sizeof_ipv4_t_def sizeof_tcp_t_def
  sizeof_connection_t_def

text \<open>Access through a header pointer: \<open>NULL\<close> and out of bounds are \<open>None\<close>.\<close>

definition load_ether :: "byte_order \<Rightarrow> bytes \<Rightarrow> ptr \<Rightarrow> ethernet_t option" where
  "load_ether bo pkt p =
     do { a \<leftarrow> p; map_option (decode_ether bo) (read_bytes sizeof_ethernet_t pkt a) }"

definition store_ether :: "byte_order \<Rightarrow> bytes \<Rightarrow> ptr \<Rightarrow> ethernet_t \<Rightarrow> bytes option" where
  "store_ether bo pkt p e = do { a \<leftarrow> p; write_bytes pkt a (encode_ether bo e) }"

definition load_ipv4 :: "byte_order \<Rightarrow> bytes \<Rightarrow> ptr \<Rightarrow> ipv4_t option" where
  "load_ipv4 bo pkt p =
     do { a \<leftarrow> p; map_option (decode_ipv4 bo) (read_bytes sizeof_ipv4_t pkt a) }"

definition store_ipv4 :: "byte_order \<Rightarrow> bytes \<Rightarrow> ptr \<Rightarrow> ipv4_t \<Rightarrow> bytes option" where
  "store_ipv4 bo pkt p h = do { a \<leftarrow> p; write_bytes pkt a (encode_ipv4 bo h) }"

definition load_tcp :: "byte_order \<Rightarrow> bytes \<Rightarrow> ptr \<Rightarrow> tcp_t option" where
  "load_tcp bo pkt p =
     do { a \<leftarrow> p; map_option (decode_tcp bo) (read_bytes sizeof_tcp_t pkt a) }"

definition store_tcp :: "byte_order \<Rightarrow> bytes \<Rightarrow> ptr \<Rightarrow> tcp_t \<Rightarrow> bytes option" where
  "store_tcp bo pkt p t = do { a \<leftarrow> p; write_bytes pkt a (encode_tcp bo t) }"

section \<open>Round trips of the bit-fields\<close>

lemma field_first_pack2:
  "LENGTH('a) + LENGTH('b) = LENGTH('c) \<Longrightarrow>
     field_first bo (pack2 bo (a :: 'a::len word) (b :: 'b::len word) :: 'c::len word) = a"
  by (rule bit_word_eqI, cases bo)
     (auto simp: field_first_def pack2_def bit_simps dest: bit_imp_le_length)

lemma field_second_pack2:
  assumes "LENGTH('a) + LENGTH('b) = LENGTH('c)"
  shows "field_second bo (pack2 bo (a :: 'a::len word) (b :: 'b::len word) :: 'c::len word) = b"
proof (rule bit_word_eqI)
  fix k
  assume "k < LENGTH('b)"
  moreover have "LENGTH('c) - LENGTH('b) = LENGTH('a)"
    using assms by arith
  ultimately show "bit (field_second bo (pack2 bo a b :: 'c word) :: 'b word) k = bit b k"
    using assms
    by (cases bo) (auto simp: field_second_def pack2_def bit_simps dest: bit_imp_le_length)
qed

lemma pack2_fields:
  assumes "LENGTH('a) + LENGTH('b) = LENGTH('c)"
  shows "pack2 bo (field_first bo c :: 'a::len word) (field_second bo c :: 'b::len word)
     = (c :: 'c::len word)"
proof (rule bit_word_eqI)
  fix k
  assume "k < LENGTH('c)"
  moreover have "LENGTH('c) - LENGTH('b) = LENGTH('a)" "LENGTH('c) - LENGTH('a) = LENGTH('b)"
    using assms by arith+
  ultimately show "bit (pack2 bo (field_first bo c :: 'a word) (field_second bo c :: 'b word) :: 'c word) k
     = bit c k"
    using assms
    by (cases bo) (auto simp: field_first_def field_second_def pack2_def bit_simps not_less)
qed

lemma one_bit_eq: "(x :: 1 word) = y \<longleftrightarrow> (bit x 0 \<longleftrightarrow> bit y 0)"
  by (auto intro!: bit_word_eqI)

lemma one_bit_cases: "x = 0 \<or> x = (1 :: 1 word)"
  by (simp add: one_bit_eq bit_1_iff del: bit_0)

lemma flag_pos_less: "i < 8 \<Longrightarrow> flag_pos bo i < 8"
  by (cases bo) (simp_all add: flag_pos_def)

lemma flag_pos_inj: "i < 8 \<Longrightarrow> j < 8 \<Longrightarrow> flag_pos bo i = flag_pos bo j \<longleftrightarrow> i = j"
  by (cases bo) (auto simp: flag_pos_def)

lemma bit_put_flag: "i < 8 \<Longrightarrow> bit (put_flag bo i f) k \<longleftrightarrow> k = flag_pos bo i \<and> f = 1"
  using flag_pos_less [of i bo] one_bit_cases [of f]
  by (auto simp: put_flag_def bit_simps)

lemma get_flag_bit: "i < 8 \<Longrightarrow> get_flag bo i b = 1 \<longleftrightarrow> bit b (flag_pos bo i)"
  using flag_pos_less [of i bo]
  by (simp add: get_flag_def one_bit_eq bit_simps del: bit_0)

lemma get_flag_eqI: "i < 8 \<Longrightarrow> (bit b (flag_pos bo i) \<longleftrightarrow> f = 1) \<Longrightarrow> get_flag bo i b = f"
  using get_flag_bit [of i bo b] one_bit_cases [of f] one_bit_cases [of "get_flag bo i b"] by auto

lemma bit_pack_flags:
  "bit (pack_flags bo t) k \<longleftrightarrow>
     k = flag_pos bo 0 \<and> cwr t = 1 \<or> k = flag_pos bo 1 \<and> ece t = 1 \<or>
     k = flag_pos bo 2 \<and> urg t = 1 \<or> k = flag_pos bo 3 \<and> ack t = 1 \<or>
     k = flag_pos bo 4 \<and> psh t = 1 \<or> k = flag_pos bo 5 \<and> rst t = 1 \<or>
     k = flag_pos bo 6 \<and> syn t = 1 \<or> k = flag_pos bo 7 \<and> fin t = 1"
  by (simp add: pack_flags_def bit_or_iff bit_put_flag)

lemma get_flag_pack_flags:
  "get_flag bo 0 (pack_flags bo t) = cwr t" "get_flag bo 1 (pack_flags bo t) = ece t"
  "get_flag bo 2 (pack_flags bo t) = urg t" "get_flag bo 3 (pack_flags bo t) = ack t"
  "get_flag bo 4 (pack_flags bo t) = psh t" "get_flag bo 5 (pack_flags bo t) = rst t"
  "get_flag bo 6 (pack_flags bo t) = syn t" "get_flag bo 7 (pack_flags bo t) = fin t"
  by (rule get_flag_eqI, simp, simp add: bit_pack_flags flag_pos_inj)+

lemma flag_pos_surj:
  "k < 8 \<Longrightarrow> k \<in> {flag_pos bo 0, flag_pos bo 1, flag_pos bo 2, flag_pos bo 3,
     flag_pos bo 4, flag_pos bo 5, flag_pos bo 6, flag_pos bo 7}"
  by (cases bo) (auto simp: flag_pos_def)

lemma pack_flags_get_flags:
  assumes "cwr t = get_flag bo 0 b" "ece t = get_flag bo 1 b" "urg t = get_flag bo 2 b"
    "ack t = get_flag bo 3 b" "psh t = get_flag bo 4 b" "rst t = get_flag bo 5 b"
    "syn t = get_flag bo 6 b" "fin t = get_flag bo 7 b"
  shows "pack_flags bo t = b"
proof (rule bit_word_eqI)
  fix k
  assume "k < LENGTH(8)"
  then have "k \<in> {flag_pos bo 0, flag_pos bo 1, flag_pos bo 2, flag_pos bo 3,
     flag_pos bo 4, flag_pos bo 5, flag_pos bo 6, flag_pos bo 7}"
    using flag_pos_surj by simp
  then show "bit (pack_flags bo t) k = bit b k"
    by (auto simp: bit_pack_flags assms get_flag_bit)
qed

section \<open>Round trips of the structures\<close>

lemma slice_cat: "j = i + n \<Longrightarrow> bslice i n bs @ bslice j m bs = bslice i (n + m) bs"
  by (simp add: bslice_def take_add add.commute [of i n])

lemma slice_cat_append: "j = i + n \<Longrightarrow> bslice i n bs @ bslice j m bs @ cs = bslice i (n + m) bs @ cs"
  by (simp flip: append_assoc add: slice_cat)

lemma slice_all: "length bs = n \<Longrightarrow> bslice 0 n bs = bs"
  by (simp add: bslice_def)

lemma length_slice: "i + n \<le> length bs \<Longrightarrow> length (bslice i n bs) = n"
  by (simp add: bslice_def)

lemmas slice_chain = slice_cat slice_cat_append slice_all length_slice

lemmas field_simps_2 = field_first_pack2 field_second_pack2 pack2_fields

interpretation conn_layout: layout 12 "encode_connection bo" "decode_connection bo"
  for bo
proof
  fix v show "length (encode_connection bo v) = 12" by (simp add: encode_connection_def)
  show "decode_connection bo (encode_connection bo v) = v"
    by (simp add: encode_connection_def decode_connection_def bslice_def decode_encode_word)
next
  fix bs :: bytes assume "length bs = 12"
  then show "encode_connection bo (decode_connection bo bs) = bs"
    by (simp add: encode_connection_def decode_connection_def encode_decode_word slice_chain)
qed

interpretation ether_layout: layout sizeof_ethernet_t "encode_ether bo" "decode_ether bo"
  for bo
proof
  fix v show "length (encode_ether bo v) = sizeof_ethernet_t"
    by (simp add: encode_ether_def sizeof_defs)
  show "decode_ether bo (encode_ether bo v) = v"
    by (simp add: encode_ether_def decode_ether_def bslice_def decode_encode_word)
next
  fix bs :: bytes assume "length bs = sizeof_ethernet_t"
  then show "encode_ether bo (decode_ether bo bs) = bs"
    by (simp add: encode_ether_def decode_ether_def encode_decode_word slice_chain sizeof_defs)
qed

interpretation ipv4_layout: layout sizeof_ipv4_t "encode_ipv4 bo" "decode_ipv4 bo"
  for bo
proof
  fix v show "length (encode_ipv4 bo v) = sizeof_ipv4_t"
    by (simp add: encode_ipv4_def sizeof_defs)
  show "decode_ipv4 bo (encode_ipv4 bo v) = v"
    by (simp add: encode_ipv4_def decode_ipv4_def bslice_def decode_encode_word field_simps_2)
next
  fix bs :: bytes assume "length bs = sizeof_ipv4_t"
  then show "encode_ipv4 bo (decode_ipv4 bo bs) = bs"
    by (simp add: encode_ipv4_def decode_ipv4_def encode_decode_word slice_chain sizeof_defs
        field_simps_2 Let_def)
qed

interpretation tcp_layout: layout sizeof_tcp_t "encode_tcp bo" "decode_tcp bo"
  for bo
proof
  fix v show "length (encode_tcp bo v) = sizeof_tcp_t"
    by (simp add: encode_tcp_def sizeof_defs)
  show "decode_tcp bo (encode_tcp bo v) = v"
    by (simp add: encode_tcp_def decode_tcp_def bslice_def decode_encode_word field_simps_2
        get_flag_pack_flags [simplified])
next
  fix bs :: bytes assume len: "length bs = sizeof_tcp_t"
  have "pack_flags bo (decode_tcp bo bs) = decode_word bo (bslice 13 1 bs)"
    by (rule pack_flags_get_flags) (simp_all add: decode_tcp_def Let_def)
  with len show "encode_tcp bo (decode_tcp bo bs) = bs"
    by (simp add: encode_tcp_def)
       (simp add: decode_tcp_def encode_decode_word slice_chain sizeof_defs field_simps_2 Let_def)
qed


end
