(* ===== verification/Parser.thy ===== *)
theory Parser
  imports Headers
begin

text \<open>
  The three header parsers of \<open>src/src/parser.h\<close>. A parser takes the cursor, the end of
  the packet and the address of the header pointer to fill (\<open>None\<close> when the caller passes
  \<open>NULL\<close>); it returns the C result (\<open>-1\<close> when the header does not fit), the cursor and
  the header pointer. The outer option is a memory access outside of the packet.

  The locale \<open>header_parser\<close> is the contract all parsers of the sources share (those of
  theory \<open>Parsing_Helpers\<close> too): they never fault, leave cursor and pointer alone when
  they fail, and on success give a header that lies inside the packet and move the cursor
  forward, never past its end. \<open>parser_chain\<close> composes two parsers.
\<close>

type_synonym parse_result = "(int \<times> hdr_cursor \<times> ptr option) option"

definition parse_ether ::
  "byte_order \<Rightarrow> bytes \<Rightarrow> hdr_cursor \<Rightarrow> nat \<Rightarrow> ptr option \<Rightarrow> parse_result" where
  "parse_ether bo pkt nh data_end etherhdr =
     (let p = pos nh in
      if p + sizeof_ethernet_t > data_end then Some (-1, nh, etherhdr)
      else let nh = nh\<lparr>pos := p + sizeof_ethernet_t\<rparr>;
               etherhdr = map_option (\<lambda>_. Some p) etherhdr
           in do { e \<leftarrow> load_ether bo pkt (Some p);
                   Some (uint (ether_type e), nh, etherhdr) })"

definition parse_ipv4 ::
  "byte_order \<Rightarrow> bytes \<Rightarrow> hdr_cursor \<Rightarrow> nat \<Rightarrow> ptr option \<Rightarrow> parse_result" where
  "parse_ipv4 bo pkt nh data_end iphdr =
     (let p = pos nh in
      if p + sizeof_ipv4_t > data_end then Some (-1, nh, iphdr)
      else let nh = nh\<lparr>pos := p + sizeof_ipv4_t\<rparr>;
               iphdr = map_option (\<lambda>_. Some p) iphdr
           in do { h \<leftarrow> load_ipv4 bo pkt (Some p);
                   Some (uint (protocol h), nh, iphdr) })"

definition parse_tcphdr ::
  "byte_order \<Rightarrow> bytes \<Rightarrow> hdr_cursor \<Rightarrow> nat \<Rightarrow> ptr option \<Rightarrow> parse_result" where
  "parse_tcphdr bo pkt nh data_end tcphdr =
     (let p = pos nh in
      if p + sizeof_tcp_t > data_end then Some (-1, nh, tcphdr)
      else let nh = nh\<lparr>pos := p + sizeof_tcp_t\<rparr>;
               tcphdr = map_option (\<lambda>_. Some p) tcphdr
           in Some (0, nh, tcphdr))"

section \<open>The contract of a parser\<close>

locale header_parser =
  fixes size :: nat
    and parse :: "bytes \<Rightarrow> hdr_cursor \<Rightarrow> nat \<Rightarrow> ptr option \<Rightarrow> parse_result"
  assumes no_fault: "dend \<le> length pkt \<Longrightarrow> \<exists>r nh' q. parse pkt nh dend (Some p) = Some (r, nh', Some q)"
    and failure: "parse pkt nh dend (Some p) = Some (-1, nh', q) \<Longrightarrow> nh' = nh \<and> q = Some p"
    and too_short: "dend < pos nh + size \<Longrightarrow> parse pkt nh dend (Some p) = Some (-1, nh, Some p)"
    and success: "parse pkt nh dend (Some p) = Some (r, nh', q) \<Longrightarrow> r \<noteq> -1 \<Longrightarrow>
      q = Some (Some (pos nh)) \<and> pos nh + size \<le> dend \<and> pos nh \<le> pos nh' \<and> pos nh' \<le> dend"
begin

lemma header_readable:
  assumes "parse pkt nh dend (Some p) = Some (r, nh', q)" "r \<noteq> -1" "dend \<le> length pkt"
  shows "\<exists>bs. read_bytes size pkt (pos nh) = Some bs"
proof -
  have "pos nh + size \<le> length pkt" using success [OF assms(1,2)] assms(3) by simp
  then show ?thesis by (simp add: read_bytes_defined)
qed

lemma cursor_stays_inside:
  assumes "parse pkt nh dend (Some p) = Some (r, nh', q)" "pos nh \<le> dend"
  shows "pos nh' \<le> dend"
  using success [OF assms(1)] failure [of pkt nh dend p nh' q] assms by (cases "r = -1") auto

end

locale parser_chain =
  first: header_parser size1 parse1 + second: header_parser size2 parse2
  for size1 parse1 size2 parse2
begin

lemma chain_in_bounds:
  assumes "parse1 pkt nh dend (Some p) = Some (r1, nh1, q1)" "r1 \<noteq> -1"
    and "parse2 pkt nh1 dend (Some p') = Some (r2, nh2, q2)" "r2 \<noteq> -1"
  shows "q1 = Some (Some (pos nh)) \<and> q2 = Some (Some (pos nh1)) \<and>
     pos nh + size1 \<le> dend \<and> pos nh1 + size2 \<le> dend \<and> pos nh \<le> pos nh1 \<and> pos nh2 \<le> dend"
  using first.success [OF assms(1,2)] second.success [OF assms(3,4)] by simp

lemma chain_no_fault:
  assumes "dend \<le> length pkt"
  shows "\<exists>r1 nh1 q1 r2 nh2 q2. parse1 pkt nh dend (Some p) = Some (r1, nh1, q1) \<and>
     parse2 pkt nh1 dend (Some p') = Some (r2, nh2, q2)"
  using first.no_fault [OF assms, of nh p] second.no_fault [OF assms, of _ p'] by blast

end

section \<open>Equations of the parsers\<close>

lemma load_ether_Some: "a + 14 \<le> length pkt \<Longrightarrow>
  load_ether bo pkt (Some a) = Some (decode_ether bo (bslice a 14 pkt))"
  by (simp add: load_ether_def read_bytes_def sizeof_defs bslice_def)

lemma load_ipv4_Some: "a + 20 \<le> length pkt \<Longrightarrow>
  load_ipv4 bo pkt (Some a) = Some (decode_ipv4 bo (bslice a 20 pkt))"
  by (simp add: load_ipv4_def read_bytes_def sizeof_defs bslice_def)

lemma load_tcp_Some: "a + 20 \<le> length pkt \<Longrightarrow>
  load_tcp bo pkt (Some a) = Some (decode_tcp bo (bslice a 20 pkt))"
  by (simp add: load_tcp_def read_bytes_def sizeof_defs bslice_def)

lemmas load_Some = load_ether_Some load_ipv4_Some load_tcp_Some

lemma parse_ether_eq:
  "dend \<le> length pkt \<Longrightarrow> parse_ether bo pkt nh dend h =
     (if pos nh + 14 > dend then Some (-1, nh, h)
      else Some (uint (ether_type (decode_ether bo (bslice (pos nh) 14 pkt))),
                 nh\<lparr>pos := pos nh + 14\<rparr>, map_option (\<lambda>_. Some (pos nh)) h))"
  by (simp add: parse_ether_def Let_def sizeof_defs load_Some)

lemma parse_ipv4_eq:
  "dend \<le> length pkt \<Longrightarrow> parse_ipv4 bo pkt nh dend h =
     (if pos nh + 20 > dend then Some (-1, nh, h)
      else Some (uint (protocol (decode_ipv4 bo (bslice (pos nh) 20 pkt))),
                 nh\<lparr>pos := pos nh + 20\<rparr>, map_option (\<lambda>_. Some (pos nh)) h))"
  by (simp add: parse_ipv4_def Let_def sizeof_defs load_Some)

lemma parse_tcphdr_eq:
  "parse_tcphdr bo pkt nh dend h =
     (if pos nh + 20 > dend then Some (-1, nh, h)
      else Some (0, nh\<lparr>pos := pos nh + 20\<rparr>, map_option (\<lambda>_. Some (pos nh)) h))"
  by (simp add: parse_tcphdr_def Let_def sizeof_defs)

lemma uint_not_minus_one [simp]: "uint (w :: 'a::len word) \<noteq> -1" "-1 \<noteq> uint (w :: 'a::len word)"
  using uint_ge_0 [of w] by linarith+

interpretation ether_parser: header_parser 14 "parse_ether bo"
  for bo
proof
  fix pkt :: bytes and nh :: hdr_cursor and p and dend :: nat
  show "dend \<le> length pkt \<Longrightarrow> \<exists>r nh' q. parse_ether bo pkt nh dend (Some p) = Some (r, nh', Some q)"
    by (simp add: parse_ether_eq)
  show "dend < pos nh + 14 \<Longrightarrow> parse_ether bo pkt nh dend (Some p) = Some (-1, nh, Some p)"
    by (simp add: parse_ether_def sizeof_defs)
qed (auto simp: parse_ether_def Let_def sizeof_defs split: if_splits bind_splits)

interpretation ipv4_parser: header_parser 20 "parse_ipv4 bo"
  for bo
proof
  fix pkt :: bytes and nh :: hdr_cursor and p and dend :: nat
  show "dend \<le> length pkt \<Longrightarrow> \<exists>r nh' q. parse_ipv4 bo pkt nh dend (Some p) = Some (r, nh', Some q)"
    by (simp add: parse_ipv4_eq)
  show "dend < pos nh + 20 \<Longrightarrow> parse_ipv4 bo pkt nh dend (Some p) = Some (-1, nh, Some p)"
    by (simp add: parse_ipv4_def sizeof_defs)
qed (auto simp: parse_ipv4_def Let_def sizeof_defs split: if_splits bind_splits)

interpretation tcp_parser: header_parser 20 "parse_tcphdr bo"
  for bo
  by unfold_locales (auto simp: parse_tcphdr_eq split: if_splits)

interpretation ether_ipv4: parser_chain 14 "parse_ether bo" 20 "parse_ipv4 bo"
  for bo
  by unfold_locales

interpretation ipv4_tcp: parser_chain 20 "parse_ipv4 bo" 20 "parse_tcphdr bo"
  for bo
  by unfold_locales

text \<open>
  C9. The bounds checks of the parsers protect every access: when the three parsers succeed one
  after another, their headers are adjacent, all three lie inside the packet and can be read,
  and the cursor ends within it.
\<close>

theorem parsed_headers_in_bounds:
  assumes "dend \<le> length pkt"
    and "parse_ether bo pkt nh dend (Some p1) = Some (r1, nh1, q1)" "r1 \<noteq> -1"
    and "parse_ipv4 bo pkt nh1 dend (Some p2) = Some (r2, nh2, q2)" "r2 \<noteq> -1"
    and "parse_tcphdr bo pkt nh2 dend (Some p3) = Some (r3, nh3, q3)" "r3 \<noteq> -1"
  shows "q1 = Some (Some (pos nh)) \<and> q2 = Some (Some (pos nh + 14)) \<and>
     q3 = Some (Some (pos nh + 34)) \<and> pos nh3 = pos nh + 54 \<and> pos nh3 \<le> dend \<and>
     (\<exists>e. load_ether bo pkt (Some (pos nh)) = Some e) \<and>
     (\<exists>h. load_ipv4 bo pkt (Some (pos nh + 14)) = Some h) \<and>
     (\<exists>t. load_tcp bo pkt (Some (pos nh + 34)) = Some t)"
proof -
  have n1: "pos nh1 = pos nh + 14" and n2: "pos nh2 = pos nh1 + 20" and n3: "pos nh3 = pos nh2 + 20"
    using assms by (auto simp: parse_ether_eq parse_ipv4_eq parse_tcphdr_eq split: if_splits)
  have "q1 = Some (Some (pos nh)) \<and> q2 = Some (Some (pos nh1))"
    using ether_ipv4.chain_in_bounds [OF assms(2-5)] by simp
  moreover have "q3 = Some (Some (pos nh2)) \<and> pos nh2 + 20 \<le> dend"
    using ipv4_tcp.chain_in_bounds [OF assms(4-7)] by simp
  ultimately show ?thesis
    using assms(1) n1 n2 n3 by (simp add: load_Some)
qed

theorem parsed_headers_in_bounds_witness:
  "pos \<lparr>pos = 54\<rparr> \<le> length (replicate 60 (0 :: u8)) \<and>
   parse_tcphdr LittleEndian (replicate 60 0) \<lparr>pos = 34\<rparr> 60 (Some None)
     = Some (0, \<lparr>pos = 54\<rparr>, Some (Some 34))"
proof -
  have e: "parse_ether LittleEndian (replicate 60 0) \<lparr>pos = 0\<rparr> 60 (Some None)
      = Some (uint (ether_type (decode_ether LittleEndian (bslice 0 14 (replicate 60 0)))),
          \<lparr>pos = 14\<rparr>, Some (Some 0))"
    by (simp add: parse_ether_eq)
  have i: "parse_ipv4 LittleEndian (replicate 60 0) \<lparr>pos = 14\<rparr> 60 (Some None)
      = Some (uint (protocol (decode_ipv4 LittleEndian (bslice 14 20 (replicate 60 0)))),
          \<lparr>pos = 34\<rparr>, Some (Some 14))"
    by (simp add: parse_ipv4_eq)
  have t: "parse_tcphdr LittleEndian (replicate 60 0) \<lparr>pos = 34\<rparr> 60 (Some None)
      = Some (0, \<lparr>pos = 54\<rparr>, Some (Some 34))"
    by (simp add: parse_tcphdr_eq)
  show ?thesis
    using parsed_headers_in_bounds [OF _ e _ i _ t] t by simp
qed

end
