(* ===== verification/Uapi.thy ===== *)
theory Uapi
  imports Prelude
begin

text \<open>
  The part of the kernel's user API that the sources carry in
  \<open>src/headers/linux/bpf.h\<close>, \<open>src/headers/linux/if_link.h\<close> and
  \<open>src/headers/bpf_helpers.h\<close> and that the other components use: XDP verdicts, the kinds
  of BPF maps, the map definition a program carries in its \<open>maps\<close> section, the XDP flags
  and the netlink attribute numbers of an XDP link.
\<close>

section \<open>XDP verdicts\<close>

datatype xdp_action = XDP_ABORTED | XDP_DROP | XDP_PASS | XDP_TX | XDP_REDIRECT

fun action_code :: "xdp_action \<Rightarrow> u32" where
  "action_code XDP_ABORTED = 0"
| "action_code XDP_DROP = 1"
| "action_code XDP_PASS = 2"
| "action_code XDP_TX = 3"
| "action_code XDP_REDIRECT = 4"

record xdp_md =
  data :: u32
  data_end :: u32
  data_meta :: u32
  ingress_ifindex :: u32
  rx_queue_index :: u32

section \<open>Maps\<close>

datatype bpf_map_type =
    BPF_MAP_TYPE_UNSPEC
  | BPF_MAP_TYPE_HASH
  | BPF_MAP_TYPE_ARRAY
  | BPF_MAP_TYPE_PROG_ARRAY
  | BPF_MAP_TYPE_PERF_EVENT_ARRAY
  | BPF_MAP_TYPE_PERCPU_HASH
  | BPF_MAP_TYPE_PERCPU_ARRAY
  | BPF_MAP_TYPE_STACK_TRACE
  | BPF_MAP_TYPE_CGROUP_ARRAY
  | BPF_MAP_TYPE_LRU_HASH
  | BPF_MAP_TYPE_LRU_PERCPU_HASH
  | BPF_MAP_TYPE_LPM_TRIE
  | BPF_MAP_TYPE_ARRAY_OF_MAPS
  | BPF_MAP_TYPE_HASH_OF_MAPS
  | BPF_MAP_TYPE_DEVMAP
  | BPF_MAP_TYPE_SOCKMAP
  | BPF_MAP_TYPE_CPUMAP
  | BPF_MAP_TYPE_XSKMAP
  | BPF_MAP_TYPE_SOCKHASH
  | BPF_MAP_TYPE_CGROUP_STORAGE
  | BPF_MAP_TYPE_REUSEPORT_SOCKARRAY
  | BPF_MAP_TYPE_PERCPU_CGROUP_STORAGE
  | BPF_MAP_TYPE_QUEUE
  | BPF_MAP_TYPE_STACK

definition bpf_map_types :: "bpf_map_type list" where
  "bpf_map_types =
     [BPF_MAP_TYPE_UNSPEC, BPF_MAP_TYPE_HASH, BPF_MAP_TYPE_ARRAY, BPF_MAP_TYPE_PROG_ARRAY,
      BPF_MAP_TYPE_PERF_EVENT_ARRAY, BPF_MAP_TYPE_PERCPU_HASH, BPF_MAP_TYPE_PERCPU_ARRAY,
      BPF_MAP_TYPE_STACK_TRACE, BPF_MAP_TYPE_CGROUP_ARRAY, BPF_MAP_TYPE_LRU_HASH,
      BPF_MAP_TYPE_LRU_PERCPU_HASH, BPF_MAP_TYPE_LPM_TRIE, BPF_MAP_TYPE_ARRAY_OF_MAPS,
      BPF_MAP_TYPE_HASH_OF_MAPS, BPF_MAP_TYPE_DEVMAP, BPF_MAP_TYPE_SOCKMAP,
      BPF_MAP_TYPE_CPUMAP, BPF_MAP_TYPE_XSKMAP, BPF_MAP_TYPE_SOCKHASH,
      BPF_MAP_TYPE_CGROUP_STORAGE, BPF_MAP_TYPE_REUSEPORT_SOCKARRAY,
      BPF_MAP_TYPE_PERCPU_CGROUP_STORAGE, BPF_MAP_TYPE_QUEUE, BPF_MAP_TYPE_STACK]"

fun index_of :: "'a \<Rightarrow> 'a list \<Rightarrow> nat" where
  "index_of x [] = 0"
| "index_of x (y # ys) = (if x = y then 0 else Suc (index_of x ys))"

definition map_type_code :: "bpf_map_type \<Rightarrow> u32" where
  "map_type_code t = of_nat (index_of t bpf_map_types)"

record bpf_map_def =
  def_type :: u32
  def_key_size :: u32
  def_value_size :: u32
  def_max_entries :: u32
  def_map_flags :: u32
  def_inner_map_idx :: u32
  def_numa_node :: u32

section \<open>XDP flags and link attributes\<close>

definition XDP_FLAGS_UPDATE_IF_NOEXIST :: u32 where "XDP_FLAGS_UPDATE_IF_NOEXIST = 1"
definition XDP_FLAGS_SKB_MODE :: u32 where "XDP_FLAGS_SKB_MODE = 2"
definition XDP_FLAGS_DRV_MODE :: u32 where "XDP_FLAGS_DRV_MODE = 4"
definition XDP_FLAGS_HW_MODE :: u32 where "XDP_FLAGS_HW_MODE = 8"

definition XDP_FLAGS_MODES :: u32 where
  "XDP_FLAGS_MODES = XDP_FLAGS_SKB_MODE OR XDP_FLAGS_DRV_MODE OR XDP_FLAGS_HW_MODE"

definition XDP_FLAGS_MASK :: u32 where
  "XDP_FLAGS_MASK = XDP_FLAGS_UPDATE_IF_NOEXIST OR XDP_FLAGS_MODES"

lemmas xdp_flag_defs = XDP_FLAGS_UPDATE_IF_NOEXIST_def XDP_FLAGS_SKB_MODE_def
  XDP_FLAGS_DRV_MODE_def XDP_FLAGS_HW_MODE_def XDP_FLAGS_MODES_def XDP_FLAGS_MASK_def

section \<open>Facts\<close>

lemma action_code_inject [simp]: "action_code a = action_code b \<longleftrightarrow> a = b"
  by (cases a; cases b) simp_all

lemma action_code_bound: "action_code a < 5"
  by (cases a) simp_all

lemma index_of_less: "x \<in> set xs \<Longrightarrow> index_of x xs < length xs"
  by (induction xs) auto

lemma index_of_nth: "x \<in> set xs \<Longrightarrow> xs ! index_of x xs = x"
  by (induction xs) auto

lemma map_type_code_values:
  "map_type_code BPF_MAP_TYPE_ARRAY = 2"
  "map_type_code BPF_MAP_TYPE_PERCPU_ARRAY = 6"
  "map_type_code BPF_MAP_TYPE_LPM_TRIE = 11"
  by (simp_all add: map_type_code_def bpf_map_types_def)

end
