(* ===== verification/Controller.thy ===== *)
theory Controller
  imports Parser Uapi
begin

text \<open>
  The packet handlers of \<open>src/src/controller.c\<close>: the connection key, the SYN cookie, the
  SYN-ACK and ACK replies, and the decision \<open>controller\<close>.

  The BPF map \<open>connections_table\<close> belongs to the kernel. It is a parameter: a state of any
  type \<open>'m\<close> and the helpers \<open>bpf_map_lookup_elem\<close> and \<open>bpf_map_update_elem\<close> on it.

  \<open>handle_ack\<close> passes \<open>&connection\<close> as the key, where \<open>connection\<close> is already a pointer,
  so the kernel reads \<open>sizeof(struct connection_t)\<close> bytes at the address of the local
  pointer variable. Which bytes these are is not determined by the packet: the model takes
  the key they spell as the parameter \<open>stack_key\<close>.

  The expression \<open>hdr->tcp->src_port << 16\<close> shifts a promoted \<open>int\<close>; its result is
  converted to \<open>__u32\<close>, so only the low 32 bits count and the model shifts a 32-bit word.
\<close>

record 'm bpf_map_ops =
  map_lookup :: "'m \<Rightarrow> connection_t \<Rightarrow> u8 option"
  map_update :: "'m \<Rightarrow> connection_t \<Rightarrow> u8 \<Rightarrow> 'm"

text \<open>The value \<open>char insert = 'a'\<close> of every entry.\<close>

definition insert_value :: u8 where
  "insert_value = 97"

definition compute_connection :: "byte_order \<Rightarrow> bytes \<Rightarrow> headers_t \<Rightarrow> connection_t option" where
  "compute_connection bo pkt hdr =
     do { ip \<leftarrow> load_ipv4 bo pkt (ipv4 hdr);
          t \<leftarrow> load_tcp bo pkt (tcp hdr);
          Some \<lparr> conn_src_addr = ip_src_addr ip,
                 conn_dst_addr = ip_dst_addr ip,
                 conn_src_port = src_port t,
                 conn_dst_port = dst_port t \<rparr> }"

text \<open>The three \<open>__builtin_memcpy\<close> calls under ``swap src / dst addr''.\<close>

definition reply_mac :: "ethernet_t \<Rightarrow> ethernet_t" where
  "reply_mac e =
     (let tmp_addr = eth_src_addr e;
          e = e\<lparr>eth_dst_addr := eth_src_addr e\<rparr>;
          tmp_addr = eth_dst_addr e
      in e)"

definition reply_ip :: "ipv4_t \<Rightarrow> ipv4_t" where
  "reply_ip h =
     (let ipaddr = ip_src_addr h;
          h = h\<lparr>ip_src_addr := ip_dst_addr h\<rparr>
      in h\<lparr>ip_dst_addr := ipaddr\<rparr>)"

definition handle_syn ::
  "byte_order \<Rightarrow> bytes \<Rightarrow> headers_t \<Rightarrow> u32 \<Rightarrow> (xdp_action \<times> bytes) option" where
  "handle_syn bo pkt hdr cookie =
     do { e \<leftarrow> load_ether bo pkt (ether hdr);
          pkt \<leftarrow> store_ether bo pkt (ether hdr) (reply_mac e);
          h \<leftarrow> load_ipv4 bo pkt (ipv4 hdr);
          pkt \<leftarrow> store_ipv4 bo pkt (ipv4 hdr) (reply_ip h);
          t \<leftarrow> load_tcp bo pkt (tcp hdr);
          let t = t\<lparr>ack_no := seq_no t + 1\<rparr>;
          let t = t\<lparr>seq_no := cookie\<rparr>;
          let t = t\<lparr>ack := 1\<rparr>;
          let tcpport = (ucast (src_port t) :: u32);
          let t = t\<lparr>src_port := dst_port t\<rparr>;
          let t = t\<lparr>dst_port := ucast tcpport\<rparr>;
          pkt \<leftarrow> store_tcp bo pkt (tcp hdr) t;
          Some (XDP_TX, pkt) }"

definition handle_ack ::
  "byte_order \<Rightarrow> 'm bpf_map_ops \<Rightarrow> connection_t \<Rightarrow> bytes \<Rightarrow> 'm \<Rightarrow> headers_t
     \<Rightarrow> (xdp_action \<times> bytes \<times> 'm) option" where
  "handle_ack bo ops stack_key pkt m hdr =
     (let m = map_update ops m stack_key insert_value in
      do { e \<leftarrow> load_ether bo pkt (ether hdr);
           pkt \<leftarrow> store_ether bo pkt (ether hdr) (reply_mac e);
           h \<leftarrow> load_ipv4 bo pkt (ipv4 hdr);
           pkt \<leftarrow> store_ipv4 bo pkt (ipv4 hdr) (reply_ip h);
           t \<leftarrow> load_tcp bo pkt (tcp hdr);
           let seqno = seq_no t;
           let t = t\<lparr>seq_no := ack_no t\<rparr>;
           let t = t\<lparr>ack_no := seqno + 1\<rparr>;
           let t = t\<lparr>ack := 1\<rparr>;
           let t = t\<lparr>syn := 0\<rparr>;
           let tcpport = src_port t;
           let t = t\<lparr>src_port := dst_port t\<rparr>;
           let t = t\<lparr>dst_port := tcpport\<rparr>;
           pkt \<leftarrow> store_tcp bo pkt (tcp hdr) t;
           Some (XDP_TX, pkt, m) })"

definition compute_cookie :: "byte_order \<Rightarrow> bytes \<Rightarrow> headers_t \<Rightarrow> u32 option" where
  "compute_cookie bo pkt hdr =
     do { t \<leftarrow> load_tcp bo pkt (tcp hdr);
          ip \<leftarrow> load_ipv4 bo pkt (ipv4 hdr);
          let auth = push_bit 16 (ucast (src_port t));
          let auth = auth OR ucast (dst_port t);
          let auth = auth XOR ip_src_addr ip;
          let auth = auth XOR ip_dst_addr ip;
          Some auth }"

definition controller ::
  "byte_order \<Rightarrow> 'm bpf_map_ops \<Rightarrow> connection_t \<Rightarrow> bytes \<Rightarrow> 'm \<Rightarrow> headers_t
     \<Rightarrow> (xdp_action \<times> bytes \<times> 'm) option" where
  "controller bo ops stack_key pkt m hdr =
     do { connection \<leftarrow> compute_connection bo pkt hdr;
          if map_lookup ops m connection \<noteq> None then Some (XDP_PASS, pkt, m)
          else do {
            cookie \<leftarrow> compute_cookie bo pkt hdr;
            t \<leftarrow> load_tcp bo pkt (tcp hdr);
            if (syn t = 1 \<and> ack t = 1) \<or> res t = 1 \<or> cwr t = 1 \<or> ece t = 1 \<or> urg t = 1 \<or>
               psh t = 1 \<or> rst t = 1 \<or> fin t = 1
            then Some (XDP_DROP, pkt, m)
            else if syn t = 1
            then do { (a, pkt) \<leftarrow> handle_syn bo pkt hdr cookie; Some (a, pkt, m) }
            else if ack t = 1 \<and> ack_no t - 1 = cookie
            then handle_ack bo ops stack_key pkt m hdr
            else Some (XDP_DROP, pkt, m) } }"

section \<open>The handlers on header values\<close>

text \<open>
  What the handlers compute when the three headers lie one after another in the packet, as
  the parsers leave them: Ethernet at 0, IPv4 at 14, TCP at 34. A frame is then its three
  headers and the rest of its bytes.
\<close>

definition tcp_headers :: headers_t where
  "tcp_headers = \<lparr>ether = Some 0, ipv4 = Some 14, tcp = Some 34\<rparr>"

definition frame :: "byte_order \<Rightarrow> ethernet_t \<Rightarrow> ipv4_t \<Rightarrow> tcp_t \<Rightarrow> bytes \<Rightarrow> bytes" where
  "frame bo e h t payload = encode_ether bo e @ encode_ipv4 bo h @ encode_tcp bo t @ payload"

definition connection_of :: "ipv4_t \<Rightarrow> tcp_t \<Rightarrow> connection_t" where
  "connection_of h t =
     \<lparr> conn_src_addr = ip_src_addr h, conn_dst_addr = ip_dst_addr h,
       conn_src_port = src_port t, conn_dst_port = dst_port t \<rparr>"

definition cookie_of :: "connection_t \<Rightarrow> u32" where
  "cookie_of c =
     ((push_bit 16 (ucast (conn_src_port c)) OR ucast (conn_dst_port c))
       XOR conn_src_addr c) XOR conn_dst_addr c"

definition syn_reply :: "u32 \<Rightarrow> tcp_t \<Rightarrow> tcp_t" where
  "syn_reply cookie t =
     t\<lparr>ack_no := seq_no t + 1, seq_no := cookie, ack := 1,
       src_port := dst_port t, dst_port := src_port t\<rparr>"

definition ack_reply :: "tcp_t \<Rightarrow> tcp_t" where
  "ack_reply t =
     t\<lparr>seq_no := ack_no t, ack_no := seq_no t + 1, ack := 1, syn := 0,
       src_port := dst_port t, dst_port := src_port t\<rparr>"

definition refused_flags :: "tcp_t \<Rightarrow> bool" where
  "refused_flags t \<longleftrightarrow>
     (syn t = 1 \<and> ack t = 1) \<or> res t = 1 \<or> cwr t = 1 \<or> ece t = 1 \<or> urg t = 1 \<or>
     psh t = 1 \<or> rst t = 1 \<or> fin t = 1"

lemma length_encode_headers [simp, layout_simps]:
  "length (encode_ether bo e) = 14" "length (encode_ipv4 bo h) = 20" "length (encode_tcp bo t) = 20"
  using ether_layout.enc_width [of bo e] ipv4_layout.enc_width [of bo h] tcp_layout.enc_width [of bo t]
  by (simp_all add: sizeof_defs)

lemma length_frame [simp]: "length (frame bo e h t pl) = 54 + length pl"
  by (simp add: frame_def)

lemma load_frame:
  "load_ether bo (frame bo e h t pl) (ether tcp_headers) = Some e"
  "load_ipv4 bo (frame bo e h t pl) (ipv4 tcp_headers) = Some h"
  "load_tcp bo (frame bo e h t pl) (tcp tcp_headers) = Some t"
  by (simp_all add: tcp_headers_def load_ether_def load_ipv4_def load_tcp_def read_bytes_def
      sizeof_defs frame_def ether_layout.dec_enc ipv4_layout.dec_enc tcp_layout.dec_enc)

lemma store_frame:
  "store_ether bo (frame bo e h t pl) (ether tcp_headers) e' = Some (frame bo e' h t pl)"
  "store_ipv4 bo (frame bo e h t pl) (ipv4 tcp_headers) h' = Some (frame bo e h' t pl)"
  "store_tcp bo (frame bo e h t pl) (tcp tcp_headers) t' = Some (frame bo e h t' pl)"
  by (simp_all add: tcp_headers_def store_ether_def store_ipv4_def store_tcp_def write_bytes_def
      frame_def)

lemmas frame_access = load_frame store_frame

lemma every_packet_is_frame:
  assumes "54 \<le> length pkt"
  shows "pkt = frame bo (decode_ether bo (bslice 0 14 pkt)) (decode_ipv4 bo (bslice 14 20 pkt))
     (decode_tcp bo (bslice 34 20 pkt)) (drop 54 pkt)"
proof -
  have "encode_ether bo (decode_ether bo (bslice 0 14 pkt)) = bslice 0 14 pkt"
    "encode_ipv4 bo (decode_ipv4 bo (bslice 14 20 pkt)) = bslice 14 20 pkt"
    "encode_tcp bo (decode_tcp bo (bslice 34 20 pkt)) = bslice 34 20 pkt"
    using assms
    by (simp_all add: ether_layout.enc_dec ipv4_layout.enc_dec tcp_layout.enc_dec sizeof_defs length_slice)
  moreover have "bslice 0 14 pkt @ bslice 14 20 pkt @ bslice 34 20 pkt @ drop 54 pkt = pkt"
    by (simp add: slice_cat_append) (simp add: bslice_def)
  ultimately show ?thesis by (simp add: frame_def)
qed

lemma reply_mac_eq: "reply_mac e = e\<lparr>eth_dst_addr := eth_src_addr e\<rparr>"
  by (simp add: reply_mac_def)

lemma reply_ip_eq: "reply_ip h = h\<lparr>ip_src_addr := ip_dst_addr h, ip_dst_addr := ip_src_addr h\<rparr>"
  by (simp add: reply_ip_def)

lemma ucast_u16_u32_u16 [simp]: "ucast (ucast (x :: u16) :: u32) = x"
  by (rule bit_word_eqI) (simp add: bit_simps)

lemma handle_syn_frame:
  "handle_syn bo (frame bo e h t pl) tcp_headers cookie =
     Some (XDP_TX, frame bo (reply_mac e) (reply_ip h) (syn_reply cookie t) pl)"
  by (simp add: handle_syn_def frame_access Let_def syn_reply_def)

lemma handle_ack_frame:
  "handle_ack bo ops k (frame bo e h t pl) m tcp_headers =
     Some (XDP_TX, frame bo (reply_mac e) (reply_ip h) (ack_reply t) pl,
           map_update ops m k insert_value)"
  by (simp add: handle_ack_def frame_access Let_def ack_reply_def)

lemma compute_connection_frame:
  "compute_connection bo (frame bo e h t pl) tcp_headers = Some (connection_of h t)"
  by (simp add: compute_connection_def frame_access connection_of_def)

lemma compute_cookie_frame:
  "compute_cookie bo (frame bo e h t pl) tcp_headers = Some (cookie_of (connection_of h t))"
  by (simp add: compute_cookie_def frame_access Let_def cookie_of_def connection_of_def)

lemma controller_frame:
  "controller bo ops k (frame bo e h t pl) m tcp_headers =
     (if map_lookup ops m (connection_of h t) \<noteq> None then Some (XDP_PASS, frame bo e h t pl, m)
      else if refused_flags t then Some (XDP_DROP, frame bo e h t pl, m)
      else if syn t = 1 then
        Some (XDP_TX, frame bo (reply_mac e) (reply_ip h)
                (syn_reply (cookie_of (connection_of h t)) t) pl, m)
      else if ack t = 1 \<and> ack_no t - 1 = cookie_of (connection_of h t) then
        Some (XDP_TX, frame bo (reply_mac e) (reply_ip h) (ack_reply t) pl,
                map_update ops m k insert_value)
      else Some (XDP_DROP, frame bo e h t pl, m))"
  unfolding refused_flags_def
  by (simp add: controller_def compute_connection_frame compute_cookie_frame frame_access
      handle_syn_frame handle_ack_frame del: not_None_eq)

end
