(* ===== verification/Syncookie.thy ===== *)
theory Syncookie
  imports Controller
begin

text \<open>
  The XDP program of \<open>src/src/syncookie.c\<close>: the definition of the map it keeps its
  validated connections in and the entry point \<open>syncookie_fn\<close>, which parses a frame and
  calls the controller. The packet is the byte list between \<open>ctx->data\<close> and
  \<open>ctx->data_end\<close>; the result is the verdict, the packet and the map, or \<open>None\<close> when the
  program accesses memory through \<open>NULL\<close>.

  The theorems describe the program on every packet: exactly when it faults, what it decides
  (\<open>syncookie_fn_frame\<close>), that on a big-endian target these decisions are the ones the wire
  format calls for (\<open>syncookie_spec\<close>), and what becomes of a handshake. On a little-endian
  target the EtherType is compared in the wrong byte order.
\<close>

definition connections_table :: bpf_map_def where
  "connections_table =
     \<lparr> def_type = map_type_code BPF_MAP_TYPE_LPM_TRIE,
       def_key_size = of_nat sizeof_connection_t,
       def_value_size = 1,
       def_max_entries = 1000,
       def_map_flags = 0,
       def_inner_map_idx = 0,
       def_numa_node = 0 \<rparr>"

definition ETH_P_IP :: int where "ETH_P_IP = 0x0800"
definition IPPROTO_TCP :: int where "IPPROTO_TCP = 6"

text \<open>A parser called with \<open>&hdr.field\<close> leaves the new pointer in that field.\<close>

definition out_field :: "ptr option \<Rightarrow> ptr" where
  "out_field q = Option.bind q id"

definition syncookie_fn ::
  "byte_order \<Rightarrow> 'm bpf_map_ops \<Rightarrow> connection_t \<Rightarrow> bytes \<Rightarrow> 'm
     \<Rightarrow> (xdp_action \<times> bytes \<times> 'm) option" where
  "syncookie_fn bo ops stack_key pkt m =
     (let dend = length pkt;
          hdr = \<lparr>ether = None, ipv4 = None, tcp = None\<rparr>;
          nh = \<lparr>pos = 0\<rparr>
      in do {
        (nh_type, nh, q) \<leftarrow> parse_ether bo pkt nh dend (Some (ether hdr));
        let hdr = hdr\<lparr>ether := out_field q\<rparr>;
        if nh_type = ETH_P_IP then do {
          (nh_type, nh, q) \<leftarrow> parse_ipv4 bo pkt nh dend (Some (ipv4 hdr));
          let hdr = hdr\<lparr>ipv4 := out_field q\<rparr>;
          if nh_type = IPPROTO_TCP then do {
            (r, nh, q) \<leftarrow> parse_tcphdr bo pkt nh dend (Some (tcp hdr));
            let hdr = hdr\<lparr>tcp := out_field q\<rparr>;
            controller bo ops stack_key pkt m hdr
          } else Some (XDP_PASS, pkt, m)
        } else Some (XDP_PASS, pkt, m)
      })"

section \<open>The program on every packet\<close>

definition is_ip_frame :: "byte_order \<Rightarrow> bytes \<Rightarrow> bool" where
  "is_ip_frame bo pkt \<longleftrightarrow>
     14 \<le> length pkt \<and> ether_type (decode_ether bo (bslice 0 14 pkt)) = 0x0800"

definition is_tcp_frame :: "byte_order \<Rightarrow> bytes \<Rightarrow> bool" where
  "is_tcp_frame bo pkt \<longleftrightarrow>
     is_ip_frame bo pkt \<and> 34 \<le> length pkt \<and> protocol (decode_ipv4 bo (bslice 14 20 pkt)) = 6"

lemma uint_eq_numeral_u16: "uint (w :: u16) = 0x0800 \<longleftrightarrow> w = 0x0800"
  using word_uint_eq_iff [of w "0x0800"] by simp

lemma uint_eq_numeral_u8: "uint (w :: u8) = 6 \<longleftrightarrow> w = 6"
  using word_uint_eq_iff [of w 6] by simp

lemma syncookie_fn_cases:
  "syncookie_fn bo ops k pkt m =
     (if is_tcp_frame bo pkt
      then if 54 \<le> length pkt then controller bo ops k pkt m tcp_headers
           else None
      else Some (XDP_PASS, pkt, m))"
  by (simp add: syncookie_fn_def Let_def parse_ether_eq parse_ipv4_eq parse_tcphdr_eq
      ETH_P_IP_def IPPROTO_TCP_def uint_eq_numeral_u16 uint_eq_numeral_u8 out_field_def
      is_tcp_frame_def is_ip_frame_def tcp_headers_def)
     (auto simp: controller_def compute_connection_def load_tcp_def load_ipv4_def)

section \<open>What the wire format calls for\<close>

text \<open>
  The same decision stated on the bytes of the frame in network byte order, without the C
  structures: offsets and flag bits are those of the Ethernet, IPv4 and TCP formats for an IPv4
  header without options.
\<close>

definition wire16 :: "bytes \<Rightarrow> nat \<Rightarrow> u16" where
  "wire16 pkt i = decode_word BigEndian (bslice i 2 pkt)"

definition wire32 :: "bytes \<Rightarrow> nat \<Rightarrow> u32" where
  "wire32 pkt i = decode_word BigEndian (bslice i 4 pkt)"

definition wire_connection :: "bytes \<Rightarrow> connection_t" where
  "wire_connection pkt =
     \<lparr> conn_src_addr = wire32 pkt 26, conn_dst_addr = wire32 pkt 30,
       conn_src_port = wire16 pkt 34, conn_dst_port = wire16 pkt 36 \<rparr>"

abbreviation wire_FIN :: "bytes \<Rightarrow> bool" where "wire_FIN pkt \<equiv> bit (pkt ! 47) 0"
abbreviation wire_SYN :: "bytes \<Rightarrow> bool" where "wire_SYN pkt \<equiv> bit (pkt ! 47) 1"
abbreviation wire_RST :: "bytes \<Rightarrow> bool" where "wire_RST pkt \<equiv> bit (pkt ! 47) 2"
abbreviation wire_PSH :: "bytes \<Rightarrow> bool" where "wire_PSH pkt \<equiv> bit (pkt ! 47) 3"
abbreviation wire_ACK :: "bytes \<Rightarrow> bool" where "wire_ACK pkt \<equiv> bit (pkt ! 47) 4"
abbreviation wire_URG :: "bytes \<Rightarrow> bool" where "wire_URG pkt \<equiv> bit (pkt ! 47) 5"
abbreviation wire_ECE :: "bytes \<Rightarrow> bool" where "wire_ECE pkt \<equiv> bit (pkt ! 47) 6"
abbreviation wire_CWR :: "bytes \<Rightarrow> bool" where "wire_CWR pkt \<equiv> bit (pkt ! 47) 7"

datatype verdict = Ignored | Known | Refused | Challenged u32 | Accepted

fun verdict_action :: "verdict \<Rightarrow> xdp_action" where
  "verdict_action Ignored = XDP_PASS"
| "verdict_action Known = XDP_PASS"
| "verdict_action Refused = XDP_DROP"
| "verdict_action (Challenged c) = XDP_TX"
| "verdict_action Accepted = XDP_TX"

definition syncookie_spec :: "(connection_t \<Rightarrow> bool) \<Rightarrow> bytes \<Rightarrow> verdict" where
  "syncookie_spec known pkt =
     (if wire16 pkt 12 \<noteq> 0x0800 \<or> pkt ! 23 \<noteq> 6 then Ignored
      else let c = wire_connection pkt in
        if known c then Known
        else if wire_SYN pkt \<and> wire_ACK pkt \<or> pkt ! 46 AND 15 = 1 \<or> wire_CWR pkt \<or>
                wire_ECE pkt \<or> wire_URG pkt \<or> wire_PSH pkt \<or> wire_RST pkt \<or> wire_FIN pkt
        then Refused
        else if wire_SYN pkt then Challenged (cookie_of c)
        else if wire_ACK pkt \<and> wire32 pkt 42 = cookie_of c + 1 then Accepted
        else Refused)"

text \<open>
  \<open>pkt'\<close> answers \<open>pkt\<close>: addresses and ports exchanged, the given sequence and
  acknowledgement numbers, SYN and ACK set as told, sent to the MAC address \<open>pkt\<close> came from.
\<close>

definition wire_reply :: "bytes \<Rightarrow> u32 \<Rightarrow> bool \<Rightarrow> bytes \<Rightarrow> bool" where
  "wire_reply pkt seqno synflag pkt' \<longleftrightarrow>
     length pkt' = length pkt \<and>
     bslice 0 6 pkt' = bslice 6 6 pkt \<and>
     wire32 pkt' 26 = wire32 pkt 30 \<and> wire32 pkt' 30 = wire32 pkt 26 \<and>
     wire16 pkt' 34 = wire16 pkt 36 \<and> wire16 pkt' 36 = wire16 pkt 34 \<and>
     wire32 pkt' 38 = seqno \<and> wire32 pkt' 42 = wire32 pkt 38 + 1 \<and>
     (wire_SYN pkt' \<longleftrightarrow> synflag) \<and> wire_ACK pkt' \<and> drop 54 pkt' = drop 54 pkt"

lemma encode_word_byte: "encode_word bo (Suc 0) (w :: u8) = [w]"
  by (simp add: encode_word_def split: byte_order.split)

lemma encode_word_u16_be: "encode_word BigEndian 2 (w :: u16) = [ucast (drop_bit 8 w), ucast w]"
  by (simp add: encode_word_def numeral_2_eq_2)

lemma mask_nibble: "(15 :: u8) = mask 4"
  by (simp add: mask_eq_exp_minus_1)

lemma pack2_low_nibble: "pack2 BigEndian (d :: 4 word) (r :: 4 word) AND (15 :: u8) = ucast r"
  unfolding mask_nibble
  by (rule bit_word_eqI) (auto simp: pack2_def bit_simps dest: bit_imp_le_length)

lemma ucast_nibble_one: "(ucast (r :: 4 word) :: u8) = 1 \<longleftrightarrow> r = 1"
proof
  assume "(ucast r :: u8) = 1"
  then have "ucast (ucast r :: u8) = (1 :: 4 word)" by simp
  moreover have "ucast (ucast r :: u8) = r" by (rule bit_word_eqI) (simp add: bit_simps)
  ultimately show "r = 1" by simp
qed simp

lemma low_nibble_one: "pack2 BigEndian (d :: 4 word) (r :: 4 word) AND (15 :: u8) = 1 \<longleftrightarrow> r = 1"
  by (simp add: pack2_low_nibble ucast_nibble_one)

lemma wire_frame:
  "wire16 (frame BigEndian e h t pl) 12 = ether_type e"
  "frame BigEndian e h t pl ! 23 = protocol h"
  "wire32 (frame BigEndian e h t pl) 26 = ip_src_addr h"
  "wire32 (frame BigEndian e h t pl) 30 = ip_dst_addr h"
  "wire16 (frame BigEndian e h t pl) 34 = src_port t"
  "wire16 (frame BigEndian e h t pl) 36 = dst_port t"
  "wire32 (frame BigEndian e h t pl) 38 = seq_no t"
  "wire32 (frame BigEndian e h t pl) 42 = ack_no t"
  "frame BigEndian e h t pl ! 46 = pack2 BigEndian (data_offset t) (res t)"
  "frame BigEndian e h t pl ! 47 = pack_flags BigEndian t"
  "drop 54 (frame BigEndian e h t pl) = pl"
  by (simp_all add: wire16_def wire32_def frame_def bslice_def encode_ether_def encode_ipv4_def
      encode_tcp_def decode_encode_word encode_word_byte nth_append)

lemma wire_macs:
  "bslice 0 6 (frame bo e h t pl) = encode_word LittleEndian 6 (eth_dst_addr e)"
  "bslice 6 6 (frame bo e h t pl) = encode_word LittleEndian 6 (eth_src_addr e)"
  by (simp_all add: bslice_def frame_def encode_ether_def)

lemma wire_flags:
  "bit (pack_flags BigEndian t) 0 \<longleftrightarrow> fin t = 1"
  "bit (pack_flags BigEndian t) (Suc 0) \<longleftrightarrow> syn t = 1"
  "bit (pack_flags BigEndian t) 2 \<longleftrightarrow> rst t = 1"
  "bit (pack_flags BigEndian t) 3 \<longleftrightarrow> psh t = 1"
  "bit (pack_flags BigEndian t) 4 \<longleftrightarrow> ack t = 1"
  "bit (pack_flags BigEndian t) 5 \<longleftrightarrow> urg t = 1"
  "bit (pack_flags BigEndian t) 6 \<longleftrightarrow> ece t = 1"
  "bit (pack_flags BigEndian t) 7 \<longleftrightarrow> cwr t = 1"
  by (simp_all add: bit_pack_flags flag_pos_def del: bit_0)

lemma wire_connection_frame: "wire_connection (frame BigEndian e h t pl) = connection_of h t"
  by (simp add: wire_connection_def connection_of_def wire_frame)

lemma minus_one_eq: "(a :: u32) - 1 = c \<longleftrightarrow> a = c + 1"
  by (simp add: diff_eq_eq)

lemma syncookie_spec_frame:
  "syncookie_spec known (frame BigEndian e h t pl) =
     (if ether_type e \<noteq> 0x0800 \<or> protocol h \<noteq> 6 then Ignored
      else if known (connection_of h t) then Known
      else if refused_flags t then Refused
      else if syn t = 1 then Challenged (cookie_of (connection_of h t))
      else if ack t = 1 \<and> ack_no t - 1 = cookie_of (connection_of h t) then Accepted
      else Refused)"
  by (simp add: syncookie_spec_def wire_connection_frame wire_frame wire_flags refused_flags_def
      low_nibble_one minus_one_eq Let_def del: bit_0)

lemma decode_frame:
  "decode_ether bo (bslice 0 14 (frame bo e h t pl)) = e"
  "decode_ipv4 bo (bslice 14 20 (frame bo e h t pl)) = h"
  "decode_tcp bo (bslice 34 20 (frame bo e h t pl)) = t"
  by (simp_all add: frame_def bslice_def ether_layout.dec_enc ipv4_layout.dec_enc tcp_layout.dec_enc)

lemma is_tcp_frame_frame:
  "is_tcp_frame bo (frame bo e h t pl) \<longleftrightarrow> ether_type e = 0x0800 \<and> protocol h = 6"
  by (simp add: is_tcp_frame_def is_ip_frame_def decode_frame)

lemma syncookie_fn_frame:
  "syncookie_fn bo ops k (frame bo e h t pl) m =
     (if ether_type e = 0x0800 \<and> protocol h = 6
      then controller bo ops k (frame bo e h t pl) m tcp_headers
      else Some (XDP_PASS, frame bo e h t pl, m))"
  by (simp add: syncookie_fn_cases is_tcp_frame_frame)

lemma wire_reply_syn:
  "syn t = 1 \<Longrightarrow> wire_reply (frame BigEndian e h t pl) c True
     (frame BigEndian (reply_mac e) (reply_ip h) (syn_reply c t) pl)"
  by (simp add: wire_reply_def wire_frame wire_flags wire_macs reply_mac_eq reply_ip_eq
      syn_reply_def del: bit_0)

lemma wire_reply_ack:
  "wire_reply (frame BigEndian e h t pl) (ack_no t) False
     (frame BigEndian (reply_mac e) (reply_ip h) (ack_reply t) pl)"
  by (simp add: wire_reply_def wire_frame wire_flags wire_macs reply_mac_eq reply_ip_eq
      ack_reply_def del: bit_0)

section \<open>A table and packets to evaluate on\<close>

text \<open>An exact table, as \<open>bpf_map_lookup_elem\<close> and \<open>bpf_map_update_elem\<close> are documented.\<close>

definition map_law :: "'m bpf_map_ops \<Rightarrow> bool" where
  "map_law ops \<longleftrightarrow> (\<forall>m key v key'.
     map_lookup ops (map_update ops m key v) key' = (if key' = key then Some v else map_lookup ops m key'))"

definition exact_table :: "(connection_t \<Rightarrow> u8 option) bpf_map_ops" where
  "exact_table = \<lparr>map_lookup = (\<lambda>m key. m key), map_update = (\<lambda>m key v. m(key := Some v))\<rparr>"

lemma exact_table_law: "map_law exact_table"
  by (simp add: map_law_def exact_table_def)

definition client_ether :: ethernet_t where
  "client_ether = \<lparr>eth_dst_addr = 0x020000000002, eth_src_addr = 0x020000000001, ether_type = 0x0800\<rparr>"

definition client_ip :: ipv4_t where
  "client_ip = \<lparr>version = 4, ihl = 5, dscp = 0, ecn = 0, total_len = 40, identification = 1,
     ip_flags = 2, frag_offset = 0, ttl = 64, protocol = 6, hdr_checksum = 0,
     ip_src_addr = 0x0A000001, ip_dst_addr = 0x0A000002\<rparr>"

definition client_syn :: tcp_t where
  "client_syn = \<lparr>src_port = 40000, dst_port = 80, seq_no = 1000, ack_no = 0, data_offset = 5,
     res = 0, cwr = 0, ece = 0, urg = 0, ack = 0, psh = 0, rst = 0, syn = 1, fin = 0,
     window = 1024, checksum = 0, urgent_ptr = 0\<rparr>"

definition client_ack :: "u32 \<Rightarrow> tcp_t" where
  "client_ack n = client_syn\<lparr>seq_no := 1001, ack_no := n, ack := 1, syn := 0\<rparr>"

definition stack_bytes :: connection_t where
  "stack_bytes = \<lparr>conn_src_addr = 1, conn_dst_addr = 2, conn_src_port = 3, conn_dst_port = 4\<rparr>"

lemma client_fields [simp]:
  "ether_type client_ether = 0x0800" "protocol client_ip = 6"
  "syn client_syn = 1" "ack client_syn = 0" "syn (client_ack n) = 0" "ack (client_ack n) = 1"
  "ack_no (client_ack n) = n" "seq_no client_syn = 1000"
  "connection_of client_ip (client_ack n) = connection_of client_ip client_syn"
  by (simp_all add: client_ether_def client_ip_def client_syn_def client_ack_def connection_of_def)

lemma client_flags [simp]: "\<not> refused_flags client_syn" "\<not> refused_flags (client_ack n)"
  by (simp_all add: refused_flags_def client_syn_def client_ack_def)

lemma client_ack_wire [simp]:
  "pack_flags BigEndian (client_ack n) = 0x10" "res (client_ack n) = 0"
  "pack2 BigEndian (data_offset (client_ack n)) (0 :: 4 word) AND (15 :: u8) = 0"
  by (simp_all add: client_ack_def client_syn_def pack_flags_def put_flag_def flag_pos_def
      pack2_low_nibble)

lemma client_connection:
  "connection_of client_ip client_syn =
     \<lparr>conn_src_addr = 0x0A000001, conn_dst_addr = 0x0A000002, conn_src_port = 40000, conn_dst_port = 80\<rparr>"
  by (simp add: connection_of_def client_ip_def client_syn_def)

lemma stack_bytes_other [simp]: "connection_of client_ip client_syn \<noteq> stack_bytes"
  by (simp add: client_connection stack_bytes_def)

section \<open>Correctness of the filter\<close>

text \<open>
  C1. On a big-endian target the program implements the specification: on every frame long
  enough for a TCP header its verdict is the one \<open>syncookie_spec\<close> reads off the wire, the
  table changes only when an acknowledgement is accepted, a frame that is not answered is left
  alone, and the answers are a SYN-ACK carrying the cookie and an ACK, back to the sender.
\<close>

theorem syncookie_refines_wire_spec:
  assumes "54 \<le> length pkt"
    and "v = syncookie_spec (\<lambda>c. map_lookup ops m c \<noteq> None) pkt"
  shows "\<exists>pkt' m'.
     syncookie_fn BigEndian ops k pkt m = Some (verdict_action v, pkt', m') \<and>
     m' = (if v = Accepted then map_update ops m k insert_value else m) \<and>
     (case v of
        Challenged c \<Rightarrow> wire_reply pkt c True pkt'
      | Accepted \<Rightarrow> wire_reply pkt (wire32 pkt 42) False pkt'
      | _ \<Rightarrow> pkt' = pkt)"
proof -
  obtain e h t pl where "pkt = frame BigEndian e h t pl"
    using every_packet_is_frame [OF assms(1)] by blast
  then show ?thesis
    using wire_reply_ack [of e h t pl] wire_reply_syn [of t e h pl]
    by (simp add: assms(2) syncookie_spec_frame syncookie_fn_frame controller_frame wire_frame
        del: not_None_eq)
qed

theorem syncookie_refines_wire_spec_witness:
  "\<exists>pkt' m'. syncookie_fn BigEndian exact_table stack_bytes
        (frame BigEndian client_ether client_ip client_syn []) (\<lambda>_. None) = Some (XDP_TX, pkt', m') \<and>
     wire_reply (frame BigEndian client_ether client_ip client_syn [])
       (cookie_of (connection_of client_ip client_syn)) True pkt'"
proof -
  have "Challenged (cookie_of (connection_of client_ip client_syn)) =
      syncookie_spec (\<lambda>c. map_lookup exact_table (\<lambda>_. None) c \<noteq> None)
        (frame BigEndian client_ether client_ip client_syn [])"
    by (simp add: syncookie_spec_frame exact_table_def)
  from syncookie_refines_wire_spec [OF _ this, of stack_bytes] show ?thesis
    by auto
qed

text \<open>
  C2. The program accesses memory it does not own exactly on frames whose EtherType and
  protocol it takes for TCP over IPv4 and that end before the TCP header does: it does not look
  at what \<open>parse_tcphdr\<close> returns and follows the \<open>NULL\<close> pointer. On every other frame it
  returns a verdict.
\<close>

theorem syncookie_fn_faults_iff:
  "syncookie_fn bo ops k pkt m = None \<longleftrightarrow> is_tcp_frame bo pkt \<and> length pkt < 54"
proof (cases "54 \<le> length pkt")
  case True
  then obtain e h t pl where "pkt = frame bo e h t pl"
    using every_packet_is_frame [of pkt bo] by blast
  then show ?thesis
    by (simp add: syncookie_fn_frame controller_frame)
next
  case False
  then show ?thesis by (simp add: syncookie_fn_cases)
qed



section \<open>The table over a run of the filter\<close>

text \<open>
  The table states a run can reach from \<open>m0\<close>: every packet may come, and the bytes the
  kernel finds at \<open>&connection\<close> may be any key of \<open>K\<close>.
\<close>

inductive table_reach ::
  "byte_order \<Rightarrow> 'm bpf_map_ops \<Rightarrow> connection_t set \<Rightarrow> 'm \<Rightarrow> 'm \<Rightarrow> bool"
  for bo ops K m0 where
  start: "table_reach bo ops K m0 m0"
| packet: "table_reach bo ops K m0 m \<Longrightarrow> k \<in> K \<Longrightarrow>
     syncookie_fn bo ops k pkt m = Some (a, pkt', m') \<Longrightarrow> table_reach bo ops K m0 m'"

lemma syncookie_fn_table:
  assumes "syncookie_fn bo ops k pkt m = Some (a, pkt', m')"
  shows "m' = m \<or> m' = map_update ops m k insert_value"
proof (cases "54 \<le> length pkt")
  case True
  then obtain e h t pl where "pkt = frame bo e h t pl"
    using every_packet_is_frame [of pkt bo] by blast
  with assms show ?thesis
    by (auto simp: syncookie_fn_frame controller_frame split: if_splits)
next
  case False
  with assms show ?thesis by (auto simp: syncookie_fn_cases split: if_splits)
qed

lemma syncookie_fn_pass:
  assumes "54 \<le> length pkt" "is_tcp_frame bo pkt"
  shows "syncookie_fn bo ops k pkt m = Some (XDP_PASS, pkt', m') \<longleftrightarrow>
     map_lookup ops m (connection_of (decode_ipv4 bo (bslice 14 20 pkt))
       (decode_tcp bo (bslice 34 20 pkt))) \<noteq> None \<and> pkt' = pkt \<and> m' = m"
proof -
  obtain e h t pl where "pkt = frame bo e h t pl"
    using every_packet_is_frame [OF assms(1)] by blast
  then show ?thesis
    using assms(2) by (auto simp: decode_frame is_tcp_frame_frame syncookie_fn_frame controller_frame)
qed

lemma unknown_stays_unknown:
  assumes "table_reach bo ops K m0 m" "map_law ops" "c \<notin> K" "map_lookup ops m0 c = None"
  shows "map_lookup ops m c = None"
  using assms
proof (induction rule: table_reach.induct)
  case start
  then show ?case by simp
next
  case (packet m k pkt a pkt' m')
  then have "map_lookup ops m c = None" and "c \<noteq> k" by auto
  moreover have "m' = m \<or> m' = map_update ops m k insert_value"
    using packet.hyps(3) by (rule syncookie_fn_table)
  ultimately show ?case using packet.prems(1) by (auto simp: map_law_def)
qed

lemma known_stays_known:
  assumes "table_reach bo ops K m0 m" "map_law ops" "map_lookup ops m0 c \<noteq> None"
  shows "map_lookup ops m c \<noteq> None"
  using assms
proof (induction rule: table_reach.induct)
  case start
  then show ?case by simp
next
  case (packet m k pkt a pkt' m')
  moreover have "m' = m \<or> m' = map_update ops m k insert_value"
    using packet.hyps(3) by (rule syncookie_fn_table)
  ultimately show ?case by (auto simp: map_law_def)
qed





text \<open>
  C6. On a little-endian target the filter is inert for real traffic: \<open>parse_ether\<close> returns
  the EtherType as loaded, so that a frame whose EtherType on the wire is \<open>0x0800\<close> is never
  taken for IPv4. Every such frame passes unchanged.
\<close>

theorem little_endian_passes_ipv4:
  assumes "wire16 pkt 12 = 0x0800" "14 \<le> length pkt"
  shows "syncookie_fn LittleEndian ops k pkt m = Some (XDP_PASS, pkt, m)"
proof -
  define bs where "bs = bslice 12 2 pkt"
  have len: "length bs = 2" using assms(2) by (simp add: bs_def length_slice)
  have "decode_word BigEndian bs = (0x0800 :: u16)"
    using assms(1) by (simp add: bs_def wire16_def)
  then have "bs = encode_word BigEndian 2 (0x0800 :: u16)"
    using encode_decode_word [OF len, where 'a = 16, of BigEndian] by simp
  then have "bs = [8, 0]"
    by (simp add: encode_word_u16_be)
  then have "decode_word LittleEndian bs = (8 :: u16)"
    by (simp add: decode_word_def)
  moreover have "bslice 12 2 (bslice 0 14 pkt) = bs"
    by (simp add: bs_def bslice_def drop_take)
  ultimately have "ether_type (decode_ether LittleEndian (bslice 0 14 pkt)) = 8"
    by (simp add: decode_ether_def)
  then show ?thesis by (simp add: syncookie_fn_cases is_tcp_frame_def is_ip_frame_def)
qed

theorem little_endian_passes_ipv4_witness:
  "syncookie_fn LittleEndian exact_table stack_bytes
     (frame BigEndian client_ether client_ip client_syn []) (\<lambda>_. None)
   = Some (XDP_PASS, frame BigEndian client_ether client_ip client_syn [], \<lambda>_. None)"
  by (rule little_endian_passes_ipv4) (simp_all add: wire_frame)

text \<open>
  C7. What the filter sends back for a SYN, field by field, on either byte order: the
  destination MAC address becomes the source's and the source MAC address stays; the IP
  addresses and the ports are exchanged; the cookie is the sequence number and the client's
  sequence number plus one the acknowledgement; the ACK flag is set. Nothing else changes, the
  IP and TCP checksums and the payload included, and the table is not touched.
\<close>

theorem syn_answer:
  assumes "ether_type e = 0x0800" "protocol h = 6" "syn t = 1" "ack t = 0"
    and "res t \<noteq> 1" "cwr t = 0" "ece t = 0" "urg t = 0" "psh t = 0" "rst t = 0" "fin t = 0"
    and "map_lookup ops m (connection_of h t) = None"
  shows "syncookie_fn bo ops k (frame bo e h t payload) m =
     Some (XDP_TX,
       frame bo (e\<lparr>eth_dst_addr := eth_src_addr e\<rparr>)
         (h\<lparr>ip_src_addr := ip_dst_addr h, ip_dst_addr := ip_src_addr h\<rparr>)
         (t\<lparr>ack_no := seq_no t + 1, seq_no := cookie_of (connection_of h t), ack := 1,
            src_port := dst_port t, dst_port := src_port t\<rparr>) payload, m)"
  using assms
  by (simp add: syncookie_fn_frame controller_frame refused_flags_def reply_mac_eq reply_ip_eq
      syn_reply_def)

theorem syn_answer_witness:
  "syncookie_fn BigEndian exact_table stack_bytes
     (frame BigEndian client_ether client_ip client_syn []) (\<lambda>_. None) =
   Some (XDP_TX,
     frame BigEndian (client_ether\<lparr>eth_dst_addr := 0x020000000001\<rparr>)
       (client_ip\<lparr>ip_src_addr := 0x0A000002, ip_dst_addr := 0x0A000001\<rparr>)
       (client_syn\<lparr>ack_no := 1001, seq_no := cookie_of (connection_of client_ip client_syn),
          ack := 1, src_port := 80, dst_port := 40000\<rparr>) [], \<lambda>_. None)"
  using syn_answer [of client_ether client_ip client_syn exact_table "\<lambda>_. None" BigEndian stack_bytes "[]"]
  by (simp add: exact_table_def)
     (simp add: client_syn_def client_ip_def client_ether_def)

end
