(* ===== verification/Endian.thy ===== *)
theory Endian
  imports Headers
begin

text \<open>
  Byte-order conversion, \<open>src/common/bpf_endian.h\<close> (the copy under \<open>src/headers\<close> has the
  same definitions). The macros choose between a constant-folded swap and the compiler's
  \<open>__builtin_bswap16/32\<close> by \<open>__builtin_constant_p\<close>; both branches are definitions here and
  are proved equal, so that the choice does not matter. On a big-endian target all of them are
  the identity.
\<close>

text \<open>\<open>___constant_swab16\<close> and \<open>___constant_swab32\<close> of \<open>linux/swab.h\<close>.\<close>

definition constant_swab16 :: "u16 \<Rightarrow> u16" where
  "constant_swab16 x = push_bit 8 (x AND 0x00FF) OR drop_bit 8 (x AND 0xFF00)"

definition constant_swab32 :: "u32 \<Rightarrow> u32" where
  "constant_swab32 x =
     push_bit 24 (x AND 0x000000FF) OR push_bit 8 (x AND 0x0000FF00) OR
     drop_bit 8 (x AND 0x00FF0000) OR drop_bit 24 (x AND 0xFF000000)"

text \<open>\<open>__builtin_bswap16\<close> and \<open>__builtin_bswap32\<close>: the bytes in reverse.\<close>

definition builtin_bswap16 :: "u16 \<Rightarrow> u16" where
  "builtin_bswap16 x = le_word (rev (le_bytes 2 x))"

definition builtin_bswap32 :: "u32 \<Rightarrow> u32" where
  "builtin_bswap32 x = le_word (rev (le_bytes 4 x))"

definition bpf_htons :: "byte_order \<Rightarrow> bool \<Rightarrow> u16 \<Rightarrow> u16" where
  "bpf_htons bo constant_p x =
     (case bo of
        LittleEndian \<Rightarrow> if constant_p then constant_swab16 x else builtin_bswap16 x
      | BigEndian \<Rightarrow> x)"

definition bpf_ntohs :: "byte_order \<Rightarrow> bool \<Rightarrow> u16 \<Rightarrow> u16" where
  "bpf_ntohs bo constant_p x =
     (case bo of
        LittleEndian \<Rightarrow> if constant_p then constant_swab16 x else builtin_bswap16 x
      | BigEndian \<Rightarrow> x)"

definition bpf_htonl :: "byte_order \<Rightarrow> bool \<Rightarrow> u32 \<Rightarrow> u32" where
  "bpf_htonl bo constant_p x =
     (case bo of
        LittleEndian \<Rightarrow> if constant_p then constant_swab32 x else builtin_bswap32 x
      | BigEndian \<Rightarrow> x)"

definition bpf_ntohl :: "byte_order \<Rightarrow> bool \<Rightarrow> u32 \<Rightarrow> u32" where
  "bpf_ntohl bo constant_p x =
     (case bo of
        LittleEndian \<Rightarrow> if constant_p then constant_swab32 x else builtin_bswap32 x
      | BigEndian \<Rightarrow> x)"

section \<open>The two branches agree\<close>

lemma mask_bytes:
  "(0x00FF :: u16) = mask 8" "(0xFF00 :: u16) = push_bit 8 (mask 8)"
  "(0x000000FF :: u32) = mask 8" "(0x0000FF00 :: u32) = push_bit 8 (mask 8)"
  "(0x00FF0000 :: u32) = push_bit 16 (mask 8)" "(0xFF000000 :: u32) = push_bit 24 (mask 8)"
  by (simp_all add: mask_eq_exp_minus_1 push_bit_eq_mult)

lemma le_bytes_2: "le_bytes 2 (x :: 'a::len word) = [ucast x, ucast (drop_bit 8 x)]"
  by (simp add: numeral_2_eq_2)

lemma le_bytes_4:
  "le_bytes 4 (x :: 'a::len word) =
     [ucast x, ucast (drop_bit 8 x), ucast (drop_bit 16 x), ucast (drop_bit 24 x)]"
  by (simp add: numeral_eq_Suc)

lemma le_bytes_of_word:
  "length bs = n \<Longrightarrow> 8 * n \<le> LENGTH('a) \<Longrightarrow> le_bytes n (le_word bs :: 'a::len word) = bs"
  using le_bytes_le_word [of bs, where 'a = 'a] by simp

lemma swab16_bswap16: "constant_swab16 x = builtin_bswap16 x"
  unfolding constant_swab16_def builtin_bswap16_def mask_bytes
  by (rule bit_word_eqI) (auto simp: le_bytes_2 bit_simps)

lemma swab32_bswap32: "constant_swab32 x = builtin_bswap32 x"
  unfolding constant_swab32_def builtin_bswap32_def mask_bytes
  by (rule bit_word_eqI) (auto simp: le_bytes_4 bit_simps)

text \<open>A host integer converted to network order has the big-endian bytes of its value.\<close>

lemma htons_bytes: "encode_word bo 2 (bpf_htons bo c x) = encode_word BigEndian 2 x"
  by (cases bo)
     (simp_all add: bpf_htons_def swab16_bswap16 builtin_bswap16_def encode_word_def le_bytes_of_word)

lemma ntohs_bytes: "length bs = 2 \<Longrightarrow> bpf_ntohs bo c (decode_word bo bs) = decode_word BigEndian bs"
  by (cases bo)
     (simp_all add: bpf_ntohs_def swab16_bswap16 builtin_bswap16_def decode_word_def le_bytes_of_word)

lemma htonl_bytes: "encode_word bo 4 (bpf_htonl bo c x) = encode_word BigEndian 4 x"
  by (cases bo)
     (simp_all add: bpf_htonl_def swab32_bswap32 builtin_bswap32_def encode_word_def le_bytes_of_word)

lemma ntohl_bytes: "length bs = 4 \<Longrightarrow> bpf_ntohl bo c (decode_word bo bs) = decode_word BigEndian bs"
  by (cases bo)
     (simp_all add: bpf_ntohl_def swab32_bswap32 builtin_bswap32_def decode_word_def le_bytes_of_word)

lemma ntohs_htons: "bpf_ntohs bo c (bpf_htons bo c' x) = x"
proof -
  have "bpf_htons bo c' x = decode_word bo (encode_word BigEndian 2 x)"
    using decode_encode_word [of 2 bo "bpf_htons bo c' x"] by (simp add: htons_bytes)
  then show ?thesis
    by (simp add: ntohs_bytes decode_encode_word)
qed

text \<open>
  The byte-order macros are right whichever branch the compiler takes: what
  \<open>bpf_htons\<close>/\<open>bpf_htonl\<close> return has the big-endian bytes of the host value when it is stored,
  and \<open>bpf_ntohs\<close>/\<open>bpf_ntohl\<close> undo them, on either target and for constants and variables
  alike.
\<close>

theorem byte_order_macros_correct:
  "encode_word bo 2 (bpf_htons bo c x) = encode_word BigEndian 2 x \<and>
   encode_word bo 4 (bpf_htonl bo c y) = encode_word BigEndian 4 y \<and>
   bpf_ntohs bo c' (bpf_htons bo c x) = x \<and>
   bpf_ntohl bo c' (bpf_htonl bo c y) = y"
proof -
  have "bpf_htonl bo c y = decode_word bo (encode_word BigEndian 4 y)"
    using decode_encode_word [of 4 bo "bpf_htonl bo c y"] by (simp add: htonl_bytes)
  then have "bpf_ntohl bo c' (bpf_htonl bo c y) = y"
    by (simp add: ntohl_bytes decode_encode_word)
  then show ?thesis by (simp add: htons_bytes htonl_bytes ntohs_htons)
qed

end
