(* ===== verification/Parsing_Helpers.thy ===== *)
theory Parsing_Helpers
  imports Parser Endian
begin

text \<open>
  The header parsers of \<open>src/common/parsing_helpers.h\<close>. They share the cursor and the
  result convention of theory \<open>Parser\<close>, but store through the header pointer without
  testing it: a call with \<open>NULL\<close> is a fault. The kernel's header structures they overlay are
  given by the size and the member offsets the functions use: \<open>struct ethhdr\<close> (14 bytes,
  \<open>h_proto\<close> at 12), \<open>struct vlan_hdr\<close> (4 bytes, the inner type at 2), \<open>struct ipv6hdr\<close>
  (40 bytes, \<open>nexthdr\<close> at 6), \<open>struct iphdr\<close> (20 bytes, \<open>ihl\<close> the low nibble of byte 0
  in either byte order, \<open>protocol\<close> at 9), \<open>struct icmphdr\<close> and \<open>struct icmp6hdr\<close>
  (8 bytes, the type at 0).

  Every parser satisfies the contract \<open>header_parser\<close>. The VLAN loop is proved to give the
  same, wire-order result on both targets, and the older interface (\<open>get_ethhdr\<close>,
  \<open>get_ip6hdr\<close>) to agree with the newer one (\<open>parse_ethhdr\<close>, \<open>parse_ip6hdr\<close>).
\<close>

definition ETH_P_8021Q :: u16 where "ETH_P_8021Q = 0x8100"
definition ETH_P_8021AD :: u16 where "ETH_P_8021AD = 0x88A8"
definition ETH_P_IPV6 :: u16 where "ETH_P_IPV6 = 0x86DD"
definition IPPROTO_ICMPV6 :: u8 where "IPPROTO_ICMPV6 = 58"

definition sizeof_ethhdr :: nat where "sizeof_ethhdr = 14"
definition sizeof_ipv6hdr :: nat where "sizeof_ipv6hdr = 40"
definition sizeof_iphdr :: nat where "sizeof_iphdr = 20"
definition sizeof_icmphdr :: nat where "sizeof_icmphdr = 8"
definition sizeof_icmp6hdr :: nat where "sizeof_icmp6hdr = 8"

text \<open>\<open>struct vlan_hdr\<close> and \<open>struct icmphdr_common\<close>, with the size of each.\<close>

record vlan_hdr =
  h_vlan_TCI :: u16
  h_vlan_encapsulated_proto :: u16

record icmphdr_common =
  icmp_type :: u8
  icmp_code :: u8
  cksum :: u16

definition sizeof_vlan_hdr :: nat where "sizeof_vlan_hdr = 4"
definition sizeof_icmphdr_common :: nat where "sizeof_icmphdr_common = 4"

definition load_vlan_hdr :: "byte_order \<Rightarrow> bytes \<Rightarrow> nat \<Rightarrow> vlan_hdr option" where
  "load_vlan_hdr bo pkt vlh =
     do { tci \<leftarrow> load_word bo 2 pkt vlh;
          p \<leftarrow> load_word bo 2 pkt (vlh + 2);
          Some \<lparr>h_vlan_TCI = tci, h_vlan_encapsulated_proto = p\<rparr> }"

definition load_icmphdr_common :: "byte_order \<Rightarrow> bytes \<Rightarrow> nat \<Rightarrow> icmphdr_common option" where
  "load_icmphdr_common bo pkt h =
     do { t \<leftarrow> load_word bo 1 pkt h;
          c \<leftarrow> load_word bo 1 pkt (h + 1);
          s \<leftarrow> load_word bo 2 pkt (h + 2);
          Some \<lparr>icmp_type = t, icmp_code = c, cksum = s\<rparr> }"

lemmas helper_sizes = sizeof_ethhdr_def sizeof_ipv6hdr_def sizeof_iphdr_def sizeof_icmphdr_def
  sizeof_icmp6hdr_def sizeof_vlan_hdr_def sizeof_icmphdr_common_def

definition VLAN_MAX_DEPTH :: nat where "VLAN_MAX_DEPTH = 5"

definition proto_is_vlan :: "byte_order \<Rightarrow> u16 \<Rightarrow> bool" where
  "proto_is_vlan bo h_proto \<longleftrightarrow>
     h_proto = bpf_htons bo True ETH_P_8021Q \<or> h_proto = bpf_htons bo True ETH_P_8021AD"

text \<open>The unrolled loop of \<open>parse_ethhdr\<close>; the first argument counts the iterations left.\<close>

fun parse_vlan_loop ::
  "nat \<Rightarrow> byte_order \<Rightarrow> bytes \<Rightarrow> nat \<Rightarrow> u16 \<Rightarrow> nat \<Rightarrow> (u16 \<times> nat) option" where
  "parse_vlan_loop 0 bo pkt dend h_proto vlh = Some (h_proto, vlh)"
| "parse_vlan_loop (Suc n) bo pkt dend h_proto vlh =
     (if \<not> proto_is_vlan bo h_proto then Some (h_proto, vlh)
      else if vlh + sizeof_vlan_hdr > dend then Some (h_proto, vlh)
      else do { v \<leftarrow> load_vlan_hdr bo pkt vlh;
                parse_vlan_loop n bo pkt dend (h_vlan_encapsulated_proto v) (vlh + sizeof_vlan_hdr) })"

definition parse_ethhdr ::
  "byte_order \<Rightarrow> bytes \<Rightarrow> hdr_cursor \<Rightarrow> nat \<Rightarrow> ptr option \<Rightarrow> parse_result" where
  "parse_ethhdr bo pkt nh dend ethhdr =
     (let eth = pos nh in
      if pos nh + sizeof_ethhdr > dend then Some (-1, nh, ethhdr)
      else let nh = nh\<lparr>pos := pos nh + sizeof_ethhdr\<rparr> in
        do { _ \<leftarrow> ethhdr;
             h_proto \<leftarrow> load_word bo 2 pkt (eth + 12);
             (h_proto, vlh) \<leftarrow> parse_vlan_loop VLAN_MAX_DEPTH bo pkt dend h_proto (pos nh);
             let nh = nh\<lparr>pos := vlh\<rparr>;
             Some (uint (bpf_ntohs bo False h_proto), nh, Some (Some eth)) })"

definition parse_ip6hdr ::
  "byte_order \<Rightarrow> bytes \<Rightarrow> hdr_cursor \<Rightarrow> nat \<Rightarrow> ptr option \<Rightarrow> parse_result" where
  "parse_ip6hdr bo pkt nh dend ip6hdr =
     (let ip6h = pos nh in
      if ip6h + sizeof_ipv6hdr > dend then Some (-1, nh, ip6hdr)
      else do { _ \<leftarrow> ip6hdr;
                nexthdr \<leftarrow> load_word bo 1 pkt (ip6h + 6);
                Some (uint (nexthdr :: u8), nh\<lparr>pos := ip6h + sizeof_ipv6hdr\<rparr>, Some (Some ip6h)) })"

definition parse_iphdr ::
  "byte_order \<Rightarrow> bytes \<Rightarrow> hdr_cursor \<Rightarrow> nat \<Rightarrow> ptr option \<Rightarrow> parse_result" where
  "parse_iphdr bo pkt nh dend iphdr =
     (let iph = pos nh in
      if iph + sizeof_iphdr > dend then Some (-1, nh, iphdr)
      else do { b0 \<leftarrow> load_word bo 1 pkt iph;
                let hdrsize = unat ((b0 :: u8) AND 15) * 4;
                if pos nh + hdrsize > dend then Some (-1, nh, iphdr)
                else do { _ \<leftarrow> iphdr;
                          protocol \<leftarrow> load_word bo 1 pkt (iph + 9);
                          Some (uint (protocol :: u8), nh\<lparr>pos := pos nh + hdrsize\<rparr>, Some (Some iph)) } })"

definition parse_icmp6hdr ::
  "byte_order \<Rightarrow> bytes \<Rightarrow> hdr_cursor \<Rightarrow> nat \<Rightarrow> ptr option \<Rightarrow> parse_result" where
  "parse_icmp6hdr bo pkt nh dend icmp6hdr =
     (let icmp6h = pos nh in
      if icmp6h + sizeof_icmp6hdr > dend then Some (-1, nh, icmp6hdr)
      else do { _ \<leftarrow> icmp6hdr;
                t \<leftarrow> load_word bo 1 pkt icmp6h;
                Some (uint (t :: u8), nh\<lparr>pos := icmp6h + sizeof_icmp6hdr\<rparr>, Some (Some icmp6h)) })"

definition parse_icmphdr ::
  "byte_order \<Rightarrow> bytes \<Rightarrow> hdr_cursor \<Rightarrow> nat \<Rightarrow> ptr option \<Rightarrow> parse_result" where
  "parse_icmphdr bo pkt nh dend icmphdr =
     (let icmph = pos nh in
      if icmph + sizeof_icmphdr > dend then Some (-1, nh, icmphdr)
      else do { _ \<leftarrow> icmphdr;
                t \<leftarrow> load_word bo 1 pkt icmph;
                Some (uint (t :: u8), nh\<lparr>pos := icmph + sizeof_icmphdr\<rparr>, Some (Some icmph)) })"

definition parse_icmphdr_common ::
  "byte_order \<Rightarrow> bytes \<Rightarrow> hdr_cursor \<Rightarrow> nat \<Rightarrow> ptr option \<Rightarrow> parse_result" where
  "parse_icmphdr_common bo pkt nh dend icmphdr =
     (let h = pos nh in
      if h + sizeof_icmphdr_common > dend then Some (-1, nh, icmphdr)
      else do { _ \<leftarrow> icmphdr;
                c \<leftarrow> load_icmphdr_common bo pkt h;
                Some (uint (icmp_type c), nh\<lparr>pos := h + sizeof_icmphdr_common\<rparr>, Some (Some h)) })"

section \<open>The older interface\<close>

text \<open>These return the header pointer, \<open>None\<close> being \<open>NULL\<close>, and the cursor.\<close>

definition get_ethhdr :: "hdr_cursor \<Rightarrow> nat \<Rightarrow> ptr \<times> hdr_cursor" where
  "get_ethhdr nh dend =
     (let eth = pos nh in
      if pos nh + sizeof_ethhdr > dend then (None, nh)
      else (Some eth, nh\<lparr>pos := pos nh + sizeof_ethhdr\<rparr>))"

text \<open>The loop of \<open>get_ip6hdr\<close>: a truncated VLAN header makes the function return \<open>NULL\<close>.\<close>

fun get_vlan_loop ::
  "nat \<Rightarrow> byte_order \<Rightarrow> bytes \<Rightarrow> nat \<Rightarrow> u16 \<Rightarrow> nat \<Rightarrow> (u16 \<times> nat) option option" where
  "get_vlan_loop 0 bo pkt dend h_proto vlh = Some (Some (h_proto, vlh))"
| "get_vlan_loop (Suc n) bo pkt dend h_proto vlh =
     (if \<not> (h_proto = bpf_htons bo True ETH_P_8021Q \<or> h_proto = bpf_htons bo True ETH_P_8021AD)
      then Some (Some (h_proto, vlh))
      else if vlh + sizeof_vlan_hdr > dend then Some None
      else do { v \<leftarrow> load_vlan_hdr bo pkt vlh;
                get_vlan_loop n bo pkt dend (h_vlan_encapsulated_proto v) (vlh + sizeof_vlan_hdr) })"

definition get_ip6hdr ::
  "byte_order \<Rightarrow> bytes \<Rightarrow> nat \<Rightarrow> hdr_cursor \<Rightarrow> nat \<Rightarrow> (ptr \<times> hdr_cursor) option" where
  "get_ip6hdr bo pkt eth nh dend =
     do { h_proto \<leftarrow> load_word bo 2 pkt (eth + 12);
          r \<leftarrow> get_vlan_loop VLAN_MAX_DEPTH bo pkt dend h_proto (pos nh);
          (case r of
             None \<Rightarrow> Some (None, nh)
           | Some (h_proto, ip6h) \<Rightarrow>
               if h_proto \<noteq> bpf_htons bo True ETH_P_IPV6 then Some (None, nh)
               else if ip6h + sizeof_ipv6hdr > dend then Some (None, nh)
               else Some (Some ip6h, nh\<lparr>pos := ip6h + sizeof_ipv6hdr\<rparr>)) }"

definition get_icmp6hdr ::
  "byte_order \<Rightarrow> bytes \<Rightarrow> nat \<Rightarrow> hdr_cursor \<Rightarrow> nat \<Rightarrow> (ptr \<times> hdr_cursor) option" where
  "get_icmp6hdr bo pkt ip6h nh dend =
     (let icmp6h = pos nh in
      do { nexthdr \<leftarrow> load_word bo 1 pkt (ip6h + 6);
           if nexthdr \<noteq> IPPROTO_ICMPV6 then Some (None, nh)
           else if icmp6h + sizeof_icmp6hdr > dend then Some (None, nh)
           else Some (Some icmp6h, nh\<lparr>pos := icmp6h + sizeof_icmp6hdr\<rparr>) })"

section \<open>Loads\<close>

lemma load_word_Some:
  "off + n \<le> length pkt \<Longrightarrow> load_word bo n pkt off = Some (decode_word bo (bslice off n pkt))"
  by (simp add: load_word_def read_bytes_def bslice_def)

lemma load_word_cases:
  "load_word bo n pkt off =
     (if off + n \<le> length pkt then Some (decode_word bo (bslice off n pkt)) else None)"
  by (simp add: load_word_def read_bytes_def bslice_def)

lemma load_vlan_hdr_Some:
  "vlh + 4 \<le> length pkt \<Longrightarrow> load_vlan_hdr bo pkt vlh =
     Some \<lparr>h_vlan_TCI = decode_word bo (bslice vlh 2 pkt),
           h_vlan_encapsulated_proto = decode_word bo (bslice (vlh + 2) 2 pkt)\<rparr>"
  by (simp add: load_vlan_hdr_def load_word_Some)

lemma load_icmphdr_common_Some:
  "h + 4 \<le> length pkt \<Longrightarrow> load_icmphdr_common bo pkt h =
     Some \<lparr>icmp_type = decode_word bo (bslice h 1 pkt), icmp_code = decode_word bo (bslice (h + 1) 1 pkt),
           cksum = decode_word bo (bslice (h + 2) 2 pkt)\<rparr>"
  by (simp add: load_icmphdr_common_def load_word_Some)

lemma parse_vlan_loop_bounds:
  assumes "parse_vlan_loop n bo pkt dend h vlh = Some (h', vlh')" "vlh \<le> dend"
  shows "vlh \<le> vlh' \<and> vlh' \<le> dend \<and> vlh' \<le> vlh + 4 * n"
  using assms
  by (induction n bo pkt dend h vlh rule: parse_vlan_loop.induct)
     (force simp: helper_sizes split: if_splits bind_splits)+

lemma parse_vlan_loop_defined:
  "dend \<le> length pkt \<Longrightarrow> \<exists>h' vlh'. parse_vlan_loop n bo pkt dend h vlh = Some (h', vlh')"
  by (induction n arbitrary: h vlh) (simp_all add: helper_sizes load_vlan_hdr_Some)

section \<open>The contract\<close>

interpretation ethhdr_parser: header_parser 14 "parse_ethhdr bo"
  for bo
proof
  fix pkt :: bytes and nh nh' :: hdr_cursor and p :: ptr and dend :: nat and r q
  show "dend \<le> length pkt \<Longrightarrow> \<exists>r nh' q. parse_ethhdr bo pkt nh dend (Some p) = Some (r, nh', Some q)"
    using parse_vlan_loop_defined [of dend pkt VLAN_MAX_DEPTH bo
        "decode_word bo (bslice (pos nh + 12) 2 pkt)" "pos nh + 14"]
    by (auto simp: parse_ethhdr_def helper_sizes load_word_Some Let_def)
  show "parse_ethhdr bo pkt nh dend (Some p) = Some (- 1, nh', q) \<Longrightarrow> nh' = nh \<and> q = Some p"
    by (auto simp: parse_ethhdr_def Let_def split: if_splits bind_splits)
  show "dend < pos nh + 14 \<Longrightarrow> parse_ethhdr bo pkt nh dend (Some p) = Some (- 1, nh, Some p)"
    by (simp add: parse_ethhdr_def helper_sizes)
  show "parse_ethhdr bo pkt nh dend (Some p) = Some (r, nh', q) \<Longrightarrow> r \<noteq> - 1 \<Longrightarrow>
      q = Some (Some (pos nh)) \<and> pos nh + 14 \<le> dend \<and> pos nh \<le> pos nh' \<and> pos nh' \<le> dend"
    by (auto simp: parse_ethhdr_def Let_def helper_sizes dest!: parse_vlan_loop_bounds
        split: if_splits bind_splits)
qed

interpretation ip6hdr_parser: header_parser 40 "parse_ip6hdr bo"
  for bo
  by unfold_locales
     (auto simp: parse_ip6hdr_def helper_sizes load_word_cases Let_def split: if_splits bind_splits)

interpretation iphdr_parser: header_parser 20 "parse_iphdr bo"
  for bo
  by unfold_locales
     (auto simp: parse_iphdr_def helper_sizes load_word_cases Let_def split: if_splits bind_splits)

interpretation icmp6hdr_parser: header_parser 8 "parse_icmp6hdr bo"
  for bo
  by unfold_locales
     (auto simp: parse_icmp6hdr_def helper_sizes load_word_cases Let_def split: if_splits bind_splits)

interpretation icmphdr_parser: header_parser 8 "parse_icmphdr bo"
  for bo
  by unfold_locales
     (auto simp: parse_icmphdr_def helper_sizes load_word_cases Let_def split: if_splits bind_splits)

interpretation icmphdr_common_parser: header_parser 4 "parse_icmphdr_common bo"
  for bo
  by unfold_locales
     (auto simp: parse_icmphdr_common_def helper_sizes load_icmphdr_common_Some Let_def
        split: if_splits bind_splits)

interpretation ethhdr_ip6hdr: parser_chain 14 "parse_ethhdr bo" 40 "parse_ip6hdr bo"
  for bo
  by unfold_locales

interpretation ethhdr_iphdr: parser_chain 14 "parse_ethhdr bo" 20 "parse_iphdr bo"
  for bo
  by unfold_locales

section \<open>VLAN tags on the wire\<close>

text \<open>
  What the VLAN loop should compute, on the bytes of the packet in network order: the type and
  the offset behind at most \<open>n\<close> tags, stopping where a tag is cut off by the end of the packet.
\<close>

fun wire_vlan :: "nat \<Rightarrow> bytes \<Rightarrow> nat \<Rightarrow> u16 \<Rightarrow> nat \<Rightarrow> u16 \<times> nat" where
  "wire_vlan 0 pkt dend t off = (t, off)"
| "wire_vlan (Suc n) pkt dend t off =
     (if (t = ETH_P_8021Q \<or> t = ETH_P_8021AD) \<and> off + 4 \<le> dend
      then wire_vlan n pkt dend (decode_word BigEndian (bslice (off + 2) 2 pkt)) (off + 4)
      else (t, off))"

lemma htons_any: "bpf_htons bo c x = bpf_htons bo True x" "bpf_ntohs bo c x = bpf_htons bo True x"
  by (simp_all add: bpf_htons_def bpf_ntohs_def swab16_bswap16 split: byte_order.split)

lemma htons_inject: "bpf_htons bo True x = bpf_htons bo True y \<longleftrightarrow> x = y"
  by (metis ntohs_htons)

lemma decode_htons:
  "length bs = 2 \<Longrightarrow> decode_word bo bs = bpf_htons bo True (decode_word BigEndian bs)"
  using ntohs_bytes [of bs bo True] ntohs_htons [of bo True True "decode_word bo bs"]
  by (simp add: htons_any(2))

lemma parse_vlan_loop_wire:
  assumes "dend \<le> length pkt"
  shows "parse_vlan_loop n bo pkt dend (bpf_htons bo True t) vlh =
     Some (bpf_htons bo True (fst (wire_vlan n pkt dend t vlh)), snd (wire_vlan n pkt dend t vlh))"
proof (induction n arbitrary: t vlh)
  case 0
  show ?case by simp
next
  case (Suc n)
  have "vlh + 4 \<le> dend \<Longrightarrow> decode_word bo (bslice (vlh + 2) 2 pkt) =
      bpf_htons bo True (decode_word BigEndian (bslice (vlh + 2) 2 pkt))"
    using assms by (intro decode_htons) (simp add: bslice_def)
  then show ?case
    using assms Suc.IH [of "decode_word BigEndian (bslice (vlh + 2) 2 pkt)" "vlh + 4"]
    by (simp add: proto_is_vlan_def htons_inject helper_sizes load_vlan_hdr_Some not_less)
qed

lemma get_vlan_loop_parse:
  "\<not> proto_is_vlan bo h' \<Longrightarrow>
     get_vlan_loop n bo pkt dend h vlh = Some (Some (h', v)) \<longleftrightarrow>
     parse_vlan_loop n bo pkt dend h vlh = Some (h', v)"
proof (induction n arbitrary: h vlh)
  case 0
  then show ?case by simp
next
  case (Suc n)
  then show ?case
    by (auto simp: proto_is_vlan_def [symmetric] split: bind_splits)
qed

lemma ipv6_not_vlan: "\<not> proto_is_vlan bo (bpf_htons bo True ETH_P_IPV6)"
  by (simp add: proto_is_vlan_def htons_inject ETH_P_8021Q_def ETH_P_8021AD_def ETH_P_IPV6_def)

text \<open>
  C11. \<open>parse_ethhdr\<close> returns, in host byte order on either target, the EtherType behind the
  VLAN tags of the frame (at most \<open>VLAN_MAX_DEPTH\<close> of them, stopping at a truncated one), and
  leaves the cursor behind the last tag it stepped over.
\<close>

theorem parse_ethhdr_wire:
  assumes "dend \<le> length pkt" "pos nh + 14 \<le> dend"
    and "wire_vlan 5 pkt dend (decode_word BigEndian (bslice (pos nh + 12) 2 pkt)) (pos nh + 14) = (t, off)"
  shows "parse_ethhdr bo pkt nh dend (Some p) = Some (uint t, nh\<lparr>pos := off\<rparr>, Some (Some (pos nh)))"
proof -
  have "decode_word bo (bslice (pos nh + 12) 2 pkt) =
      bpf_htons bo True (decode_word BigEndian (bslice (pos nh + 12) 2 pkt))"
    using assms(1,2) by (intro decode_htons) (simp add: bslice_def)
  then show ?thesis
    using assms parse_vlan_loop_wire [OF assms(1), of 5 bo
        "decode_word BigEndian (bslice (pos nh + 12) 2 pkt)" "pos nh + 14"]
    by (simp add: parse_ethhdr_def helper_sizes load_word_Some VLAN_MAX_DEPTH_def Let_def ntohs_htons)
qed

definition tagged_ipv6 :: bytes where
  "tagged_ipv6 = replicate 12 0 @ [0x81, 0, 0, 7, 0x86, 0xDD] @ replicate 6 0 @ [58] @ replicate 33 0"

theorem parse_ethhdr_wire_witness:
  "parse_ethhdr LittleEndian tagged_ipv6 \<lparr>pos = 0\<rparr> 58 (Some None)
     = Some (0x86DD, \<lparr>pos = 18\<rparr>, Some (Some 0))"
proof -
  have "wire_vlan 5 tagged_ipv6 58
      (decode_word BigEndian (bslice (pos \<lparr>pos = 0\<rparr> + 12) 2 tagged_ipv6)) (pos \<lparr>pos = 0\<rparr> + 14)
      = (0x86DD, 18)"
    by code_simp
  from parse_ethhdr_wire [OF _ _ this, of LittleEndian None] show ?thesis
    by (simp add: tagged_ipv6_def)
qed

lemma get_ip6hdr_found:
  "get_ip6hdr bo pkt eth nh dend = Some (Some ip6h, nh') \<longleftrightarrow>
     (\<exists>h. load_word bo 2 pkt (eth + 12) = Some h \<and>
       parse_vlan_loop VLAN_MAX_DEPTH bo pkt dend h (pos nh) = Some (bpf_htons bo True ETH_P_IPV6, ip6h)) \<and>
     ip6h + 40 \<le> dend \<and> nh' = nh\<lparr>pos := ip6h + 40\<rparr>"
  unfolding get_vlan_loop_parse [OF ipv6_not_vlan, symmetric]
  by (auto simp: get_ip6hdr_def helper_sizes split: bind_splits option.splits if_splits)

lemma parse_ethhdr_found:
  "parse_ethhdr bo pkt nh dend (Some p) = Some (uint t, nh', Some (Some eth)) \<longleftrightarrow>
     pos nh + 14 \<le> dend \<and> eth = pos nh \<and>
     (\<exists>h vlh. load_word bo 2 pkt (pos nh + 12) = Some h \<and>
       parse_vlan_loop VLAN_MAX_DEPTH bo pkt dend h (pos nh + 14) = Some (bpf_htons bo True t, vlh) \<and>
       nh' = nh\<lparr>pos := vlh\<rparr>)"
proof -
  have "uint (bpf_ntohs bo False h) = uint t \<longleftrightarrow> h = bpf_htons bo True t" for h
    by (metis ntohs_htons htons_any(2) word_uint_eq_iff)
  then show ?thesis
    by (auto simp: parse_ethhdr_def helper_sizes Let_def split: bind_splits if_splits)
qed

text \<open>
  The older interface and the newer one find the same IPv6 headers: \<open>get_ethhdr\<close> followed by
  \<open>get_ip6hdr\<close> returns a header exactly when \<open>parse_ethhdr\<close> returns \<open>ETH_P_IPV6\<close> and
  \<open>parse_ip6hdr\<close> succeeds, and then both give the same pointers and leave the cursor at the same
  place.
\<close>

theorem get_ip6hdr_agrees_with_parse:
  assumes "dend \<le> length pkt"
  shows "(\<exists>nh1. get_ethhdr nh dend = (Some eth, nh1) \<and>
            get_ip6hdr bo pkt eth nh1 dend = Some (Some ip6h, nh2)) \<longleftrightarrow>
         (\<exists>nh1 r. parse_ethhdr bo pkt nh dend (Some p) = Some (uint ETH_P_IPV6, nh1, Some (Some eth)) \<and>
            parse_ip6hdr bo pkt nh1 dend (Some p') = Some (r, nh2, Some (Some ip6h)) \<and> r \<noteq> -1)"
proof -
  have "(\<exists>r. parse_ip6hdr bo pkt nh1 dend (Some p') = Some (r, nh2, Some (Some ip6h)) \<and> r \<noteq> -1) \<longleftrightarrow>
      ip6h = pos nh1 \<and> ip6h + 40 \<le> dend \<and> nh2 = nh1\<lparr>pos := ip6h + 40\<rparr>" for nh1
    using assms by (auto simp: parse_ip6hdr_def helper_sizes load_word_cases Let_def split: if_splits)
  then show ?thesis
    by (auto simp: parse_ethhdr_found get_ip6hdr_found get_ethhdr_def helper_sizes Let_def)
qed

theorem get_ip6hdr_agrees_with_parse_witness:
  "\<exists>nh1. get_ethhdr \<lparr>pos = 0\<rparr> 58 = (Some 0, nh1) \<and>
     get_ip6hdr BigEndian tagged_ipv6 0 nh1 58 = Some (Some 18, \<lparr>pos = 58\<rparr>)"
proof -
  have "parse_ethhdr BigEndian tagged_ipv6 \<lparr>pos = 0\<rparr> 58 (Some None) = Some (uint ETH_P_IPV6, \<lparr>pos = 18\<rparr>, Some (Some 0))"
    "parse_ip6hdr BigEndian tagged_ipv6 \<lparr>pos = 18\<rparr> 58 (Some None) = Some (58, \<lparr>pos = 58\<rparr>, Some (Some 18))"
    by code_simp+
  moreover have "58 \<le> length tagged_ipv6" by (simp add: tagged_ipv6_def)
  ultimately show ?thesis
    by (subst get_ip6hdr_agrees_with_parse [where p = None and p' = None]) auto
qed

text \<open>
  What \<open>parse_iphdr\<close> accepts: the cursor moves by four times the header length field, whatever
  that field is. A header length below five is accepted too, and then the cursor stays inside the
  20 bytes of the header that was parsed, at its start when the field is 0.
\<close>

theorem parse_iphdr_cursor:
  assumes "dend \<le> length pkt" "pos nh + 20 \<le> dend"
    and "ihl_field = unat ((pkt ! pos nh) AND 15)"
  shows "parse_iphdr bo pkt nh dend (Some p) =
     (if pos nh + 4 * ihl_field \<le> dend
      then Some (uint (pkt ! (pos nh + 9)), nh\<lparr>pos := pos nh + 4 * ihl_field\<rparr>, Some (Some (pos nh)))
      else Some (-1, nh, Some p))"
proof -
  have byte: "i < length pkt \<Longrightarrow> decode_word bo (bslice i 1 pkt) = pkt ! i" for i
    by (cases "drop i pkt"; cases bo)
       (auto simp: bslice_def decode_word_def Cons_nth_drop_Suc [symmetric])
  show ?thesis
    using assms(1,2)
    by (simp add: parse_iphdr_def helper_sizes load_word_Some byte [simplified] assms(3) Let_def
        mult.commute not_less)
qed

theorem parse_iphdr_cursor_witness:
  "parse_iphdr LittleEndian (replicate 9 0 @ [6] @ replicate 10 0) \<lparr>pos = 0\<rparr> 20 (Some None)
     = Some (6, \<lparr>pos = 0\<rparr>, Some (Some 0))"
  using parse_iphdr_cursor [of 20 "replicate 9 0 @ [6] @ replicate 10 0" "\<lparr>pos = 0\<rparr>" 0 LittleEndian None]
  by (simp add: nth_append)

end
