(* ===== verification/Rewrite_Helpers.thy ===== *)
theory Rewrite_Helpers
  imports Parsing_Helpers
begin

text \<open>
  The packet rewriting of \<open>src/common/rewrite_helpers.h\<close>: pushing and popping VLAN tags and
  exchanging the source and destination addresses of a header.

  \<open>bpf_xdp_adjust_head\<close> is a kernel helper, so it is a parameter: \<open>adjust delta pkt\<close> is the new
  packet, \<open>None\<close> when the helper returns an error and leaves the packet alone. What the code
  relies on is the documented effect, \<open>data\<close> moved by \<open>delta\<close> bytes (\<open>adjust_head_law\<close>): a
  positive delta drops bytes, a negative one makes room whose contents are not specified.
\<close>

definition vlan_tag_pop ::
  "byte_order \<Rightarrow> (int \<Rightarrow> bytes \<Rightarrow> bytes option) \<Rightarrow> bytes \<Rightarrow> nat \<Rightarrow> (int \<times> bytes) option" where
  "vlan_tag_pop bo adjust pkt eth =
     do { h_proto \<leftarrow> load_word bo 2 pkt (eth + 12);
          if \<not> proto_is_vlan bo h_proto then Some (-1, pkt)
          else let vlh = eth + sizeof_ethhdr in
            if vlh + sizeof_vlan_hdr > length pkt then Some (-1, pkt)
            else do {
              v \<leftarrow> load_vlan_hdr bo pkt vlh;
              let vlid = uint (bpf_ntohs bo False (h_vlan_TCI v));
              let h_proto = h_vlan_encapsulated_proto v;
              eth_cpy \<leftarrow> read_bytes sizeof_ethhdr pkt eth;
              (case adjust (int sizeof_vlan_hdr) pkt of
                 None \<Rightarrow> Some (-1, pkt)
               | Some pkt \<Rightarrow>
                   if sizeof_ethhdr > length pkt then Some (-1, pkt)
                   else do { pkt \<leftarrow> write_bytes pkt 0 eth_cpy;
                             pkt \<leftarrow> store_word bo 2 pkt 12 h_proto;
                             Some (vlid, pkt) }) } }"

definition vlan_tag_push ::
  "byte_order \<Rightarrow> (int \<Rightarrow> bytes \<Rightarrow> bytes option) \<Rightarrow> bytes \<Rightarrow> nat \<Rightarrow> int \<Rightarrow> (int \<times> bytes) option" where
  "vlan_tag_push bo adjust pkt eth vlid =
     do { eth_cpy \<leftarrow> read_bytes sizeof_ethhdr pkt eth;
          (case adjust (0 - int sizeof_vlan_hdr) pkt of
             None \<Rightarrow> Some (-1, pkt)
           | Some pkt \<Rightarrow>
               if sizeof_ethhdr > length pkt then Some (-1, pkt)
               else do {
                 pkt \<leftarrow> write_bytes pkt 0 eth_cpy;
                 let vlh = sizeof_ethhdr;
                 if vlh + sizeof_vlan_hdr > length pkt then Some (-1, pkt)
                 else do {
                   pkt \<leftarrow> store_word bo 2 pkt vlh (bpf_htons bo False (word_of_int vlid));
                   h_proto \<leftarrow> load_word bo 2 pkt 12;
                   pkt \<leftarrow> store_word bo 2 pkt (vlh + 2) (h_proto :: u16);
                   pkt \<leftarrow> store_word bo 2 pkt 12 (bpf_htons bo True ETH_P_8021Q);
                   Some (0, pkt) } }) }"

definition swap_src_dst_mac :: "bytes \<Rightarrow> nat \<Rightarrow> bytes option" where
  "swap_src_dst_mac pkt eth =
     do { h_tmp \<leftarrow> read_bytes 6 pkt (eth + 6);
          h_dest \<leftarrow> read_bytes 6 pkt eth;
          pkt \<leftarrow> write_bytes pkt (eth + 6) h_dest;
          write_bytes pkt eth h_tmp }"

definition swap_src_dst_ipv6 :: "bytes \<Rightarrow> nat \<Rightarrow> bytes option" where
  "swap_src_dst_ipv6 pkt ipv6 =
     do { tmp \<leftarrow> read_bytes 16 pkt (ipv6 + 8);
          daddr \<leftarrow> read_bytes 16 pkt (ipv6 + 24);
          pkt \<leftarrow> write_bytes pkt (ipv6 + 8) daddr;
          write_bytes pkt (ipv6 + 24) tmp }"

definition swap_src_dst_ipv4 :: "byte_order \<Rightarrow> bytes \<Rightarrow> nat \<Rightarrow> bytes option" where
  "swap_src_dst_ipv4 bo pkt iphdr =
     do { tmp \<leftarrow> load_word bo 4 pkt (iphdr + 12);
          daddr \<leftarrow> load_word bo 4 pkt (iphdr + 16);
          pkt \<leftarrow> store_word bo 4 pkt (iphdr + 12) (daddr :: u32);
          store_word bo 4 pkt (iphdr + 16) (tmp :: u32) }"

section \<open>Exchanging two fields\<close>

text \<open>
  The contract of the three exchanges: two fields of \<open>n\<close> bytes, \<open>o1\<close> and \<open>o2\<close> bytes into the
  header and apart from each other, are exchanged and every other byte stays. The client lemma is
  that exchanging twice restores the packet.
\<close>

locale field_exchange =
  fixes o1 o2 n :: nat
    and swap :: "bytes \<Rightarrow> nat \<Rightarrow> bytes option"
  assumes apart: "o1 + n \<le> o2 \<or> o2 + n \<le> o1"
    and defined: "(\<exists>q. swap pkt p = Some q) \<longleftrightarrow> p + o1 + n \<le> length pkt \<and> p + o2 + n \<le> length pkt"
    and keeps_length: "swap pkt p = Some pkt' \<Longrightarrow> length pkt' = length pkt"
    and exchanges: "swap pkt p = Some pkt' \<Longrightarrow> k < length pkt \<Longrightarrow>
      pkt' ! k = (if p + o1 \<le> k \<and> k < p + o1 + n then pkt ! (k - o1 + o2)
                  else if p + o2 \<le> k \<and> k < p + o2 + n then pkt ! (k - o2 + o1)
                  else pkt ! k)"
begin

lemma swap_twice:
  assumes "swap pkt p = Some pkt'"
  shows "swap pkt' p = Some pkt"
proof -
  have len: "length pkt' = length pkt" using assms by (rule keeps_length)
  have bounds: "p + o1 + n \<le> length pkt" "p + o2 + n \<le> length pkt"
    using defined [of pkt p] assms by auto
  then obtain q where q: "swap pkt' p = Some q"
    using defined [of pkt' p] len by auto
  have "q = pkt"
  proof (rule nth_equalityI)
    show "length q = length pkt" using keeps_length [OF q] len by simp
  next
    fix k
    assume "k < length q"
    then have k: "k < length pkt" "k < length pkt'" using keeps_length [OF q] len by auto
    show "q ! k = pkt ! k"
      using apart bounds k exchanges [OF q, of k] exchanges [OF assms, of k]
        exchanges [OF assms, of "k - o1 + o2"] exchanges [OF assms, of "k - o2 + o1"]
      by (auto split: if_splits)
  qed
  with q show ?thesis by simp
qed

end

lemma word_copy:
  "read_bytes 4 pkt off = Some bs \<Longrightarrow> store_word bo 4 q off' (decode_word bo bs :: u32) = write_bytes q off' bs"
  by (simp add: store_word_def encode_decode_word read_bytes_length)

lemma swap_src_dst_ipv4_bytes:
  "swap_src_dst_ipv4 bo pkt iphdr =
     do { tmp \<leftarrow> read_bytes 4 pkt (iphdr + 12);
          daddr \<leftarrow> read_bytes 4 pkt (iphdr + 16);
          pkt \<leftarrow> write_bytes pkt (iphdr + 12) daddr;
          write_bytes pkt (iphdr + 16) tmp }"
  by (cases "read_bytes 4 pkt (iphdr + 12)"; cases "read_bytes 4 pkt (iphdr + 16)")
     (auto simp: swap_src_dst_ipv4_def load_word_def word_copy)

lemma exchange_defined:
  "(\<exists>q. do { x \<leftarrow> read_bytes n pkt a; y \<leftarrow> read_bytes n pkt b; pkt \<leftarrow> write_bytes pkt a y; write_bytes pkt b x }
      = Some q) \<longleftrightarrow> a + n \<le> length pkt \<and> b + n \<le> length pkt"
  by (auto simp: read_bytes_def write_bytes_def)

lemma exchange_nth:
  assumes "do { x \<leftarrow> read_bytes n pkt a; y \<leftarrow> read_bytes n pkt b; pkt \<leftarrow> write_bytes pkt a y; write_bytes pkt b x }
      = Some q"
    and "a + n \<le> b \<or> b + n \<le> a"
  shows "length q = length pkt"
    and "k < length pkt \<Longrightarrow> q ! k =
      (if a \<le> k \<and> k < a + n then pkt ! (k - a + b)
       else if b \<le> k \<and> k < b + n then pkt ! (k - b + a) else pkt ! k)"
proof -
  from assms(1) obtain x y r where x: "read_bytes n pkt a = Some x" and y: "read_bytes n pkt b = Some y"
    and r: "write_bytes pkt a y = Some r" and q: "write_bytes r b x = Some q"
    by (auto split: bind_splits)
  have lx: "length x = n" and ly: "length y = n" using x y by (auto dest: read_bytes_length)
  have lr: "length r = length pkt" using r by (rule write_bytes_length)
  show "length q = length pkt" using write_bytes_length [OF q] lr by simp
  have nx: "i < n \<Longrightarrow> x ! i = pkt ! (a + i)" and ny: "i < n \<Longrightarrow> y ! i = pkt ! (b + i)" for i
    using x y by (auto simp: read_bytes_def split: if_splits)
  show "k < length pkt \<Longrightarrow> q ! k =
      (if a \<le> k \<and> k < a + n then pkt ! (k - a + b)
       else if b \<le> k \<and> k < b + n then pkt ! (k - b + a) else pkt ! k)"
    using assms(2) write_bytes_nth [OF q, of k] write_bytes_nth [OF r, of k] lr lx ly
    by (auto simp: nx ny add.commute)
qed

interpretation mac_exchange: field_exchange 6 0 6 swap_src_dst_mac
proof
  fix pkt pkt' p k
  show "(\<exists>q. swap_src_dst_mac pkt p = Some q) \<longleftrightarrow> p + 6 + 6 \<le> length pkt \<and> p + 0 + 6 \<le> length pkt"
    using exchange_defined [of 6 pkt "p + 6" p] by (simp add: swap_src_dst_mac_def)
  assume "swap_src_dst_mac pkt p = Some pkt'"
  note * = exchange_nth [OF this [unfolded swap_src_dst_mac_def], simplified]
  show "length pkt' = length pkt" by (rule *(1))
  show "k < length pkt \<Longrightarrow> pkt' ! k = (if p + 6 \<le> k \<and> k < p + 6 + 6 then pkt ! (k - 6 + 0)
      else if p + 0 \<le> k \<and> k < p + 0 + 6 then pkt ! (k - 0 + 6) else pkt ! k)"
    using *(2) [of k] by (auto simp: algebra_simps)
qed simp

interpretation ipv6_exchange: field_exchange 8 24 16 swap_src_dst_ipv6
proof
  fix pkt pkt' p k
  show "(\<exists>q. swap_src_dst_ipv6 pkt p = Some q) \<longleftrightarrow> p + 8 + 16 \<le> length pkt \<and> p + 24 + 16 \<le> length pkt"
    using exchange_defined [of 16 pkt "p + 8" "p + 24"] by (simp add: swap_src_dst_ipv6_def)
  assume "swap_src_dst_ipv6 pkt p = Some pkt'"
  note * = exchange_nth [OF this [unfolded swap_src_dst_ipv6_def], simplified]
  show "length pkt' = length pkt" by (rule *(1))
  show "k < length pkt \<Longrightarrow> pkt' ! k = (if p + 8 \<le> k \<and> k < p + 8 + 16 then pkt ! (k - 8 + 24)
      else if p + 24 \<le> k \<and> k < p + 24 + 16 then pkt ! (k - 24 + 8) else pkt ! k)"
    using *(2) [of k] by (auto simp: algebra_simps)
qed simp

interpretation ipv4_exchange: field_exchange 12 16 4 "swap_src_dst_ipv4 bo"
  for bo
proof
  fix pkt pkt' p k
  show "(\<exists>q. swap_src_dst_ipv4 bo pkt p = Some q) \<longleftrightarrow> p + 12 + 4 \<le> length pkt \<and> p + 16 + 4 \<le> length pkt"
    using exchange_defined [of 4 pkt "p + 12" "p + 16"] by (simp add: swap_src_dst_ipv4_bytes)
  assume "swap_src_dst_ipv4 bo pkt p = Some pkt'"
  note * = exchange_nth [OF this [unfolded swap_src_dst_ipv4_bytes], simplified]
  show "length pkt' = length pkt" by (rule *(1))
  show "k < length pkt \<Longrightarrow> pkt' ! k = (if p + 12 \<le> k \<and> k < p + 12 + 4 then pkt ! (k - 12 + 16)
      else if p + 16 \<le> k \<and> k < p + 16 + 4 then pkt ! (k - 16 + 12) else pkt ! k)"
    using *(2) [of k] by (auto simp: algebra_simps)
qed simp

section \<open>VLAN tags\<close>

definition adjust_head_law :: "(int \<Rightarrow> bytes \<Rightarrow> bytes option) \<Rightarrow> bool" where
  "adjust_head_law adjust \<longleftrightarrow>
     (\<forall>n pkt q. adjust (int n) pkt = Some q \<longrightarrow> n \<le> length pkt \<and> q = drop n pkt) \<and>
     (\<forall>n pkt q. adjust (- int n) pkt = Some q \<longrightarrow> (\<exists>room. length room = n \<and> q = room @ pkt))"

lemma adjust_headD:
  assumes "adjust_head_law adjust"
  shows "adjust 4 pkt = Some q \<Longrightarrow> 4 \<le> length pkt \<and> q = drop 4 pkt"
    and "adjust (- 4) pkt = Some q \<Longrightarrow> \<exists>room. length room = 4 \<and> q = room @ pkt"
  using assms [unfolded adjust_head_law_def, THEN conjunct1, rule_format, of 4]
    assms [unfolded adjust_head_law_def, THEN conjunct2, rule_format, of 4] by auto

lemma split_header:
  assumes "14 \<le> length pkt"
  obtains macs type rest where "pkt = macs @ type @ rest" "length macs = 12" "length type = 2"
proof
  show "pkt = take 12 pkt @ take 2 (drop 12 pkt) @ drop 14 pkt"
    using append_take_drop_id [of 2 "drop 12 pkt"] by (simp add: append_take_drop_id)
  show "length (take 12 pkt) = 12" "length (take 2 (drop 12 pkt)) = 2" using assms by simp_all
qed

lemma vlan_tag_push_bytes:
  assumes "adjust_head_law adjust" "adjust (- 4) (macs @ type @ rest) = Some q"
    and "length macs = 12" "length type = 2"
  shows "vlan_tag_push bo adjust (macs @ type @ rest) 0 vlid =
     Some (0, macs @ encode_word BigEndian 2 ETH_P_8021Q @ encode_word BigEndian 2 (word_of_int vlid :: u16)
              @ type @ rest)"
proof -
  obtain room where "length room = 4" and q: "q = room @ macs @ type @ rest"
    using adjust_headD(2) [OF assms(1,2)] by auto
  moreover have "encode_word bo 2 (decode_word bo type :: u16) = type"
    using assms(4) by (simp add: encode_decode_word)
  ultimately show ?thesis
    using assms(2-4)
    by (simp add: vlan_tag_push_def helper_sizes read_bytes_def write_bytes_def store_word_def
        load_word_def htons_bytes Let_def)
qed

lemma vlan_tag_pop_bytes:
  assumes "adjust_head_law adjust" "adjust 4 (macs @ tpid @ tci @ type @ rest) = Some q"
    and "length macs = 12" "length tpid = 2" "length tci = 2" "length type = 2"
    and "decode_word BigEndian tpid = ETH_P_8021Q \<or> decode_word BigEndian tpid = ETH_P_8021AD"
  shows "vlan_tag_pop bo adjust (macs @ tpid @ tci @ type @ rest) 0 =
     Some (uint (decode_word BigEndian tci :: u16), macs @ type @ rest)"
proof -
  have "proto_is_vlan bo (decode_word bo tpid)"
    using assms(4,7) decode_htons [of tpid bo] by (simp add: proto_is_vlan_def htons_inject)
  moreover have "q = drop 4 (macs @ tpid @ tci @ type @ rest)"
    using adjust_headD(1) [OF assms(1,2)] by simp
  moreover have "encode_word bo 2 (decode_word bo type :: u16) = type"
    using assms(6) by (simp add: encode_decode_word)
  ultimately show ?thesis
    using assms(2-6)
    by (simp add: vlan_tag_pop_def helper_sizes read_bytes_def write_bytes_def store_word_def
        load_word_def load_vlan_hdr_def ntohs_bytes Let_def)
qed

text \<open>
  Pushing a VLAN tag and popping it again restores the packet, on either byte order: the push
  puts the tag with the given TCI behind the MAC addresses and reports success, and the pop returns
  the low 16 bits of the value that was pushed.
\<close>

theorem vlan_push_pop:
  assumes "adjust_head_law adjust" "14 \<le> length pkt"
    and "adjust (- 4) pkt = Some q" "vlan_tag_push bo adjust pkt 0 vlid = Some (r, tagged)"
    and "adjust 4 tagged = Some q'"
  shows "r = 0 \<and>
     tagged = take 12 pkt @ encode_word BigEndian 2 ETH_P_8021Q @
       encode_word BigEndian 2 (word_of_int vlid :: u16) @ drop 12 pkt \<and>
     vlan_tag_pop bo adjust tagged 0 = Some (vlid mod 2 ^ 16, pkt)"
proof -
  obtain macs type rest where pkt: "pkt = macs @ type @ rest" "length macs = 12" "length type = 2"
    using assms(2) by (rule split_header)
  have push: "r = 0 \<and> tagged = macs @ encode_word BigEndian 2 ETH_P_8021Q @
      encode_word BigEndian 2 (word_of_int vlid :: u16) @ type @ rest"
    using vlan_tag_push_bytes [OF assms(1) _ pkt(2,3), of rest q bo vlid] assms(3,4) pkt(1) by auto
  have "vlan_tag_pop bo adjust tagged 0 = Some (uint (word_of_int vlid :: u16), pkt)"
    using vlan_tag_pop_bytes [OF assms(1) _ pkt(2) _ _ pkt(3),
        of "encode_word BigEndian 2 ETH_P_8021Q" "encode_word BigEndian 2 (word_of_int vlid :: u16)" rest q' bo]
      assms(5) push pkt(1) by (simp add: decode_encode_word)
  with push show ?thesis
    by (simp add: pkt uint_word_of_int)
qed

definition sample_adjust :: "int \<Rightarrow> bytes \<Rightarrow> bytes option" where
  "sample_adjust delta pkt =
     (if delta < 0 then Some (replicate (nat (- delta)) 0 @ pkt)
      else if nat delta \<le> length pkt then Some (drop (nat delta) pkt) else None)"

lemma sample_adjust_law: "adjust_head_law sample_adjust"
  by (auto simp: adjust_head_law_def sample_adjust_def intro: exI [of _ "[]"])

theorem vlan_push_pop_witness:
  "vlan_tag_pop LittleEndian sample_adjust
     (replicate 12 1 @ [0x81, 0x00, 0x01, 0x02] @ [8, 0, 42]) 0
   = Some (258, replicate 12 1 @ [8, 0, 42])"
proof -
  have "vlan_tag_push LittleEndian sample_adjust (replicate 12 1 @ [8, 0, 42]) 0 258
      = Some (0, replicate 12 1 @ [0x81, 0x00, 0x01, 0x02] @ [8, 0, 42])"
    "sample_adjust (- 4) (replicate 12 1 @ [8, 0, 42]) = Some (replicate 4 0 @ replicate 12 1 @ [8, 0, 42])"
    "sample_adjust 4 (replicate 12 1 @ [0x81, 0x00, 0x01, 0x02] @ [8, 0, 42])
      = Some (drop 4 (replicate 12 1 @ [0x81, 0x00, 0x01, 0x02] @ [8, 0, 42]))"
    by code_simp+
  note result = this
  have "14 \<le> length (replicate 12 1 @ [8, 0, 42 :: u8])" by simp
  from vlan_push_pop [OF sample_adjust_law this result(2,1,3), THEN conjunct2, THEN conjunct2]
  show ?thesis by (simp only:) simp
qed

text \<open>
  The three exchanges are involutions and do exchange the addresses: applied to a packet they
  leave its length alone, and applied again they restore it; what was the source MAC address is
  then the destination and the other way round.
\<close>

theorem address_exchanges_involutive:
  "(swap_src_dst_mac pkt p = Some pkt1 \<longrightarrow>
      swap_src_dst_mac pkt1 p = Some pkt \<and> length pkt1 = length pkt \<and>
      bslice p 6 pkt1 = bslice (p + 6) 6 pkt \<and> bslice (p + 6) 6 pkt1 = bslice p 6 pkt) \<and>
   (swap_src_dst_ipv4 bo pkt p = Some pkt2 \<longrightarrow>
      swap_src_dst_ipv4 bo pkt2 p = Some pkt \<and> length pkt2 = length pkt) \<and>
   (swap_src_dst_ipv6 pkt p = Some pkt3 \<longrightarrow>
      swap_src_dst_ipv6 pkt3 p = Some pkt \<and> length pkt3 = length pkt)"
proof (intro conjI impI)
  assume s: "swap_src_dst_mac pkt p = Some pkt1"
  have len: "length pkt1 = length pkt" "p + 12 \<le> length pkt"
    using mac_exchange.keeps_length [OF s] mac_exchange.defined [of pkt p] s by auto
  show "bslice p 6 pkt1 = bslice (p + 6) 6 pkt" "bslice (p + 6) 6 pkt1 = bslice p 6 pkt"
    using len mac_exchange.exchanges [OF s]
    by (auto intro!: nth_equalityI simp: bslice_def ac_simps)
qed (auto dest: mac_exchange.swap_twice ipv4_exchange.swap_twice ipv6_exchange.swap_twice
       mac_exchange.keeps_length ipv4_exchange.keeps_length ipv6_exchange.keeps_length)

theorem address_exchanges_involutive_witness:
  "swap_src_dst_mac ([1, 2, 3, 4, 5, 6, 7, 8, 9, 10, 11, 12, 8, 0]) 0
     = Some [7, 8, 9, 10, 11, 12, 1, 2, 3, 4, 5, 6, 8, 0] \<and>
   swap_src_dst_mac [7, 8, 9, 10, 11, 12, 1, 2, 3, 4, 5, 6, 8, 0] 0
     = Some [1, 2, 3, 4, 5, 6, 7, 8, 9, 10, 11, 12, 8, 0]"
proof -
  have "swap_src_dst_mac ([1, 2, 3, 4, 5, 6, 7, 8, 9, 10, 11, 12, 8, 0]) 0
     = Some [7, 8, 9, 10, 11, 12, 1, 2, 3, 4, 5, 6, 8, 0]"
    by code_simp
  with address_exchanges_involutive [of "[1, 2, 3, 4, 5, 6, 7, 8, 9, 10, 11, 12, 8, 0]" 0
      "[7, 8, 9, 10, 11, 12, 1, 2, 3, 4, 5, 6, 8, 0]" LittleEndian "[]" "[]"]
  show ?thesis by blast
qed

end
