(* ===== verification/Jhash.thy ===== *)
theory Jhash
  imports Headers
begin

text \<open>
  Jenkins' hash, \<open>src/headers/jhash.h\<close>, on 32-bit words that wrap around. The key is a byte list
  or a word list; a read past its end is \<open>None\<close>. The macros \<open>__jhash_mix\<close> and
  \<open>__jhash_final\<close> are functions on the triple \<open>(a, b, c)\<close>, one \<open>let\<close> per assignment.

  Shown: the rotation is the library's, mixing and finalising lose no information (both are
  permutations of the state), the hash never reads outside of the key, and the variants for words
  agree with the one for bytes.
\<close>

type_synonym jstate = "u32 \<times> u32 \<times> u32"

definition rol32 :: "u32 \<Rightarrow> u32 \<Rightarrow> u32" where
  "rol32 word shift = push_bit (unat shift) word OR drop_bit (unat ((- shift) AND 31)) word"

definition jhash_mix :: "jstate \<Rightarrow> jstate" where
  "jhash_mix s =
     (let (a, b, c) = s;
          a = a - c; a = a XOR rol32 c 4;  c = c + b;
          b = b - a; b = b XOR rol32 a 6;  a = a + c;
          c = c - b; c = c XOR rol32 b 8;  b = b + a;
          a = a - c; a = a XOR rol32 c 16; c = c + b;
          b = b - a; b = b XOR rol32 a 19; a = a + c;
          c = c - b; c = c XOR rol32 b 4;  b = b + a
      in (a, b, c))"

definition jhash_final :: "jstate \<Rightarrow> jstate" where
  "jhash_final s =
     (let (a, b, c) = s;
          c = c XOR b; c = c - rol32 b 14;
          a = a XOR c; a = a - rol32 c 11;
          b = b XOR a; b = b - rol32 a 25;
          c = c XOR b; c = c - rol32 b 16;
          a = a XOR c; a = a - rol32 c 4;
          b = b XOR a; b = b - rol32 a 14;
          c = c XOR b; c = c - rol32 b 24
      in (a, b, c))"

definition JHASH_INITVAL :: u32 where "JHASH_INITVAL = 0xDEADBEEF"

text \<open>The loop of \<open>jhash\<close>: \<open>k\<close> is the offset of the rest of the key.\<close>

function jhash_loop :: "byte_order \<Rightarrow> bytes \<Rightarrow> nat \<Rightarrow> u32 \<Rightarrow> jstate \<Rightarrow> (nat \<times> u32 \<times> jstate) option" where
  "jhash_loop bo key k len s =
     (if len > 12 then
        do { let (a, b, c) = s;
             x \<leftarrow> load_word bo 4 key k;
             y \<leftarrow> load_word bo 4 key (k + 4);
             z \<leftarrow> load_word bo 4 key (k + 8);
             jhash_loop bo key (k + 12) (len - 12) (jhash_mix (a + x, b + y, c + z)) }
      else Some (k, len, s))"
  by pat_completeness auto
termination
  by (relation "measure (\<lambda>(bo, key, k, len, s). unat len)")
     (simp_all add: unat_sub word_less_nat_alt word_le_nat_alt)

text \<open>
  One case label of the closing \<open>switch\<close>: it is reached when \<open>len\<close> is at least its number, and
  adds the byte before it, shifted.
\<close>

definition tail_byte :: "bytes \<Rightarrow> nat \<Rightarrow> u32 \<Rightarrow> nat \<Rightarrow> nat \<Rightarrow> u32 \<Rightarrow> u32 option" where
  "tail_byte key k len label sh acc =
     (if of_nat label \<le> len
      then do { b \<leftarrow> load_word LittleEndian 1 key (k + (label - 1));
                Some (acc + push_bit sh (ucast (b :: u8))) }
      else Some acc)"

definition jhash_tail :: "bytes \<Rightarrow> nat \<Rightarrow> u32 \<Rightarrow> jstate \<Rightarrow> jstate option" where
  "jhash_tail key k len s =
     do { let (a, b, c) = s;
          c \<leftarrow> tail_byte key k len 12 24 c;
          c \<leftarrow> tail_byte key k len 11 16 c;
          c \<leftarrow> tail_byte key k len 10 8 c;
          c \<leftarrow> tail_byte key k len 9 0 c;
          b \<leftarrow> tail_byte key k len 8 24 b;
          b \<leftarrow> tail_byte key k len 7 16 b;
          b \<leftarrow> tail_byte key k len 6 8 b;
          b \<leftarrow> tail_byte key k len 5 0 b;
          a \<leftarrow> tail_byte key k len 4 24 a;
          a \<leftarrow> tail_byte key k len 3 16 a;
          a \<leftarrow> tail_byte key k len 2 8 a;
          a \<leftarrow> tail_byte key k len 1 0 a;
          Some (if 1 \<le> len then jhash_final (a, b, c) else (a, b, c)) }"

definition jhash :: "byte_order \<Rightarrow> bytes \<Rightarrow> u32 \<Rightarrow> u32 \<Rightarrow> u32 option" where
  "jhash bo key len initval =
     do { let i = JHASH_INITVAL + len + initval;
          (k, len, s) \<leftarrow> jhash_loop bo key 0 len (i, i, i);
          (a, b, c) \<leftarrow> jhash_tail key k len s;
          Some c }"

definition nth_opt :: "'a list \<Rightarrow> nat \<Rightarrow> 'a option" where
  "nth_opt xs i = (if i < length xs then Some (xs ! i) else None)"

function jhash2_loop :: "u32 list \<Rightarrow> nat \<Rightarrow> u32 \<Rightarrow> jstate \<Rightarrow> (nat \<times> u32 \<times> jstate) option" where
  "jhash2_loop key k len s =
     (if len > 3 then
        do { let (a, b, c) = s;
             x \<leftarrow> nth_opt key k;
             y \<leftarrow> nth_opt key (k + 1);
             z \<leftarrow> nth_opt key (k + 2);
             jhash2_loop key (k + 3) (len - 3) (jhash_mix (a + x, b + y, c + z)) }
      else Some (k, len, s))"
  by pat_completeness auto
termination
  by (relation "measure (\<lambda>(key, k, len, s). unat len)")
     (simp_all add: unat_sub word_less_nat_alt word_le_nat_alt)

definition jhash2 :: "u32 list \<Rightarrow> u32 \<Rightarrow> u32 \<Rightarrow> u32 option" where
  "jhash2 key len initval =
     do { let i = JHASH_INITVAL + push_bit 2 len + initval;
          (k, len, s) \<leftarrow> jhash2_loop key 0 len (i, i, i);
          let (a, b, c) = s;
          c \<leftarrow> (if 3 \<le> len then do { x \<leftarrow> nth_opt key (k + 2); Some (c + x) } else Some c);
          b \<leftarrow> (if 2 \<le> len then do { x \<leftarrow> nth_opt key (k + 1); Some (b + x) } else Some b);
          a \<leftarrow> (if 1 \<le> len then do { x \<leftarrow> nth_opt key k; Some (a + x) } else Some a);
          let (a, b, c) = (if 1 \<le> len then jhash_final (a, b, c) else (a, b, c));
          Some c }"

definition jhash_nwords :: "u32 \<Rightarrow> u32 \<Rightarrow> u32 \<Rightarrow> u32 \<Rightarrow> u32" where
  "jhash_nwords a b c initval =
     (let a = a + initval; b = b + initval; c = c + initval;
          (a, b, c) = jhash_final (a, b, c)
      in c)"

definition jhash_3words :: "u32 \<Rightarrow> u32 \<Rightarrow> u32 \<Rightarrow> u32 \<Rightarrow> u32" where
  "jhash_3words a b c initval = jhash_nwords a b c (initval + JHASH_INITVAL + push_bit 2 3)"

definition jhash_2words :: "u32 \<Rightarrow> u32 \<Rightarrow> u32 \<Rightarrow> u32" where
  "jhash_2words a b initval = jhash_nwords a b 0 (initval + JHASH_INITVAL + push_bit 2 2)"

definition jhash_1word :: "u32 \<Rightarrow> u32 \<Rightarrow> u32" where
  "jhash_1word a initval = jhash_nwords a 0 0 (initval + JHASH_INITVAL + push_bit 2 1)"

declare jhash_loop.simps [simp del] jhash2_loop.simps [simp del]

section \<open>Mixing is reversible\<close>

text \<open>The steps of both macros undone, last one first.\<close>

definition jhash_unmix :: "jstate \<Rightarrow> jstate" where
  "jhash_unmix s =
     (let (a, b, c) = s;
          b = b - a; c = c XOR rol32 b 4;  c = c + b;
          a = a - c; b = b XOR rol32 a 19; b = b + a;
          c = c - b; a = a XOR rol32 c 16; a = a + c;
          b = b - a; c = c XOR rol32 b 8;  c = c + b;
          a = a - c; b = b XOR rol32 a 6;  b = b + a;
          c = c - b; a = a XOR rol32 c 4;  a = a + c
      in (a, b, c))"

definition jhash_unfinal :: "jstate \<Rightarrow> jstate" where
  "jhash_unfinal s =
     (let (a, b, c) = s;
          c = c + rol32 b 24; c = c XOR b;
          b = b + rol32 a 14; b = b XOR a;
          a = a + rol32 c 4;  a = a XOR c;
          c = c + rol32 b 16; c = c XOR b;
          b = b + rol32 a 25; b = b XOR a;
          a = a + rol32 c 11; a = a XOR c;
          c = c + rol32 b 14; c = c XOR b
      in (a, b, c))"

lemma xor_cancel: "(x XOR y) XOR y = (x :: u32)"
  by (simp add: xor.assoc)

lemma mix_unmix: "jhash_mix (jhash_unmix s) = s"
  by (cases s) (simp add: jhash_mix_def jhash_unmix_def Let_def xor_cancel)

lemma unfinal_final: "jhash_unfinal (jhash_final s) = s"
  by (cases s) (simp add: jhash_final_def jhash_unfinal_def Let_def xor_cancel)

lemma final_unfinal: "jhash_final (jhash_unfinal s) = s"
  by (cases s) (simp add: jhash_final_def jhash_unfinal_def Let_def xor_cancel)

lemma bij_of_right_inverse:
  fixes f g :: "jstate \<Rightarrow> jstate"
  assumes "\<And>s. f (g s) = s"
  shows "bij f"
proof -
  have "surj f" by (rule surjI [where g = f and f = g]) (rule assms)
  then show ?thesis by (simp add: bij_def finite_UNIV_surj_inj)
qed

lemma rol32_back_shift:
  fixes s :: u32
  assumes "unat s < 32"
  shows "unat ((- s) AND 31) = (if unat s = 0 then 0 else 32 - unat s)"
proof -
  have "(- s) AND 31 = (- s) mod 32"
    using take_bit_eq_mask [of 5 "- s"] by (simp add: mask_eq_exp_minus_1 take_bit_eq_mod)
  then have "uint ((- s) AND 31) = uint (- s) mod 32"
    by (simp add: uint_mod)
  also have "\<dots> = (- uint s) mod 32"
    by (simp add: uint_word_ariths mod_mod_cancel)
  also have "\<dots> = (if uint s = 0 then 0 else 32 - uint s)"
  proof -
    have "int (unat s) < 32" using assms by (simp del: of_nat_unat)
    then have "uint s < 32" by (simp only: of_nat_unat)
    moreover have "0 \<le> uint s" by simp
    ultimately show ?thesis by (auto simp: mod_minus_eq zmod_zminus1_eq_if)
  qed
  finally have "int (unat ((- s) AND 31)) = (if int (unat s) = 0 then 0 else 32 - int (unat s))"
    by (simp only: of_nat_unat)
  then show ?thesis using assms by (simp del: of_nat_unat split: if_splits)
qed

lemma rol32_rotl: "unat s < 32 \<Longrightarrow> rol32 w s = word_rotl (unat s) w"
proof (rule bit_word_eqI)
  fix n
  assume s: "unat s < 32" and "n < LENGTH(32)"
  then have n: "n < 32" by simp
  then have idx: "(n + 32 - unat s) mod 32 = (if unat s \<le> n then n - unat s else 32 + n - unat s)"
    using s by (auto simp: le_mod_geq)
  have high: "\<not> bit w (32 + n - unat s)" if "unat s \<le> n"
    using that by (auto dest!: bit_imp_le_length)
  show "bit (rol32 w s) n = bit (word_rotl (unat s) w) n"
    using s n high by (auto simp: rol32_def rol32_back_shift [OF s] bit_simps idx)
qed

text \<open>
  Mixing loses nothing: \<open>__jhash_mix\<close> and \<open>__jhash_final\<close> are permutations of the hash state,
  so two different states never collide in them.
\<close>

theorem jhash_mixing_bijective: "bij jhash_mix \<and> bij jhash_final"
  using bij_of_right_inverse [of jhash_mix jhash_unmix] bij_of_right_inverse [of jhash_final jhash_unfinal]
  by (simp add: mix_unmix final_unfinal)

section \<open>Reads stay inside the key\<close>

lemma jhash_loop_defined:
  assumes "k + unat len \<le> length key"
  shows "\<exists>k' len' s'. jhash_loop bo key k len s = Some (k', len', s') \<and> len' \<le> 12 \<and>
     k' + unat len' = k + unat len"
  using assms
proof (induction bo key k len s rule: jhash_loop.induct)
  case (1 bo key k len s)
  show ?case
  proof (cases "len > 12")
    case False
    then have "len \<le> 12" by simp
    with False show ?thesis by (cases s) (simp add: jhash_loop.simps [of bo key k len])
  next
    case True
    obtain a b c where s: "s = (a, b, c)" by (cases s)
    have len: "unat (len - 12) = unat len - 12" "12 < unat len"
      using True by (simp_all add: unat_sub word_less_nat_alt word_le_nat_alt)
    obtain x y z :: u32 where "load_word bo 4 key k = Some x"
      "load_word bo 4 key (k + 4) = Some y" "load_word bo 4 key (k + 8) = Some z"
      using load_word_defined [of k 4 key bo] load_word_defined [of "k + 4" 4 key bo]
        load_word_defined [of "k + 8" 4 key bo] "1.prems" len by auto
    moreover from this have "\<exists>k' len' s'.
       jhash_loop bo key (k + 12) (len - 12) (jhash_mix (a + x, b + y, c + z)) = Some (k', len', s') \<and>
       len' \<le> 12 \<and> k' + unat len' = k + 12 + unat (len - 12)"
      using "1.IH" [OF True s [symmetric]] "1.prems" len s by simp
    ultimately show ?thesis
      using True len by (simp add: jhash_loop.simps [of bo key k len] s)
  qed
qed

lemma tail_byte_defined:
  assumes "k + unat len \<le> length key" "1 \<le> label" "label \<le> 12"
  shows "\<exists>acc'. tail_byte key k len label sh acc = Some acc'"
proof (cases "of_nat label \<le> len")
  case True
  then have "label \<le> unat len"
    using assms(3) by (simp add: word_le_nat_alt unat_of_nat)
  then show ?thesis
    using True assms load_word_defined [of "k + (label - 1)" 1 key LittleEndian, where 'a = 8]
    by (auto simp: tail_byte_def)
qed (simp add: tail_byte_def)

lemma bind_defined: "\<exists>x. m = Some x \<Longrightarrow> (\<And>x. m = Some x \<Longrightarrow> \<exists>y. f x = Some y) \<Longrightarrow> \<exists>y. Option.bind m f = Some y"
  by auto

lemma jhash_tail_defined:
  "k + unat len \<le> length key \<Longrightarrow> \<exists>s'. jhash_tail key k len s = Some s'"
  unfolding jhash_tail_def Let_def
  by (cases s, simp only: prod.case) (intro bind_defined tail_byte_defined; (blast | simp))



section \<open>Words and bytes\<close>

definition word_bytes :: "u32 list \<Rightarrow> bytes" where
  "word_bytes ws = concat (map (le_bytes 4) ws)"

lemma length_word_bytes [simp]: "length (word_bytes ws) = 4 * length ws"
  by (induction ws) (simp_all add: word_bytes_def)

lemma drop_word_bytes: "drop (4 * k) (word_bytes ws) = word_bytes (drop k ws)"
proof (induction k arbitrary: ws)
  case (Suc k)
  then show ?case by (cases ws) (simp_all add: word_bytes_def)
qed simp

lemma drop_word_bytes_add: "drop (4 * k + j) (word_bytes ws) = drop j (word_bytes (drop k ws))"
  by (metis add.commute drop_drop drop_word_bytes)

lemma take_word_bytes: "ws \<noteq> [] \<Longrightarrow> j \<le> 4 \<Longrightarrow> take j (word_bytes ws) = take j (le_bytes 4 (hd ws))"
  by (cases ws) (simp_all add: word_bytes_def)

lemma load_word_bytes:
  "k < length ws \<Longrightarrow> load_word LittleEndian 4 (word_bytes ws) (4 * k) = Some (ws ! k)"
  by (simp add: load_word_def read_bytes_def drop_word_bytes take_word_bytes hd_drop_conv_nth
      decode_word_def le_word_le_bytes)

lemma load_byte_of_word:
  assumes "k < length ws" "j < 4"
  shows "load_word LittleEndian 1 (word_bytes ws) (4 * k + j) = Some (ucast (drop_bit (8 * j) (ws ! k)) :: u8)"
proof -
  have "drop k ws = ws ! k # drop (Suc k) ws" using assms(1) by (simp add: Cons_nth_drop_Suc)
  then have "drop (4 * k + j) (word_bytes ws) = drop j (le_bytes 4 (ws ! k)) @ word_bytes (drop (Suc k) ws)"
    using assms(2) by (simp add: drop_word_bytes_add) (simp add: word_bytes_def)
  moreover have "drop j (le_bytes 4 (ws ! k)) = le_bytes 4 (ws ! k) ! j # drop (Suc j) (le_bytes 4 (ws ! k))"
    using assms(2) by (simp add: Cons_nth_drop_Suc)
  ultimately show ?thesis
    using assms by (simp add: load_word_def read_bytes_def decode_word_def nth_le_bytes)
qed

lemma or_eq_plus: "x AND y = 0 \<Longrightarrow> (x :: u32) OR y = x + y"
  by (rule disjunctive_add [symmetric]) (metis bit_0_eq bit_and_iff bot_apply bot_bool_def)

lemma word_from_bytes:
  "push_bit 24 (ucast (ucast (drop_bit 24 w) :: u8)) + push_bit 16 (ucast (ucast (drop_bit 16 w) :: u8))
     + push_bit 8 (ucast (ucast (drop_bit 8 w) :: u8)) + push_bit 0 (ucast (ucast w :: u8)) = (w :: u32)"
proof -
  let ?a = "push_bit 24 (ucast (ucast (drop_bit 24 w) :: u8)) :: u32"
  let ?b = "push_bit 16 (ucast (ucast (drop_bit 16 w) :: u8)) :: u32"
  let ?c = "push_bit 8 (ucast (ucast (drop_bit 8 w) :: u8)) :: u32"
  let ?d = "push_bit 0 (ucast (ucast w :: u8)) :: u32"
  have "?a AND ?b = 0" "(?a OR ?b) AND ?c = 0" "((?a OR ?b) OR ?c) AND ?d = 0"
    by (rule bit_word_eqI, simp add: bit_simps, arith?)+
  then have "?a + ?b + ?c + ?d = ((?a OR ?b) OR ?c) OR ?d"
    by (simp add: or_eq_plus)
  also have "\<dots> = w"
  proof (rule bit_word_eqI)
    fix n
    assume n: "n < LENGTH(32)"
    consider "n < 8" | "8 \<le> n" "n < 16" | "16 \<le> n" "n < 24" | "24 \<le> n" by linarith
    then show "bit (((?a OR ?b) OR ?c) OR ?d) n = bit w n"
      using n by cases (auto simp: bit_simps)
  qed
  finally show ?thesis .
qed

lemma word_from_bytes_acc:
  "acc + push_bit 24 (ucast (ucast (drop_bit 24 w) :: u8)) + push_bit 16 (ucast (ucast (drop_bit 16 w) :: u8))
     + push_bit 8 (ucast (ucast (drop_bit 8 w) :: u8)) + ucast (ucast w :: u8) = acc + (w :: u32)"
  using word_from_bytes [of w] by (simp add: add.assoc)

lemma of_nat_le_u32: "m < 2 ^ 32 \<Longrightarrow> n < 2 ^ 32 \<Longrightarrow> (of_nat m :: u32) \<le> of_nat n \<longleftrightarrow> m \<le> n"
  by (simp add: word_le_nat_alt unat_of_nat)

lemma tail_byte_in:
  assumes "label = 4 * i + j + 1" "j < 4" "i < n" "n \<le> 3" "k + n \<le> length ws"
  shows "tail_byte (word_bytes ws) (4 * k) (of_nat (4 * n)) label sh acc =
     Some (acc + push_bit sh (ucast (ucast (drop_bit (8 * j) (ws ! (k + i))) :: u8)))"
proof -
  have "(of_nat label :: u32) \<le> of_nat (4 * n)" using assms by (subst of_nat_le_u32) auto
  moreover have "load_word LittleEndian 1 (word_bytes ws) (4 * k + (label - 1))
      = Some (ucast (drop_bit (8 * j) (ws ! (k + i))) :: u8)"
    using load_byte_of_word [of "k + i" ws j] assms by (simp add: algebra_simps)
  ultimately show ?thesis by (simp add: tail_byte_def del: of_nat_mult)
qed

lemma tail_byte_out:
  assumes "4 * n < label" "label \<le> 12" "n \<le> 3"
  shows "tail_byte key k (of_nat (4 * n)) label sh acc = Some acc"
proof -
  have "\<not> (of_nat label :: u32) \<le> of_nat (4 * n)" using assms by (subst of_nat_le_u32) auto
  then show ?thesis by (simp add: tail_byte_def del: of_nat_mult)
qed

lemma tail_word:
  assumes "n \<le> 3" "k + n \<le> length ws" "i < 3"
  shows "Option.bind (tail_byte (word_bytes ws) (4 * k) (of_nat (4 * n)) (4 * i + 4) 24 acc) (\<lambda>acc.
     Option.bind (tail_byte (word_bytes ws) (4 * k) (of_nat (4 * n)) (4 * i + 3) 16 acc) (\<lambda>acc.
     Option.bind (tail_byte (word_bytes ws) (4 * k) (of_nat (4 * n)) (4 * i + 2) 8 acc) (\<lambda>acc.
     Option.bind (tail_byte (word_bytes ws) (4 * k) (of_nat (4 * n)) (4 * i + 1) 0 acc) f))) =
     f (if i < n then acc + ws ! (k + i) else acc)"
proof (cases "i < n")
  case True
  note in_word = tail_byte_in [OF _ _ True assms(1,2)]
  have b: "tail_byte (word_bytes ws) (4 * k) (of_nat (4 * n)) (4 * i + 4) sh acc =
      Some (acc + push_bit sh (ucast (ucast (drop_bit 24 (ws ! (k + i))) :: u8)))"
    "tail_byte (word_bytes ws) (4 * k) (of_nat (4 * n)) (4 * i + 3) sh acc =
      Some (acc + push_bit sh (ucast (ucast (drop_bit 16 (ws ! (k + i))) :: u8)))"
    "tail_byte (word_bytes ws) (4 * k) (of_nat (4 * n)) (4 * i + 2) sh acc =
      Some (acc + push_bit sh (ucast (ucast (drop_bit 8 (ws ! (k + i))) :: u8)))"
    "tail_byte (word_bytes ws) (4 * k) (of_nat (4 * n)) (4 * i + 1) sh acc =
      Some (acc + push_bit sh (ucast (ucast (ws ! (k + i)) :: u8)))" for sh acc
    using in_word [of "4 * i + 4" 3 sh acc] in_word [of "4 * i + 3" 2 sh acc]
      in_word [of "4 * i + 2" 1 sh acc] in_word [of "4 * i + 1" 0 sh acc]
    by (simp_all del: of_nat_mult)
  show ?thesis
    using True by (simp only: b bind.bind_lunit push_bit_0_id id_apply word_from_bytes_acc if_True)
next
  case False
  then show ?thesis using assms by (simp add: tail_byte_out del: of_nat_mult)
qed

lemma jhash_tail_words:
  assumes "n \<le> 3" "k + n \<le> length ws"
  shows "jhash_tail (word_bytes ws) (4 * k) (of_nat (4 * n)) (a, b, c) =
     Some (let s = (if 0 < n then a + ws ! k else a, if 1 < n then b + ws ! (k + 1) else b,
                    if 2 < n then c + ws ! (k + 2) else c)
           in if 0 < n then jhash_final s else s)"
proof -
  let ?ws = "word_bytes ws" and ?len = "of_nat (4 * n) :: u32"
  have "(1 :: u32) \<le> of_nat (4 * n) \<longleftrightarrow> 0 < n"
    using of_nat_le_u32 [of 1 "4 * n"] assms(1) by auto
  note one = this
  have two: "Option.bind (tail_byte ?ws (4 * k) ?len 12 24 acc) (\<lambda>acc.
     Option.bind (tail_byte ?ws (4 * k) ?len 11 16 acc) (\<lambda>acc.
     Option.bind (tail_byte ?ws (4 * k) ?len 10 8 acc) (\<lambda>acc.
     Option.bind (tail_byte ?ws (4 * k) ?len 9 0 acc) f))) =
     f (if 2 < n then acc + ws ! (k + 2) else acc)" for acc and f :: "u32 \<Rightarrow> (u32 \<times> u32 \<times> u32) option"
    using tail_word [OF assms, of 2 acc f] by (simp del: of_nat_mult)
  have mid: "Option.bind (tail_byte ?ws (4 * k) ?len 8 24 acc) (\<lambda>acc.
     Option.bind (tail_byte ?ws (4 * k) ?len 7 16 acc) (\<lambda>acc.
     Option.bind (tail_byte ?ws (4 * k) ?len 6 8 acc) (\<lambda>acc.
     Option.bind (tail_byte ?ws (4 * k) ?len 5 0 acc) f))) =
     f (if 1 < n then acc + ws ! (k + 1) else acc)" for acc and f :: "u32 \<Rightarrow> (u32 \<times> u32 \<times> u32) option"
    using tail_word [OF assms, of 1 acc f] by (simp del: of_nat_mult)
  have low: "Option.bind (tail_byte ?ws (4 * k) ?len 4 24 acc) (\<lambda>acc.
     Option.bind (tail_byte ?ws (4 * k) ?len 3 16 acc) (\<lambda>acc.
     Option.bind (tail_byte ?ws (4 * k) ?len 2 8 acc) (\<lambda>acc.
     Option.bind (tail_byte ?ws (4 * k) ?len 1 0 acc) f))) =
     f (if 0 < n then acc + ws ! k else acc)" for acc and f :: "u32 \<Rightarrow> (u32 \<times> u32 \<times> u32) option"
    using tail_word [OF assms, of 0 acc f] by (simp only: mult_0_right add_0 add_0_right zero_less_numeral simp_thms)
  show ?thesis by (simp only: jhash_tail_def prod.case two mid low one Let_def if_distrib [of Some])
qed

lemma loops_agree:
  assumes "4 * n < 2 ^ 32" "k + n \<le> length ws"
  shows "\<exists>k' n' s'. n' \<le> 3 \<and> k' + n' \<le> length ws \<and>
     jhash2_loop ws k (of_nat n) s = Some (k', of_nat n', s') \<and>
     jhash_loop LittleEndian (word_bytes ws) (4 * k) (of_nat (4 * n)) s = Some (4 * k', of_nat (4 * n'), s')"
  using assms
proof (induction n arbitrary: k s rule: less_induct)
  case (less n)
  have g2: "(3 :: u32) < of_nat n \<longleftrightarrow> 3 < n" and g1: "(12 :: u32) < of_nat (4 * n) \<longleftrightarrow> 3 < n"
    using less.prems(1) by (auto simp: word_less_nat_alt unat_of_nat simp del: of_nat_mult)
  show ?case
  proof (cases "3 < n")
    case False
    then show ?thesis
      using less.prems g1 g2
      by (intro exI [of _ k] exI [of _ n] exI [of _ s])
         (simp add: jhash2_loop.simps [of ws k] jhash_loop.simps [of _ _ "4 * k"] del: of_nat_mult)
  next
    case True
    obtain a b c where s: "s = (a, b, c)" by (cases s)
    let ?s = "jhash_mix (a + ws ! k, b + ws ! (k + 1), c + ws ! (k + 2))"
    have "of_nat n - (3 :: u32) = of_nat (n - 3)" "of_nat (4 * n) - (12 :: u32) = of_nat (4 * (n - 3))"
      using True by (simp_all add: of_nat_diff algebra_simps)
    moreover have "load_word LittleEndian 4 (word_bytes ws) (4 * k) = Some (ws ! k)"
      "load_word LittleEndian 4 (word_bytes ws) (4 * k + 4) = Some (ws ! (k + 1))"
      "load_word LittleEndian 4 (word_bytes ws) (4 * k + 8) = Some (ws ! (k + 2))"
      using load_word_bytes [of k ws] load_word_bytes [of "k + 1" ws] load_word_bytes [of "k + 2" ws]
        True less.prems(2) by (simp_all add: algebra_simps)
    moreover have "nth_opt ws k = Some (ws ! k)" "nth_opt ws (k + 1) = Some (ws ! (k + 1))"
      "nth_opt ws (k + 2) = Some (ws ! (k + 2))"
      using True less.prems(2) by (simp_all add: nth_opt_def)
    ultimately have step:
      "jhash2_loop ws k (of_nat n) s = jhash2_loop ws (k + 3) (of_nat (n - 3)) ?s"
      "jhash_loop LittleEndian (word_bytes ws) (4 * k) (of_nat (4 * n)) s
        = jhash_loop LittleEndian (word_bytes ws) (4 * (k + 3)) (of_nat (4 * (n - 3))) ?s"
      using True g1 g2
      by (simp_all add: jhash2_loop.simps [of ws k] jhash_loop.simps [of _ _ "4 * k"] s
          add.commute [of 3 k] distrib_left del: of_nat_mult of_nat_diff)
    show ?thesis unfolding step using True less.prems by (intro less.IH) auto
  qed
qed

text \<open>
  C18. The variants for words agree with the one for bytes: on a little-endian target \<open>jhash2\<close> of an
  array of words is \<open>jhash\<close> of its bytes, and \<open>jhash_3words\<close>, \<open>jhash_2words\<close> and \<open>jhash_1word\<close> are
  \<open>jhash2\<close> of their arguments.
\<close>

theorem jhash_variants_agree:
  assumes "4 * length ws < 2 ^ 32"
  shows "jhash LittleEndian (word_bytes ws) (of_nat (4 * length ws)) initval
           = jhash2 ws (of_nat (length ws)) initval \<and>
     jhash2 [x, y, z] 3 initval = Some (jhash_3words x y z initval) \<and>
     jhash2 [x, y] 2 initval = Some (jhash_2words x y initval) \<and>
     jhash2 [x] 1 initval = Some (jhash_1word x initval)"
proof -
  let ?i = "JHASH_INITVAL + of_nat (4 * length ws) + initval"
  obtain k n a b c where n: "n \<le> 3" "k + n \<le> length ws"
    and l2: "jhash2_loop ws 0 (of_nat (length ws)) (?i, ?i, ?i) = Some (k, of_nat n, a, b, c)"
    and l1: "jhash_loop LittleEndian (word_bytes ws) (4 * 0) (of_nat (4 * length ws)) (?i, ?i, ?i)
      = Some (4 * k, of_nat (4 * n), a, b, c)"
    using loops_agree [OF assms, of 0 ws "(?i, ?i, ?i)"] by auto
  have shift: "push_bit 2 (of_nat (length ws) :: u32) = of_nat (4 * length ws)"
    by (simp add: push_bit_eq_mult)
  have "jhash LittleEndian (word_bytes ws) (of_nat (4 * length ws)) initval
      = jhash2 ws (of_nat (length ws)) initval"
    using n l1 l2 jhash_tail_words [OF n, of a b c] of_nat_le_u32 [of 3 n] of_nat_le_u32 [of 2 n]
      of_nat_le_u32 [of 1 n]
    by (simp add: jhash_def jhash2_def Let_def shift nth_opt_def del: of_nat_mult split: prod.split)
  moreover have "\<not> (3 :: u32) < 3" "\<not> (3 :: u32) < 2" "\<not> (3 :: u32) < 1" "(2 :: u32) \<le> 3" "(1 :: u32) \<le> 3"
    "\<not> (3 :: u32) \<le> 2" "(1 :: u32) \<le> 2" "\<not> (3 :: u32) \<le> 1" "\<not> (2 :: u32) \<le> 1"
    by (code_simp | simp)+
  ultimately show ?thesis
    by (simp add: jhash2_def jhash2_loop.simps nth_opt_def jhash_3words_def jhash_2words_def
        jhash_1word_def jhash_nwords_def Let_def push_bit_eq_mult ac_simps
        split: prod.split)
qed

theorem jhash_variants_agree_witness:
  "jhash LittleEndian (word_bytes [1, 2, 3, 4, 5]) 20 7 = jhash2 [1, 2, 3, 4, 5] 5 7"
  using jhash_variants_agree [of "[1, 2, 3, 4, 5]" 7] by simp

end
