(* ===== verification/Process.thy ===== *)
theory Process
  imports Prelude
begin

text \<open>
  How the user-space programs of \<open>src/loader\<close> and \<open>src/common\<close> run: a function that may call the
  operating system takes the state of the world and returns an outcome and the new state. An
  outcome is a normal return, an \<open>exit\<close> of the process with a status, a system call that never
  returns, or a fault: an access outside the objects of the program, after which nothing is described. The exit codes are those of
  \<open>src/common/common_defines.h\<close>.

  Character arrays of fixed size are lists of that length. \<open>strncpy\<close> is the library's: it fills the
  rest with NUL characters and leaves no terminator when the source does not fit; \<open>c_string\<close> reads
  such an array back and is \<open>None\<close> when no terminator is in it.
\<close>

section \<open>Outcomes\<close>

datatype 'a outcome = Return 'a | Exit int | Fault | Blocked

type_synonym ('w, 'a) prog = "'w \<Rightarrow> 'a outcome \<times> 'w"

definition ret :: "'a \<Rightarrow> ('w, 'a) prog" where
  "ret a = (\<lambda>w. (Return a, w))"

definition exit_with :: "int \<Rightarrow> ('w, 'a) prog" where
  "exit_with c = (\<lambda>w. (Exit c, w))"

definition fault :: "('w, 'a) prog" where
  "fault = (\<lambda>w. (Fault, w))"

definition call :: "('w \<Rightarrow> 'a \<times> 'w) \<Rightarrow> ('w, 'a) prog" where
  "call f = (\<lambda>w. case f w of (a, w') \<Rightarrow> (Return a, w'))"

definition andthen :: "('w, 'a) prog \<Rightarrow> ('a \<Rightarrow> ('w, 'b) prog) \<Rightarrow> ('w, 'b) prog" where
  "andthen m f = (\<lambda>w. case m w of
       (Return a, w') \<Rightarrow> f a w'
     | (Exit c, w') \<Rightarrow> (Exit c, w')
     | (Fault, w') \<Rightarrow> (Fault, w')
     | (Blocked, w') \<Rightarrow> (Blocked, w'))"

definition from_option :: "'a option \<Rightarrow> ('w, 'a) prog" where
  "from_option x = (case x of None \<Rightarrow> fault | Some a \<Rightarrow> ret a)"

named_theorems prog_simps \<open>evaluation of programs\<close>

lemma prog_eval [prog_simps]:
  "ret a w = (Return a, w)"
  "exit_with c w = (Exit c, w)"
  "fault w = (Fault, w)"
  "call f w = (case f w of (a, w') \<Rightarrow> (Return a, w'))"
  "from_option None = fault"
  "from_option (Some a) = ret a"
  by (simp_all add: ret_def exit_with_def fault_def call_def from_option_def)

lemma andthen_simps [simp]:
  "andthen (ret a) f = f a"
  "andthen (exit_with c) f = exit_with c"
  "andthen fault f = fault"
  by (simp_all add: andthen_def ret_def exit_with_def fault_def)

lemma andthen_assoc: "andthen (andthen m f) g = andthen m (\<lambda>a. andthen (f a) g)"
  by (rule ext) (simp add: andthen_def split: prod.split outcome.split)

lemma andthen_cong: "(\<And>a. f a = g a) \<Longrightarrow> andthen m f = andthen m g"
  by (metis ext)

lemma andthen_if: "andthen (if b then m else n) f = (if b then andthen m f else andthen n f)"
  by simp

lemma andthen_ret [simp]: "andthen m ret = m"
  by (rule ext) (simp add: andthen_def ret_def split: prod.split outcome.split)

lemma andthen_return [prog_simps]: "m w = (Return a, w') \<Longrightarrow> andthen m f w = f a w'"
  by (simp add: andthen_def)

lemma andthen_exit [prog_simps]: "m w = (Exit c, w') \<Longrightarrow> andthen m f w = (Exit c, w')"
  by (simp add: andthen_def)

lemma andthen_fault [prog_simps]: "m w = (Fault, w') \<Longrightarrow> andthen m f w = (Fault, w')"
  by (simp add: andthen_def)

lemma andthen_eq_Return:
  "andthen m f w = (Return b, w'') \<longleftrightarrow> (\<exists>a w'. m w = (Return a, w') \<and> f a w' = (Return b, w''))"
  by (auto simp: andthen_def split: prod.splits outcome.splits)

text \<open>Programs that do not leave their objects, whatever the state.\<close>

definition safe :: "('w, 'a) prog \<Rightarrow> bool" where
  "safe m \<longleftrightarrow> (\<forall>w. fst (m w) \<noteq> Fault)"

lemma safe_intros:
  "safe (ret a)" "safe (exit_with c)" "safe (call g)" "safe (\<lambda>w. (Return (h w), w))"
  by (simp_all add: safe_def prog_simps split: prod.split)

lemma safe_andthen:
  assumes "safe m" "\<And>a. safe (f a)"
  shows "safe (andthen m f)"
  unfolding safe_def
proof
  fix w
  have "fst (m w) \<noteq> Fault" "fst (f a w') \<noteq> Fault" for a w' using assms by (simp_all add: safe_def)
  then show "fst (andthen m f w) \<noteq> Fault" by (auto simp: andthen_def split: prod.split outcome.split)
qed

text \<open>What holds whenever a program returns normally.\<close>

definition wlp :: "('w, 'a) prog \<Rightarrow> ('a \<Rightarrow> 'w \<Rightarrow> bool) \<Rightarrow> 'w \<Rightarrow> bool" where
  "wlp m Q w \<longleftrightarrow> (\<forall>a w'. m w = (Return a, w') \<longrightarrow> Q a w')"

lemma wlp_simps [simp]:
  "wlp (ret a) Q w \<longleftrightarrow> Q a w"
  "wlp fault Q w"
  "wlp (exit_with c) Q w"
  "wlp (call g) Q w \<longleftrightarrow> (case g w of (a, w') \<Rightarrow> Q a w')"
  "wlp (from_option x) Q w \<longleftrightarrow> (case x of None \<Rightarrow> True | Some a \<Rightarrow> Q a w)"
  by (auto simp: wlp_def prog_simps from_option_def split: prod.split option.split)

lemma wlp_andthen [simp]: "wlp (andthen m f) Q w \<longleftrightarrow> wlp m (\<lambda>a. wlp (f a) Q) w"
  by (auto simp: wlp_def andthen_eq_Return)

lemma wlp_if: "(b \<Longrightarrow> wlp m Q w) \<Longrightarrow> (\<not> b \<Longrightarrow> wlp n Q w) \<Longrightarrow> wlp (if b then m else n) Q w"
  by simp

lemma wlp_case_prod: "(\<And>x y. a = (x, y) \<Longrightarrow> wlp (f x y) Q w) \<Longrightarrow> wlp (case a of (x, y) \<Rightarrow> f x y) Q w"
  by (cases a) simp

lemma wlp_case_option:
  "(a = None \<Longrightarrow> wlp m Q w) \<Longrightarrow> (\<And>x. a = Some x \<Longrightarrow> wlp (f x) Q w) \<Longrightarrow> wlp (case a of None \<Rightarrow> m | Some x \<Rightarrow> f x) Q w"
  by (cases a) simp_all

lemma wlp_bind: "wlp m R w \<Longrightarrow> (\<And>a w'. R a w' \<Longrightarrow> wlp (f a) Q w') \<Longrightarrow> wlp (andthen m f) Q w"
  by (auto simp: wlp_def andthen_eq_Return)

lemma wlp_mono: "wlp m Q w \<Longrightarrow> (\<And>a w'. Q a w' \<Longrightarrow> R a w') \<Longrightarrow> wlp m R w"
  by (auto simp: wlp_def)

lemma wlp_any: "wlp m (\<lambda>_ _. True) w"
  by (simp add: wlp_def)

lemma wlp_case_sum:
  "(\<And>x. a = Inl x \<Longrightarrow> wlp (f x) Q w) \<Longrightarrow> (\<And>y. a = Inr y \<Longrightarrow> wlp (g y) Q w) \<Longrightarrow> wlp (case a of Inl x \<Rightarrow> f x | Inr y \<Rightarrow> g y) Q w"
  by (cases a) simp_all

lemma wlp_conj: "wlp m P w \<Longrightarrow> wlp m Q w \<Longrightarrow> wlp m (\<lambda>a w'. P a w' \<and> Q a w') w"
  by (simp add: wlp_def)

lemma from_option_spec: "wlp (from_option x) (\<lambda>a w'. x = Some a \<and> w' = w) w"
  by (simp split: option.split)

lemma wlpD: "wlp m Q w \<Longrightarrow> m w = (Return a, w') \<Longrightarrow> Q a w'"
  by (auto simp: wlp_def)

section \<open>Exit codes\<close>

definition EXIT_OK :: int where "EXIT_OK = 0"
definition EXIT_FAIL :: int where "EXIT_FAIL = 1"
definition EXIT_FAIL_OPTION :: int where "EXIT_FAIL_OPTION = 2"
definition EXIT_FAIL_XDP :: int where "EXIT_FAIL_XDP = 30"
definition EXIT_FAIL_BPF :: int where "EXIT_FAIL_BPF = 40"

lemmas exit_code_defs = EXIT_OK_def EXIT_FAIL_def EXIT_FAIL_OPTION_def EXIT_FAIL_XDP_def EXIT_FAIL_BPF_def

section \<open>Character arrays\<close>

definition NUL :: char where "NUL = CHR 0x00"

definition strncpy :: "string \<Rightarrow> nat \<Rightarrow> string" where
  "strncpy src n = take n src @ replicate (n - length src) NUL"

definition c_string :: "string \<Rightarrow> string option" where
  "c_string buf = (if NUL \<in> set buf then Some (takeWhile (\<lambda>c. c \<noteq> NUL) buf) else None)"

lemma length_strncpy [simp]: "length (strncpy src n) = n"
  by (simp add: strncpy_def)

lemma c_string_strncpy:
  assumes "NUL \<notin> set src"
  shows "c_string (strncpy src n) = (if length src < n then Some src else None)"
proof (cases "length src < n")
  case True
  then have "n - length src = Suc (n - Suc (length src))" by simp
  then have "strncpy src n = src @ NUL # replicate (n - Suc (length src)) NUL"
    using True by (simp add: strncpy_def)
  moreover have "takeWhile (\<lambda>c. c \<noteq> NUL) (src @ NUL # xs) = src" for xs
    using assms by (subst takeWhile_append2) auto
  ultimately show ?thesis using True by (simp add: c_string_def)
next
  case False
  then have "strncpy src n = take n src" by (simp add: strncpy_def)
  moreover have "NUL \<notin> set (take n src)" using assms by (meson in_set_takeD)
  ultimately show ?thesis using False by (simp add: c_string_def)
qed

end
