(* ===== verification/Xdp_Stats.thy ===== *)
theory Xdp_Stats
  imports Complex_Main Uapi Process
begin

text \<open>
  The per-action packet counters: the kernel side of \<open>src/common/xdp_stats_kern.h\<close> and of
  \<open>src/loader/xdp_prog_kern.c\<close>, and the user side of \<open>src/loader/xdp_stats.c\<close>.

  The map \<open>xdp_stats_map\<close> belongs to the kernel and is a parameter with two views. The program on a
  CPU sees one record per key (\<open>percpu_ops\<close>: \<open>bpf_map_lookup_elem\<close> yields a pointer to the record of
  this CPU, stores through it change that record only); user space reads the records of every CPU
  with one system call (\<open>stats_os\<close>, with the clock). The locale \<open>percpu_array\<close> states what the
  kernel documents of \<open>BPF_MAP_TYPE_PERCPU_ARRAY\<close>; it is interpreted on a table of records.

  The counters are 64 bits wide and wrap. The rates of \<open>stats_print\<close> are doubles in the code and
  reals here: their rounding is not described.
\<close>

section \<open>The kernel side\<close>

record datarec =
  rx_packets :: u64
  rx_bytes :: u64

definition XDP_ACTION_MAX :: u32 where
  "XDP_ACTION_MAX = action_code XDP_REDIRECT + 1"

definition sizeof_datarec :: nat where "sizeof_datarec = 16"

definition xdp_stats_map :: bpf_map_def where
  "xdp_stats_map = \<lparr> def_type = map_type_code BPF_MAP_TYPE_PERCPU_ARRAY, def_key_size = 4,
     def_value_size = of_nat sizeof_datarec, def_max_entries = XDP_ACTION_MAX, def_map_flags = 0,
     def_inner_map_idx = 0, def_numa_node = 0 \<rparr>"

record 'm percpu_ops =
  elem :: "'m \<Rightarrow> nat \<Rightarrow> u32 \<Rightarrow> datarec option"
  set_elem :: "'m \<Rightarrow> nat \<Rightarrow> u32 \<Rightarrow> datarec \<Rightarrow> 'm"

text \<open>\<open>xdp_stats_record_action\<close> of \<open>src/common/xdp_stats_kern.h\<close>, run on CPU \<open>cpu\<close>. The difference of
  the two \<open>__u32\<close> members is taken at 32 bits and then widened.\<close>

definition xdp_stats_record_action ::
  "'m percpu_ops \<Rightarrow> 'm \<Rightarrow> nat \<Rightarrow> xdp_md \<Rightarrow> u32 \<Rightarrow> u32 \<times> 'm" where
  "xdp_stats_record_action ops m cpu ctx action =
     (if action \<ge> XDP_ACTION_MAX then (action_code XDP_ABORTED, m)
      else case elem ops m cpu action of
        None \<Rightarrow> (action_code XDP_ABORTED, m)
      | Some rec \<Rightarrow>
          let rec = rec\<lparr>rx_packets := rx_packets rec + 1\<rparr>;
              rec = rec\<lparr>rx_bytes := rx_bytes rec + ucast (data_end ctx - data ctx)\<rparr>
          in (action, set_elem ops m cpu action rec))"

text \<open>The function of the same name in \<open>src/loader/xdp_prog_kern.c\<close>: the members are converted to
  pointers first and the difference is taken at 64 bits.\<close>

definition loader_record_action ::
  "'m percpu_ops \<Rightarrow> 'm \<Rightarrow> nat \<Rightarrow> xdp_md \<Rightarrow> u32 \<Rightarrow> u32 \<times> 'm" where
  "loader_record_action ops m cpu ctx action =
     (let data_end' = ucast (data_end ctx) :: u64;
          data' = ucast (data ctx) :: u64
      in
      if action \<ge> XDP_ACTION_MAX then (action_code XDP_ABORTED, m)
      else case elem ops m cpu action of
        None \<Rightarrow> (action_code XDP_ABORTED, m)
      | Some rec \<Rightarrow>
          let bytes = data_end' - data';
              rec = rec\<lparr>rx_packets := rx_packets rec + 1\<rparr>;
              rec = rec\<lparr>rx_bytes := rx_bytes rec + bytes\<rparr>
          in (action, set_elem ops m cpu action rec))"

definition xdp_pass_func :: "'m percpu_ops \<Rightarrow> 'm \<Rightarrow> nat \<Rightarrow> xdp_md \<Rightarrow> u32 \<times> 'm" where
  "xdp_pass_func ops m cpu ctx = loader_record_action ops m cpu ctx (action_code XDP_PASS)"

definition xdp_drop_func :: "'m percpu_ops \<Rightarrow> 'm \<Rightarrow> nat \<Rightarrow> xdp_md \<Rightarrow> u32 \<times> 'm" where
  "xdp_drop_func ops m cpu ctx = loader_record_action ops m cpu ctx (action_code XDP_DROP)"

definition xdp_abort_func :: "'m percpu_ops \<Rightarrow> 'm \<Rightarrow> nat \<Rightarrow> xdp_md \<Rightarrow> u32 \<times> 'm" where
  "xdp_abort_func ops m cpu ctx = loader_record_action ops m cpu ctx (action_code XDP_ABORTED)"

section \<open>The user side\<close>

text \<open>\<open>bpf_num_possible_cpus\<close> of \<open>src/headers/bpf_util.h\<close>. \<open>first_line\<close> is the file
  \<open>/sys/devices/system/cpu/possible\<close>: \<open>None\<close> when it cannot be opened, \<open>Some None\<close> when it has no line,
  otherwise what \<open>sscanf(buff, "%u-%u", ...)\<close> does with its first line: the number of items read and
  the two variables afterwards.\<close>

definition bpf_num_possible_cpus :: "(int \<times> u32 \<times> u32) option option \<Rightarrow> ('w, u32) prog" where
  "bpf_num_possible_cpus first_line =
     (case first_line of
        None \<Rightarrow> exit_with 1
      | Some None \<Rightarrow> ret 0
      | Some (Some (n, start, end')) \<Rightarrow>
          if n = 0 then exit_with 1
          else let end' = (if n = 1 then start else end')
               in ret (if start = 0 then end' + 1 else 0))"

text \<open>The operating system as \<open>xdp_stats\<close> sees it. A map lookup gives the result of the call and
  the records the kernel wrote to the buffer.\<close>

record 'w stats_os =
  clock_gettime :: "'w \<Rightarrow> (int \<times> u64 \<times> u64) \<times> 'w"
  possible_cpus :: "(int \<times> u32 \<times> u32) option option"
  map_lookup_elem :: "'w \<Rightarrow> int \<Rightarrow> u32 \<Rightarrow> (int \<times> datarec list) \<times> 'w"

definition NANOSEC_PER_SEC :: u64 where "NANOSEC_PER_SEC = 1000000000"

definition gettime :: "'w stats_os \<Rightarrow> ('w, u64) prog" where
  "gettime os = andthen (call (clock_gettime os)) (\<lambda>(res, tv_sec, tv_nsec).
     if res < 0 then exit_with EXIT_FAIL
     else ret (tv_sec * NANOSEC_PER_SEC + tv_nsec))"

record stats_rec =
  timestamp :: u64
  total :: datarec

text \<open>\<open>struct stats_record\<close> is its array of \<open>XDP_ACTION_MAX\<close> records.\<close>

type_synonym stats_record = "stats_rec list"

definition calc_period :: "stats_rec \<Rightarrow> stats_rec \<Rightarrow> real" where
  "calc_period r p =
     (let period = timestamp r - timestamp p
      in if period > 0 then real (unat period) / real (unat NANOSEC_PER_SEC) else 0)"

text \<open>One line of \<open>stats_print\<close>: the arguments of its \<open>printf\<close>.\<close>

record stats_line =
  line_action :: nat
  line_packets :: u64
  line_pps :: real
  line_kbytes :: u64
  line_mbits :: real
  line_period :: real

definition stats_line_of :: "nat \<Rightarrow> stats_rec \<Rightarrow> stats_rec \<Rightarrow> stats_line" where
  "stats_line_of i rec prev =
     (let period = calc_period rec prev;
          packets = rx_packets (total rec) - rx_packets (total prev);
          pps = real (unat packets) / period;
          bytes = rx_bytes (total rec) - rx_bytes (total prev);
          bps = real (unat (bytes * 8)) / period / 1000000
      in \<lparr> line_action = i, line_packets = rx_packets (total rec), line_pps = pps,
           line_kbytes = rx_bytes (total rec) div 1000, line_mbits = bps, line_period = period \<rparr>)"

text \<open>The loop of \<open>stats_print\<close> from action \<open>i\<close> on: the lines printed, and whether it ran to its end
  (the empty line is printed only then).\<close>

fun stats_print_loop :: "nat \<Rightarrow> stats_record \<Rightarrow> stats_record \<Rightarrow> stats_line list \<times> bool" where
  "stats_print_loop i (rec # recs) (prev # prevs) =
     (if calc_period rec prev = 0 then ([], False)
      else case stats_print_loop (Suc i) recs prevs of
        (ls, done') \<Rightarrow> (stats_line_of i rec prev # ls, done'))"
| "stats_print_loop i _ _ = ([], True)"

definition stats_print :: "stats_record \<Rightarrow> stats_record \<Rightarrow> stats_line list \<times> bool" where
  "stats_print stats_rec stats_prev = stats_print_loop 0 stats_rec stats_prev"

text \<open>The kernel's records arrive in the array \<open>values\<close>; a call that writes more than the array holds
  overruns it, and a call that writes fewer leaves the rest of the array as it was.\<close>

definition fill_values :: "datarec list \<Rightarrow> datarec list \<Rightarrow> datarec list option" where
  "fill_values stack vs =
     (if length vs \<le> length stack then Some (vs @ drop (length vs) stack) else None)"

definition map_get_value_array ::
  "'w stats_os \<Rightarrow> int \<Rightarrow> u32 \<Rightarrow> datarec \<Rightarrow> ('w, datarec) prog" where
  "map_get_value_array os fd key value =
     andthen (call (\<lambda>w. map_lookup_elem os w fd key)) (\<lambda>(res, vs).
     andthen (from_option (fill_values [value] vs)) (\<lambda>values.
     if res \<noteq> 0 then ret value else ret (values ! 0)))"

fun sum_values :: "datarec list \<Rightarrow> u64 \<Rightarrow> u64 \<Rightarrow> u64 \<times> u64" where
  "sum_values [] sum_pkts sum_bytes = (sum_pkts, sum_bytes)"
| "sum_values (v # vs) sum_pkts sum_bytes =
     sum_values vs (sum_pkts + rx_packets v) (sum_bytes + rx_bytes v)"

definition map_get_value_percpu_array ::
  "'w stats_os \<Rightarrow> (nat \<Rightarrow> datarec list) \<Rightarrow> int \<Rightarrow> u32 \<Rightarrow> datarec \<Rightarrow> ('w, datarec) prog" where
  "map_get_value_percpu_array os stack fd key value =
     andthen (bpf_num_possible_cpus (possible_cpus os)) (\<lambda>nr_cpus.
     andthen (call (\<lambda>w. map_lookup_elem os w fd key)) (\<lambda>(res, vs).
     andthen (from_option (fill_values (stack (unat nr_cpus)) vs)) (\<lambda>values.
     if res \<noteq> 0 then ret value
     else case sum_values values 0 0 of (sum_pkts, sum_bytes) \<Rightarrow>
       ret (value\<lparr>rx_packets := sum_pkts, rx_bytes := sum_bytes\<rparr>))))"

text \<open>\<open>map_collect\<close>: the local \<open>value\<close> is not initialised, its content is the parameter \<open>garbage\<close>; the
  content of the array on the stack is \<open>stack n\<close> for \<open>n\<close> elements.\<close>

definition map_collect ::
  "'w stats_os \<Rightarrow> (nat \<Rightarrow> datarec list) \<Rightarrow> datarec \<Rightarrow> int \<Rightarrow> u32 \<Rightarrow> u32 \<Rightarrow> stats_rec
     \<Rightarrow> ('w, bool \<times> stats_rec) prog" where
  "map_collect os stack garbage fd map_type key rec =
     andthen (gettime os) (\<lambda>now.
     let rec = rec\<lparr>timestamp := now\<rparr>;
         finish = (\<lambda>value. ret (True, rec\<lparr>total := (total rec)\<lparr>rx_packets := rx_packets value,
           rx_bytes := rx_bytes value\<rparr>\<rparr>))
     in
     if map_type = map_type_code BPF_MAP_TYPE_ARRAY
     then andthen (map_get_value_array os fd key garbage) finish
     else if map_type = map_type_code BPF_MAP_TYPE_PERCPU_ARRAY
     then andthen (map_get_value_percpu_array os stack fd key garbage) finish
     else ret (False, rec))"

fun stats_collect_from ::
  "'w stats_os \<Rightarrow> (nat \<Rightarrow> datarec list) \<Rightarrow> datarec \<Rightarrow> int \<Rightarrow> u32 \<Rightarrow> u32 \<Rightarrow> stats_record
     \<Rightarrow> ('w, stats_record) prog" where
  "stats_collect_from os stack garbage map_fd map_type key [] = ret []"
| "stats_collect_from os stack garbage map_fd map_type key (r # rs) =
     andthen (map_collect os stack garbage map_fd map_type key r) (\<lambda>(ok, r).
     andthen (stats_collect_from os stack garbage map_fd map_type (key + 1) rs) (\<lambda>rs.
     ret (r # rs)))"

definition stats_collect ::
  "'w stats_os \<Rightarrow> (nat \<Rightarrow> datarec list) \<Rightarrow> datarec \<Rightarrow> int \<Rightarrow> u32 \<Rightarrow> stats_record
     \<Rightarrow> ('w, stats_record) prog" where
  "stats_collect os stack garbage map_fd map_type stats_rec =
     stats_collect_from os stack garbage map_fd map_type 0 stats_rec"

definition zero_record :: stats_record where
  "zero_record = replicate (unat XDP_ACTION_MAX)
     \<lparr> timestamp = 0, total = \<lparr> rx_packets = 0, rx_bytes = 0 \<rparr> \<rparr>"

text \<open>The endless loop of \<open>stats_poll\<close>, for its first \<open>n\<close> rounds: what each round prints.\<close>

fun stats_poll_rounds ::
  "nat \<Rightarrow> 'w stats_os \<Rightarrow> (nat \<Rightarrow> datarec list) \<Rightarrow> datarec \<Rightarrow> int \<Rightarrow> u32 \<Rightarrow> stats_record
     \<Rightarrow> ('w, (stats_line list \<times> bool) list) prog" where
  "stats_poll_rounds 0 os stack garbage map_fd map_type record = ret []"
| "stats_poll_rounds (Suc n) os stack garbage map_fd map_type record =
     (let prev = record in
      andthen (stats_collect os stack garbage map_fd map_type record) (\<lambda>record.
      andthen (stats_poll_rounds n os stack garbage map_fd map_type record) (\<lambda>outs.
      ret (stats_print record prev # outs))))"

definition stats_poll ::
  "nat \<Rightarrow> 'w stats_os \<Rightarrow> (nat \<Rightarrow> datarec list) \<Rightarrow> datarec \<Rightarrow> int \<Rightarrow> u32
     \<Rightarrow> ('w, (stats_line list \<times> bool) list) prog" where
  "stats_poll n os stack garbage map_fd map_type =
     andthen (stats_collect os stack garbage map_fd map_type zero_record) (\<lambda>record.
     stats_poll_rounds n os stack garbage map_fd map_type record)"

section \<open>The two recorders\<close>

lemma unat_ucast_u64: "unat (ucast (w :: u32) :: u64) = unat w"
  using unsigned_less [of w, where ?'a = nat] by (simp add: unsigned_ucast_eq take_bit_nat_eq_self)

lemma ucast_diff_u32:
  assumes "b \<le> (a :: u32)"
  shows "(ucast (a - b) :: u64) = ucast a - ucast b"
proof -
  have "unat (ucast (a - b) :: u64) = unat a - unat b"
    using assms by (simp add: unat_ucast_u64 unat_sub word_le_nat_alt)
  moreover have "(ucast b :: u64) \<le> ucast a"
    using assms by (simp add: word_le_nat_alt unat_ucast_u64)
  then have "unat (ucast a - ucast b :: u64) = unat a - unat b"
    by (simp add: unat_sub unat_ucast_u64)
  ultimately show ?thesis by (metis word_unat_eq_iff)
qed

lemma actions_counted: "action_code a < XDP_ACTION_MAX"
  by (cases a) (simp_all add: XDP_ACTION_MAX_def)

lemma loader_record_verdict:
  assumes "action_code a = 0 \<or> elem ops m cpu (action_code a) \<noteq> None"
  shows "fst (loader_record_action ops m cpu ctx (action_code a)) = action_code a"
  using assms actions_counted [of a]
  by (auto simp: loader_record_action_def Let_def split: option.split)

text \<open>
  Both versions of \<open>xdp_stats_record_action\<close> behave alike on every packet the kernel hands over
  (its data does not end before it begins), and the three programs built on the loader's version
  return their verdict whenever the map has a record for it.
\<close>

theorem recorders_agree:
  assumes "data ctx \<le> data_end ctx"
  shows "xdp_stats_record_action ops m cpu ctx action = loader_record_action ops m cpu ctx action \<and>
     (elem ops m cpu 2 \<noteq> None \<longrightarrow> fst (xdp_pass_func ops m cpu ctx) = action_code XDP_PASS) \<and>
     (elem ops m cpu 1 \<noteq> None \<longrightarrow> fst (xdp_drop_func ops m cpu ctx) = action_code XDP_DROP) \<and>
     fst (xdp_abort_func ops m cpu ctx) = action_code XDP_ABORTED"
  using assms loader_record_verdict [of XDP_PASS ops m cpu ctx] loader_record_verdict [of XDP_DROP ops m cpu ctx]
    loader_record_verdict [of XDP_ABORTED ops m cpu ctx]
  by (simp add: xdp_stats_record_action_def loader_record_action_def [of _ _ _ _ action] ucast_diff_u32
      xdp_pass_func_def xdp_drop_func_def xdp_abort_func_def Let_def split: option.split)

section \<open>What the kernel promises of a per-CPU array\<close>

locale percpu_array =
  fixes ops :: "'m percpu_ops"
    and values_of :: "'m \<Rightarrow> u32 \<Rightarrow> datarec list"
    and ncpus :: nat
  assumes elem_defined:
      "\<lbrakk> key < XDP_ACTION_MAX; cpu < ncpus \<rbrakk> \<Longrightarrow> \<exists>r. elem ops m cpu key = Some r"
    and elem_set:
      "\<lbrakk> key < XDP_ACTION_MAX; cpu < ncpus; key' < XDP_ACTION_MAX; cpu' < ncpus \<rbrakk> \<Longrightarrow>
         elem ops (set_elem ops m cpu key r) cpu' key'
           = (if cpu' = cpu \<and> key' = key then Some r else elem ops m cpu' key')"
    and values_elem:
      "key < XDP_ACTION_MAX \<Longrightarrow>
         map Some (values_of m key) = map (\<lambda>cpu. elem ops m cpu key) [0..<ncpus]"

text \<open>A packet as the recorder sees it: the CPU, the context and the action; a run of packets.\<close>

type_synonym packet_event = "nat \<times> xdp_md \<times> u32"

fun record_run :: "'m percpu_ops \<Rightarrow> 'm \<Rightarrow> packet_event list \<Rightarrow> 'm" where
  "record_run ops m [] = m"
| "record_run ops m ((cpu, ctx, action) # es) =
     record_run ops (snd (xdp_stats_record_action ops m cpu ctx action)) es"

fun packets_of :: "u32 \<Rightarrow> packet_event list \<Rightarrow> nat" where
  "packets_of key [] = 0"
| "packets_of key ((cpu, ctx, action) # es) = (if action = key then 1 else 0) + packets_of key es"

fun bytes_of :: "u32 \<Rightarrow> packet_event list \<Rightarrow> nat" where
  "bytes_of key [] = 0"
| "bytes_of key ((cpu, ctx, action) # es) =
     (if action = key then unat (data_end ctx - data ctx) else 0) + bytes_of key es"

definition total_packets :: "datarec list \<Rightarrow> u64" where
  "total_packets vs = sum_list (map rx_packets vs)"

definition total_bytes :: "datarec list \<Rightarrow> u64" where
  "total_bytes vs = sum_list (map rx_bytes vs)"

lemma sum_values_totals: "sum_values vs p b = (p + total_packets vs, b + total_bytes vs)"
  by (induction vs p b rule: sum_values.induct) (simp_all add: total_packets_def total_bytes_def add.assoc)

lemma totals_update:
  assumes "k < length vs"
  shows "rx_packets r = x + rx_packets (vs ! k) \<Longrightarrow> total_packets (vs[k := r]) = x + total_packets vs"
    and "rx_bytes r = y + rx_bytes (vs ! k) \<Longrightarrow> total_bytes (vs[k := r]) = y + total_bytes vs"
  using assms
  by (induction vs arbitrary: k)
     (auto simp: total_packets_def total_bytes_def add.left_commute add.assoc split: nat.splits)

context percpu_array
begin

lemma length_values: "key < XDP_ACTION_MAX \<Longrightarrow> length (values_of m key) = ncpus"
  using arg_cong [OF values_elem [of key m], of length] by simp

lemma values_nth: "\<lbrakk> key < XDP_ACTION_MAX; cpu < ncpus \<rbrakk> \<Longrightarrow> elem ops m cpu key = Some (values_of m key ! cpu)"
  using arg_cong [OF values_elem [of key m], of "\<lambda>l. l ! cpu"] length_values [of key m] by simp

lemma values_set:
  assumes "key < XDP_ACTION_MAX" "cpu < ncpus" "key' < XDP_ACTION_MAX"
  shows "values_of (set_elem ops m cpu key r) key' =
     (if key' = key then (values_of m key)[cpu := r] else values_of m key')"
proof (rule nth_equalityI)
  show "length (values_of (set_elem ops m cpu key r) key') =
     length (if key' = key then (values_of m key)[cpu := r] else values_of m key')"
    using assms by (simp add: length_values)
next
  fix i
  assume "i < length (values_of (set_elem ops m cpu key r) key')"
  then have i: "i < ncpus" using assms by (simp add: length_values)
  have "Some (values_of (set_elem ops m cpu key r) key' ! i) = elem ops (set_elem ops m cpu key r) i key'"
    using i assms by (simp add: values_nth)
  also have "\<dots> = Some ((if key' = key then (values_of m key)[cpu := r] else values_of m key') ! i)"
    unfolding elem_set [OF assms(1,2,3) i]
    using i assms by (auto simp: values_nth length_values nth_list_update)
  finally show "values_of (set_elem ops m cpu key r) key' ! i =
      (if key' = key then (values_of m key)[cpu := r] else values_of m key') ! i" by simp
qed

lemma record_totals:
  assumes "key < XDP_ACTION_MAX" "cpu < ncpus"
    and m'_def: "m' = snd (xdp_stats_record_action ops m cpu ctx action)"
  shows "total_packets (values_of m' key) = of_nat (packets_of key [(cpu, ctx, action)]) + total_packets (values_of m key)"
    and "total_bytes (values_of m' key) = of_nat (bytes_of key [(cpu, ctx, action)]) + total_bytes (values_of m key)"
proof -
  have "total_packets (values_of m' key) = of_nat (packets_of key [(cpu, ctx, action)]) + total_packets (values_of m key) \<and>
    total_bytes (values_of m' key) = of_nat (bytes_of key [(cpu, ctx, action)]) + total_bytes (values_of m key)"
  proof (cases "action < XDP_ACTION_MAX")
    case True
    let ?r = "values_of m action ! cpu"
    let ?r' = "?r\<lparr>rx_packets := 1 + rx_packets ?r, rx_bytes := ucast (data_end ctx - data ctx) + rx_bytes ?r\<rparr>"
    have m': "m' = set_elem ops m cpu action ?r'"
      using True assms(2) by (simp add: m'_def xdp_stats_record_action_def values_nth Let_def add.commute not_le [symmetric])
    have len: "cpu < length (values_of m action)" using True assms(2) by (simp add: length_values)
    have "total_packets ((values_of m action)[cpu := ?r']) = 1 + total_packets (values_of m action)"
      "total_bytes ((values_of m action)[cpu := ?r']) = ucast (data_end ctx - data ctx) + total_bytes (values_of m action)"
      using totals_update [OF len, of ?r'] by simp_all
    then show ?thesis
      using True assms(1,2) by (auto simp: m' values_set)
  next
    case False
    then show ?thesis using assms(1) by (auto simp: m'_def xdp_stats_record_action_def)
  qed
  then show "total_packets (values_of m' key) = of_nat (packets_of key [(cpu, ctx, action)]) + total_packets (values_of m key)"
    "total_bytes (values_of m' key) = of_nat (bytes_of key [(cpu, ctx, action)]) + total_bytes (values_of m key)"
    by blast+
qed

lemma run_totals:
  assumes "key < XDP_ACTION_MAX" "list_all (\<lambda>e. fst e < ncpus) es"
  shows "total_packets (values_of (record_run ops m es) key) = of_nat (packets_of key es) + total_packets (values_of m key)"
    and "total_bytes (values_of (record_run ops m es) key) = of_nat (bytes_of key es) + total_bytes (values_of m key)"
proof -
  have "total_packets (values_of (record_run ops m es) key) = of_nat (packets_of key es) + total_packets (values_of m key) \<and>
    total_bytes (values_of (record_run ops m es) key) = of_nat (bytes_of key es) + total_bytes (values_of m key)"
    using assms(2)
  proof (induction es arbitrary: m)
    case (Cons e es)
    obtain cpu ctx action where e: "e = (cpu, ctx, action)" by (cases e)
    from Cons.prems have "cpu < ncpus" "list_all (\<lambda>e. fst e < ncpus) es" by (simp_all add: e)
    then show ?case
      using Cons.IH [of "snd (xdp_stats_record_action ops m cpu ctx action)"]
        record_totals [OF assms(1) _ refl, of cpu m ctx action]
      by (simp add: e add.assoc add.left_commute)
  qed simp
  then show "total_packets (values_of (record_run ops m es) key) = of_nat (packets_of key es) + total_packets (values_of m key)"
    "total_bytes (values_of (record_run ops m es) key) = of_nat (bytes_of key es) + total_bytes (values_of m key)"
    by blast+
qed

end

text \<open>The table of records, and the promises for it.\<close>

definition table_ops :: "(nat \<Rightarrow> u32 \<Rightarrow> datarec) percpu_ops" where
  "table_ops = \<lparr> elem = \<lambda>m cpu key. if key < XDP_ACTION_MAX then Some (m cpu key) else None,
     set_elem = \<lambda>m cpu key r. m(cpu := (m cpu)(key := r)) \<rparr>"

definition table_values :: "nat \<Rightarrow> (nat \<Rightarrow> u32 \<Rightarrow> datarec) \<Rightarrow> u32 \<Rightarrow> datarec list" where
  "table_values n m key = map (\<lambda>cpu. m cpu key) [0..<n]"

interpretation table: percpu_array table_ops "table_values n" n
  for n
  by unfold_locales (auto simp: table_ops_def table_values_def)

section \<open>What the reader reports\<close>

lemma gettime_ok:
  "clock_gettime os w = ((res, tv_sec, tv_nsec), w') \<Longrightarrow> 0 \<le> res \<Longrightarrow>
     gettime os w = (Return (tv_sec * NANOSEC_PER_SEC + tv_nsec), w')"
  by (simp add: gettime_def andthen_def call_def ret_def)

text \<open>A reading of \<open>map_collect\<close> when the clock and the lookup succeed and the array has an element per
  possible CPU.\<close>

lemma map_collect_percpu:
  assumes "clock_gettime os w = ((0, tv_sec, tv_nsec), w1)"
    and "bpf_num_possible_cpus (possible_cpus os) = (ret (of_nat n) :: ('w, u32) prog)"
    and "map_lookup_elem os w1 fd key = ((0, vs), w2)"
    and "length vs = n" "n < 2 ^ 32" "length (stack n) = n"
  shows "map_collect os stack garbage fd (map_type_code BPF_MAP_TYPE_PERCPU_ARRAY) key rec w =
     (Return (True, rec\<lparr>timestamp := tv_sec * NANOSEC_PER_SEC + tv_nsec,
        total := (total rec)\<lparr>rx_packets := total_packets vs, rx_bytes := total_bytes vs\<rparr>\<rparr>), (w2 :: 'w))"
proof -
  have "fill_values (stack (unat (of_nat n :: u32))) vs = Some vs"
    using assms(4-6) by (simp add: fill_values_def unat_of_nat)
  then have "map_get_value_percpu_array os stack fd key garbage w1 =
      (Return (garbage\<lparr>rx_packets := total_packets vs, rx_bytes := total_bytes vs\<rparr>), w2)"
    using assms(2,3)
    by (simp add: map_get_value_percpu_array_def sum_values_totals prog_simps andthen_def [of "call _"])
  then show ?thesis
    using gettime_ok [OF assms(1)]
    by (simp add: map_collect_def Let_def prog_simps map_type_code_values)
qed

text \<open>
  C20. The user program reports the truth. If the kernel keeps its promises about a per-CPU array that
  started with every counter at zero, then after any run of packets on any CPUs \<open>map_collect\<close> reads,
  for each action, the number of packets recorded with that action and the number of their bytes,
  modulo the 64 bits of the counters.
\<close>

theorem stats_count_every_packet:
  assumes "percpu_array ops values_of n"
    and "list_all (\<lambda>e. fst e < n) es"
    and "total_packets (values_of m0 key) = 0" "total_bytes (values_of m0 key) = 0"
    and "clock_gettime os w = ((0, tv_sec, tv_nsec), w1)"
    and "bpf_num_possible_cpus (possible_cpus os) = (ret (of_nat n) :: ('w, u32) prog)"
    and "map_lookup_elem os w1 fd key = ((0, values_of (record_run ops m0 es) key), w2)"
    and "key < XDP_ACTION_MAX" "n < 2 ^ 32" "length (stack n) = n"
  shows "map_collect os stack garbage fd (map_type_code BPF_MAP_TYPE_PERCPU_ARRAY) key rec w =
     (Return (True, rec\<lparr>timestamp := tv_sec * NANOSEC_PER_SEC + tv_nsec,
        total := (total rec)\<lparr>rx_packets := of_nat (packets_of key es), rx_bytes := of_nat (bytes_of key es)\<rparr>\<rparr>),
      (w2 :: 'w))"
proof -
  have "length (values_of (record_run ops m0 es) key) = n"
    using percpu_array.length_values [OF assms(1,8)] .
  then show ?thesis
    using map_collect_percpu [OF assms(5,6,7) _ assms(9), of stack garbage rec] assms(10) percpu_array.run_totals [OF assms(1,8,2), of m0] assms(3,4)
    by simp
qed

text \<open>
  The rates of \<open>stats_print\<close> are right across a wrap of the counters. Between two readings of the
  same action whose time differs, with \<open>p\<close> packets and \<open>b\<close> bytes recorded in between, the line shows
  \<open>p\<close> packets and \<open>8 * b\<close> bits per period, as long as \<open>p\<close> and \<open>8 * b\<close> fit in 64 bits; when the two times
  are the same, nothing is printed from this action on.
\<close>

theorem stats_rates:
  assumes "rx_packets (total rec) = of_nat p + rx_packets (total prev)" "p < 2 ^ 64"
    and "rx_bytes (total rec) = of_nat b + rx_bytes (total prev)" "8 * b < 2 ^ 64"
  shows "if timestamp rec = timestamp prev then stats_print (rec # recs) (prev # prevs) = ([], False)
     else (\<exists>ls d l. stats_print (rec # recs) (prev # prevs) = (l # ls, d) \<and> line_action l = 0 \<and>
       line_packets l = rx_packets (total rec) \<and> line_period l = calc_period rec prev \<and> 0 < line_period l \<and>
       line_pps l * line_period l = real p \<and> line_mbits l * 1000000 * line_period l = real (8 * b))"
proof (cases "timestamp rec = timestamp prev")
  case True
  then show ?thesis by (simp add: stats_print_def calc_period_def)
next
  case False
  then have "0 < unat (timestamp rec - timestamp prev)" "0 < timestamp rec - timestamp prev"
    by (simp_all add: unat_gt_0 word_gt_0)
  then have pos: "0 < calc_period rec prev"
    by (simp add: calc_period_def Let_def NANOSEC_PER_SEC_def del: of_nat_unat)
  have "unat (of_nat p :: u64) = p" "unat (of_nat b * 8 :: u64) = 8 * b"
    using assms(2,4) by (simp_all add: unat_of_nat unat_word_ariths mod_mult_left_eq mult.commute)
  then show ?thesis
    using False pos assms(1,3)
    by (simp add: stats_print_def stats_line_of_def Let_def del: of_nat_unat split: prod.split)
qed

section \<open>Samples\<close>

definition sample_md :: "u32 \<Rightarrow> xdp_md" where
  "sample_md len = \<lparr> data = 4096, data_end = 4096 + len, data_meta = 4096, ingress_ifindex = 2, rx_queue_index = 0 \<rparr>"

definition zero_table :: "nat \<Rightarrow> u32 \<Rightarrow> datarec" where
  "zero_table = (\<lambda>cpu key. \<lparr> rx_packets = 0, rx_bytes = 0 \<rparr>)"

theorem recorders_agree_witness:
  "data (sample_md 60) \<le> data_end (sample_md 60) \<and>
   xdp_stats_record_action table_ops zero_table 0 (sample_md 60) 2
     = loader_record_action table_ops zero_table 0 (sample_md 60) 2 \<and>
   fst (xdp_pass_func table_ops zero_table 0 (sample_md 60)) = action_code XDP_PASS"
proof -
  have le: "data (sample_md 60) \<le> data_end (sample_md 60)" by code_simp
  moreover have "elem table_ops zero_table 0 2 \<noteq> None"
    using actions_counted [of XDP_PASS] by (simp add: table_ops_def)
  ultimately show ?thesis using recorders_agree [OF le, of table_ops zero_table 0 2] by blast
qed

text \<open>Two CPUs: two packets passed on different CPUs and one dropped.\<close>

definition sample_events :: "packet_event list" where
  "sample_events = [(0, sample_md 60, 2), (1, sample_md 90, 2), (1, sample_md 54, 1)]"

definition sample_os :: "unit stats_os" where
  "sample_os = \<lparr> clock_gettime = \<lambda>w. ((0, 3, 7), w),
     possible_cpus = Some (Some (2, 0, 1)),
     map_lookup_elem = \<lambda>w fd key. ((0, table_values 2 (record_run table_ops zero_table sample_events) key), w) \<rparr>"

definition zero_datarec :: datarec where
  "zero_datarec = \<lparr> rx_packets = 0, rx_bytes = 0 \<rparr>"

theorem stats_count_every_packet_witness:
  "map_collect sample_os (\<lambda>n. replicate n zero_datarec) zero_datarec 5 6 2 \<lparr> timestamp = 0, total = zero_datarec \<rparr> ()
     = (Return (True, \<lparr> timestamp = 3000000007, total = \<lparr> rx_packets = 2, rx_bytes = 150 \<rparr> \<rparr>), ())"
proof -
  have "packets_of 2 sample_events = 2" "bytes_of 2 sample_events = 150" by code_simp+
  moreover have "list_all (\<lambda>e. fst e < 2) sample_events" by code_simp
  moreover have "total_packets (table_values 2 zero_table 2) = 0" "total_bytes (table_values 2 zero_table 2) = 0"
    by code_simp+
  moreover have "bpf_num_possible_cpus (possible_cpus sample_os) = (ret (of_nat 2) :: (unit, u32) prog)"
    by (simp add: bpf_num_possible_cpus_def sample_os_def)
  moreover have "(2 :: u32) < XDP_ACTION_MAX" using actions_counted [of XDP_PASS] by simp
  moreover have "(3 :: u64) * NANOSEC_PER_SEC + 7 = 3000000007" by code_simp
  ultimately show ?thesis
    using stats_count_every_packet [OF table.percpu_array_axioms [of 2], of sample_events zero_table 2 sample_os "()" 3 7 "()" 5 "()"
        "\<lambda>n. replicate n zero_datarec" zero_datarec "\<lparr> timestamp = 0, total = zero_datarec \<rparr>"]
    by (simp add: map_type_code_values) (simp add: sample_os_def zero_datarec_def)
qed

definition earlier_reading :: stats_rec where
  "earlier_reading = \<lparr> timestamp = 1000000000, total = \<lparr> rx_packets = -1, rx_bytes = 100 \<rparr> \<rparr>"

definition later_reading :: stats_rec where
  "later_reading = \<lparr> timestamp = 3000000000, total = \<lparr> rx_packets = 9, rx_bytes = 1100 \<rparr> \<rparr>"

theorem stats_rates_witness:
  "\<exists>ls d l. stats_print [later_reading] [earlier_reading] = (l # ls, d) \<and>
     line_packets l = 9 \<and> line_pps l * line_period l = 10 \<and> line_mbits l * 1000000 * line_period l = 8000"
proof -
  have "rx_packets (total later_reading) = of_nat 10 + rx_packets (total earlier_reading)"
    "rx_bytes (total later_reading) = of_nat 1000 + rx_bytes (total earlier_reading)"
    "timestamp later_reading \<noteq> timestamp earlier_reading"
    "rx_packets (total later_reading) = 9"
    by (simp_all add: later_reading_def earlier_reading_def)
  then show ?thesis
    using stats_rates [of later_reading 10 earlier_reading 1000 "[]" "[]"] by auto
qed

end
