(* ===== verification/Errno.thy ===== *)
theory Errno
  imports Process
begin

text \<open>
  Error numbers: the ones of the system the sources name, those of libbpf
  (\<open>src/libbpf/src/libbpf.h\<close>) and the message of an error, \<open>libbpf_strerror\<close> of
  \<open>src/libbpf/src/libbpf_errno.c\<close>. \<open>strerror_r\<close> is the C library's and a parameter: the text it
  writes and its result. A message pointer that is \<open>NULL\<close> is a fault when it is printed.
\<close>

definition ENOENT :: int where "ENOENT = 2"
definition ENOMEM :: int where "ENOMEM = 12"
definition EBUSY :: int where "EBUSY = 16"
definition EEXIST :: int where "EEXIST = 17"
definition EINVAL :: int where "EINVAL = 22"
definition ENAMETOOLONG :: int where "ENAMETOOLONG = 36"
definition EOPNOTSUPP :: int where "EOPNOTSUPP = 95"

lemmas errno_defs = ENOENT_def ENOMEM_def EBUSY_def EEXIST_def EINVAL_def ENAMETOOLONG_def EOPNOTSUPP_def

definition LIBBPF_ERRNO__START :: int where "LIBBPF_ERRNO__START = 4000"

datatype libbpf_errno =
    LIBBPF_ERRNO__LIBELF
  | LIBBPF_ERRNO__FORMAT
  | LIBBPF_ERRNO__KVERSION
  | LIBBPF_ERRNO__ENDIAN
  | LIBBPF_ERRNO__INTERNAL
  | LIBBPF_ERRNO__RELOC
  | LIBBPF_ERRNO__LOAD
  | LIBBPF_ERRNO__VERIFY
  | LIBBPF_ERRNO__PROG2BIG
  | LIBBPF_ERRNO__KVER
  | LIBBPF_ERRNO__PROGTYPE
  | LIBBPF_ERRNO__WRNGPID
  | LIBBPF_ERRNO__INVSEQ
  | LIBBPF_ERRNO__NLPARSE

fun errno_code :: "libbpf_errno \<Rightarrow> int" where
  "errno_code LIBBPF_ERRNO__LIBELF = LIBBPF_ERRNO__START"
| "errno_code LIBBPF_ERRNO__FORMAT = LIBBPF_ERRNO__START + 1"
| "errno_code LIBBPF_ERRNO__KVERSION = LIBBPF_ERRNO__START + 2"
| "errno_code LIBBPF_ERRNO__ENDIAN = LIBBPF_ERRNO__START + 3"
| "errno_code LIBBPF_ERRNO__INTERNAL = LIBBPF_ERRNO__START + 4"
| "errno_code LIBBPF_ERRNO__RELOC = LIBBPF_ERRNO__START + 5"
| "errno_code LIBBPF_ERRNO__LOAD = LIBBPF_ERRNO__START + 6"
| "errno_code LIBBPF_ERRNO__VERIFY = LIBBPF_ERRNO__START + 7"
| "errno_code LIBBPF_ERRNO__PROG2BIG = LIBBPF_ERRNO__START + 8"
| "errno_code LIBBPF_ERRNO__KVER = LIBBPF_ERRNO__START + 9"
| "errno_code LIBBPF_ERRNO__PROGTYPE = LIBBPF_ERRNO__START + 10"
| "errno_code LIBBPF_ERRNO__WRNGPID = LIBBPF_ERRNO__START + 11"
| "errno_code LIBBPF_ERRNO__INVSEQ = LIBBPF_ERRNO__START + 12"
| "errno_code LIBBPF_ERRNO__NLPARSE = LIBBPF_ERRNO__START + 13"

definition LIBBPF_ERRNO__END :: int where "LIBBPF_ERRNO__END = LIBBPF_ERRNO__START + 14"

text \<open>The array has designated initialisers; an index that has none is \<open>NULL\<close>.\<close>

definition libbpf_strerror_table :: "(int \<times> string) list" where
  "libbpf_strerror_table =
     [(errno_code LIBBPF_ERRNO__LIBELF - LIBBPF_ERRNO__START, ''Something wrong in libelf''),
      (errno_code LIBBPF_ERRNO__FORMAT - LIBBPF_ERRNO__START, ''BPF object format invalid''),
      (errno_code LIBBPF_ERRNO__KVERSION - LIBBPF_ERRNO__START, CHR 0x27 # ''version'' @ CHR 0x27 # '' section incorrect or lost''),
      (errno_code LIBBPF_ERRNO__ENDIAN - LIBBPF_ERRNO__START, ''Endian mismatch''),
      (errno_code LIBBPF_ERRNO__INTERNAL - LIBBPF_ERRNO__START, ''Internal error in libbpf''),
      (errno_code LIBBPF_ERRNO__RELOC - LIBBPF_ERRNO__START, ''Relocation failed''),
      (errno_code LIBBPF_ERRNO__VERIFY - LIBBPF_ERRNO__START, ''Kernel verifier blocks program loading''),
      (errno_code LIBBPF_ERRNO__PROG2BIG - LIBBPF_ERRNO__START, ''Program too big''),
      (errno_code LIBBPF_ERRNO__KVER - LIBBPF_ERRNO__START, ''Incorrect kernel version''),
      (errno_code LIBBPF_ERRNO__PROGTYPE - LIBBPF_ERRNO__START, ''Kernel doesn'' @ CHR 0x27 # ''t support this program type''),
      (errno_code LIBBPF_ERRNO__WRNGPID - LIBBPF_ERRNO__START, ''Wrong pid in netlink message''),
      (errno_code LIBBPF_ERRNO__INVSEQ - LIBBPF_ERRNO__START, ''Invalid netlink sequence''),
      (errno_code LIBBPF_ERRNO__NLPARSE - LIBBPF_ERRNO__START, ''Incorrect netlink message parsing'')]"

text \<open>\<open>snprintf\<close> into a buffer of \<open>size\<close> characters: the text is cut to fit and terminated, the rest of
  the buffer keeps its content.\<close>

definition snprintf_to :: "string \<Rightarrow> string \<Rightarrow> string" where
  "snprintf_to buf text =
     (let t = take (length buf - 1) text @ [NUL] in t @ drop (length t) buf)"

text \<open>A decimal numeral, for \<open>%d\<close> of a positive number.\<close>

fun decimal :: "nat \<Rightarrow> string" where
  "decimal n = (if n < 10 then [char_of (48 + n)] else decimal (n div 10) @ [char_of (48 + n mod 10)])"

declare decimal.simps [simp del]

text \<open>\<open>libbpf_strerror\<close> on a buffer (\<open>None\<close> is a null pointer): the result and the buffer, or a fault. The
  negation of the smallest \<open>int\<close> overflows, which the language leaves undefined.\<close>

definition libbpf_strerror ::
  "(int \<Rightarrow> string \<Rightarrow> int \<times> string) \<Rightarrow> int \<Rightarrow> string option \<Rightarrow> (int \<times> string option) option" where
  "libbpf_strerror strerror_r err buf =
     (case buf of
        None \<Rightarrow> Some (-1, None)
      | Some b \<Rightarrow>
          if length b = 0 then Some (-1, Some b)
          else if err = - (2 ^ 31) then None
          else
          let err = (if err > 0 then err else - err) in
          if err < LIBBPF_ERRNO__START then
            (case strerror_r err b of (r, b) \<Rightarrow> Some (r, Some (b[length b - 1 := NUL])))
          else if err < LIBBPF_ERRNO__END then
            do { msg \<leftarrow> map_of libbpf_strerror_table (err - LIBBPF_ERRNO__START);
                 let b = snprintf_to b msg;
                 Some (0, Some (b[length b - 1 := NUL])) }
          else
            let b = snprintf_to b (''Unknown libbpf error '' @ decimal (nat err))
            in Some (-1, Some (b[length b - 1 := NUL])))"

text \<open>\<open>libbpf_strerror_r\<close> of \<open>src/libbpf/src/str_error.c\<close>: the buffer afterwards.\<close>

definition signed_decimal :: "int \<Rightarrow> string" where
  "signed_decimal i = (if i < 0 then CHR ''-'' # decimal (nat (- i)) else decimal (nat i))"

definition libbpf_strerror_r :: "(int \<Rightarrow> string \<Rightarrow> int \<times> string) \<Rightarrow> int \<Rightarrow> string \<Rightarrow> string" where
  "libbpf_strerror_r strerror_r err dst =
     (case strerror_r err dst of (r, dst) \<Rightarrow>
      if r \<noteq> 0 \<and> dst \<noteq> [] then snprintf_to dst (''ERROR: strerror_r('' @ signed_decimal err @ '')='' @ signed_decimal r) else dst)"

section \<open>The message is a string\<close>

lemma length_snprintf_to: "buf \<noteq> [] \<Longrightarrow> length (snprintf_to buf text) = length buf"
  by (cases buf) (simp_all add: snprintf_to_def Let_def)

lemma c_string_terminated: "b \<noteq> [] \<Longrightarrow> \<exists>s. c_string (b[length b - 1 := NUL]) = Some s"
  by (simp add: c_string_def set_update_memI)

lemma snprintf_terminated:
  assumes "buf \<noteq> []"
  shows "\<exists>s. c_string ((snprintf_to buf t)[length buf - Suc 0 := NUL]) = Some s"
proof -
  have l: "length (snprintf_to buf t) = length buf" by (rule length_snprintf_to [OF assms])
  then have "snprintf_to buf t \<noteq> []" using assms by auto
  from c_string_terminated [OF this] show ?thesis by (simp add: l)
qed

lemma snprintf_to_NUL: "NUL \<in> set (snprintf_to buf t)"
  by (simp add: snprintf_to_def Let_def)

text \<open>The wrapper leaves a terminated text also when the library's function fails.\<close>

lemma libbpf_strerror_r_terminated:
  assumes "strerror_r err dst = (r, dst')" "dst' \<noteq> []" "r = 0 \<Longrightarrow> NUL \<in> set dst'"
  shows "\<exists>s. c_string (libbpf_strerror_r strerror_r err dst) = Some s"
  using assms by (auto simp: libbpf_strerror_r_def c_string_def snprintf_to_NUL)

lemma table_entries:
  assumes "LIBBPF_ERRNO__START \<le> n" "n < LIBBPF_ERRNO__END"
  shows "map_of libbpf_strerror_table (n - LIBBPF_ERRNO__START) = None \<longleftrightarrow> n = errno_code LIBBPF_ERRNO__LOAD"
proof -
  define k where "k = n - LIBBPF_ERRNO__START"
  have "0 \<le> k" "k < 14" using assms by (simp_all add: k_def LIBBPF_ERRNO__END_def)
  then have "k = 0 \<or> k = 1 \<or> k = 2 \<or> k = 3 \<or> k = 4 \<or> k = 5 \<or> k = 6 \<or> k = 7 \<or> k = 8 \<or> k = 9 \<or> k = 10 \<or> k = 11 \<or>
      k = 12 \<or> k = 13" by arith
  then have "map_of libbpf_strerror_table k = None \<longleftrightarrow> k = 6"
    by (elim disjE) (simp_all add: libbpf_strerror_table_def)
  then show ?thesis by (auto simp: k_def)
qed

text \<open>
  \<open>libbpf_strerror\<close> leaves a terminated text in the caller's buffer for every error but one: the table
  has no entry for \<open>LIBBPF_ERRNO__LOAD\<close>, so for this code a null pointer is printed.
\<close>

theorem libbpf_strerror_terminates_text:
  assumes "b \<noteq> []" "- (2 ^ 31) < err"
    and "\<forall>e b. length (snd (strerror_r e b)) = length b"
  shows "if \<bar>err\<bar> = errno_code LIBBPF_ERRNO__LOAD then libbpf_strerror strerror_r err (Some b) = None
     else \<exists>r b' s. libbpf_strerror strerror_r err (Some b) = Some (r, Some b') \<and>
            length b' = length b \<and> c_string b' = Some s"
proof -
  let ?e = "if err > 0 then err else - err"
  have e: "?e = \<bar>err\<bar>" by simp
  consider "\<bar>err\<bar> < LIBBPF_ERRNO__START" | "LIBBPF_ERRNO__START \<le> \<bar>err\<bar>" "\<bar>err\<bar> < LIBBPF_ERRNO__END"
    | "LIBBPF_ERRNO__END \<le> \<bar>err\<bar>" by linarith
  then show ?thesis
  proof cases
    case 1
    obtain r b' where s: "strerror_r \<bar>err\<bar> b = (r, b')" by (cases "strerror_r \<bar>err\<bar> b")
    then have "length b' = length b" using assms(3) by (metis snd_conv)
    moreover have "b' \<noteq> []" using calculation assms(1) by auto
    ultimately show ?thesis
      using 1 assms(1,2) s c_string_terminated [of b'] by (simp add: libbpf_strerror_def e Let_def LIBBPF_ERRNO__END_def)
  next
    case 2
    then show ?thesis
      using assms(1,2) table_entries [of "\<bar>err\<bar>"] length_snprintf_to [OF assms(1)]
        snprintf_terminated [OF assms(1)]
      by (cases "map_of libbpf_strerror_table (\<bar>err\<bar> - LIBBPF_ERRNO__START)")
         (auto simp: libbpf_strerror_def e Let_def)
  next
    case 3
    then show ?thesis
      using assms(1,2) length_snprintf_to [OF assms(1)] snprintf_terminated [OF assms(1)]
      by (auto simp: libbpf_strerror_def e Let_def LIBBPF_ERRNO__END_def)
  qed
qed

theorem libbpf_strerror_terminates_text_witness:
  "libbpf_strerror (\<lambda>e b. (0, snprintf_to b ''No such file or directory'')) (-4006) (Some (replicate 20 NUL)) = None \<and>
   (\<exists>r b' s. libbpf_strerror (\<lambda>e b. if b = [] then (0, []) else (0, snprintf_to b ''No such file or directory'')) (-4005)
      (Some (replicate 20 NUL)) = Some (r, Some b') \<and> length b' = 20 \<and> c_string b' = Some s)"
proof
  let ?f = "\<lambda>(e :: int) b. if b = [] then (0 :: int, []) else (0, snprintf_to b ''No such file or directory'')"
  have len: "\<forall>e b. length (snd (?f e b)) = length b" by (simp add: length_snprintf_to)
  show "libbpf_strerror (\<lambda>e b. (0, snprintf_to b ''No such file or directory'')) (-4006) (Some (replicate 20 NUL)) = None"
    by code_simp
  show "\<exists>r b' s. libbpf_strerror ?f (-4005) (Some (replicate 20 NUL)) = Some (r, Some b') \<and> length b' = 20 \<and> c_string b' = Some s"
    using libbpf_strerror_terminates_text [of "replicate 20 NUL" "-4005" ?f, OF _ _ len]
    by (simp add: LIBBPF_ERRNO__START_def)
qed

end
