(* ===== verification/Nlattr.thy ===== *)
theory Nlattr
  imports Errno
begin

text \<open>
  Netlink attributes: \<open>src/libbpf/src/nlattr.h\<close> and \<open>src/libbpf/src/nlattr.c\<close>. A message lies in a
  buffer; a pointer to an attribute is its offset, and a read outside of the buffer is \<open>None\<close>. The
  index array \<open>tb\<close> is a list of \<open>maxtype + 1\<close> entries that are null or offsets.

  The first comparison of \<open>nla_ok\<close> is between an \<open>int\<close> and a \<open>size_t\<close>, so a negative number of
  remaining bytes counts as a large one: the length of an attribute behind the stream is then read,
  and only the last comparison, between signed numbers, ends the loop.
\<close>

section \<open>Attributes in a buffer\<close>

definition NLA_HDRLEN :: nat where "NLA_HDRLEN = 4"
definition sizeof_nlattr :: nat where "sizeof_nlattr = 4"
definition NLA_TYPE_MASK :: u16 where "NLA_TYPE_MASK = 0x3FFF"

definition align4 :: "nat \<Rightarrow> nat" where
  "align4 n = (n + 3) div 4 * 4"

definition nla_len :: "byte_order \<Rightarrow> bytes \<Rightarrow> nat \<Rightarrow> u16 option" where
  "nla_len bo buf nla = load_word bo 2 buf nla"

definition nla_type :: "byte_order \<Rightarrow> bytes \<Rightarrow> nat \<Rightarrow> nat option" where
  "nla_type bo buf nla =
     do { t \<leftarrow> load_word bo 2 buf (nla + 2); Some (unat (t AND NLA_TYPE_MASK)) }"

definition libbpf_nla_data :: "nat \<Rightarrow> nat" where
  "libbpf_nla_data nla = nla + NLA_HDRLEN"

definition libbpf_nla_len :: "byte_order \<Rightarrow> bytes \<Rightarrow> nat \<Rightarrow> int option" where
  "libbpf_nla_len bo buf nla = do { l \<leftarrow> nla_len bo buf nla; Some (int (unat l) - int NLA_HDRLEN) }"

definition libbpf_nla_getattr_u8 :: "bytes \<Rightarrow> nat \<Rightarrow> u8 option" where
  "libbpf_nla_getattr_u8 buf nla = load_word LittleEndian 1 buf (libbpf_nla_data nla)"

definition libbpf_nla_getattr_u32 :: "byte_order \<Rightarrow> bytes \<Rightarrow> nat \<Rightarrow> u32 option" where
  "libbpf_nla_getattr_u32 bo buf nla = load_word bo 4 buf (libbpf_nla_data nla)"

definition nla_ok :: "byte_order \<Rightarrow> bytes \<Rightarrow> nat \<Rightarrow> int \<Rightarrow> bool option" where
  "nla_ok bo buf nla remaining =
     (if (of_int remaining :: u64) \<ge> of_nat sizeof_nlattr
      then do { l \<leftarrow> nla_len bo buf nla;
                Some (unat l \<ge> sizeof_nlattr \<and> int (unat l) \<le> remaining) }
      else Some False)"

definition nla_next :: "byte_order \<Rightarrow> bytes \<Rightarrow> nat \<Rightarrow> int \<Rightarrow> (nat \<times> int) option" where
  "nla_next bo buf nla remaining =
     do { l \<leftarrow> nla_len bo buf nla;
          let totlen = align4 (unat l);
          Some (nla + totlen, remaining - int totlen) }"

section \<open>Validation\<close>

datatype nla_kind =
    LIBBPF_NLA_UNSPEC
  | LIBBPF_NLA_U8
  | LIBBPF_NLA_U16
  | LIBBPF_NLA_U32
  | LIBBPF_NLA_U64
  | LIBBPF_NLA_STRING
  | LIBBPF_NLA_FLAG
  | LIBBPF_NLA_MSECS
  | LIBBPF_NLA_NESTED

record libbpf_nla_policy =
  pol_type :: nla_kind
  pol_minlen :: u16
  pol_maxlen :: u16

fun nla_attr_minlen :: "nla_kind \<Rightarrow> nat" where
  "nla_attr_minlen LIBBPF_NLA_U8 = 1"
| "nla_attr_minlen LIBBPF_NLA_U16 = 2"
| "nla_attr_minlen LIBBPF_NLA_U32 = 4"
| "nla_attr_minlen LIBBPF_NLA_U64 = 8"
| "nla_attr_minlen LIBBPF_NLA_STRING = 1"
| "nla_attr_minlen _ = 0"

text \<open>The length of the payload is an \<open>int\<close>; the comparison with \<open>minlen\<close> is unsigned.\<close>

definition validate_nla :: "byte_order \<Rightarrow> bytes \<Rightarrow> nat \<Rightarrow> nat \<Rightarrow> libbpf_nla_policy list \<Rightarrow> int option" where
  "validate_nla bo buf nla maxtype policy =
     do { t \<leftarrow> nla_type bo buf nla;
          if t > maxtype then Some 0
          else if t \<ge> length policy then None
          else do {
            let pt = policy ! t;
            let minlen = (if pol_minlen pt \<noteq> 0 then unat (pol_minlen pt)
                          else if pol_type pt \<noteq> LIBBPF_NLA_UNSPEC then nla_attr_minlen (pol_type pt) else 0);
            l \<leftarrow> libbpf_nla_len bo buf nla;
            if (of_int l :: u32) < of_nat minlen then Some (-1)
            else if pol_maxlen pt \<noteq> 0 \<and> l > int (unat (pol_maxlen pt)) then Some (-1)
            else if pol_type pt = LIBBPF_NLA_STRING
            then do { c \<leftarrow> (load_word LittleEndian 1 buf (nat (int (libbpf_nla_data nla) + l - 1)) :: u8 option);
                      if c \<noteq> 0 then Some (-1) else Some 0 }
            else Some 0 } }"

section \<open>Parsing\<close>

function nla_parse_loop ::
  "byte_order \<Rightarrow> bytes \<Rightarrow> nat \<Rightarrow> libbpf_nla_policy list option \<Rightarrow> nat \<Rightarrow> int \<Rightarrow> nat option list
     \<Rightarrow> (int \<times> nat option list) option" where
  "nla_parse_loop bo buf maxtype policy nla rem tb =
     do { ok \<leftarrow> nla_ok bo buf nla rem;
          if \<not> ok then Some (0, tb)
          else do {
            t \<leftarrow> nla_type bo buf nla;
            (next', rem') \<leftarrow> nla_next bo buf nla rem;
            if t > maxtype then nla_parse_loop bo buf maxtype policy next' rem' tb
            else do {
              err \<leftarrow> (case policy of None \<Rightarrow> Some 0 | Some p \<Rightarrow> validate_nla bo buf nla maxtype p);
              if err < 0 then Some (err, tb)
              else nla_parse_loop bo buf maxtype policy next' rem' (tb[t := Some nla]) } } }"
  by pat_completeness auto

lemma align4_bounds: "n \<le> align4 n" "align4 n < n + 4"
  by (simp_all add: align4_def)

lemma nla_next_decreases:
  assumes "nla_ok bo buf nla rem = Some True" "nla_next bo buf nla rem = Some (nla', rem')"
  shows "rem' < rem" "0 < rem"
proof -
  obtain l where l: "nla_len bo buf nla = Some l" "4 \<le> unat l" "int (unat l) \<le> rem"
    using assms(1) by (auto simp: nla_ok_def sizeof_nlattr_def bind_eq_Some_conv split: if_splits)
  then have "rem' = rem - int (align4 (unat l))"
    using assms(2) by (simp add: nla_next_def Let_def del: of_nat_unat)
  moreover have "4 \<le> align4 (unat l)" using l(2) align4_bounds(1) [of "unat l"] by linarith
  ultimately show "rem' < rem" "0 < rem" using l by linarith+
qed

termination nla_parse_loop
  by (relation "measure (\<lambda>(bo, buf, maxtype, policy, nla, rem, tb). nat rem)")
     (auto dest: nla_next_decreases)

declare nla_parse_loop.simps [simp del]

definition libbpf_nla_parse ::
  "byte_order \<Rightarrow> bytes \<Rightarrow> nat \<Rightarrow> nat \<Rightarrow> int \<Rightarrow> libbpf_nla_policy list option \<Rightarrow> (int \<times> nat option list) option" where
  "libbpf_nla_parse bo buf maxtype head len policy =
     nla_parse_loop bo buf maxtype policy head len (replicate (maxtype + 1) None)"

definition libbpf_nla_parse_nested ::
  "byte_order \<Rightarrow> bytes \<Rightarrow> nat \<Rightarrow> nat \<Rightarrow> libbpf_nla_policy list option \<Rightarrow> (int \<times> nat option list) option" where
  "libbpf_nla_parse_nested bo buf maxtype nla policy =
     do { l \<leftarrow> libbpf_nla_len bo buf nla;
          libbpf_nla_parse bo buf maxtype (libbpf_nla_data nla) l policy }"

section \<open>Extended error messages\<close>

definition NLM_F_ACK_TLVS :: u16 where "NLM_F_ACK_TLVS = 0x200"
definition NLM_F_CAPPED :: u16 where "NLM_F_CAPPED = 0x100"
definition NLMSG_HDRLEN :: nat where "NLMSG_HDRLEN = 16"
definition sizeof_nlmsgerr :: nat where "sizeof_nlmsgerr = 20"
definition NLMSGERR_ATTR_MSG :: nat where "NLMSGERR_ATTR_MSG = 1"
definition NLMSGERR_ATTR_OFFS :: nat where "NLMSGERR_ATTR_OFFS = 2"
definition NLMSGERR_ATTR_MAX :: nat where "NLMSGERR_ATTR_MAX = 3"

definition no_policy :: libbpf_nla_policy where
  "no_policy = \<lparr> pol_type = LIBBPF_NLA_UNSPEC, pol_minlen = 0, pol_maxlen = 0 \<rparr>"

definition extack_policy :: "libbpf_nla_policy list" where
  "extack_policy = [no_policy, no_policy\<lparr>pol_type := LIBBPF_NLA_STRING\<rparr>, no_policy\<lparr>pol_type := LIBBPF_NLA_U32\<rparr>, no_policy]"

text \<open>\<open>libbpf_nla_dump_errormsg\<close> for the message at \<open>nlh\<close>: what it prints, the offset of the text or
  nothing. The length of the attributes is taken from the start of the message although they begin
  behind its header.\<close>

definition libbpf_nla_dump_errormsg :: "byte_order \<Rightarrow> bytes \<Rightarrow> nat \<Rightarrow> (int \<times> nat option) option" where
  "libbpf_nla_dump_errormsg bo buf nlh =
     do { flags \<leftarrow> (load_word bo 2 buf (nlh + 6) :: u16 option);
          if flags AND NLM_F_ACK_TLVS = 0 then Some (0, None)
          else do {
            let err = nlh + NLMSG_HDRLEN;
            inner \<leftarrow> (if flags AND NLM_F_CAPPED = 0
                      then do { l \<leftarrow> (load_word bo 4 buf (err + 4) :: u32 option); Some (sint (l - of_nat NLMSG_HDRLEN)) }
                      else Some 0);
            let hlen = int sizeof_nlmsgerr + inner;
            total \<leftarrow> (load_word bo 4 buf nlh :: u32 option);
            let alen = sint (total - of_int hlen);
            if int err + hlen < 0 then None
            else do {
              (e, tb) \<leftarrow> libbpf_nla_parse bo buf NLMSGERR_ATTR_MAX (nat (int err + hlen)) alen (Some extack_policy);
              if e \<noteq> 0 then Some (0, None)
              else Some (0, map_option libbpf_nla_data (tb ! NLMSGERR_ATTR_MSG)) } } }"

section \<open>Any bytes are parsed within bounds\<close>

lemma size_compare:
  assumes "-4 < rem" "rem < 2 ^ 31"
  shows "(of_nat sizeof_nlattr :: u64) \<le> of_int rem \<longleftrightarrow> rem < 0 \<or> 4 \<le> rem"
proof (cases "0 \<le> rem")
  case True
  then have "uint (of_int rem :: u64) = rem" using assms by (simp add: uint_word_of_int_eq take_bit_int_eq_self)
  then show ?thesis using True by (simp add: word_le_def sizeof_nlattr_def)
next
  case False
  then have "rem = -1 \<or> rem = -2 \<or> rem = -3" using assms by auto
  then show ?thesis by (auto simp: sizeof_nlattr_def word_le_def unsigned_minus_1_eq_mask mask_eq_exp_minus_1)
qed

text \<open>What an entry of the index promises: the attribute lies in the stream and has the type.\<close>

definition entry_ok :: "byte_order \<Rightarrow> bytes \<Rightarrow> nat \<Rightarrow> int \<Rightarrow> nat \<Rightarrow> nat \<Rightarrow> bool" where
  "entry_ok bo buf head e t nla \<longleftrightarrow>
     head \<le> nla \<and> nla_type bo buf nla = Some t \<and>
     (\<exists>l. nla_len bo buf nla = Some l \<and> 4 \<le> unat l \<and> int nla + int (unat l) \<le> e)"

lemma validate_defined:
  assumes "nla_len bo buf nla = Some l" "4 \<le> unat l" "nla + unat l \<le> length buf" "nla_type bo buf nla = Some t"
    and "maxtype < length policy"
  shows "\<exists>e. validate_nla bo buf nla maxtype policy = Some e \<and> (e = 0 \<or> e = -1)"
proof (cases "t > maxtype")
  case True
  then show ?thesis using assms(4) by (simp add: validate_nla_def)
next
  case False
  let ?pt = "policy ! t"
  let ?pl = "int (unat l) - 4"
  let ?min = "if pol_minlen ?pt \<noteq> 0 then unat (pol_minlen ?pt)
    else if pol_type ?pt \<noteq> LIBBPF_NLA_UNSPEC then nla_attr_minlen (pol_type ?pt) else 0"
  have min: "1 \<le> ?min" "?min < 2 ^ 32" if "pol_type ?pt = LIBBPF_NLA_STRING"
    using that unsigned_less [of "pol_minlen ?pt", where ?'a = nat] by (auto simp: unat_eq_0 Suc_le_eq unat_gt_0)
  have str: "\<exists>c. (load_word LittleEndian 1 buf (nat (int (libbpf_nla_data nla) + ?pl - 1)) :: u8 option) = Some c"
    if "\<not> (of_int ?pl :: u32) < of_nat ?min" "pol_type ?pt = LIBBPF_NLA_STRING"
  proof -
    have "1 \<le> ?pl"
    proof (rule ccontr)
      assume "\<not> 1 \<le> ?pl"
      then have "?pl = 0" using assms(2) by linarith
      then have "(of_int ?pl :: u32) = 0" by (simp only: of_int_0)
      moreover have "(0 :: u32) < of_nat ?min" using min [OF that(2)] by (simp add: word_less_nat_alt unat_of_nat)
      ultimately show False using that(1) by simp
    qed
    then show ?thesis
      using assms(3) by (intro load_word_defined) (simp add: libbpf_nla_data_def NLA_HDRLEN_def del: of_nat_unat)
  qed
  have "libbpf_nla_len bo buf nla = Some ?pl" using assms(1) by (simp add: libbpf_nla_len_def NLA_HDRLEN_def)
  moreover have "t < length policy" using False assms(5) by simp
  ultimately show ?thesis
    using False assms(4) str by (auto simp: validate_nla_def Let_def simp del: of_nat_unat)
qed

lemma parse_loop_bounds:
  assumes "int nla + rem = e" "-4 < rem" "rem < 2 ^ 31" "e + 5 \<le> int (length buf)"
    and "\<forall>p. policy = Some p \<longrightarrow> maxtype < length p"
    and "length tb = maxtype + 1" "head \<le> nla"
    and "\<forall>i x. i < length tb \<longrightarrow> tb ! i = Some x \<longrightarrow> entry_ok bo buf head e i x"
  shows "\<exists>err tb'. nla_parse_loop bo buf maxtype policy nla rem tb = Some (err, tb') \<and> (err = 0 \<or> err = -1) \<and>
     length tb' = maxtype + 1 \<and> (\<forall>i x. i < length tb' \<longrightarrow> tb' ! i = Some x \<longrightarrow> entry_ok bo buf head e i x)"
  using assms
proof (induction bo buf maxtype policy nla rem tb rule: nla_parse_loop.induct)
  case (1 bo buf maxtype policy nla rem tb)
  have ok: "nla_ok bo buf nla rem = Some True \<or> nla_ok bo buf nla rem = Some False"
  proof (cases "rem < 0 \<or> 4 \<le> rem")
    case True
    then have "nla + 2 \<le> length buf" using "1.prems"(1,2,4) by auto
    then show ?thesis using load_word_defined [of nla 2 buf bo, where ?'a = 16] by (auto simp: nla_ok_def nla_len_def)
  next
    case False
    then show ?thesis using size_compare [of rem] "1.prems"(2,3) by (simp add: nla_ok_def)
  qed
  show ?case
  proof (cases "nla_ok bo buf nla rem = Some True")
    case False
    then show ?thesis using ok "1.prems" by (simp add: nla_parse_loop.simps [of bo buf maxtype policy nla])
  next
    case True
    then obtain l where l: "nla_len bo buf nla = Some l" "4 \<le> unat l" "int (unat l) \<le> rem"
      by (auto simp: nla_ok_def sizeof_nlattr_def bind_eq_Some_conv split: if_splits)
    have fits: "nla + unat l \<le> length buf" using l(2,3) "1.prems"(1,4) by linarith
    obtain t where t: "nla_type bo buf nla = Some t"
      using load_word_defined [of "nla + 2" 2 buf bo, where ?'a = 16] l(2) fits by (auto simp: nla_type_def)
    let ?n = "nla + align4 (unat l)" and ?r = "rem - int (align4 (unat l))"
    have nx: "nla_next bo buf nla rem = Some (?n, ?r)" using l(1) by (simp add: nla_next_def Let_def)
    have r: "int ?n + ?r = e" "-4 < ?r" "?r < 2 ^ 31" "head \<le> ?n"
      using "1.prems" l align4_bounds [of "unat l"] by linarith+
    have entry: "entry_ok bo buf head e t nla"
      using l t "1.prems"(1,7) by (auto simp: entry_ok_def simp del: of_nat_unat)
    show ?thesis
    proof (cases "t > maxtype")
      case True2: True
      show ?thesis
        using "1.IH"(1) [OF True _ t nx _ True2 r(1-3) "1.prems"(4-6) r(4) "1.prems"(8)] True t nx True2
        by (subst nla_parse_loop.simps) simp
    next
      case False
      obtain err where err: "(case policy of None \<Rightarrow> Some 0 | Some p \<Rightarrow> validate_nla bo buf nla maxtype p) = Some err"
        "err = 0 \<or> err = -1"
        using validate_defined [OF l(1,2) fits t] "1.prems"(5) by (cases policy) auto
      show ?thesis
      proof (cases "err < 0")
        case True3: True
        then show ?thesis using True t nx False err "1.prems"(6,8) by (subst nla_parse_loop.simps) auto
      next
        case nonneg: False
        have tb: "\<forall>i x. i < length (tb[t := Some nla]) \<longrightarrow> tb[t := Some nla] ! i = Some x \<longrightarrow> entry_ok bo buf head e i x"
          using "1.prems"(6,8) entry False by (auto simp: nth_list_update split: if_splits)
        show ?thesis
          using "1.IH"(2) [OF True _ t nx _ False err(1) nonneg r(1-3) "1.prems"(4,5) _ r(4) tb] True t nx False err(1) nonneg "1.prems"(6)
          by (subst nla_parse_loop.simps) simp
      qed
    qed
  qed
qed


section \<open>A well-formed stream is indexed\<close>

type_synonym attr_value = "u16 \<times> bytes"

text \<open>The type without the flags in its two upper bits.\<close>

definition attr_key :: "u16 \<Rightarrow> nat" where
  "attr_key t = unat (t AND NLA_TYPE_MASK)"

definition encode_nla :: "byte_order \<Rightarrow> attr_value \<Rightarrow> bytes" where
  "encode_nla bo a = (case a of (t, p) \<Rightarrow>
     encode_word bo 2 (of_nat (4 + length p) :: u16) @ encode_word bo 2 t @ p @
     replicate (align4 (4 + length p) - (4 + length p)) 0)"

definition attr_ok :: "attr_value \<Rightarrow> bool" where
  "attr_ok a \<longleftrightarrow> 4 + length (snd a) < 2 ^ 16"

lemma length_encode_nla: "length (encode_nla bo (t, p)) = align4 (4 + length p)"
  using align4_bounds(1) [of "4 + length p"] by (simp add: encode_nla_def)

lemma read_bytes_append: "off = length xs \<Longrightarrow> n = length ys \<Longrightarrow> read_bytes n (xs @ ys @ zs) off = Some ys"
  by (simp add: read_bytes_def)

lemma encoded_attr:
  assumes "attr_ok (t, p)"
  shows "nla_len bo (pre @ encode_nla bo (t, p) @ post) (length pre) = Some (of_nat (4 + length p))"
    and "nla_type bo (pre @ encode_nla bo (t, p) @ post) (length pre) = Some (attr_key t)"
    and "read_bytes (length p) (pre @ encode_nla bo (t, p) @ post) (libbpf_nla_data (length pre)) = Some p"
proof -
  let ?l = "encode_word bo 2 (of_nat (4 + length p) :: u16)" and ?t = "encode_word bo 2 t"
  let ?pad = "replicate (align4 (4 + length p) - (4 + length p)) (0 :: u8)"
  let ?buf = "pre @ encode_nla bo (t, p) @ post"
  have e: "encode_nla bo (t, p) = ?l @ ?t @ p @ ?pad" by (simp add: encode_nla_def)
  have "read_bytes 2 ?buf (length pre) = Some ?l"
    using read_bytes_append [of "length pre" pre 2 ?l "?t @ p @ ?pad @ post"] by (simp add: e)
  then show "nla_len bo ?buf (length pre) = Some (of_nat (4 + length p))"
    by (simp add: nla_len_def load_word_def decode_encode_word)
  have "read_bytes 2 ?buf (length pre + 2) = Some ?t"
    using read_bytes_append [of "length pre + 2" "pre @ ?l" 2 ?t "p @ ?pad @ post"] by (simp add: e)
  then show "nla_type bo ?buf (length pre) = Some (attr_key t)"
    by (simp add: nla_type_def load_word_def decode_encode_word attr_key_def)
  show "read_bytes (length p) ?buf (libbpf_nla_data (length pre)) = Some p"
    using read_bytes_append [of "length pre + 4" "pre @ ?l @ ?t" "length p" p "?pad @ post"]
    by (simp add: e libbpf_nla_data_def NLA_HDRLEN_def)
qed

text \<open>The entry for type \<open>t\<close> after a stream: the last attribute of this type, with its payload.\<close>

definition indexed :: "byte_order \<Rightarrow> bytes \<Rightarrow> attr_value list \<Rightarrow> nat option \<Rightarrow> nat \<Rightarrow> nat option \<Rightarrow> bool" where
  "indexed bo buf attrs old t entry \<longleftrightarrow>
     (case map_of (rev (map (\<lambda>(t, p). (attr_key t, p)) attrs)) t of
        None \<Rightarrow> entry = old
      | Some p \<Rightarrow> \<exists>off. entry = Some off \<and> read_bytes (length p) buf (libbpf_nla_data off) = Some p \<and>
          libbpf_nla_len bo buf off = Some (int (length p)))"

lemma parse_loop_stream:
  assumes "list_all attr_ok attrs" "length (concat (map (encode_nla bo) attrs)) < 2 ^ 31"
    and "buf = pre @ concat (map (encode_nla bo) attrs) @ post" "length tb = maxtype + 1"
  shows "\<exists>tb'. nla_parse_loop bo buf maxtype None (length pre) (int (length (concat (map (encode_nla bo) attrs)))) tb
       = Some (0, tb') \<and> length tb' = maxtype + 1 \<and> (\<forall>t \<le> maxtype. indexed bo buf attrs (tb ! t) t (tb' ! t))"
  using assms
proof (induction attrs arbitrary: pre tb)
  case Nil
  have "nla_ok bo buf (length pre) 0 = Some False" by (simp add: nla_ok_def sizeof_nlattr_def)
  then show ?case using Nil.prems(4) by (subst nla_parse_loop.simps) (simp add: indexed_def)
next
  case (Cons a attrs)
  obtain t p where a: "a = (t, p)" by (cases a)
  let ?rest = "concat (map (encode_nla bo) attrs)"
  let ?enc = "encode_nla bo (t, p)"
  let ?rem = "int (length ?enc + length ?rest)"
  have ok: "attr_ok (t, p)" "list_all attr_ok attrs" using Cons.prems(1) by (simp_all add: a)
  have buf: "buf = pre @ ?enc @ (?rest @ post)" using Cons.prems(3) by (simp add: a)
  note at = encoded_attr [OF ok(1), where bo = bo and pre = pre and post = "?rest @ post", folded buf]
  have l: "unat (of_nat (4 + length p) :: u16) = 4 + length p"
    using ok(1) by (simp add: attr_ok_def unat_of_nat del: of_nat_add)
  have len: "length ?enc = align4 (4 + length p)" by (rule length_encode_nla)
  then have len4: "4 + length p \<le> length ?enc" using align4_bounds(1) [of "4 + length p"] by simp
  have "?rem < 2 ^ 31" using Cons.prems(2) by (simp add: a)
  then have "nla_ok bo buf (length pre) ?rem = Some True"
    using size_compare [of ?rem] at(1) l len4 by (simp add: nla_ok_def sizeof_nlattr_def del: of_nat_add of_nat_unat)
  moreover have "nla_next bo buf (length pre) ?rem = Some (length (pre @ ?enc), int (length ?rest))"
    using at(1) l len by (simp add: nla_next_def Let_def del: of_nat_add of_nat_unat)
  moreover define tb1 where "tb1 = (if attr_key t > maxtype then tb else tb[attr_key t := Some (length pre)])"
  ultimately have step: "nla_parse_loop bo buf maxtype None (length pre) ?rem tb
      = nla_parse_loop bo buf maxtype None (length (pre @ ?enc)) (int (length ?rest)) tb1"
    using at(2) by (subst nla_parse_loop.simps) simp
  have short: "length ?rest < 2 ^ 31" using Cons.prems(2) by (simp add: a)
  have at_rest: "buf = (pre @ ?enc) @ ?rest @ post" using buf by simp
  have size1: "length tb1 = maxtype + 1" using Cons.prems(4) by (simp add: tb1_def)
  obtain tb' where IH: "nla_parse_loop bo buf maxtype None (length (pre @ ?enc)) (int (length ?rest)) tb1 = Some (0, tb')"
    "length tb' = maxtype + 1" "\<forall>t \<le> maxtype. indexed bo buf attrs (tb1 ! t) t (tb' ! t)"
    using Cons.IH [OF ok(2) short at_rest size1] by blast
  have "indexed bo buf (a # attrs) (tb ! u) u (tb' ! u)" if u: "u \<le> maxtype" for u
  proof (cases "map_of (rev (map (\<lambda>(t, p). (attr_key t, p)) attrs)) u")
    case (Some q)
    then show ?thesis using IH(3) [rule_format, OF u] by (auto simp: indexed_def map_of_append a)
  next
    case None
    then have "tb' ! u = tb1 ! u" using IH(3) [rule_format, OF u] by (simp add: indexed_def)
    moreover have "libbpf_nla_len bo buf (length pre) = Some (int (length p))"
      using at(1) l by (simp add: libbpf_nla_len_def NLA_HDRLEN_def del: of_nat_add of_nat_unat)
    ultimately show ?thesis
      using None at(3) u Cons.prems(4) by (auto simp: indexed_def map_of_append map_add_def a tb1_def nth_list_update)
  qed
  then show ?case using step IH(1,2) by (simp add: a)
qed

lemma parse_encoded:
  assumes "list_all attr_ok attrs" "length (concat (map (encode_nla bo) attrs)) < 2 ^ 31"
    and buf: "buf = pre @ concat (map (encode_nla bo) attrs) @ post" "start = length pre"
    and n: "n = int (length (concat (map (encode_nla bo) attrs)))"
  obtains tb where "libbpf_nla_parse bo buf maxtype start n None = Some (0, tb)" "length tb = maxtype + 1"
    "\<And>t. t \<le> maxtype \<Longrightarrow> indexed bo buf attrs None t (tb ! t)"
proof -
  obtain tb where "libbpf_nla_parse bo buf maxtype start n None = Some (0, tb)" "length tb = maxtype + 1"
    "\<forall>t \<le> maxtype. indexed bo buf attrs (replicate (maxtype + 1) None ! t) t (tb ! t)"
    using parse_loop_stream [OF assms(1,2) refl, of "replicate (maxtype + 1) None" maxtype pre post]
    unfolding buf n by (auto simp: libbpf_nla_parse_def simp del: replicate.simps)
  then show ?thesis using that [of tb] by (auto simp del: replicate.simps)
qed

text \<open>
  C33. Parsing inverts encoding: for every stream of well-formed attributes, wherever it lies in a buffer,
  \<open>libbpf_nla_parse\<close> succeeds, and for every type up to \<open>maxtype\<close> the index holds the last attribute of
  that type, whose payload is read back, or nothing if there is none.
\<close>

theorem nla_parse_inverts_encoding:
  assumes "list_all attr_ok attrs" "length (concat (map (encode_nla bo) attrs)) < 2 ^ 31"
  shows "\<exists>tb. libbpf_nla_parse bo (pre @ concat (map (encode_nla bo) attrs) @ post) maxtype (length pre)
       (int (length (concat (map (encode_nla bo) attrs)))) None = Some (0, tb) \<and> length tb = maxtype + 1 \<and>
     (\<forall>t \<le> maxtype. indexed bo (pre @ concat (map (encode_nla bo) attrs) @ post) attrs None t (tb ! t))"
  using parse_encoded [OF assms refl refl refl] by metis

section \<open>Samples\<close>

definition sample_attrs :: "attr_value list" where
  "sample_attrs = [(1, [1, 2, 3, 4]), (7, [9]), (1, [5])]"


theorem nla_parse_inverts_encoding_witness:
  "\<exists>tb. libbpf_nla_parse BigEndian ([0xFF] @ concat (map (encode_nla BigEndian) sample_attrs) @ []) 3 1
       (int (length (concat (map (encode_nla BigEndian) sample_attrs)))) None = Some (0, tb) \<and>
     (\<exists>off. tb ! 1 = Some off \<and>
        read_bytes 1 ([0xFF] @ concat (map (encode_nla BigEndian) sample_attrs) @ []) (libbpf_nla_data off) = Some [5]) \<and>
     tb ! 2 = None"
proof -
  have ok: "list_all attr_ok sample_attrs" "length (concat (map (encode_nla BigEndian) sample_attrs)) < 2 ^ 31"
    by (simp_all add: sample_attrs_def attr_ok_def length_encode_nla align4_def)
  have m: "map_of (rev (map (\<lambda>(t, p). (attr_key t, p)) sample_attrs)) 1 = Some [5]"
    "map_of (rev (map (\<lambda>(t, p). (attr_key t, p)) sample_attrs)) 2 = None"
    by code_simp+
  obtain tb where tb: "libbpf_nla_parse BigEndian ([0xFF] @ concat (map (encode_nla BigEndian) sample_attrs) @ []) 3 (length [0xFF :: u8])
       (int (length (concat (map (encode_nla BigEndian) sample_attrs)))) None = Some (0, tb)"
    "\<forall>t \<le> 3. indexed BigEndian ([0xFF] @ concat (map (encode_nla BigEndian) sample_attrs) @ []) sample_attrs None t (tb ! t)"
    using nla_parse_inverts_encoding [OF ok, of "[0xFF]" "[]" 3] by auto
  have "(1 :: nat) \<le> 3" "(2 :: nat) \<le> 3" by simp_all
  from tb(2) [rule_format, OF this(1)] tb(2) [rule_format, OF this(2)] tb(1) show ?thesis
    by (auto simp: indexed_def m [simplified])
qed

end
