(* ===== verification/Netlink.thy ===== *)
theory Netlink
  imports Nlattr Uapi
begin

text \<open>
  The netlink client of \<open>src/libbpf/src/netlink.c\<close>: opening the socket, the receive loop, attaching a
  program to an interface and asking for the program that is attached, and the dump requests of the
  traffic control functions.

  The sockets are the kernel's: \<open>nl_os\<close> holds the calls, with their error number (0 on success), and
  \<open>replies\<close>, what the successive \<open>recv\<close> calls on a socket give. The receive loop runs over these; when
  they are used up it waits forever, which is \<open>None\<close>. Its buffer has 4096 bytes; what \<open>recv\<close> does not
  overwrite keeps the content \<open>stack\<close>. A callback takes the cookie by value and returns it.
\<close>

section \<open>Numbers of the protocol\<close>

definition NLMSG_ERROR :: u16 where "NLMSG_ERROR = 2"
definition NLMSG_DONE :: u16 where "NLMSG_DONE = 3"
definition NLM_F_REQUEST :: u16 where "NLM_F_REQUEST = 1"
definition NLM_F_MULTI :: u16 where "NLM_F_MULTI = 2"
definition NLM_F_ACK :: u16 where "NLM_F_ACK = 4"
definition NLM_F_DUMP :: u16 where "NLM_F_DUMP = 0x300"
definition NLA_F_NESTED :: u16 where "NLA_F_NESTED = 0x8000"
definition RTM_SETLINK :: u16 where "RTM_SETLINK = 19"
definition RTM_GETLINK :: u16 where "RTM_GETLINK = 18"
definition RTM_GETTCLASS :: u16 where "RTM_GETTCLASS = 42"
definition RTM_GETQDISC :: u16 where "RTM_GETQDISC = 38"
definition RTM_GETTFILTER :: u16 where "RTM_GETTFILTER = 46"
definition AF_UNSPEC :: u8 where "AF_UNSPEC = 0"
definition AF_PACKET :: u8 where "AF_PACKET = 17"

definition IFLA_XDP :: nat where "IFLA_XDP = 43"
definition IFLA_MAX :: nat where "IFLA_MAX = 51"
definition IFLA_XDP_UNSPEC :: nat where "IFLA_XDP_UNSPEC = 0"
definition IFLA_XDP_FD :: nat where "IFLA_XDP_FD = 1"
definition IFLA_XDP_ATTACHED :: nat where "IFLA_XDP_ATTACHED = 2"
definition IFLA_XDP_FLAGS :: nat where "IFLA_XDP_FLAGS = 3"
definition IFLA_XDP_PROG_ID :: nat where "IFLA_XDP_PROG_ID = 4"
definition IFLA_XDP_DRV_PROG_ID :: nat where "IFLA_XDP_DRV_PROG_ID = 5"
definition IFLA_XDP_SKB_PROG_ID :: nat where "IFLA_XDP_SKB_PROG_ID = 6"
definition IFLA_XDP_HW_PROG_ID :: nat where "IFLA_XDP_HW_PROG_ID = 7"
definition IFLA_XDP_MAX :: nat where "IFLA_XDP_MAX = 7"
definition XDP_ATTACHED_NONE :: u8 where "XDP_ATTACHED_NONE = 0"
definition XDP_ATTACHED_MULTI :: u8 where "XDP_ATTACHED_MULTI = 4"

section \<open>The socket\<close>

record 'w nl_os =
  socket :: "'w \<Rightarrow> int \<times> 'w"
  bind_errno :: "'w \<Rightarrow> int \<Rightarrow> int"
  getsockname :: "'w \<Rightarrow> int \<Rightarrow> int \<times> nat \<times> u32"
  close_sock :: "'w \<Rightarrow> int \<Rightarrow> 'w"
  send :: "'w \<Rightarrow> int \<Rightarrow> bytes \<Rightarrow> int \<times> 'w"
  replies :: "'w \<Rightarrow> int \<Rightarrow> (int \<times> bytes) list"
  time_now :: "'w \<Rightarrow> u32"

definition sizeof_sockaddr_nl :: nat where "sizeof_sockaddr_nl = 12"

text \<open>The socket or a negative error, with the port the kernel gave. \<open>socket\<close> gives a descriptor or the
  negative error number.\<close>

definition libbpf_netlink_open :: "'w nl_os \<Rightarrow> 'w \<Rightarrow> (int \<times> u32) \<times> 'w" where
  "libbpf_netlink_open os w =
     (case socket os w of (sock, w) \<Rightarrow>
      if sock < 0 then ((sock, 0), w)
      else if bind_errno os w sock \<noteq> 0 then ((- bind_errno os w sock, 0), close_sock os w sock)
      else case getsockname os w sock of (e, addrlen, nl_pid) \<Rightarrow>
        if e \<noteq> 0 then ((- e, 0), close_sock os w sock)
        else if addrlen \<noteq> sizeof_sockaddr_nl
        then ((- errno_code LIBBPF_ERRNO__INTERNAL, 0), close_sock os w sock)
        else ((sock, nl_pid), w))"

section \<open>Receiving\<close>

definition BUFLEN :: nat where "BUFLEN = 4096"

record nlmsghdr =
  nlmsg_len :: u32
  nlmsg_type :: u16
  nlmsg_flags :: u16
  nlmsg_seq :: u32
  nlmsg_pid :: u32

definition load_nlmsghdr :: "byte_order \<Rightarrow> bytes \<Rightarrow> nat \<Rightarrow> nlmsghdr option" where
  "load_nlmsghdr bo buf nh =
     do { l \<leftarrow> load_word bo 4 buf nh;
          t \<leftarrow> load_word bo 2 buf (nh + 4);
          f \<leftarrow> load_word bo 2 buf (nh + 6);
          s \<leftarrow> load_word bo 4 buf (nh + 8);
          p \<leftarrow> load_word bo 4 buf (nh + 12);
          Some \<lparr> nlmsg_len = l, nlmsg_type = t, nlmsg_flags = f, nlmsg_seq = s, nlmsg_pid = p \<rparr> }"

definition encode_nlmsghdr :: "byte_order \<Rightarrow> nlmsghdr \<Rightarrow> bytes" where
  "encode_nlmsghdr bo h =
     encode_word bo 4 (nlmsg_len h) @ encode_word bo 2 (nlmsg_type h) @ encode_word bo 2 (nlmsg_flags h) @
     encode_word bo 4 (nlmsg_seq h) @ encode_word bo 4 (nlmsg_pid h)"

type_synonym 'c callback = "'c \<Rightarrow> bytes \<Rightarrow> nat \<Rightarrow> (int \<times> 'c) option"

text \<open>The result of the inner loop over one datagram: the function returns, or the datagram is used up
  and \<open>multipart\<close> says whether another one is awaited.\<close>

datatype 'c msg_result = Finished int 'c | More bool 'c

function nlmsg_loop ::
  "byte_order \<Rightarrow> bytes \<Rightarrow> u32 \<Rightarrow> u32 \<Rightarrow> 'c callback option \<Rightarrow> nat \<Rightarrow> int \<Rightarrow> bool \<Rightarrow> 'c \<Rightarrow> 'c msg_result option" where
  "nlmsg_loop bo buf nl_pid seq cb nh len multipart cookie =
     (if len < int NLMSG_HDRLEN then Some (More multipart cookie)
      else do {
        h \<leftarrow> load_nlmsghdr bo buf nh;
        if unat (nlmsg_len h) < NLMSG_HDRLEN \<or> int (unat (nlmsg_len h)) > len then Some (More multipart cookie)
        else if nlmsg_pid h \<noteq> nl_pid then Some (Finished (- errno_code LIBBPF_ERRNO__WRNGPID) cookie)
        else if nlmsg_seq h \<noteq> seq then Some (Finished (- errno_code LIBBPF_ERRNO__INVSEQ) cookie)
        else do {
          let multipart = (multipart \<or> nlmsg_flags h AND NLM_F_MULTI \<noteq> 0);
          let step = align4 (unat (nlmsg_len h));
          if nlmsg_type h = NLMSG_ERROR then do {
            e \<leftarrow> (load_word bo 4 buf (nh + NLMSG_HDRLEN) :: u32 option);
            if e = 0 then nlmsg_loop bo buf nl_pid seq cb (nh + step) (len - int step) multipart cookie
            else do { _ \<leftarrow> libbpf_nla_dump_errormsg bo buf nh; Some (Finished (sint e) cookie) } }
          else if nlmsg_type h = NLMSG_DONE then Some (Finished 0 cookie)
          else case cb of
            None \<Rightarrow> nlmsg_loop bo buf nl_pid seq cb (nh + step) (len - int step) multipart cookie
          | Some f \<Rightarrow> do {
              (r, cookie) \<leftarrow> f cookie buf nh;
              if r \<noteq> 0 then Some (Finished r cookie)
              else nlmsg_loop bo buf nl_pid seq cb (nh + step) (len - int step) multipart cookie } } })"
  by pat_completeness auto

lemma msg_step_positive: "\<not> unat n < NLMSG_HDRLEN \<Longrightarrow> 0 < align4 (unat n)"
  using align4_bounds(1) [of "unat n"] by (simp add: NLMSG_HDRLEN_def)

termination nlmsg_loop
  by (relation "measure (\<lambda>(bo, buf, nl_pid, seq, cb, nh, len, multipart, cookie). nat len)")
     (auto intro: msg_step_positive, simp_all add: NLMSG_HDRLEN_def)

declare nlmsg_loop.simps [simp del]

text \<open>\<open>bpf_netlink_recv\<close> on the results of the \<open>recv\<close> calls: \<open>None\<close> is waiting forever, \<open>Some None\<close> an
  access outside of the buffer.\<close>

definition recv_buf :: "bytes \<Rightarrow> bytes \<Rightarrow> bytes" where
  "recv_buf stack msg = msg @ drop (length msg) stack"

fun bpf_netlink_recv ::
  "byte_order \<Rightarrow> bytes \<Rightarrow> (int \<times> bytes) list \<Rightarrow> u32 \<Rightarrow> u32 \<Rightarrow> 'c callback option \<Rightarrow> 'c \<Rightarrow> (int \<times> 'c) option option" where
  "bpf_netlink_recv bo stack [] nl_pid seq cb cookie = None"
| "bpf_netlink_recv bo stack ((e, msg) # rs) nl_pid seq cb cookie =
     (if e \<noteq> 0 then Some (Some (- e, cookie))
      else if msg = [] then Some (Some (0, cookie))
      else case nlmsg_loop bo (recv_buf stack msg) nl_pid seq cb 0 (int (length msg)) False cookie of
        None \<Rightarrow> Some None
      | Some (Finished r cookie) \<Rightarrow> Some (Some (r, cookie))
      | Some (More multipart cookie) \<Rightarrow>
          if multipart then bpf_netlink_recv bo (recv_buf stack msg) rs nl_pid seq cb cookie
          else Some (Some (0, cookie)))"

section \<open>Attaching\<close>

text \<open>The request of \<open>bpf_set_link_xdp_fd\<close> as it is sent: header, \<open>struct ifinfomsg\<close>, and the nested
  attribute with the descriptor and, if there are any, the flags.\<close>

definition encode_ifinfomsg :: "byte_order \<Rightarrow> u8 \<Rightarrow> u32 \<Rightarrow> bytes" where
  "encode_ifinfomsg bo family ifi_index =
     [family, 0] @ encode_word bo 2 (0 :: u16) @ encode_word bo 4 ifi_index @
     encode_word bo 4 (0 :: u32) @ encode_word bo 4 (0 :: u32)"

definition sizeof_ifinfomsg :: nat where "sizeof_ifinfomsg = 16"

definition xdp_attrs :: "byte_order \<Rightarrow> u32 \<Rightarrow> u32 \<Rightarrow> bytes" where
  "xdp_attrs bo fd flags =
     encode_nla bo (of_nat IFLA_XDP_FD, encode_word bo 4 fd) @
     (if flags \<noteq> 0 then encode_nla bo (of_nat IFLA_XDP_FLAGS, encode_word bo 4 flags) else [])"

definition nested_xdp :: "byte_order \<Rightarrow> bytes \<Rightarrow> bytes" where
  "nested_xdp bo attrs =
     encode_word bo 2 (of_nat (NLA_HDRLEN + length attrs) :: u16) @
     encode_word bo 2 (NLA_F_NESTED OR of_nat IFLA_XDP :: u16) @ attrs"

definition setlink_request :: "byte_order \<Rightarrow> u32 \<Rightarrow> u32 \<Rightarrow> u32 \<Rightarrow> u32 \<Rightarrow> bytes" where
  "setlink_request bo seq ifindex fd flags =
     (let attrs = xdp_attrs bo fd flags;
          len = NLMSG_HDRLEN + sizeof_ifinfomsg + align4 (NLA_HDRLEN + length attrs)
      in encode_nlmsghdr bo \<lparr> nlmsg_len = of_nat len, nlmsg_type = RTM_SETLINK,
           nlmsg_flags = NLM_F_REQUEST OR NLM_F_ACK, nlmsg_seq = seq, nlmsg_pid = 0 \<rparr> @
         encode_ifinfomsg bo AF_UNSPEC ifindex @ nested_xdp bo attrs)"

definition bpf_set_link_xdp_fd ::
  "byte_order \<Rightarrow> 'w nl_os \<Rightarrow> bytes \<Rightarrow> u32 \<Rightarrow> u32 \<Rightarrow> u32 \<Rightarrow> 'w \<Rightarrow> (int option \<times> 'w) option" where
  "bpf_set_link_xdp_fd bo os stack ifindex fd flags w =
     (case libbpf_netlink_open os w of ((sock, nl_pid), w) \<Rightarrow>
      if sock < 0 then Some (Some sock, w)
      else case send os w sock (setlink_request bo 1 ifindex fd flags) of (e, w) \<Rightarrow>
        if e \<noteq> 0 then Some (Some (- e), close_sock os w sock)
        else do { r \<leftarrow> bpf_netlink_recv bo stack (replies os w sock) nl_pid 1 (None :: unit callback option) ();
                  Some (map_option fst r, close_sock os w sock) })"

section \<open>Asking for the program\<close>

record xdp_id_md =
  md_ifindex :: u32
  md_flags :: u32
  md_id :: u32

type_synonym 'c dump = "'c \<Rightarrow> bytes \<Rightarrow> nat \<Rightarrow> nat option list \<Rightarrow> (int \<times> 'c) option"

text \<open>The common part of \<open>__dump_link_nlmsg\<close> and of the three functions for traffic control: \<open>hdr\<close> is the
  size of the structure behind the message header, \<open>maxtype\<close> the size of the index.\<close>

definition dump_nlmsg :: "byte_order \<Rightarrow> nat \<Rightarrow> nat \<Rightarrow> 'c dump \<Rightarrow> 'c callback" where
  "dump_nlmsg bo hdr maxtype dump cookie buf nlh =
     do { l \<leftarrow> (load_word bo 4 buf nlh :: u32 option);
          let len = sint (l - of_nat (NLMSG_HDRLEN + hdr));
          let attr = nlh + NLMSG_HDRLEN + align4 hdr;
          (e, tb) \<leftarrow> libbpf_nla_parse bo buf maxtype attr len None;
          if e \<noteq> 0 then Some (- errno_code LIBBPF_ERRNO__NLPARSE, cookie)
          else dump cookie buf (nlh + NLMSG_HDRLEN) tb }"

definition dump_link_nlmsg :: "byte_order \<Rightarrow> 'c dump \<Rightarrow> 'c callback" where
  "dump_link_nlmsg bo dump = dump_nlmsg bo sizeof_ifinfomsg IFLA_MAX dump"

definition get_xdp_id_attr :: "u8 \<Rightarrow> u32 \<Rightarrow> nat" where
  "get_xdp_id_attr mode flags =
     (if mode \<noteq> XDP_ATTACHED_MULTI then IFLA_XDP_PROG_ID
      else if flags AND XDP_FLAGS_DRV_MODE \<noteq> 0 then IFLA_XDP_DRV_PROG_ID
      else if flags AND XDP_FLAGS_HW_MODE \<noteq> 0 then IFLA_XDP_HW_PROG_ID
      else if flags AND XDP_FLAGS_SKB_MODE \<noteq> 0 then IFLA_XDP_SKB_PROG_ID
      else IFLA_XDP_UNSPEC)"

definition get_xdp_id :: "byte_order \<Rightarrow> xdp_id_md dump" where
  "get_xdp_id bo md buf ifinfo tb =
     do { ifi_index \<leftarrow> (load_word bo 4 buf (ifinfo + 4) :: u32 option);
          if md_ifindex md \<noteq> 0 \<and> md_ifindex md \<noteq> ifi_index then Some (0, md)
          else case tb ! IFLA_XDP of
            None \<Rightarrow> Some (0, md)
          | Some nla \<Rightarrow> do {
              (r, xdp_tb) \<leftarrow> libbpf_nla_parse_nested bo buf IFLA_XDP_MAX nla None;
              if r \<noteq> 0 then Some (r, md)
              else case xdp_tb ! IFLA_XDP_ATTACHED of
                None \<Rightarrow> Some (0, md)
              | Some att \<Rightarrow> do {
                  mode \<leftarrow> libbpf_nla_getattr_u8 buf att;
                  if mode = XDP_ATTACHED_NONE then Some (0, md)
                  else do {
                    let xdp_attr = get_xdp_id_attr mode (md_flags md);
                    if xdp_attr = 0 then Some (0, md)
                    else case xdp_tb ! xdp_attr of
                      None \<Rightarrow> Some (0, md)
                    | Some a \<Rightarrow> do { i \<leftarrow> libbpf_nla_getattr_u32 bo buf a; Some (0, md\<lparr>md_id := i\<rparr>) } } } } }"

definition getlink_request :: "byte_order \<Rightarrow> u32 \<Rightarrow> bytes" where
  "getlink_request bo seq =
     encode_nlmsghdr bo \<lparr> nlmsg_len = of_nat (NLMSG_HDRLEN + sizeof_ifinfomsg), nlmsg_type = RTM_GETLINK,
       nlmsg_flags = NLM_F_DUMP OR NLM_F_REQUEST, nlmsg_seq = seq, nlmsg_pid = 0 \<rparr> @
     encode_ifinfomsg bo AF_PACKET 0"

text \<open>The functions that send a dump request and hand the answers to a callback.\<close>

definition nl_dump ::
  "byte_order \<Rightarrow> 'w nl_os \<Rightarrow> bytes \<Rightarrow> int \<Rightarrow> u32 \<Rightarrow> (u32 \<Rightarrow> bytes) \<Rightarrow> 'c callback \<Rightarrow> 'c \<Rightarrow> 'w
     \<Rightarrow> ((int \<times> 'c) option \<times> 'w) option" where
  "nl_dump bo os stack sock nl_pid request cb cookie w =
     (let seq = time_now os w in
      case send os w sock (request seq) of (e, w) \<Rightarrow>
        if e \<noteq> 0 then Some (Some (- e, cookie), w)
        else do { r \<leftarrow> bpf_netlink_recv bo stack (replies os w sock) nl_pid seq (Some cb) cookie;
                  Some (r, w) })"

definition libbpf_nl_get_link ::
  "byte_order \<Rightarrow> 'w nl_os \<Rightarrow> bytes \<Rightarrow> int \<Rightarrow> u32 \<Rightarrow> 'c dump \<Rightarrow> 'c \<Rightarrow> 'w \<Rightarrow> ((int \<times> 'c) option \<times> 'w) option" where
  "libbpf_nl_get_link bo os stack sock nl_pid dump cookie w =
     nl_dump bo os stack sock nl_pid (getlink_request bo) (dump_link_nlmsg bo dump) cookie w"

text \<open>The result and the program id that is stored, if any.\<close>

definition bpf_get_link_xdp_id ::
  "byte_order \<Rightarrow> 'w nl_os \<Rightarrow> bytes \<Rightarrow> u32 \<Rightarrow> u32 \<Rightarrow> 'w \<Rightarrow> ((int \<times> u32 option) option \<times> 'w) option" where
  "bpf_get_link_xdp_id bo os stack ifindex flags w =
     (if flags AND NOT XDP_FLAGS_MASK \<noteq> 0 then Some (Some (- EINVAL, None), w)
      else
      let flags = flags AND (XDP_FLAGS_SKB_MODE OR XDP_FLAGS_DRV_MODE OR XDP_FLAGS_HW_MODE);
          mask = flags - 1
      in
      if flags \<noteq> 0 \<and> flags AND mask \<noteq> 0 then Some (Some (- EINVAL, None), w)
      else case libbpf_netlink_open os w of ((sock, nl_pid), w) \<Rightarrow>
        if sock < 0 then Some (Some (sock, None), w)
        else do {
          (r, w) \<leftarrow> libbpf_nl_get_link bo os stack sock nl_pid (get_xdp_id bo)
                      \<lparr> md_ifindex = ifindex, md_flags = flags, md_id = 0 \<rparr> w;
          Some (map_option (\<lambda>(ret', md). (ret', if ret' = 0 then Some (md_id md) else None)) r, close_sock os w sock) })"

section \<open>Traffic control\<close>

definition sizeof_tcmsg :: nat where "sizeof_tcmsg = 20"

definition encode_tcmsg :: "byte_order \<Rightarrow> u32 \<Rightarrow> u32 \<Rightarrow> bytes" where
  "encode_tcmsg bo ifindex parent =
     [AF_UNSPEC, 0] @ encode_word bo 2 (0 :: u16) @ encode_word bo 4 ifindex @
     encode_word bo 4 (0 :: u32) @ encode_word bo 4 parent @ encode_word bo 4 (0 :: u32)"

definition tc_request :: "byte_order \<Rightarrow> u16 \<Rightarrow> u32 \<Rightarrow> u32 \<Rightarrow> u32 \<Rightarrow> bytes" where
  "tc_request bo t ifindex parent seq =
     encode_nlmsghdr bo \<lparr> nlmsg_len = of_nat (NLMSG_HDRLEN + sizeof_tcmsg), nlmsg_type = t,
       nlmsg_flags = NLM_F_DUMP OR NLM_F_REQUEST, nlmsg_seq = seq, nlmsg_pid = 0 \<rparr> @
     encode_tcmsg bo ifindex parent"

text \<open>\<open>TCA_MAX\<close> is a number of the system headers and a parameter.\<close>

definition dump_class_nlmsg :: "nat \<Rightarrow> byte_order \<Rightarrow> 'c dump \<Rightarrow> 'c callback" where
  "dump_class_nlmsg tca_max bo dump = dump_nlmsg bo sizeof_tcmsg tca_max dump"

definition dump_qdisc_nlmsg :: "nat \<Rightarrow> byte_order \<Rightarrow> 'c dump \<Rightarrow> 'c callback" where
  "dump_qdisc_nlmsg tca_max bo dump = dump_nlmsg bo sizeof_tcmsg tca_max dump"

definition dump_filter_nlmsg :: "nat \<Rightarrow> byte_order \<Rightarrow> 'c dump \<Rightarrow> 'c callback" where
  "dump_filter_nlmsg tca_max bo dump = dump_nlmsg bo sizeof_tcmsg tca_max dump"

definition libbpf_nl_get_class ::
  "nat \<Rightarrow> byte_order \<Rightarrow> 'w nl_os \<Rightarrow> bytes \<Rightarrow> int \<Rightarrow> u32 \<Rightarrow> u32 \<Rightarrow> 'c dump \<Rightarrow> 'c \<Rightarrow> 'w \<Rightarrow> ((int \<times> 'c) option \<times> 'w) option" where
  "libbpf_nl_get_class tca_max bo os stack sock nl_pid ifindex dump cookie w =
     nl_dump bo os stack sock nl_pid (tc_request bo RTM_GETTCLASS ifindex 0) (dump_class_nlmsg tca_max bo dump) cookie w"

definition libbpf_nl_get_qdisc ::
  "nat \<Rightarrow> byte_order \<Rightarrow> 'w nl_os \<Rightarrow> bytes \<Rightarrow> int \<Rightarrow> u32 \<Rightarrow> u32 \<Rightarrow> 'c dump \<Rightarrow> 'c \<Rightarrow> 'w \<Rightarrow> ((int \<times> 'c) option \<times> 'w) option" where
  "libbpf_nl_get_qdisc tca_max bo os stack sock nl_pid ifindex dump cookie w =
     nl_dump bo os stack sock nl_pid (tc_request bo RTM_GETQDISC ifindex 0) (dump_qdisc_nlmsg tca_max bo dump) cookie w"

definition libbpf_nl_get_filter ::
  "nat \<Rightarrow> byte_order \<Rightarrow> 'w nl_os \<Rightarrow> bytes \<Rightarrow> int \<Rightarrow> u32 \<Rightarrow> u32 \<Rightarrow> u32 \<Rightarrow> 'c dump \<Rightarrow> 'c \<Rightarrow> 'w
     \<Rightarrow> ((int \<times> 'c) option \<times> 'w) option" where
  "libbpf_nl_get_filter tca_max bo os stack sock nl_pid ifindex handle dump cookie w =
     nl_dump bo os stack sock nl_pid (tc_request bo RTM_GETTFILTER ifindex handle) (dump_filter_nlmsg tca_max bo dump) cookie w"

section \<open>The request is what the kernel expects\<close>

lemma read_bytes_split:
  assumes "read_bytes n buf off = Some bs"
  shows "buf = take off buf @ bs @ drop (off + n) buf" "length (take off buf) = off" "length bs = n"
proof -
  have r: "off + n \<le> length buf" "bs = take n (drop off buf)"
    using assms by (auto simp: read_bytes_def split: if_splits)
  then show "buf = take off buf @ bs @ drop (off + n) buf"
    by (metis add.commute append_take_drop_id drop_drop)
  show "length (take off buf) = off" "length bs = n" using r by simp_all
qed

definition xdp_attr_list :: "byte_order \<Rightarrow> u32 \<Rightarrow> u32 \<Rightarrow> attr_value list" where
  "xdp_attr_list bo fd flags =
     (of_nat IFLA_XDP_FD, encode_word bo 4 fd) #
     (if flags \<noteq> 0 then [(of_nat IFLA_XDP_FLAGS, encode_word bo 4 flags)] else [])"

lemma xdp_attrs_stream: "xdp_attrs bo fd flags = concat (map (encode_nla bo) (xdp_attr_list bo fd flags))"
  by (simp add: xdp_attrs_def xdp_attr_list_def)

lemma length_xdp_attrs: "length (xdp_attrs bo fd flags) = (if flags \<noteq> 0 then 16 else 8)"
  by (simp add: xdp_attrs_def length_encode_nla align4_def)

lemma nested_xdp_attr:
  "nested_xdp bo (xdp_attrs bo fd flags) = encode_nla bo (NLA_F_NESTED OR of_nat IFLA_XDP, xdp_attrs bo fd flags)"
  by (simp add: nested_xdp_def encode_nla_def NLA_HDRLEN_def length_xdp_attrs align4_def)

lemma xdp_keys:
  "attr_key (NLA_F_NESTED OR of_nat IFLA_XDP) = IFLA_XDP"
  "attr_key (of_nat IFLA_XDP_FD) = IFLA_XDP_FD" "attr_key (of_nat IFLA_XDP_FLAGS) = IFLA_XDP_FLAGS"
  by code_simp+

lemma length_encode_nlmsghdr [simp]: "length (encode_nlmsghdr bo h) = 16"
  by (simp add: encode_nlmsghdr_def)

lemma length_encode_ifinfomsg [simp]: "length (encode_ifinfomsg bo f i) = 16"
  by (simp add: encode_ifinfomsg_def)

lemma load_encoded_hdr: "load_nlmsghdr bo (encode_nlmsghdr bo h @ post) 0 = Some h"
proof -
  let ?a = "encode_word bo 4 (nlmsg_len h)" and ?b = "encode_word bo 2 (nlmsg_type h)"
  let ?c = "encode_word bo 2 (nlmsg_flags h)" and ?d = "encode_word bo 4 (nlmsg_seq h)" and ?e = "encode_word bo 4 (nlmsg_pid h)"
  have "read_bytes 4 (encode_nlmsghdr bo h @ post) 0 = Some ?a"
    "read_bytes 2 (encode_nlmsghdr bo h @ post) 4 = Some ?b"
    "read_bytes 2 (encode_nlmsghdr bo h @ post) 6 = Some ?c"
    "read_bytes 4 (encode_nlmsghdr bo h @ post) 8 = Some ?d"
    "read_bytes 4 (encode_nlmsghdr bo h @ post) 12 = Some ?e"
    using read_bytes_append [of 0 "[]" 4 ?a "?b @ ?c @ ?d @ ?e @ post"] read_bytes_append [of 4 ?a 2 ?b "?c @ ?d @ ?e @ post"]
      read_bytes_append [of 6 "?a @ ?b" 2 ?c "?d @ ?e @ post"] read_bytes_append [of 8 "?a @ ?b @ ?c" 4 ?d "?e @ post"]
      read_bytes_append [of 12 "?a @ ?b @ ?c @ ?d" 4 ?e post]
    by (simp_all add: encode_nlmsghdr_def)
  then show ?thesis by (simp add: load_nlmsghdr_def load_word_def decode_encode_word)
qed

lemma indexed_u32:
  assumes "indexed bo buf attrs None t entry"
    and "map_of (rev (map (\<lambda>(t, p). (attr_key t, p)) attrs)) t = Some (encode_word bo 4 v)"
  shows "\<exists>off. entry = Some off \<and> libbpf_nla_getattr_u32 bo buf off = Some v"
  using assms by (auto simp: indexed_def libbpf_nla_getattr_u32_def load_word_def decode_encode_word)

lemma indexed_u8:
  assumes "indexed bo buf attrs None t entry"
    and "map_of (rev (map (\<lambda>(t, p). (attr_key t, p)) attrs)) t = Some [v]"
  shows "\<exists>off. entry = Some off \<and> libbpf_nla_getattr_u8 buf off = Some v"
  using assms by (auto simp: indexed_def libbpf_nla_getattr_u8_def load_word_def decode_word_def)

text \<open>An attribute whose payload is a stream of attributes is parsed into the index of that stream.\<close>

lemma nested_parse:
  assumes ix: "indexed bo buf attrs None t entry"
    and pay: "map_of (rev (map (\<lambda>(t, p). (attr_key t, p)) attrs)) t = Some (concat (map (encode_nla bo) inner))"
    and ok: "list_all attr_ok inner" "length (concat (map (encode_nla bo) inner)) < 2 ^ 31"
  obtains nla tb where "entry = Some nla" "libbpf_nla_parse_nested bo buf maxtype nla None = Some (0, tb)"
    "\<And>t. t \<le> maxtype \<Longrightarrow> indexed bo buf inner None t (tb ! t)"
proof -
  let ?p = "concat (map (encode_nla bo) inner)"
  obtain nla where nla: "entry = Some nla" "read_bytes (length ?p) buf (libbpf_nla_data nla) = Some ?p"
    "libbpf_nla_len bo buf nla = Some (int (length ?p))"
    using ix pay by (auto simp: indexed_def)
  obtain tb where "libbpf_nla_parse bo buf maxtype (libbpf_nla_data nla) (int (length ?p)) None = Some (0, tb)"
    "\<And>t. t \<le> maxtype \<Longrightarrow> indexed bo buf inner None t (tb ! t)"
    using parse_encoded [OF ok read_bytes_split(1) [OF nla(2)] read_bytes_split(2) [OF nla(2), symmetric] refl] by metis
  then show ?thesis using that [of nla tb] nla by (simp add: libbpf_nla_parse_nested_def)
qed

lemma xdp_attr_list_ok:
  "list_all attr_ok (xdp_attr_list bo fd flags)" "length (concat (map (encode_nla bo) (xdp_attr_list bo fd flags))) < 2 ^ 31"
  by (simp_all add: xdp_attr_list_def attr_ok_def length_encode_nla align4_def)

lemma xdp_attr_list_keys:
  "map_of (rev (map (\<lambda>(t, p). (attr_key t, p)) (xdp_attr_list bo fd flags))) IFLA_XDP_FD = Some (encode_word bo 4 fd)"
  "map_of (rev (map (\<lambda>(t, p). (attr_key t, p)) (xdp_attr_list bo fd flags))) IFLA_XDP_FLAGS =
     (if flags \<noteq> 0 then Some (encode_word bo 4 flags) else None)"
proof -
  have "IFLA_XDP_FD \<noteq> IFLA_XDP_FLAGS" "IFLA_XDP_FLAGS \<noteq> IFLA_XDP_FD" by (simp_all add: IFLA_XDP_FD_def IFLA_XDP_FLAGS_def)
  then show "map_of (rev (map (\<lambda>(t, p). (attr_key t, p)) (xdp_attr_list bo fd flags))) IFLA_XDP_FD = Some (encode_word bo 4 fd)"
    "map_of (rev (map (\<lambda>(t, p). (attr_key t, p)) (xdp_attr_list bo fd flags))) IFLA_XDP_FLAGS =
       (if flags \<noteq> 0 then Some (encode_word bo 4 flags) else None)"
    by (simp_all add: xdp_attr_list_def xdp_keys)
qed

lemma setlink_request_parses:
  fixes bo :: byte_order and seq ifindex fd flags :: u32
  defines "req \<equiv> setlink_request bo seq ifindex fd flags"
  shows "\<exists>h tb nla xtb off. load_nlmsghdr bo req 0 = Some h \<and> unat (nlmsg_len h) = length req \<and>
     nlmsg_type h = RTM_SETLINK \<and> nlmsg_flags h = NLM_F_REQUEST OR NLM_F_ACK \<and> nlmsg_seq h = seq \<and>
     libbpf_nla_parse bo req IFLA_MAX 32 (int (length req) - 32) None = Some (0, tb) \<and> tb ! IFLA_XDP = Some nla \<and>
     libbpf_nla_parse_nested bo req IFLA_XDP_MAX nla None = Some (0, xtb) \<and>
     xtb ! IFLA_XDP_FD = Some off \<and> libbpf_nla_getattr_u32 bo req off = Some fd \<and>
     (if flags = 0 then xtb ! IFLA_XDP_FLAGS = None
      else \<exists>foff. xtb ! IFLA_XDP_FLAGS = Some foff \<and> libbpf_nla_getattr_u32 bo req foff = Some flags)"
proof -
  let ?attrs = "xdp_attrs bo fd flags"
  let ?h = "\<lparr> nlmsg_len = of_nat (NLMSG_HDRLEN + sizeof_ifinfomsg + align4 (NLA_HDRLEN + length ?attrs)),
    nlmsg_type = RTM_SETLINK, nlmsg_flags = NLM_F_REQUEST OR NLM_F_ACK, nlmsg_seq = seq, nlmsg_pid = 0 \<rparr>"
  let ?pre = "encode_nlmsghdr bo ?h @ encode_ifinfomsg bo AF_UNSPEC ifindex"
  let ?outer = "[(NLA_F_NESTED OR of_nat IFLA_XDP, ?attrs)] :: attr_value list"
  have req: "req = ?pre @ concat (map (encode_nla bo) ?outer) @ []"
    by (simp add: req_def setlink_request_def Let_def nested_xdp_attr)
  have len: "length (concat (map (encode_nla bo) ?outer)) = (if flags \<noteq> 0 then 20 else 12)"
    by (simp add: length_encode_nla length_xdp_attrs align4_def)
  have lreq: "length req = (if flags \<noteq> 0 then 52 else 44)"
    unfolding req length_append len by simp
  have n: "int (length req) - 32 = int (length (concat (map (encode_nla bo) ?outer)))"
    unfolding len lreq by simp
  have outer: "list_all attr_ok ?outer" "length (concat (map (encode_nla bo) ?outer)) < 2 ^ 31" "32 = length ?pre"
    unfolding len by (simp_all add: attr_ok_def length_xdp_attrs)
  obtain tb where tb: "libbpf_nla_parse bo req IFLA_MAX 32 (int (length req) - 32) None = Some (0, tb)"
    and tbx: "\<And>t. t \<le> IFLA_MAX \<Longrightarrow> indexed bo req ?outer None t (tb ! t)"
    using parse_encoded [OF outer(1,2) req outer(3) n, of IFLA_MAX] by metis
  have "indexed bo req ?outer None IFLA_XDP (tb ! IFLA_XDP)" using tbx by (simp add: IFLA_MAX_def IFLA_XDP_def)
  then obtain nla xtb where nla: "tb ! IFLA_XDP = Some nla"
    and xtb: "libbpf_nla_parse_nested bo req IFLA_XDP_MAX nla None = Some (0, xtb)"
    and xx: "\<And>t. t \<le> IFLA_XDP_MAX \<Longrightarrow> indexed bo req (xdp_attr_list bo fd flags) None t (xtb ! t)"
    by (rule nested_parse [OF _ _ xdp_attr_list_ok, of bo req ?outer IFLA_XDP _ fd flags IFLA_XDP_MAX])
       (simp_all add: xdp_keys xdp_attrs_stream)
  have le: "IFLA_XDP_FD \<le> IFLA_XDP_MAX" "IFLA_XDP_FLAGS \<le> IFLA_XDP_MAX"
    by (simp_all add: IFLA_XDP_FD_def IFLA_XDP_FLAGS_def IFLA_XDP_MAX_def)
  obtain off where off: "xtb ! IFLA_XDP_FD = Some off" "libbpf_nla_getattr_u32 bo req off = Some fd"
    using indexed_u32 [OF xx [OF le(1)] xdp_attr_list_keys(1)] by blast
  have fl: "if flags = 0 then xtb ! IFLA_XDP_FLAGS = None
      else \<exists>foff. xtb ! IFLA_XDP_FLAGS = Some foff \<and> libbpf_nla_getattr_u32 bo req foff = Some flags"
  proof (cases "flags = 0")
    case True
    then show ?thesis using xx [OF le(2)] xdp_attr_list_keys(2) [of bo fd flags] by (simp add: indexed_def)
  next
    case False
    then show ?thesis using indexed_u32 [OF xx [OF le(2)], of flags] xdp_attr_list_keys(2) [of bo fd flags] by simp
  qed
  have hdr: "load_nlmsghdr bo req 0 = Some ?h" using load_encoded_hdr [of bo ?h] by (simp add: req)
  have "unat (nlmsg_len ?h) = length req"
    using lreq by (simp add: NLMSG_HDRLEN_def sizeof_ifinfomsg_def NLA_HDRLEN_def length_xdp_attrs align4_def)
  then show ?thesis
    using hdr tb nla xtb off fl
    by (intro exI [of _ ?h] exI [of _ tb] exI [of _ nla] exI [of _ xtb] exI [of _ off]) simp
qed

text \<open>
  C34. The message \<open>bpf_set_link_xdp_fd\<close> sends says what it was asked for: its header gives its own length,
  the type and the flags of an acknowledged \<open>RTM_SETLINK\<close>; its one attribute is the nested \<open>IFLA_XDP\<close>; and
  parsing that gives back the program descriptor and the flags, the latter only if they are not zero.
\<close>

theorem setlink_request_well_formed:
  "let req = setlink_request bo seq ifindex fd flags in
   \<exists>h tb nla xtb off. load_nlmsghdr bo req 0 = Some h \<and> unat (nlmsg_len h) = length req \<and>
     nlmsg_type h = RTM_SETLINK \<and> nlmsg_flags h = NLM_F_REQUEST OR NLM_F_ACK \<and> nlmsg_seq h = seq \<and>
     libbpf_nla_parse bo req IFLA_MAX 32 (int (length req) - 32) None = Some (0, tb) \<and> tb ! IFLA_XDP = Some nla \<and>
     libbpf_nla_parse_nested bo req IFLA_XDP_MAX nla None = Some (0, xtb) \<and>
     xtb ! IFLA_XDP_FD = Some off \<and> libbpf_nla_getattr_u32 bo req off = Some fd \<and>
     (if flags = 0 then xtb ! IFLA_XDP_FLAGS = None
      else \<exists>foff. xtb ! IFLA_XDP_FLAGS = Some foff \<and> libbpf_nla_getattr_u32 bo req foff = Some flags)"
  unfolding Let_def by (rule setlink_request_parses)

section \<open>The answer of the kernel\<close>

text \<open>An acknowledgement as the kernel builds it: header, error number and the header of the request.\<close>

definition encode_ack :: "byte_order \<Rightarrow> u32 \<Rightarrow> u32 \<Rightarrow> u16 \<Rightarrow> u32 \<Rightarrow> bytes \<Rightarrow> bytes" where
  "encode_ack bo pid seq flags e req_hdr =
     encode_nlmsghdr bo \<lparr> nlmsg_len = 36, nlmsg_type = NLMSG_ERROR, nlmsg_flags = flags, nlmsg_seq = seq, nlmsg_pid = pid \<rparr> @
     encode_word bo 4 e @ req_hdr"

lemma recv_buf_append: "\<exists>post. recv_buf stack msg = msg @ post"
  by (simp add: recv_buf_def)

lemma ack_loads:
  "load_nlmsghdr bo (encode_ack bo pid seq flags e q @ post) 0 =
     Some \<lparr> nlmsg_len = 36, nlmsg_type = NLMSG_ERROR, nlmsg_flags = flags, nlmsg_seq = seq, nlmsg_pid = pid \<rparr>"
  "load_word bo 4 (encode_ack bo pid seq flags e q @ post) 16 = Some e"
  "load_word bo 2 (encode_ack bo pid seq flags e q @ post) 6 = Some flags"
proof -
  let ?h = "\<lparr> nlmsg_len = 36, nlmsg_type = NLMSG_ERROR, nlmsg_flags = flags, nlmsg_seq = seq, nlmsg_pid = pid \<rparr>"
  show hdr: "load_nlmsghdr bo (encode_ack bo pid seq flags e q @ post) 0 = Some ?h"
    using load_encoded_hdr [of bo ?h] by (simp add: encode_ack_def)
  show "load_word bo 4 (encode_ack bo pid seq flags e q @ post) 16 = Some e"
    using read_bytes_append [of 16 "encode_nlmsghdr bo ?h" 4 "encode_word bo 4 e" "q @ post"]
    by (simp add: encode_ack_def load_word_def decode_encode_word)
  show "load_word bo 2 (encode_ack bo pid seq flags e q @ post) 6 = Some flags"
    using hdr by (auto simp: load_nlmsghdr_def split: bind_splits)
qed

lemma recv_ack:
  assumes "length q = 16" "flags AND NLM_F_MULTI = 0" "flags AND NLM_F_ACK_TLVS = 0"
  shows "bpf_netlink_recv bo stack ((0, encode_ack bo pid seq flags e q) # rs) nl_pid want cb cookie =
    Some (Some (if pid \<noteq> nl_pid then - errno_code LIBBPF_ERRNO__WRNGPID
                else if seq \<noteq> want then - errno_code LIBBPF_ERRNO__INVSEQ else sint e, cookie))"
proof -
  obtain post where buf: "recv_buf stack (encode_ack bo pid seq flags e q) = encode_ack bo pid seq flags e q @ post"
    using recv_buf_append by blast
  have len: "length (encode_ack bo pid seq flags e q) = 36" using assms(1) by (simp add: encode_ack_def)
  then have ne: "encode_ack bo pid seq flags e q \<noteq> []" by auto
  have rest: "nlmsg_loop bo b nl_pid want cb 36 0 m cookie = Some (More m cookie)" for b m
    by (simp add: nlmsg_loop.simps NLMSG_HDRLEN_def)
  show ?thesis
    using assms(2,3) ne rest
    by (simp add: buf len nlmsg_loop.simps [of bo _ nl_pid want cb 0] ack_loads NLMSG_HDRLEN_def align4_def
        libbpf_nla_dump_errormsg_def)
qed


text \<open>A kernel that refuses the request with \<open>-EBUSY\<close>; its state counts the open sockets.\<close>

definition busy_kernel :: "nat nl_os" where
  "busy_kernel = \<lparr> socket = (\<lambda>w. (5, w + 1)), bind_errno = (\<lambda>_ _. 0), getsockname = (\<lambda>_ _. (0, 12, 4711)),
     close_sock = (\<lambda>w _. w - 1), send = (\<lambda>w _ _. (0, w)),
     replies = (\<lambda>_ _. [(0, encode_ack LittleEndian 4711 1 0 (- 16) (replicate 16 0))]), time_now = (\<lambda>_. 0) \<rparr>"


end
