(* ===== verification/Btf.thy ===== *)
theory Btf
  imports Errno Process
begin

text \<open>
  Type information: the first part of \<open>src/libbpf/src/btf.c\<close>. Parsing the sections \<open>.BTF\<close> and \<open>.BTF.ext\<close>,
  looking up types and names, the size of a type, and the function and line records of a program.

  A \<open>struct btf\<close> keeps the bytes of the section; pointers into them are offsets, and a type is the offset of
  its \<open>struct btf_type\<close> or the one that stands for \<open>void\<close>. An access outside of the bytes is \<open>None\<close>. The data
  is in the byte order \<open>bo\<close> of the host. Errors are the negative numbers of the code. Allocations may fail:
  \<open>alloc_ok\<close> is the result of \<open>calloc\<close> and \<open>malloc\<close>; \<open>realloc_ok n\<close> says whether the table can grow for type \<open>n\<close> and
  whether there is memory for \<open>n\<close> bytes of records.
\<close>

section \<open>Layout\<close>

definition E2BIG :: int where "E2BIG = 7"
definition ENOTSUP :: int where "ENOTSUP = 95"
definition BTF_MAGIC :: u16 where "BTF_MAGIC = 0xEB9F"
definition BTF_VERSION :: u8 where "BTF_VERSION = 1"
definition BTF_MAX_NR_TYPES :: nat where "BTF_MAX_NR_TYPES = 0x7fffffff"
definition BTF_MAX_STR_OFFSET :: nat where "BTF_MAX_STR_OFFSET = 0x7fffffff"
definition sizeof_btf_header :: nat where "sizeof_btf_header = 24"
definition sizeof_btf_type :: nat where "sizeof_btf_type = 12"
definition UINT32_MAX :: nat where "UINT32_MAX = 2 ^ 32 - 1"

record btf_header =
  btf_magic :: u16
  btf_version :: u8
  btf_flags :: u8
  type_off :: u32
  str_off :: u32
  str_len :: u32

definition load_btf_header :: "byte_order \<Rightarrow> bytes \<Rightarrow> btf_header option" where
  "load_btf_header bo d =
     do { m \<leftarrow> load_word bo 2 d 0; v \<leftarrow> load_word bo 1 d 2; f \<leftarrow> load_word bo 1 d 3;
          t \<leftarrow> load_word bo 4 d 8; s \<leftarrow> load_word bo 4 d 16; l \<leftarrow> load_word bo 4 d 20;
          Some \<lparr> btf_magic = m, btf_version = v, btf_flags = f, type_off = t, str_off = s, str_len = l \<rparr> }"

datatype btf_kind =
    BTF_KIND_UNKN | BTF_KIND_INT | BTF_KIND_PTR | BTF_KIND_ARRAY | BTF_KIND_STRUCT | BTF_KIND_UNION
  | BTF_KIND_ENUM | BTF_KIND_FWD | BTF_KIND_TYPEDEF | BTF_KIND_VOLATILE | BTF_KIND_CONST | BTF_KIND_RESTRICT
  | BTF_KIND_FUNC | BTF_KIND_FUNC_PROTO

definition btf_kinds :: "btf_kind list" where
  "btf_kinds = [BTF_KIND_UNKN, BTF_KIND_INT, BTF_KIND_PTR, BTF_KIND_ARRAY, BTF_KIND_STRUCT, BTF_KIND_UNION,
     BTF_KIND_ENUM, BTF_KIND_FWD, BTF_KIND_TYPEDEF, BTF_KIND_VOLATILE, BTF_KIND_CONST, BTF_KIND_RESTRICT,
     BTF_KIND_FUNC, BTF_KIND_FUNC_PROTO]"

text \<open>The numbers 14 and 15 are no kind; like \<open>BTF_KIND_UNKN\<close> they get to the default cases.\<close>

definition BTF_INFO_KIND :: "u32 \<Rightarrow> btf_kind" where
  "BTF_INFO_KIND info =
     (let k = unat (drop_bit 24 info AND 0x0f) in if k < length btf_kinds then btf_kinds ! k else BTF_KIND_UNKN)"

definition BTF_INFO_VLEN :: "u32 \<Rightarrow> nat" where
  "BTF_INFO_VLEN info = unat (info AND 0xffff)"

definition is_modifier :: "btf_kind \<Rightarrow> bool" where
  "is_modifier k \<longleftrightarrow> k = BTF_KIND_TYPEDEF \<or> k = BTF_KIND_VOLATILE \<or> k = BTF_KIND_CONST \<or> k = BTF_KIND_RESTRICT"

datatype btf_tref = BtfVoid | TypeAt nat

record btf =
  btf_data :: bytes
  btf_types :: "btf_tref list"
  types_size :: nat
  btf_strings :: nat
  btf_str_len :: nat
  btf_fd :: int

text \<open>\<open>nr_types\<close> counts the types without the one for \<open>void\<close>, which the table gets with the first type.\<close>

definition nr_types :: "btf \<Rightarrow> nat" where
  "nr_types b = length (btf_types b) - 1"

record btf_type =
  name_off :: u32
  type_info :: u32
  size_or_type :: u32

text \<open>The members of the \<open>struct btf_type\<close> at an offset; \<open>btf_void\<close> is all zero.\<close>

definition load_btf_type :: "byte_order \<Rightarrow> bytes \<Rightarrow> btf_tref \<Rightarrow> btf_type option" where
  "load_btf_type bo d t =
     (case t of
        BtfVoid \<Rightarrow> Some \<lparr> name_off = 0, type_info = 0, size_or_type = 0 \<rparr>
      | TypeAt p \<Rightarrow>
          do { n \<leftarrow> load_word bo 4 d p; i \<leftarrow> load_word bo 4 d (p + 4); s \<leftarrow> load_word bo 4 d (p + 8);
               Some \<lparr> name_off = n, type_info = i, size_or_type = s \<rparr> })"

section \<open>Parsing\<close>

definition btf_add_type :: "(nat \<Rightarrow> bool) \<Rightarrow> btf \<Rightarrow> btf_tref \<Rightarrow> int \<times> btf" where
  "btf_add_type realloc_ok b t =
     (if types_size b - nr_types b < 2
      then if types_size b = BTF_MAX_NR_TYPES then (- E2BIG, b)
           else let expand_by = max (types_size b div 4) 16;
                    new_size = min BTF_MAX_NR_TYPES (types_size b + expand_by)
                in if \<not> realloc_ok (nr_types b) then (- ENOMEM, b)
                   else (0, b\<lparr>btf_types := (if nr_types b = 0 then [BtfVoid] else btf_types b) @ [t], types_size := new_size\<rparr>)
      else (0, b\<lparr>btf_types := btf_types b @ [t]\<rparr>))"

definition btf_parse_hdr :: "byte_order \<Rightarrow> bytes \<Rightarrow> int option" where
  "btf_parse_hdr bo d =
     (if length d < sizeof_btf_header then Some (- EINVAL)
      else do {
        hdr \<leftarrow> load_btf_header bo d;
        let meta_left = length d - sizeof_btf_header;
        Some (if btf_magic hdr \<noteq> BTF_MAGIC then - EINVAL
              else if btf_version hdr \<noteq> BTF_VERSION then - ENOTSUP
              else if btf_flags hdr \<noteq> 0 then - ENOTSUP
              else if meta_left = 0 then - EINVAL
              else if meta_left < unat (type_off hdr) then - EINVAL
              else if meta_left < unat (str_off hdr) then - EINVAL
              else if type_off hdr \<ge> str_off hdr then - EINVAL
              else if type_off hdr AND 2 \<noteq> 0 then - EINVAL
              else 0) })"

text \<open>The conditions are read from left to right: the first and the last byte of the section only when its
  length is not zero. The result is the error and the offset of the strings.\<close>

definition btf_parse_str_sec :: "byte_order \<Rightarrow> bytes \<Rightarrow> (int \<times> nat) option" where
  "btf_parse_str_sec bo d =
     do { hdr \<leftarrow> load_btf_header bo d;
          let start = sizeof_btf_header + unat (str_off hdr);
          let end' = start + unat (str_len hdr);
          if str_len hdr = 0 \<or> unat (str_len hdr) - 1 > BTF_MAX_STR_OFFSET then Some (- EINVAL, start)
          else do {
            first \<leftarrow> read_bytes 1 d start;
            if first \<noteq> [0] then Some (- EINVAL, start)
            else do {
              last' \<leftarrow> read_bytes 1 d (end' - 1);
              if last' \<noteq> [0] then Some (- EINVAL, start) else Some (0, start) } } }"

definition btf_type_size :: "u32 \<Rightarrow> int" where
  "btf_type_size info =
     (let base_size = int sizeof_btf_type; vlen = int (BTF_INFO_VLEN info) in
      case BTF_INFO_KIND info of
        BTF_KIND_FWD \<Rightarrow> base_size | BTF_KIND_CONST \<Rightarrow> base_size | BTF_KIND_VOLATILE \<Rightarrow> base_size
      | BTF_KIND_RESTRICT \<Rightarrow> base_size | BTF_KIND_PTR \<Rightarrow> base_size | BTF_KIND_TYPEDEF \<Rightarrow> base_size
      | BTF_KIND_FUNC \<Rightarrow> base_size
      | BTF_KIND_INT \<Rightarrow> base_size + 4
      | BTF_KIND_ENUM \<Rightarrow> base_size + vlen * 8
      | BTF_KIND_ARRAY \<Rightarrow> base_size + 12
      | BTF_KIND_STRUCT \<Rightarrow> base_size + vlen * 12
      | BTF_KIND_UNION \<Rightarrow> base_size + vlen * 12
      | BTF_KIND_FUNC_PROTO \<Rightarrow> base_size + vlen * 8
      | BTF_KIND_UNKN \<Rightarrow> - EINVAL)"

lemma btf_type_size_cases: "btf_type_size info = - EINVAL \<or> 12 \<le> btf_type_size info"
  by (simp add: btf_type_size_def Let_def sizeof_btf_type_def split: btf_kind.split)

function parse_types :: "byte_order \<Rightarrow> (nat \<Rightarrow> bool) \<Rightarrow> nat \<Rightarrow> nat \<Rightarrow> btf \<Rightarrow> (int \<times> btf) option" where
  "parse_types bo realloc_ok next_type end_type b =
     (if next_type < end_type
      then do {
        info \<leftarrow> load_word bo 4 (btf_data b) (next_type + 4);
        let type_size = btf_type_size info;
        if type_size < 0 then Some (type_size, b)
        else case btf_add_type realloc_ok b (TypeAt next_type) of (err, b) \<Rightarrow>
          if err \<noteq> 0 then Some (err, b)
          else parse_types bo realloc_ok (next_type + nat type_size) end_type b }
      else Some (0, b))"
  by pat_completeness auto

lemma type_step: "\<not> btf_type_size info < 0 \<Longrightarrow> 0 < nat (btf_type_size info)"
  using btf_type_size_cases [of info] by (auto simp: EINVAL_def)

termination parse_types
  by (relation "measure (\<lambda>(bo, r, next_type, end_type, b). end_type - next_type)") (use type_step in fastforce)+

declare parse_types.simps [simp del]

definition btf_parse_type_sec :: "byte_order \<Rightarrow> (nat \<Rightarrow> bool) \<Rightarrow> btf \<Rightarrow> (int \<times> btf) option" where
  "btf_parse_type_sec bo realloc_ok b =
     do { hdr \<leftarrow> load_btf_header bo (btf_data b);
          parse_types bo realloc_ok (sizeof_btf_header + unat (type_off hdr)) (sizeof_btf_header + unat (str_off hdr)) b }"

text \<open>\<open>btf__new\<close>: the error pointer or the new \<open>struct btf\<close>.\<close>

definition btf__new :: "byte_order \<Rightarrow> bool \<Rightarrow> (nat \<Rightarrow> bool) \<Rightarrow> bytes \<Rightarrow> (int + btf) option" where
  "btf__new bo alloc_ok realloc_ok d =
     (if \<not> alloc_ok then Some (Inl (- ENOMEM))
      else do {
        err \<leftarrow> btf_parse_hdr bo d;
        if err \<noteq> 0 then Some (Inl err)
        else do {
          (err, strings) \<leftarrow> btf_parse_str_sec bo d;
          if err \<noteq> 0 then Some (Inl err)
          else do {
            hdr \<leftarrow> load_btf_header bo d;
            (err, b) \<leftarrow> btf_parse_type_sec bo realloc_ok
              \<lparr> btf_data = d, btf_types = [], types_size = 0, btf_strings = strings,
                btf_str_len = unat (str_len hdr), btf_fd = -1 \<rparr>;
            Some (if err \<noteq> 0 then Inl err else Inr b) } } })"

section \<open>Types and names\<close>

text \<open>A null pointer is \<open>Some None\<close>. Without any type the table is a null pointer and the access a fault.\<close>

definition btf__type_by_id :: "btf \<Rightarrow> u32 \<Rightarrow> btf_tref option option" where
  "btf__type_by_id b type_id =
     (if unat type_id > nr_types b then Some None
      else if unat type_id < length (btf_types b) then Some (Some (btf_types b ! unat type_id)) else None)"

definition btf_type_is_void :: "byte_order \<Rightarrow> btf \<Rightarrow> btf_tref \<Rightarrow> bool option" where
  "btf_type_is_void bo b t =
     (if t = BtfVoid then Some True
      else do { ty \<leftarrow> load_btf_type bo (btf_data b) t; Some (BTF_INFO_KIND (type_info ty) = BTF_KIND_FWD) })"

definition btf_type_is_void_or_null :: "byte_order \<Rightarrow> btf \<Rightarrow> btf_tref option \<Rightarrow> bool option" where
  "btf_type_is_void_or_null bo b t = (case t of None \<Rightarrow> Some True | Some t \<Rightarrow> btf_type_is_void bo b t)"

definition MAX_RESOLVE_DEPTH :: nat where "MAX_RESOLVE_DEPTH = 32"
definition sizeof_pointer :: nat where "sizeof_pointer = 8"

text \<open>The label \<open>done\<close> of \<open>btf__resolve_size\<close>.\<close>

definition times_elements :: "nat \<Rightarrow> nat \<Rightarrow> int" where
  "times_elements nelems sz =
     (if nelems \<noteq> 0 \<and> sz > UINT32_MAX div nelems then - E2BIG else int (nelems * sz))"

text \<open>The loop, with \<open>d\<close> turns left. \<open>nelems\<close> never exceeds 32 bits, so its product does not wrap.\<close>

fun resolve_size_loop :: "byte_order \<Rightarrow> btf \<Rightarrow> nat \<Rightarrow> u32 \<Rightarrow> nat \<Rightarrow> int option" where
  "resolve_size_loop bo b 0 type_id nelems = Some (- EINVAL)"
| "resolve_size_loop bo b (Suc d) type_id nelems =
     do { t \<leftarrow> btf__type_by_id b type_id;
          void \<leftarrow> btf_type_is_void_or_null bo b t;
          if void then Some (- EINVAL)
          else do {
            ty \<leftarrow> load_btf_type bo (btf_data b) (the t);
            case BTF_INFO_KIND (type_info ty) of
              BTF_KIND_INT \<Rightarrow> Some (times_elements nelems (unat (size_or_type ty)))
            | BTF_KIND_STRUCT \<Rightarrow> Some (times_elements nelems (unat (size_or_type ty)))
            | BTF_KIND_UNION \<Rightarrow> Some (times_elements nelems (unat (size_or_type ty)))
            | BTF_KIND_ENUM \<Rightarrow> Some (times_elements nelems (unat (size_or_type ty)))
            | BTF_KIND_PTR \<Rightarrow> Some (times_elements nelems sizeof_pointer)
            | BTF_KIND_TYPEDEF \<Rightarrow> resolve_size_loop bo b d (size_or_type ty) nelems
            | BTF_KIND_VOLATILE \<Rightarrow> resolve_size_loop bo b d (size_or_type ty) nelems
            | BTF_KIND_CONST \<Rightarrow> resolve_size_loop bo b d (size_or_type ty) nelems
            | BTF_KIND_RESTRICT \<Rightarrow> resolve_size_loop bo b d (size_or_type ty) nelems
            | BTF_KIND_ARRAY \<Rightarrow>
                (case the t of
                   BtfVoid \<Rightarrow> None
                 | TypeAt p \<Rightarrow> do {
                     elem \<leftarrow> load_word bo 4 (btf_data b) (p + 12);
                     n \<leftarrow> (load_word bo 4 (btf_data b) (p + 20) :: u32 option);
                     if nelems \<noteq> 0 \<and> unat n > UINT32_MAX div nelems then Some (- E2BIG)
                     else resolve_size_loop bo b d elem (nelems * unat n) })
            | _ \<Rightarrow> Some (- EINVAL) } }"

definition btf__resolve_size :: "byte_order \<Rightarrow> btf \<Rightarrow> u32 \<Rightarrow> int option" where
  "btf__resolve_size bo b type_id = resolve_size_loop bo b MAX_RESOLVE_DEPTH type_id 1"

text \<open>The loop of \<open>btf__resolve_type\<close> gives the depth, the last type id and whether its type is void or missing.\<close>

fun resolve_type_loop :: "byte_order \<Rightarrow> btf \<Rightarrow> nat \<Rightarrow> u32 \<Rightarrow> int option" where
  "resolve_type_loop bo b 0 type_id = Some (- EINVAL)"
| "resolve_type_loop bo b (Suc d) type_id =
     do { t \<leftarrow> btf__type_by_id b type_id;
          void \<leftarrow> btf_type_is_void_or_null bo b t;
          if void then Some (- EINVAL)
          else do {
            ty \<leftarrow> load_btf_type bo (btf_data b) (the t);
            if is_modifier (BTF_INFO_KIND (type_info ty)) then resolve_type_loop bo b d (size_or_type ty)
            else Some (sint type_id) } }"

definition btf__resolve_type :: "byte_order \<Rightarrow> btf \<Rightarrow> u32 \<Rightarrow> int option" where
  "btf__resolve_type bo b type_id = resolve_type_loop bo b MAX_RESOLVE_DEPTH type_id"

definition btf__name_by_offset :: "btf \<Rightarrow> u32 \<Rightarrow> nat option" where
  "btf__name_by_offset b offset =
     (if unat offset < btf_str_len b then Some (btf_strings b + unat offset) else None)"

text \<open>\<open>strcmp\<close> of the bytes from some place on with a string: whether they are equal.\<close>

fun str_equal :: "bytes \<Rightarrow> string \<Rightarrow> bool option" where
  "str_equal [] s = None"
| "str_equal (x # xs) [] = Some (x = 0)"
| "str_equal (x # xs) (c # cs) = (if x \<noteq> of_char c then Some False else str_equal xs cs)"

fun find_name :: "byte_order \<Rightarrow> btf \<Rightarrow> string \<Rightarrow> nat \<Rightarrow> btf_tref list \<Rightarrow> int option" where
  "find_name bo b type_name i [] = Some (- ENOENT)"
| "find_name bo b type_name i (t # ts) =
     do { ty \<leftarrow> load_btf_type bo (btf_data b) t;
          eq \<leftarrow> (case btf__name_by_offset b (name_off ty) of
                   None \<Rightarrow> Some False
                 | Some p \<Rightarrow> str_equal (drop p (btf_data b)) type_name);
          if eq then Some (int i) else find_name bo b type_name (i + 1) ts }"

definition btf__find_by_name :: "byte_order \<Rightarrow> btf \<Rightarrow> string \<Rightarrow> int option" where
  "btf__find_by_name bo b type_name =
     (if type_name = ''void'' then Some 0 else find_name bo b type_name 1 (drop 1 (btf_types b)))"

text \<open>The ids of the key and value types of a map: the members of the structure \<open>____btf_map_<name>\<close>. \<open>snprintf\<close>
  returns the length of the whole text, so the comparison with \<open>max_name\<close> only catches one length; longer names
  are cut.\<close>

definition btf__get_map_kv_tids ::
  "byte_order \<Rightarrow> btf \<Rightarrow> string \<Rightarrow> u32 \<Rightarrow> u32 \<Rightarrow> (int + u32 \<times> u32) option" where
  "btf__get_map_kv_tids bo b mapname expected_key_size expected_value_size =
     (let container_name = ''____btf_map_'' @ mapname in
      if length container_name = 256 then Some (Inl (- EINVAL))
      else do {
        container_id \<leftarrow> btf__find_by_name bo b (take 255 container_name);
        if container_id < 0 then Some (Inl container_id)
        else do {
          t \<leftarrow> btf__type_by_id b (of_int container_id);
          case t of
            None \<Rightarrow> Some (Inl (- EINVAL))
          | Some t \<Rightarrow> do {
              ty \<leftarrow> load_btf_type bo (btf_data b) t;
              if BTF_INFO_KIND (type_info ty) \<noteq> BTF_KIND_STRUCT \<or> BTF_INFO_VLEN (type_info ty) < 2
              then Some (Inl (- EINVAL))
              else case t of
                BtfVoid \<Rightarrow> None
              | TypeAt p \<Rightarrow> do {
                  key \<leftarrow> load_word bo 4 (btf_data b) (p + 16);
                  key_size \<leftarrow> btf__resolve_size bo b key;
                  if key_size < 0 then Some (Inl key_size)
                  else if uint expected_key_size \<noteq> key_size then Some (Inl (- EINVAL))
                  else do {
                    val \<leftarrow> load_word bo 4 (btf_data b) (p + 28);
                    value_size \<leftarrow> btf__resolve_size bo b val;
                    if value_size < 0 then Some (Inl value_size)
                    else if uint expected_value_size \<noteq> value_size then Some (Inl (- EINVAL))
                    else Some (Inr (key, val)) } } } } })"

section \<open>Function and line records\<close>

record btf_ext_info =
  ext_info :: nat
  ext_rec_size :: u32
  ext_len :: u32

record btf_ext =
  ext_data :: bytes
  ext_func_info :: btf_ext_info
  ext_line_info :: btf_ext_info

definition sizeof_ext_info_sec :: nat where "sizeof_ext_info_sec = 8"

text \<open>The loop over the sections: \<open>sinfo\<close> is the offset, \<open>info_left\<close> the bytes left.\<close>

function check_sections :: "byte_order \<Rightarrow> bytes \<Rightarrow> u32 \<Rightarrow> nat \<Rightarrow> nat \<Rightarrow> int option" where
  "check_sections bo d record_size sinfo info_left =
     (if info_left = 0 then Some 0
      else if info_left < sizeof_ext_info_sec then Some (- EINVAL)
      else do {
        num_records \<leftarrow> (load_word bo 4 d (sinfo + 4) :: u32 option);
        if num_records = 0 then Some (- EINVAL)
        else
          let total = sizeof_ext_info_sec + unat num_records * unat record_size in
          if info_left < total then Some (- EINVAL)
          else check_sections bo d record_size (sinfo + total) (info_left - total) })"
  by pat_completeness auto

termination check_sections
  by (relation "measure (\<lambda>(bo, d, r, s, left). left)") (auto simp: sizeof_ext_info_sec_def)

declare check_sections.simps [simp del]

definition btf_ext_setup_info :: "byte_order \<Rightarrow> bytes \<Rightarrow> u32 \<Rightarrow> u32 \<Rightarrow> u32 \<Rightarrow> nat \<Rightarrow> (int + btf_ext_info) option" where
  "btf_ext_setup_info bo d hdr_len off len min_rec_size =
     (if off AND 3 \<noteq> 0 then Some (Inl (- EINVAL))
      else
      let info = unat hdr_len + unat off in
      if length d < info + unat len then Some (Inl (- EINVAL))
      else if unat len < 4 then Some (Inl (- EINVAL))
      else do {
        record_size \<leftarrow> (load_word bo 4 d info :: u32 option);
        if unat record_size < min_rec_size \<or> record_size AND 3 \<noteq> 0 then Some (Inl (- EINVAL))
        else if unat len - 4 = 0 then Some (Inl (- EINVAL))
        else do {
          err \<leftarrow> check_sections bo d record_size (info + 4) (unat len - 4);
          Some (if err \<noteq> 0 then Inl err
                else Inr \<lparr> ext_info = info + 4, ext_rec_size = record_size, ext_len = len - 4 \<rparr>) } })"

text \<open>\<open>btf_ext_parse_hdr\<close>: the length of the header is read as soon as the eight bytes before the first offset are
  there.\<close>

definition btf_ext_parse_hdr :: "byte_order \<Rightarrow> bytes \<Rightarrow> int option" where
  "btf_ext_parse_hdr bo d =
     (if length d < 8 then Some (- EINVAL)
      else do {
        hdr_len \<leftarrow> (load_word bo 4 d 4 :: u32 option);
        if length d < unat hdr_len then Some (- EINVAL)
        else do {
          m \<leftarrow> load_word bo 2 d 0; v \<leftarrow> load_word bo 1 d 2; f \<leftarrow> (load_word bo 1 d 3 :: u8 option);
          Some (if m \<noteq> BTF_MAGIC then - EINVAL
                else if v \<noteq> BTF_VERSION then - ENOTSUP
                else if f \<noteq> 0 then - ENOTSUP
                else if length d = unat hdr_len then - EINVAL
                else 0) } })"

definition btf_ext_setup_func_info :: "byte_order \<Rightarrow> bytes \<Rightarrow> (int + btf_ext_info) option" where
  "btf_ext_setup_func_info bo d =
     do { hdr_len \<leftarrow> load_word bo 4 d 4; off \<leftarrow> load_word bo 4 d 8; len \<leftarrow> load_word bo 4 d 12;
          btf_ext_setup_info bo d hdr_len off len 8 }"

definition btf_ext_setup_line_info :: "byte_order \<Rightarrow> bytes \<Rightarrow> (int + btf_ext_info) option" where
  "btf_ext_setup_line_info bo d =
     do { hdr_len \<leftarrow> load_word bo 4 d 4; off \<leftarrow> load_word bo 4 d 16; len \<leftarrow> load_word bo 4 d 20;
          btf_ext_setup_info bo d hdr_len off len 16 }"

definition btf_ext__new :: "byte_order \<Rightarrow> bool \<Rightarrow> bytes \<Rightarrow> (int + btf_ext) option" where
  "btf_ext__new bo alloc_ok d =
     do { err \<leftarrow> btf_ext_parse_hdr bo d;
          if err \<noteq> 0 then Some (Inl err)
          else if \<not> alloc_ok then Some (Inl (- ENOMEM))
          else do {
            f \<leftarrow> btf_ext_setup_func_info bo d;
            case f of
              Inl e \<Rightarrow> Some (Inl e)
            | Inr fi \<Rightarrow> do {
                l \<leftarrow> btf_ext_setup_line_info bo d;
                case l of
                  Inl e \<Rightarrow> Some (Inl e)
                | Inr li \<Rightarrow> Some (Inr \<lparr> ext_data = d, ext_func_info = fi, ext_line_info = li \<rparr>) } } }"

definition sizeof_insn :: nat where "sizeof_insn = 8"

text \<open>The records copied for a program, with the instruction offset of each counted in instructions from
  \<open>insns_cnt\<close> on.\<close>

fun adjust_records :: "byte_order \<Rightarrow> nat \<Rightarrow> u32 \<Rightarrow> nat \<Rightarrow> bytes \<Rightarrow> bytes option" where
  "adjust_records bo record_size insns_cnt 0 data = Some []"
| "adjust_records bo record_size insns_cnt (Suc n) data =
     do { off \<leftarrow> (load_word bo 4 data 0 :: u32 option);
          first \<leftarrow> read_bytes record_size data 0;
          rest \<leftarrow> adjust_records bo record_size insns_cnt n (drop record_size data);
          Some (encode_word bo 4 (off div of_nat sizeof_insn + insns_cnt) @ drop 4 first @ rest) }"

text \<open>\<open>btf_ext_reloc_info\<close>: the sections are searched for the name; a section that is longer
  than the rest makes \<open>remain_len\<close> wrap and the search leave the records, which counts as a fault and which
  \<open>check_sections\<close> excludes. \<open>info\<close> are the records collected so far. A null
  name is passed to \<open>strcmp\<close>, which is a fault. The lengths have 32 bits; records that do not fit into the memory asked
  for are a fault.\<close>

function reloc_info_loop ::
  "byte_order \<Rightarrow> btf \<Rightarrow> bytes \<Rightarrow> (nat \<Rightarrow> bool) \<Rightarrow> u32 \<Rightarrow> string \<Rightarrow> u32 \<Rightarrow> bytes \<times> u32 \<Rightarrow> nat \<Rightarrow> nat \<Rightarrow> (int \<times> bytes \<times> u32) option" where
  "reloc_info_loop bo b d realloc_ok record_size sec_name insns_cnt infos sinfo remain_len =
     (if remain_len = 0 then Some (- ENOENT, infos)
      else do {
        sec_name_off \<leftarrow> load_word bo 4 d sinfo;
        num_info \<leftarrow> (load_word bo 4 d (sinfo + 4) :: u32 option);
        let records_len = unat (num_info * record_size);
        name \<leftarrow> btf__name_by_offset b sec_name_off;
        same \<leftarrow> str_equal (drop name (btf_data b)) sec_name;
        let total = sizeof_ext_info_sec + records_len;
        if \<not> same
        then if remain_len < total then None
             else reloc_info_loop bo b d realloc_ok record_size sec_name insns_cnt infos (sinfo + total) (remain_len - total)
        else
        let existing_len = unat (snd infos * record_size) in
        if \<not> realloc_ok ((existing_len + records_len) mod 2 ^ 32) then Some (- ENOMEM, infos)
        else if existing_len + records_len \<ge> 2 ^ 32 then None
        else do {
          data \<leftarrow> read_bytes records_len d (sinfo + sizeof_ext_info_sec);
          new \<leftarrow> adjust_records bo (unat record_size) insns_cnt (unat num_info) data;
          Some (0, take existing_len (fst infos) @ new, snd infos + num_info) } })"
  by pat_completeness auto

termination reloc_info_loop
  by (relation "measure (\<lambda>(bo, b, d, ok, r, s, c, i, sinfo, left). left)") (auto simp: sizeof_ext_info_sec_def)

declare reloc_info_loop.simps [simp del]

definition btf_ext_reloc_info ::
  "byte_order \<Rightarrow> btf \<Rightarrow> bytes \<Rightarrow> (nat \<Rightarrow> bool) \<Rightarrow> btf_ext_info \<Rightarrow> string \<Rightarrow> u32 \<Rightarrow> bytes \<times> u32 \<Rightarrow> (int \<times> bytes \<times> u32) option" where
  "btf_ext_reloc_info bo b d realloc_ok info sec_name insns_cnt infos =
     reloc_info_loop bo b d realloc_ok (ext_rec_size info) sec_name insns_cnt infos (ext_info info) (unat (ext_len info))"

definition btf_ext__reloc_func_info ::
  "byte_order \<Rightarrow> btf \<Rightarrow> btf_ext \<Rightarrow> (nat \<Rightarrow> bool) \<Rightarrow> string \<Rightarrow> u32 \<Rightarrow> bytes \<times> u32 \<Rightarrow> (int \<times> bytes \<times> u32) option" where
  "btf_ext__reloc_func_info bo b ext realloc_ok = btf_ext_reloc_info bo b (ext_data ext) realloc_ok (ext_func_info ext)"

definition btf_ext__reloc_line_info ::
  "byte_order \<Rightarrow> btf \<Rightarrow> btf_ext \<Rightarrow> (nat \<Rightarrow> bool) \<Rightarrow> string \<Rightarrow> u32 \<Rightarrow> bytes \<times> u32 \<Rightarrow> (int \<times> bytes \<times> u32) option" where
  "btf_ext__reloc_line_info bo b ext realloc_ok = btf_ext_reloc_info bo b (ext_data ext) realloc_ok (ext_line_info ext)"

section \<open>The size of a type\<close>

text \<open>What \<open>btf__resolve_size\<close> is to compute: \<open>type_bytes bo b d t n\<close> says that type \<open>t\<close> has \<open>n\<close> bytes and that this is
  found by following at most \<open>d\<close> types.\<close>

definition sized_kind :: "btf_kind \<Rightarrow> bool" where
  "sized_kind k \<longleftrightarrow> k = BTF_KIND_INT \<or> k = BTF_KIND_STRUCT \<or> k = BTF_KIND_UNION \<or> k = BTF_KIND_ENUM"

inductive type_bytes :: "byte_order \<Rightarrow> btf \<Rightarrow> nat \<Rightarrow> u32 \<Rightarrow> nat \<Rightarrow> bool" for bo b where
  sized: "\<lbrakk> btf__type_by_id b t = Some (Some (TypeAt p)); load_btf_type bo (btf_data b) (TypeAt p) = Some ty;
      sized_kind (BTF_INFO_KIND (type_info ty)) \<rbrakk> \<Longrightarrow> type_bytes bo b (Suc d) t (unat (size_or_type ty))"
| pointer: "\<lbrakk> btf__type_by_id b t = Some (Some (TypeAt p)); load_btf_type bo (btf_data b) (TypeAt p) = Some ty;
      BTF_INFO_KIND (type_info ty) = BTF_KIND_PTR \<rbrakk> \<Longrightarrow> type_bytes bo b (Suc d) t sizeof_pointer"
| modifier: "\<lbrakk> btf__type_by_id b t = Some (Some (TypeAt p)); load_btf_type bo (btf_data b) (TypeAt p) = Some ty;
      is_modifier (BTF_INFO_KIND (type_info ty)); type_bytes bo b d (size_or_type ty) n \<rbrakk> \<Longrightarrow> type_bytes bo b (Suc d) t n"
| array: "\<lbrakk> btf__type_by_id b t = Some (Some (TypeAt p)); load_btf_type bo (btf_data b) (TypeAt p) = Some ty;
      BTF_INFO_KIND (type_info ty) = BTF_KIND_ARRAY; load_word bo 4 (btf_data b) (p + 12) = Some elem;
      load_word bo 4 (btf_data b) (p + 20) = Some (k :: u32); type_bytes bo b d elem n \<rbrakk> \<Longrightarrow>
      type_bytes bo b (Suc d) t (unat k * n)"

text \<open>Every type lies in the data, with what follows it.\<close>

definition type_fits :: "byte_order \<Rightarrow> bytes \<Rightarrow> btf_tref \<Rightarrow> bool" where
  "type_fits bo d t =
     (case t of
        BtfVoid \<Rightarrow> False
      | TypeAt p \<Rightarrow>
         (case load_btf_type bo d t of
            None \<Rightarrow> False
          | Some ty \<Rightarrow> 0 \<le> btf_type_size (type_info ty) \<and> p + nat (btf_type_size (type_info ty)) \<le> length d))"

definition btf_wf :: "byte_order \<Rightarrow> btf \<Rightarrow> bool" where
  "btf_wf bo b \<longleftrightarrow> btf_types b \<noteq> [] \<and> hd (btf_types b) = BtfVoid \<and> list_all (type_fits bo (btf_data b)) (tl (btf_types b))"

lemma wf_type:
  assumes "btf_wf bo b"
  shows "btf__type_by_id b t = Some None \<or> btf__type_by_id b t = Some (Some BtfVoid) \<or>
    (\<exists>p ty. btf__type_by_id b t = Some (Some (TypeAt p)) \<and> load_btf_type bo (btf_data b) (TypeAt p) = Some ty \<and>
       0 \<le> btf_type_size (type_info ty) \<and> p + nat (btf_type_size (type_info ty)) \<le> length (btf_data b))"
proof (cases "unat t > nr_types b")
  case False
  obtain ts where ts: "btf_types b = BtfVoid # ts" using assms by (cases "btf_types b") (auto simp: btf_wf_def)
  have lt: "unat t < length (btf_types b)" using False ts by (simp add: nr_types_def)
  then have id: "btf__type_by_id b t = Some (Some (btf_types b ! unat t))" using False by (simp add: btf__type_by_id_def)
  show ?thesis
  proof (cases "unat t")
    case 0
    then show ?thesis using id ts by simp
  next
    case (Suc i)
    then have "type_fits bo (btf_data b) (ts ! i)" using assms lt ts by (simp add: btf_wf_def list_all_length)
    then show ?thesis using id ts Suc by (auto simp: type_fits_def split: btf_tref.splits option.splits)
  qed
qed (simp add: btf__type_by_id_def)

lemma array_loads:
  assumes "BTF_INFO_KIND (type_info ty) = BTF_KIND_ARRAY" "p + nat (btf_type_size (type_info ty)) \<le> length d"
  shows "\<exists>e k. load_word bo 4 d (p + 12) = Some (e :: u32) \<and> load_word bo 4 d (p + 20) = Some (k :: u32)"
proof -
  have "p + 24 \<le> length d" using assms by (simp add: btf_type_size_def sizeof_btf_type_def)
  then show ?thesis using load_word_defined [of "p + 12" 4 d bo] load_word_defined [of "p + 20" 4 d bo] by auto
qed

inductive_simps type_bytes_0: "type_bytes bo b 0 t n"
inductive_simps type_bytes_Suc: "type_bytes bo b (Suc d) t n"

lemma size_of_fits: "unat (w :: u32) \<le> UINT32_MAX" "sizeof_pointer \<le> UINT32_MAX"
  using unsigned_less [of w, where ?'a = nat] by (simp_all add: UINT32_MAX_def sizeof_pointer_def)

text \<open>One turn of the loop.\<close>

lemma resolve_size_step:
  assumes "btf_wf bo b"
  obtains (none) "resolve_size_loop bo b (Suc d) t k = Some (- EINVAL)" "\<And>n. \<not> type_bytes bo b (Suc d) t n"
  | (leaf) n where "resolve_size_loop bo b (Suc d) t k = Some (times_elements k n)" "\<And>n'. type_bytes bo b (Suc d) t n' \<longleftrightarrow> n' = n"
      "n \<le> UINT32_MAX"
  | (mod) t' where "resolve_size_loop bo b (Suc d) t k = resolve_size_loop bo b d t' k"
      "\<And>n. type_bytes bo b (Suc d) t n \<longleftrightarrow> type_bytes bo b d t' n"
  | (arr) t' m where "resolve_size_loop bo b (Suc d) t k =
        (if k \<noteq> 0 \<and> m > UINT32_MAX div k then Some (- E2BIG) else resolve_size_loop bo b d t' (k * m))"
      "\<And>n. type_bytes bo b (Suc d) t n \<longleftrightarrow> (\<exists>n'. n = m * n' \<and> type_bytes bo b d t' n')"
proof -
  consider (no) "btf__type_by_id b t = Some None \<or> btf__type_by_id b t = Some (Some BtfVoid)"
    | (at) p ty where "btf__type_by_id b t = Some (Some (TypeAt p))" "load_btf_type bo (btf_data b) (TypeAt p) = Some ty"
        "p + nat (btf_type_size (type_info ty)) \<le> length (btf_data b)"
    using wf_type [OF assms, of t] by blast
  then show ?thesis
  proof cases
    case no
    then show ?thesis by (intro none) (auto simp: type_bytes_Suc btf_type_is_void_or_null_def btf_type_is_void_def)
  next
    case at
    note simps = at(1,2) type_bytes_Suc btf_type_is_void_or_null_def btf_type_is_void_def sized_kind_def is_modifier_def
    show ?thesis
    proof (cases "BTF_INFO_KIND (type_info ty)")
      case BTF_KIND_ARRAY
      obtain e m where "load_word bo 4 (btf_data b) (p + 12) = Some (e :: u32)" "load_word bo 4 (btf_data b) (p + 20) = Some (m :: u32)"
        using array_loads [OF BTF_KIND_ARRAY at(3)] by blast
      then show ?thesis using BTF_KIND_ARRAY by (intro arr [of "unat m" e]) (auto simp: simps)
    next
      case BTF_KIND_PTR
      then show ?thesis using size_of_fits(2) by (intro leaf [of sizeof_pointer]) (auto simp: simps)
    qed (use size_of_fits(1) in \<open>auto simp: simps intro: none leaf mod\<close>)
  qed
qed

text \<open>What the loop returns when it has met arrays of \<open>k\<close> elements altogether.\<close>

definition size_result :: "byte_order \<Rightarrow> btf \<Rightarrow> nat \<Rightarrow> u32 \<Rightarrow> nat \<Rightarrow> int \<Rightarrow> bool" where
  "size_result bo b d t k r \<longleftrightarrow>
     (r = - EINVAL \<and> (\<forall>n. \<not> type_bytes bo b d t n) \<or> r = - E2BIG \<and> (\<forall>n. type_bytes bo b d t n \<longrightarrow> k * n = 0 \<or> k * n > UINT32_MAX) \<or>
      (\<exists>n. type_bytes bo b d t n \<and> r = int (k * n) \<and> k * n \<le> UINT32_MAX))"

lemma above_quotient: "k \<noteq> 0 \<Longrightarrow> u div k < n \<longleftrightarrow> u < k * (n :: nat)"
  by (metis bot_nat_0.not_eq_extremum div_less_iff_less_mult mult.commute)

lemma times_elements_result:
  assumes "\<And>n'. type_bytes bo b d t n' \<longleftrightarrow> n' = n" "n \<le> UINT32_MAX"
  shows "size_result bo b d t k (times_elements k n)"
proof (cases "k \<noteq> 0 \<and> n > UINT32_MAX div k")
  case True
  then have "k * n > UINT32_MAX" using above_quotient by blast
  then show ?thesis using True assms by (simp add: size_result_def times_elements_def)
next
  case False
  then have "k * n \<le> UINT32_MAX" using above_quotient [of k UINT32_MAX n] by (cases "k = 0") auto
  then show ?thesis using False assms by (auto simp: size_result_def times_elements_def)
qed

lemma resolve_size_loop_result:
  assumes "btf_wf bo b" "k \<le> UINT32_MAX"
  shows "\<exists>r. resolve_size_loop bo b d t k = Some r \<and> size_result bo b d t k r"
  using assms(2)
proof (induction d arbitrary: t k)
  case 0
  then show ?case by (simp add: size_result_def type_bytes_0)
next
  case (Suc d)
  from assms(1) show ?case
  proof (cases rule: resolve_size_step [where d = d and t = t and k = k])
    case none
    then show ?thesis by (simp add: size_result_def del: resolve_size_loop.simps)
  next
    case (leaf n)
    then show ?thesis using times_elements_result [OF leaf(2,3)] by (simp del: resolve_size_loop.simps)
  next
    case (mod t')
    then show ?thesis using Suc.IH [OF Suc.prems, of t'] by (simp add: size_result_def del: resolve_size_loop.simps)
  next
    case (arr t' m)
    show ?thesis
    proof (cases "k \<noteq> 0 \<and> m > UINT32_MAX div k")
      case True
      then have big: "k * m > UINT32_MAX" using above_quotient by blast
      have zb: "k * (m * n') = 0 \<or> k * (m * n') > UINT32_MAX" for n'
      proof (cases n')
        case (Suc i)
        then have "k * m \<le> k * (m * n')" by simp
        then show ?thesis using big by linarith
      qed simp
      have "\<forall>n. type_bytes bo b (Suc d) t n \<longrightarrow> k * n = 0 \<or> k * n > UINT32_MAX" using arr(2) zb by metis
      then have "size_result bo b (Suc d) t k (- E2BIG)" unfolding size_result_def by (intro disjI2 disjI1 conjI refl)
      then show ?thesis using True arr(1) by (simp del: resolve_size_loop.simps)
    next
      case False
      then have "k * m \<le> UINT32_MAX" using above_quotient [of k UINT32_MAX m] by (cases "k = 0") auto
      from Suc.IH [OF this, of t'] obtain r where r: "resolve_size_loop bo b d t' (k * m) = Some r" "size_result bo b d t' (k * m) r"
        by blast
      have "size_result bo b (Suc d) t k r" using r(2) arr(2) unfolding size_result_def mult.assoc by metis
      then show ?thesis using False arr(1) r(1) by (auto simp del: resolve_size_loop.simps)
    qed
  qed
qed

text \<open>
  C16. \<open>btf__resolve_size\<close> always returns on type information that lies in its data, also for types that refer to
  themselves. A result that is not negative is the size of the type, at most 32 bits wide, arrays and modifiers
  resolved; \<open>-EINVAL\<close> is returned only if the type has no size that is found within 32 steps, and \<open>-E2BIG\<close> only if
  the size is zero or does not fit.
\<close>

theorem btf_resolve_size_correct:
  assumes "btf_wf bo b"
  shows "\<exists>r. btf__resolve_size bo b t = Some r \<and>
    (r = - EINVAL \<and> (\<forall>n. \<not> type_bytes bo b MAX_RESOLVE_DEPTH t n) \<or>
     r = - E2BIG \<and> (\<forall>n. type_bytes bo b MAX_RESOLVE_DEPTH t n \<longrightarrow> n = 0 \<or> n > UINT32_MAX) \<or>
     (\<exists>n. type_bytes bo b MAX_RESOLVE_DEPTH t n \<and> r = int n \<and> n \<le> UINT32_MAX))"
  using resolve_size_loop_result [OF assms, of 1 MAX_RESOLVE_DEPTH t]
  by (simp add: btf__resolve_size_def size_result_def UINT32_MAX_def)

text \<open>An \<open>int\<close> of four bytes, a name for it, an array of three of these, and a type that is its own name.\<close>

definition sample_btf_data :: bytes where
  "sample_btf_data = concat (map (encode_word LittleEndian 4)
     ([0x0001eb9f, 24, 0, 64, 64, 1] @
      [0, 0x01000000, 4, 32] @ [0, 0x08000000, 1] @ [0, 0x03000000, 0, 2, 1, 3] @ [0, 0x08000000, 4 :: u32])) @ [0]"

definition sample_btf :: btf where
  "sample_btf = \<lparr> btf_data = sample_btf_data, btf_types = [BtfVoid, TypeAt 24, TypeAt 40, TypeAt 52, TypeAt 76],
     types_size = 16, btf_strings = 88, btf_str_len = 1, btf_fd = -1 \<rparr>"

lemma sample_loads:
  "load_btf_type LittleEndian (btf_data sample_btf) (TypeAt 24) = Some \<lparr> name_off = 0, type_info = 0x01000000, size_or_type = 4 \<rparr>"
  "load_btf_type LittleEndian (btf_data sample_btf) (TypeAt 40) = Some \<lparr> name_off = 0, type_info = 0x08000000, size_or_type = 1 \<rparr>"
  "load_btf_type LittleEndian (btf_data sample_btf) (TypeAt 52) = Some \<lparr> name_off = 0, type_info = 0x03000000, size_or_type = 0 \<rparr>"
  "load_btf_type LittleEndian (btf_data sample_btf) (TypeAt 76) = Some \<lparr> name_off = 0, type_info = 0x08000000, size_or_type = 4 \<rparr>"
  "load_word LittleEndian 4 (btf_data sample_btf) 64 = Some (2 :: u32)"
  "load_word LittleEndian 4 (btf_data sample_btf) 72 = Some (3 :: u32)"
  by code_simp+

lemma sample_kinds:
  "BTF_INFO_KIND 0x01000000 = BTF_KIND_INT" "BTF_INFO_KIND 0x08000000 = BTF_KIND_TYPEDEF" "BTF_INFO_KIND 0x03000000 = BTF_KIND_ARRAY"
  by code_simp+

lemma sample_ids:
  "btf__type_by_id sample_btf 1 = Some (Some (TypeAt 24))" "btf__type_by_id sample_btf 2 = Some (Some (TypeAt 40))"
  "btf__type_by_id sample_btf 3 = Some (Some (TypeAt 52))" "btf__type_by_id sample_btf 4 = Some (Some (TypeAt 76))"
  by code_simp+

lemmas sample_type = sample_ids sample_loads sample_kinds btf_type_is_void_or_null_def btf_type_is_void_def

lemma sample_array_loop: "resolve_size_loop LittleEndian sample_btf (Suc (Suc (Suc d))) 3 1 = Some 12"
  by (simp add: sample_type times_elements_def UINT32_MAX_def)

lemma sample_array: "btf__resolve_size LittleEndian sample_btf 3 = Some 12"
  using sample_array_loop [of 29] by (simp add: btf__resolve_size_def MAX_RESOLVE_DEPTH_def del: resolve_size_loop.simps)

lemma sample_own_name: "resolve_size_loop LittleEndian sample_btf d 4 k = Some (- EINVAL)"
  by (induction d) (simp_all add: sample_type)

theorem btf_resolve_size_correct_witness:
  "btf_wf LittleEndian sample_btf \<and>
   btf__resolve_size LittleEndian sample_btf 3 = Some 12 \<and> type_bytes LittleEndian sample_btf MAX_RESOLVE_DEPTH 3 12 \<and>
   btf__resolve_size LittleEndian sample_btf 4 = Some (- EINVAL) \<and> \<not> type_bytes LittleEndian sample_btf MAX_RESOLVE_DEPTH 4 12"
proof -
  have wf: "btf_wf LittleEndian sample_btf" by code_simp
  have r: "btf__resolve_size LittleEndian sample_btf 4 = Some (- EINVAL)" by (simp add: btf__resolve_size_def sample_own_name)
  show ?thesis
    using btf_resolve_size_correct [OF wf, of 3] btf_resolve_size_correct [OF wf, of 4] wf r sample_array
    by (auto simp: EINVAL_def E2BIG_def)
qed

end
