(* ===== verification/Bpf_Object.thy ===== *)
theory Bpf_Object
  imports Uapi Btf
begin

text \<open>
  The object model of \<open>src/libbpf/src/libbpf.c\<close> that the loader works on: programs, maps and objects,
  the iterators over them, their accessors, the program type a section name stands for, and the
  collection of relocations.

  A pointer to a program or map of an object is its index in the array. An array that is
  not allocated is empty. Private data of the caller is not represented. A \<open>char *\<close> member that may be \<open>NULL\<close> is an option.
\<close>

section \<open>Program and attach types\<close>

datatype bpf_prog_type =
    BPF_PROG_TYPE_UNSPEC
  | BPF_PROG_TYPE_SOCKET_FILTER
  | BPF_PROG_TYPE_KPROBE
  | BPF_PROG_TYPE_SCHED_CLS
  | BPF_PROG_TYPE_SCHED_ACT
  | BPF_PROG_TYPE_TRACEPOINT
  | BPF_PROG_TYPE_XDP
  | BPF_PROG_TYPE_PERF_EVENT
  | BPF_PROG_TYPE_CGROUP_SKB
  | BPF_PROG_TYPE_CGROUP_SOCK
  | BPF_PROG_TYPE_LWT_IN
  | BPF_PROG_TYPE_LWT_OUT
  | BPF_PROG_TYPE_LWT_XMIT
  | BPF_PROG_TYPE_SOCK_OPS
  | BPF_PROG_TYPE_SK_SKB
  | BPF_PROG_TYPE_CGROUP_DEVICE
  | BPF_PROG_TYPE_SK_MSG
  | BPF_PROG_TYPE_RAW_TRACEPOINT
  | BPF_PROG_TYPE_CGROUP_SOCK_ADDR
  | BPF_PROG_TYPE_LWT_SEG6LOCAL
  | BPF_PROG_TYPE_LIRC_MODE2
  | BPF_PROG_TYPE_SK_REUSEPORT
  | BPF_PROG_TYPE_FLOW_DISSECTOR

datatype bpf_attach_type =
    BPF_CGROUP_INET_INGRESS
  | BPF_CGROUP_INET_EGRESS
  | BPF_CGROUP_INET_SOCK_CREATE
  | BPF_CGROUP_SOCK_OPS
  | BPF_SK_SKB_STREAM_PARSER
  | BPF_SK_SKB_STREAM_VERDICT
  | BPF_CGROUP_DEVICE
  | BPF_SK_MSG_VERDICT
  | BPF_CGROUP_INET4_BIND
  | BPF_CGROUP_INET6_BIND
  | BPF_CGROUP_INET4_CONNECT
  | BPF_CGROUP_INET6_CONNECT
  | BPF_CGROUP_INET4_POST_BIND
  | BPF_CGROUP_INET6_POST_BIND
  | BPF_CGROUP_UDP4_SENDMSG
  | BPF_CGROUP_UDP6_SENDMSG
  | BPF_LIRC_MODE2
  | BPF_FLOW_DISSECTOR

text \<open>The value 0 of an attach type that is not given.\<close>

abbreviation no_attach_type :: bpf_attach_type where
  "no_attach_type \<equiv> BPF_CGROUP_INET_INGRESS"

record section_name =
  sec :: string
  sec_prog_type :: bpf_prog_type
  sec_expected_attach_type :: bpf_attach_type
  is_attachable :: bool
  sec_attach_type :: bpf_attach_type

definition bpf_prog_sec :: "string \<Rightarrow> bpf_prog_type \<Rightarrow> section_name" where
  "bpf_prog_sec s p = \<lparr> sec = s, sec_prog_type = p, sec_expected_attach_type = no_attach_type,
     is_attachable = False, sec_attach_type = no_attach_type \<rparr>"

definition bpf_aprog_sec :: "string \<Rightarrow> bpf_prog_type \<Rightarrow> bpf_attach_type \<Rightarrow> section_name" where
  "bpf_aprog_sec s p a = \<lparr> sec = s, sec_prog_type = p, sec_expected_attach_type = no_attach_type,
     is_attachable = True, sec_attach_type = a \<rparr>"

definition bpf_eaprog_sec :: "string \<Rightarrow> bpf_prog_type \<Rightarrow> bpf_attach_type \<Rightarrow> section_name" where
  "bpf_eaprog_sec s p e = \<lparr> sec = s, sec_prog_type = p, sec_expected_attach_type = e,
     is_attachable = True, sec_attach_type = e \<rparr>"

definition bpf_aprog_compat :: "string \<Rightarrow> bpf_prog_type \<Rightarrow> section_name" where
  "bpf_aprog_compat s p = bpf_prog_sec s p"

definition section_names :: "section_name list" where
  "section_names =
     [bpf_prog_sec ''socket'' BPF_PROG_TYPE_SOCKET_FILTER,
      bpf_prog_sec ''kprobe/'' BPF_PROG_TYPE_KPROBE,
      bpf_prog_sec ''kretprobe/'' BPF_PROG_TYPE_KPROBE,
      bpf_prog_sec ''classifier'' BPF_PROG_TYPE_SCHED_CLS,
      bpf_prog_sec ''action'' BPF_PROG_TYPE_SCHED_ACT,
      bpf_prog_sec ''tracepoint/'' BPF_PROG_TYPE_TRACEPOINT,
      bpf_prog_sec ''raw_tracepoint/'' BPF_PROG_TYPE_RAW_TRACEPOINT,
      bpf_prog_sec ''xdp'' BPF_PROG_TYPE_XDP,
      bpf_prog_sec ''perf_event'' BPF_PROG_TYPE_PERF_EVENT,
      bpf_prog_sec ''lwt_in'' BPF_PROG_TYPE_LWT_IN,
      bpf_prog_sec ''lwt_out'' BPF_PROG_TYPE_LWT_OUT,
      bpf_prog_sec ''lwt_xmit'' BPF_PROG_TYPE_LWT_XMIT,
      bpf_prog_sec ''lwt_seg6local'' BPF_PROG_TYPE_LWT_SEG6LOCAL,
      bpf_aprog_sec ''cgroup_skb/ingress'' BPF_PROG_TYPE_CGROUP_SKB BPF_CGROUP_INET_INGRESS,
      bpf_aprog_sec ''cgroup_skb/egress'' BPF_PROG_TYPE_CGROUP_SKB BPF_CGROUP_INET_EGRESS,
      bpf_aprog_compat ''cgroup/skb'' BPF_PROG_TYPE_CGROUP_SKB,
      bpf_aprog_sec ''cgroup/sock'' BPF_PROG_TYPE_CGROUP_SOCK BPF_CGROUP_INET_SOCK_CREATE,
      bpf_eaprog_sec ''cgroup/post_bind4'' BPF_PROG_TYPE_CGROUP_SOCK BPF_CGROUP_INET4_POST_BIND,
      bpf_eaprog_sec ''cgroup/post_bind6'' BPF_PROG_TYPE_CGROUP_SOCK BPF_CGROUP_INET6_POST_BIND,
      bpf_aprog_sec ''cgroup/dev'' BPF_PROG_TYPE_CGROUP_DEVICE BPF_CGROUP_DEVICE,
      bpf_aprog_sec ''sockops'' BPF_PROG_TYPE_SOCK_OPS BPF_CGROUP_SOCK_OPS,
      bpf_aprog_sec ''sk_skb/stream_parser'' BPF_PROG_TYPE_SK_SKB BPF_SK_SKB_STREAM_PARSER,
      bpf_aprog_sec ''sk_skb/stream_verdict'' BPF_PROG_TYPE_SK_SKB BPF_SK_SKB_STREAM_VERDICT,
      bpf_aprog_compat ''sk_skb'' BPF_PROG_TYPE_SK_SKB,
      bpf_aprog_sec ''sk_msg'' BPF_PROG_TYPE_SK_MSG BPF_SK_MSG_VERDICT,
      bpf_aprog_sec ''lirc_mode2'' BPF_PROG_TYPE_LIRC_MODE2 BPF_LIRC_MODE2,
      bpf_aprog_sec ''flow_dissector'' BPF_PROG_TYPE_FLOW_DISSECTOR BPF_FLOW_DISSECTOR,
      bpf_eaprog_sec ''cgroup/bind4'' BPF_PROG_TYPE_CGROUP_SOCK_ADDR BPF_CGROUP_INET4_BIND,
      bpf_eaprog_sec ''cgroup/bind6'' BPF_PROG_TYPE_CGROUP_SOCK_ADDR BPF_CGROUP_INET6_BIND,
      bpf_eaprog_sec ''cgroup/connect4'' BPF_PROG_TYPE_CGROUP_SOCK_ADDR BPF_CGROUP_INET4_CONNECT,
      bpf_eaprog_sec ''cgroup/connect6'' BPF_PROG_TYPE_CGROUP_SOCK_ADDR BPF_CGROUP_INET6_CONNECT,
      bpf_eaprog_sec ''cgroup/sendmsg4'' BPF_PROG_TYPE_CGROUP_SOCK_ADDR BPF_CGROUP_UDP4_SENDMSG,
      bpf_eaprog_sec ''cgroup/sendmsg6'' BPF_PROG_TYPE_CGROUP_SOCK_ADDR BPF_CGROUP_UDP6_SENDMSG]"

text \<open>\<open>strncmp(name, sec, len) == 0\<close> where \<open>len\<close> is the length of \<open>sec\<close>.\<close>

definition starts_with :: "string \<Rightarrow> string \<Rightarrow> bool" where
  "starts_with name s = (take (length s) name = s)"

definition libbpf_prog_type_by_name :: "string option \<Rightarrow> int \<times> (bpf_prog_type \<times> bpf_attach_type) option" where
  "libbpf_prog_type_by_name name =
     (case name of
        None \<Rightarrow> (- EINVAL, None)
      | Some n \<Rightarrow>
          (case filter (\<lambda>s. starts_with n (sec s)) section_names of
             [] \<Rightarrow> (- EINVAL, None)
           | s # _ \<Rightarrow> (0, Some (sec_prog_type s, sec_expected_attach_type s))))"

definition libbpf_attach_type_by_name :: "string option \<Rightarrow> int \<times> bpf_attach_type option" where
  "libbpf_attach_type_by_name name =
     (case name of
        None \<Rightarrow> (- EINVAL, None)
      | Some n \<Rightarrow>
          (case filter (\<lambda>s. starts_with n (sec s)) section_names of
             [] \<Rightarrow> (- EINVAL, None)
           | s # _ \<Rightarrow> if \<not> is_attachable s then (- EINVAL, None) else (0, Some (sec_attach_type s))))"

definition MAX_TYPE_NAME_SIZE :: nat where "MAX_TYPE_NAME_SIZE = 32"

text \<open>The loop of \<open>libbpf_get_type_names\<close>: \<open>None\<close> when a name does not fit.\<close>

fun forge_type_names :: "nat \<Rightarrow> bool \<Rightarrow> section_name list \<Rightarrow> string \<Rightarrow> string option" where
  "forge_type_names len attach_type [] buf = Some buf"
| "forge_type_names len attach_type (s # ss) buf =
     (if attach_type \<and> \<not> is_attachable s then forge_type_names len attach_type ss buf
      else if length buf + length (sec s) + 2 > len then None
      else forge_type_names len attach_type ss (buf @ '' '' @ sec s))"

definition libbpf_get_type_names :: "bool \<Rightarrow> bool \<Rightarrow> string option" where
  "libbpf_get_type_names malloc_ok attach_type =
     (if \<not> malloc_ok then None
      else forge_type_names (length section_names * MAX_TYPE_NAME_SIZE) attach_type section_names [])"

section \<open>Objects\<close>

datatype reloc_desc = RELO_LD64 nat nat | RELO_CALL nat u64

text \<open>The two registers of an instruction share a byte in C; \<open>off\<close> and \<open>imm\<close> are signed there.\<close>

record bpf_insn =
  code :: u8
  dst_reg :: u8
  src_reg :: u8
  insn_off :: u16
  imm :: u32

text \<open>A preprocessor gets the number of the instance and the instructions, and gives its error and the new
  instructions, none for an instance that is not to be loaded.\<close>

type_synonym preprocessor_fn = "nat \<Rightarrow> bpf_insn list \<Rightarrow> int \<times> bpf_insn list"

text \<open>\<open>insns_dangling\<close> says that \<open>insns\<close> points to memory that \<open>realloc\<close> has given back; there is no such member in C.\<close>

record bpf_program =
  idx :: int
  section_name :: string
  pin_name :: string
  prog_ifindex :: int
  prog_type :: bpf_prog_type
  expected_attach_type :: bpf_attach_type
  insns :: "bpf_insn list"
  inst_nr :: int
  inst_fds :: "int list"
  relocs :: "reloc_desc list"
  prog_name :: "string option"
  main_prog_cnt :: nat
  preprocessor :: "preprocessor_fn option"
  prog_btf_fd :: int
  func_info :: "bytes option"
  func_info_cnt :: u32
  func_info_rec_size :: u32
  line_info :: "bytes option"
  line_info_cnt :: u32
  line_info_rec_size :: u32
  insns_dangling :: bool

record bpf_map =
  map_fd :: int
  map_name :: string
  map_offset :: u64
  map_ifindex :: int
  inner_map_fd :: int
  map_def :: bpf_map_def
  btf_key_type_id :: u32
  btf_value_type_id :: u32

record bpf_object =
  loaded :: bool
  programs :: "bpf_program list"
  maps :: "bpf_map list"
  has_pseudo_calls :: bool
  maps_shndx :: int
  text_shndx :: int
  license :: string
  kern_version :: u32
  caps_name :: bool
  obj_btf :: "btf option"
  obj_btf_ext :: "btf_ext option"

definition bpf_program__pin_name :: "string \<Rightarrow> string" where
  "bpf_program__pin_name section = map (\<lambda>c. if c = CHR ''/'' then CHR ''_'' else c) section"

section \<open>Iterators\<close>

definition bpf_program__is_function_storage :: "bpf_program \<Rightarrow> bpf_object \<Rightarrow> bool" where
  "bpf_program__is_function_storage prog obj \<longleftrightarrow> idx prog = text_shndx obj \<and> has_pseudo_calls obj"

definition program_iter :: "nat option \<Rightarrow> bpf_object \<Rightarrow> bool \<Rightarrow> nat option" where
  "program_iter p obj forward =
     (let nr = length (programs obj) in
      if nr = 0 then None
      else case p of
        None \<Rightarrow> if forward then Some 0 else Some (nr - 1)
      | Some i \<Rightarrow>
          let j = int i + (if forward then 1 else -1)
          in if j \<ge> int nr \<or> j < 0 then None else Some (nat j))"

text \<open>The loop of \<open>bpf_program__next\<close> and \<open>bpf_program__prev\<close>.\<close>

function program_step :: "bool \<Rightarrow> nat option \<Rightarrow> bpf_object \<Rightarrow> nat option" where
  "program_step forward p obj =
     (case program_iter p obj forward of
        None \<Rightarrow> None
      | Some i \<Rightarrow>
          if bpf_program__is_function_storage (programs obj ! i) obj
          then program_step forward (Some i) obj else Some i)"
  by pat_completeness auto

definition iter_measure :: "bool \<times> nat option \<times> bpf_object \<Rightarrow> nat" where
  "iter_measure x = (case x of (forward, p, obj) \<Rightarrow>
     (case p of None \<Rightarrow> Suc (length (programs obj))
      | Some i \<Rightarrow> if forward then length (programs obj) - i else Suc i))"

termination program_step
  by (relation "measure iter_measure")
     (auto simp: iter_measure_def program_iter_def Let_def split: option.splits if_splits)

declare program_step.simps [simp del]

definition bpf_program__next :: "nat option \<Rightarrow> bpf_object \<Rightarrow> nat option" where
  "bpf_program__next prev obj = program_step True prev obj"

definition bpf_program__prev :: "nat option \<Rightarrow> bpf_object \<Rightarrow> nat option" where
  "bpf_program__prev next' obj = program_step False next' obj"

text \<open>\<open>maps\<close> is a null pointer exactly when the object has no map.\<close>

definition map_iter :: "nat \<Rightarrow> bpf_object \<Rightarrow> int \<Rightarrow> nat option" where
  "map_iter m obj i =
     (if maps obj = [] then None
      else if m \<ge> length (maps obj) then None
      else let j = int m + i
           in if j \<ge> int (length (maps obj)) \<or> j < 0 then None else Some (nat j))"

definition bpf_map__next :: "nat option \<Rightarrow> bpf_object \<Rightarrow> nat option" where
  "bpf_map__next prev obj =
     (case prev of
        None \<Rightarrow> if maps obj = [] then None else Some 0
      | Some m \<Rightarrow> map_iter m obj 1)"

definition bpf_map__prev :: "nat option \<Rightarrow> bpf_object \<Rightarrow> nat option" where
  "bpf_map__prev next' obj =
     (case next' of
        None \<Rightarrow> if length (maps obj) = 0 then None else Some (length (maps obj) - 1)
      | Some m \<Rightarrow> map_iter m obj (-1))"

text \<open>The sequence of values the loop variable of \<open>bpf_object__for_each_program\<close> and
  \<open>bpf_object__for_each_map\<close> takes after \<open>p\<close>, and of the loops that run with \<open>prev\<close>.\<close>

lemma program_iter_bound:
  "program_iter p obj forward = Some i \<Longrightarrow>
     i < length (programs obj) \<and> iter_measure (forward, Some i, obj) < iter_measure (forward, p, obj)"
  by (auto simp: iter_measure_def program_iter_def Let_def split: option.splits if_splits)

lemma program_step_bound:
  "program_step forward p obj = Some i \<Longrightarrow>
     i < length (programs obj) \<and> iter_measure (forward, Some i, obj) < iter_measure (forward, p, obj)"
proof (induction forward p obj rule: program_step.induct)
  case (1 forward p obj)
  then show ?case
    by (subst (asm) (2) program_step.simps)
       (auto dest: program_iter_bound less_trans split: option.splits if_splits)
qed

function program_seq :: "bool \<Rightarrow> nat option \<Rightarrow> bpf_object \<Rightarrow> nat list" where
  "program_seq forward p obj =
     (case program_step forward p obj of None \<Rightarrow> [] | Some i \<Rightarrow> i # program_seq forward (Some i) obj)"
  by pat_completeness auto
termination
  by (relation "measure iter_measure") (auto dest: program_step_bound)

declare program_seq.simps [simp del]

definition for_each_program :: "bpf_object \<Rightarrow> bpf_program list" where
  "for_each_program obj = map (\<lambda>i. programs obj ! i) (program_seq True None obj)"

fun map_seq :: "nat \<Rightarrow> nat option \<Rightarrow> bpf_object \<Rightarrow> nat list" where
  "map_seq 0 p obj = []"
| "map_seq (Suc n) p obj =
     (case bpf_map__next p obj of None \<Rightarrow> [] | Some i \<Rightarrow> i # map_seq n (Some i) obj)"

text \<open>There are as many turns as maps.\<close>

definition for_each_map :: "bpf_object \<Rightarrow> bpf_map list" where
  "for_each_map obj = map (\<lambda>i. maps obj ! i) (map_seq (length (maps obj)) None obj)"

section \<open>Accessors\<close>

definition bpf_object__find_program_by_title :: "bpf_object \<Rightarrow> string \<Rightarrow> bpf_program option" where
  "bpf_object__find_program_by_title obj title =
     find (\<lambda>pos. section_name pos = title) (for_each_program obj)"

definition bpf_object__find_prog_by_idx :: "bpf_object \<Rightarrow> int \<Rightarrow> bpf_program option" where
  "bpf_object__find_prog_by_idx obj i = find (\<lambda>prog. idx prog = i) (programs obj)"

definition bpf_object__find_map_by_name :: "bpf_object \<Rightarrow> string \<Rightarrow> bpf_map option" where
  "bpf_object__find_map_by_name obj name = find (\<lambda>pos. map_name pos = name) (for_each_map obj)"

definition bpf_map__fd :: "bpf_map option \<Rightarrow> int" where
  "bpf_map__fd mp = (case mp of None \<Rightarrow> - EINVAL | Some m \<Rightarrow> map_fd m)"

definition bpf_object__find_map_fd_by_name :: "bpf_object \<Rightarrow> string \<Rightarrow> int" where
  "bpf_object__find_map_fd_by_name obj name = bpf_map__fd (bpf_object__find_map_by_name obj name)"

definition bpf_object__find_map_by_offset :: "bpf_object \<Rightarrow> u64 \<Rightarrow> int + bpf_map" where
  "bpf_object__find_map_by_offset obj off =
     (case find (\<lambda>m. map_offset m = off) (maps obj) of None \<Rightarrow> Inl (- ENOENT) | Some m \<Rightarrow> Inr m)"

definition bpf_map__is_offload_neutral :: "bpf_map \<Rightarrow> bool" where
  "bpf_map__is_offload_neutral mp \<longleftrightarrow> def_type (map_def mp) = map_type_code BPF_MAP_TYPE_PERF_EVENT_ARRAY"

definition bpf_map_type__is_map_in_map :: "u32 \<Rightarrow> bool" where
  "bpf_map_type__is_map_in_map t \<longleftrightarrow>
     t = map_type_code BPF_MAP_TYPE_ARRAY_OF_MAPS \<or> t = map_type_code BPF_MAP_TYPE_HASH_OF_MAPS"

definition bpf_map__set_inner_map_fd :: "bpf_map \<Rightarrow> int \<Rightarrow> int \<times> bpf_map" where
  "bpf_map__set_inner_map_fd mp fd =
     (if \<not> bpf_map_type__is_map_in_map (def_type (map_def mp)) then (- EINVAL, mp)
      else if inner_map_fd mp \<noteq> -1 then (- EINVAL, mp)
      else (0, mp\<lparr>inner_map_fd := fd\<rparr>))"

definition bpf_map__resize :: "bpf_map option \<Rightarrow> u32 \<Rightarrow> int \<times> bpf_map option" where
  "bpf_map__resize mp max_entries =
     (case mp of
        None \<Rightarrow> (- EINVAL, None)
      | Some m \<Rightarrow>
          if max_entries = 0 then (- EINVAL, Some m)
          else if map_fd m \<ge> 0 then (- EBUSY, Some m)
          else (0, Some (m\<lparr>map_def := (map_def m)\<lparr>def_max_entries := max_entries\<rparr>\<rparr>)))"

text \<open>The descriptor of the n-th instance; \<open>None\<close> when the array is shorter than \<open>instances.nr\<close> says.\<close>

definition bpf_program__nth_fd :: "bpf_program option \<Rightarrow> int \<Rightarrow> int option" where
  "bpf_program__nth_fd prog n =
     (case prog of
        None \<Rightarrow> Some (- EINVAL)
      | Some p \<Rightarrow>
          if n \<ge> inst_nr p \<or> n < 0 then Some (- EINVAL)
          else if nat n \<ge> length (inst_fds p) then None
          else let fd = inst_fds p ! nat n
               in if fd < 0 then Some (- ENOENT) else Some fd)"

definition bpf_program__fd :: "bpf_program option \<Rightarrow> int option" where
  "bpf_program__fd prog = bpf_program__nth_fd prog 0"

definition bpf_program__set_prep :: "bpf_program \<Rightarrow> int \<Rightarrow> preprocessor_fn option \<Rightarrow> bool \<Rightarrow> int \<times> bpf_program" where
  "bpf_program__set_prep prog nr_instances prep malloc_ok =
     (if nr_instances \<le> 0 \<or> Option.is_none prep then (- EINVAL, prog)
      else if inst_nr prog > 0 \<or> inst_fds prog \<noteq> [] then (- EINVAL, prog)
      else if \<not> malloc_ok then (- ENOMEM, prog)
      else (0, prog\<lparr>inst_nr := nr_instances, inst_fds := replicate (nat nr_instances) (-1), preprocessor := prep\<rparr>))"

definition bpf_program__set_type :: "bpf_prog_type \<Rightarrow> bpf_program \<Rightarrow> bpf_program" where
  "bpf_program__set_type t prog = prog\<lparr>prog_type := t\<rparr>"

definition bpf_program__set_expected_attach_type :: "bpf_attach_type \<Rightarrow> bpf_program \<Rightarrow> bpf_program" where
  "bpf_program__set_expected_attach_type t prog = prog\<lparr>expected_attach_type := t\<rparr>"

definition bpf_program__set_ifindex :: "int \<Rightarrow> bpf_program \<Rightarrow> bpf_program" where
  "bpf_program__set_ifindex ifindex prog = prog\<lparr>prog_ifindex := ifindex\<rparr>"

definition bpf_map__set_ifindex :: "int \<Rightarrow> bpf_map \<Rightarrow> bpf_map" where
  "bpf_map__set_ifindex ifindex mp = mp\<lparr>map_ifindex := ifindex\<rparr>"

section \<open>Relocations\<close>

definition BPF_JMP_CALL :: u8 where "BPF_JMP_CALL = 0x85"
definition BPF_LD_IMM_DW :: u8 where "BPF_LD_IMM_DW = 0x18"
definition BPF_PSEUDO_CALL :: u8 where "BPF_PSEUDO_CALL = 1"
definition sizeof_bpf_insn :: u64 where "sizeof_bpf_insn = 8"

record gelf_sym =
  st_name :: u32
  st_info :: u8
  st_shndx :: int
  st_value :: u64

record gelf_rel =
  r_offset :: u64
  r_sym :: nat

text \<open>The search of the inner loop: the index of the map, or the number of maps.\<close>

fun find_map_idx :: "nat \<Rightarrow> bpf_map list \<Rightarrow> u64 \<Rightarrow> nat" where
  "find_map_idx i [] v = i"
| "find_map_idx i (m # ms) v = (if map_offset m = v then i else find_map_idx (Suc i) ms v)"

text \<open>One relocation: a libbpf or system error, or the entry it gives; \<open>None\<close> when the instruction
  it names lies outside of the program. \<open>rel\<close> and \<open>sym\<close> are what libelf finds, if anything. The
  instruction index is computed at 64 bits and stored in an \<open>unsigned int\<close>.\<close>

definition collect_reloc :: "bpf_program \<Rightarrow> bpf_object \<Rightarrow> gelf_rel option \<Rightarrow> gelf_sym option \<Rightarrow> (int + reloc_desc) option" where
  "collect_reloc prog obj rel sy =
     (case rel of
        None \<Rightarrow> Some (Inl (- errno_code LIBBPF_ERRNO__FORMAT))
      | Some r \<Rightarrow>
     (case sy of
        None \<Rightarrow> Some (Inl (- errno_code LIBBPF_ERRNO__FORMAT))
      | Some s \<Rightarrow>
          if st_shndx s \<noteq> maps_shndx obj \<and> st_shndx s \<noteq> text_shndx obj
          then Some (Inl (- errno_code LIBBPF_ERRNO__RELOC))
          else
          let insn_idx = unat (ucast (r_offset r div sizeof_bpf_insn) :: u32) in
          if insn_idx \<ge> length (insns prog) then None
          else
          let insn = insns prog ! insn_idx in
          if code insn = BPF_JMP_CALL then
            (if src_reg insn \<noteq> BPF_PSEUDO_CALL then Some (Inl (- errno_code LIBBPF_ERRNO__RELOC))
             else Some (Inr (RELO_CALL insn_idx (st_value s))))
          else if code insn \<noteq> BPF_LD_IMM_DW then Some (Inl (- errno_code LIBBPF_ERRNO__RELOC))
          else
          let map_idx = find_map_idx 0 (maps obj) (st_value s) in
          if map_idx \<ge> length (maps obj) then Some (Inl (- errno_code LIBBPF_ERRNO__RELOC))
          else Some (Inr (RELO_LD64 insn_idx map_idx))))"

fun is_call :: "reloc_desc \<Rightarrow> bool" where
  "is_call (RELO_CALL _ _) = True"
| "is_call (RELO_LD64 _ _) = False"

text \<open>The symbol of a relocation, if libelf finds both.\<close>

definition rel_sym :: "(nat \<Rightarrow> gelf_sym option) \<Rightarrow> gelf_rel option \<Rightarrow> gelf_sym option" where
  "rel_sym symbols rel =
     (case rel of None \<Rightarrow> None | Some r \<Rightarrow> symbols (r_sym r))"

text \<open>The loop: the entries so far stay in the program on an error.\<close>

fun collect_relocs ::
  "(nat \<Rightarrow> gelf_sym option) \<Rightarrow> gelf_rel option list \<Rightarrow> bpf_program \<Rightarrow> bpf_object \<Rightarrow> (int \<times> bpf_program \<times> bpf_object) option" where
  "collect_relocs symbols [] prog obj = Some (0, prog, obj)"
| "collect_relocs symbols (rel # rels) prog obj =
     do { d \<leftarrow> collect_reloc prog obj rel (rel_sym symbols rel);
          case d of
            Inl e \<Rightarrow> Some (e, prog, obj)
          | Inr desc \<Rightarrow>
              collect_relocs symbols rels (prog\<lparr>relocs := relocs prog @ [desc]\<rparr>)
                (if is_call desc then obj\<lparr>has_pseudo_calls := True\<rparr> else obj) }"

definition bpf_program__collect_reloc ::
  "bool \<Rightarrow> (nat \<Rightarrow> gelf_sym option) \<Rightarrow> gelf_rel option list \<Rightarrow> bpf_program \<Rightarrow> bpf_object
     \<Rightarrow> (int \<times> bpf_program \<times> bpf_object) option" where
  "bpf_program__collect_reloc malloc_ok symbols rels prog obj =
     (if \<not> malloc_ok then Some (- ENOMEM, prog, obj)
      else collect_relocs symbols rels (prog\<lparr>relocs := []\<rparr>) obj)"

section \<open>The iterators visit every program and map once\<close>

definition visible :: "bpf_object \<Rightarrow> nat \<Rightarrow> bool" where
  "visible obj i \<longleftrightarrow> \<not> bpf_program__is_function_storage (programs obj ! i) obj"

lemma visible_fun: "visible obj = (\<lambda>i. \<not> bpf_program__is_function_storage (programs obj ! i) obj)"
  by (rule ext) (rule visible_def)

definition start_at :: "nat option \<Rightarrow> nat" where
  "start_at p = (case p of None \<Rightarrow> 0 | Some i \<Rightarrow> Suc i)"

definition stop_at :: "bpf_object \<Rightarrow> nat option \<Rightarrow> nat" where
  "stop_at obj p = (case p of None \<Rightarrow> length (programs obj) | Some i \<Rightarrow> i)"

lemma program_iter_forward:
  "program_iter p obj True = (if start_at p < length (programs obj) then Some (start_at p) else None)"
  by (auto simp: program_iter_def start_at_def Let_def nat_add_distrib split: option.split)

lemma program_iter_backward:
  "stop_at obj p \<le> length (programs obj) \<Longrightarrow>
     program_iter p obj False = (if 0 < stop_at obj p then Some (stop_at obj p - 1) else None)"
  by (auto simp: program_iter_def stop_at_def Let_def nat_diff_distrib split: option.split)

lemma program_step_forward:
  "program_step True p obj =
     (case filter (visible obj) [start_at p..<length (programs obj)] of [] \<Rightarrow> None | i # _ \<Rightarrow> Some i)"
proof (induction "True" p obj rule: program_step.induct)
  case (1 p obj)
  have some: "start_at (Some k) = Suc k" for k by (simp add: start_at_def)
  show ?case
  proof (cases "start_at p < length (programs obj)")
    case True
    then have "[start_at p..<length (programs obj)] = start_at p # [Suc (start_at p)..<length (programs obj)]"
      by (rule upt_conv_Cons)
    then show ?thesis
      using 1 True by (subst program_step.simps) (simp add: program_iter_forward visible_def some)
  next
    case False
    then show ?thesis by (subst program_step.simps) (simp add: program_iter_forward)
  qed
qed

lemma program_step_backward:
  "stop_at obj p \<le> length (programs obj) \<Longrightarrow>
     program_step False p obj =
       (case rev (filter (visible obj) [0..<stop_at obj p]) of [] \<Rightarrow> None | i # _ \<Rightarrow> Some i)"
proof (induction "False" p obj rule: program_step.induct)
  case (1 p obj)
  show ?case
  proof (cases "stop_at obj p")
    case 0
    then show ?thesis using 1 by (subst program_step.simps) (simp add: program_iter_backward)
  next
    case (Suc i)
    have "stop_at obj (Some i) = i" by (simp add: stop_at_def)
    then show ?thesis
      using 1 Suc by (subst program_step.simps) (simp add: program_iter_backward visible_def)
  qed
qed

lemma filter_upt_Cons:
  assumes "filter P [k..<n] = i # rest"
  shows "rest = filter P [Suc i..<n] \<and> i < n"
  using assms
proof (induction "n - k" arbitrary: k)
  case (Suc d)
  then have "[k..<n] = k # [Suc k..<n]" by (simp add: upt_conv_Cons)
  with Suc.prems Suc.hyps(1) [of "Suc k"] Suc.hyps(2) show ?case by (cases "P k") auto
qed simp

lemma program_seq_forward: "program_seq True p obj = filter (visible obj) [start_at p..<length (programs obj)]"
proof (induction "True" p obj rule: program_seq.induct)
  case (1 p obj)
  show ?case
  proof (cases "filter (visible obj) [start_at p..<length (programs obj)]")
    case Nil
    then show ?thesis by (subst program_seq.simps) (simp add: program_step_forward)
  next
    case (Cons i rest)
    then have s: "program_step True p obj = Some i" by (simp add: program_step_forward)
    from filter_upt_Cons [OF Cons] have "rest = filter (visible obj) [start_at (Some i)..<length (programs obj)]"
      by (simp add: start_at_def)
    then show ?thesis using 1 [OF s] s by (subst program_seq.simps) (simp add: Cons)
  qed
qed

lemma rev_filter_upt_Cons:
  assumes "rev (filter P [0..<n]) = i # rest"
  shows "rest = rev (filter P [0..<i]) \<and> i < n"
  using assms
proof (induction n)
  case (Suc n)
  then show ?case by (cases "P n") auto
qed simp

lemma program_seq_backward:
  "stop_at obj p \<le> length (programs obj) \<Longrightarrow>
     program_seq False p obj = rev (filter (visible obj) [0..<stop_at obj p])"
proof (induction "False" p obj rule: program_seq.induct)
  case (1 p obj)
  show ?case
  proof (cases "rev (filter (visible obj) [0..<stop_at obj p])")
    case Nil
    then show ?thesis using 1 by (subst program_seq.simps) (simp add: program_step_backward)
  next
    case (Cons i rest)
    then have s: "program_step False p obj = Some i" using 1 by (simp add: program_step_backward)
    from rev_filter_upt_Cons [OF Cons] have "rest = rev (filter (visible obj) [0..<stop_at obj (Some i)])"
      "stop_at obj (Some i) \<le> length (programs obj)"
      using 1(2) by (auto simp: stop_at_def)
    then show ?thesis using 1(1) [OF s] s by (subst program_seq.simps) (simp add: Cons)
  qed
qed

lemma map_seq_from:
  "Suc k + n = length (maps obj) \<Longrightarrow> map_seq n (Some k) obj = [Suc k..<length (maps obj)]"
proof (induction n arbitrary: k)
  case (Suc n)
  then have "bpf_map__next (Some k) obj = Some (Suc k)"
    by (auto simp: bpf_map__next_def map_iter_def Let_def nat_add_distrib)
  moreover have "[Suc k..<length (maps obj)] = Suc k # [Suc (Suc k)..<length (maps obj)]"
    using Suc.prems by (intro upt_conv_Cons) simp
  ultimately show ?case using Suc.IH [of "Suc k"] Suc.prems by simp
qed simp

lemma for_each_map_all: "for_each_map obj = maps obj"
proof (cases "maps obj")
  case Nil
  then show ?thesis by (simp add: for_each_map_def)
next
  case (Cons m ms)
  then have "map_seq (length (maps obj)) None obj = 0 # [Suc 0..<length (maps obj)]"
    using map_seq_from [of 0 "length ms" obj] by (simp add: bpf_map__next_def del: upt_Suc)
  also have "\<dots> = [0..<length (maps obj)]" using Cons by (intro upt_conv_Cons [symmetric]) simp
  finally show ?thesis by (simp add: for_each_map_def map_nth)
qed

lemma for_each_program_all:
  "for_each_program obj = filter (\<lambda>p. \<not> bpf_program__is_function_storage p obj) (programs obj)"
proof -
  have "program_seq True None obj = filter (visible obj) [0..<length (programs obj)]"
    by (simp add: program_seq_forward start_at_def)
  moreover have "map ((!) (programs obj)) (filter (visible obj) [0..<length (programs obj)]) =
      filter (\<lambda>p. \<not> bpf_program__is_function_storage p obj) (map ((!) (programs obj)) [0..<length (programs obj)])"
    by (simp add: filter_map o_def visible_fun)
  ultimately show ?thesis by (simp add: for_each_program_def map_nth)
qed

text \<open>
  The loops over an object visit what they should: \<open>bpf_object__for_each_program\<close> runs through the
  programs in order, without the one that only stores functions for others; with \<open>bpf_program__prev\<close> it
  is the same sequence backwards; \<open>bpf_object__for_each_map\<close> runs through the maps.
\<close>

theorem object_iterators_enumerate:
  "for_each_program obj = filter (\<lambda>p. \<not> bpf_program__is_function_storage p obj) (programs obj) \<and>
   program_seq False None obj = rev (program_seq True None obj) \<and>
   for_each_map obj = maps obj"
proof -
  have "program_seq True None obj = filter (visible obj) [0..<length (programs obj)]"
    by (simp add: program_seq_forward start_at_def)
  moreover have "program_seq False None obj = rev (filter (visible obj) [0..<length (programs obj)])"
    using program_seq_backward [of obj None] by (simp add: stop_at_def)
  ultimately show ?thesis by (simp add: for_each_program_all for_each_map_all)
qed

section \<open>Section names\<close>

lemma section_names_resolve:
  "list_all (\<lambda>s. libbpf_prog_type_by_name (Some (sec s)) = (0, Some (sec_prog_type s, sec_expected_attach_type s)) \<and>
     libbpf_attach_type_by_name (Some (sec s)) = (if is_attachable s then (0, Some (sec_attach_type s)) else (- EINVAL, None)))
   section_names"
  by code_simp

lemma type_names_fit:
  "libbpf_get_type_names True False \<noteq> None" "libbpf_get_type_names True True \<noteq> None"
  by code_simp+

lemma xdp_section_entry:
  "filter (\<lambda>s. starts_with (''xdp'' @ n) (sec s)) section_names = [bpf_prog_sec ''xdp'' BPF_PROG_TYPE_XDP]"
  by (simp add: section_names_def starts_with_def bpf_prog_sec_def bpf_aprog_sec_def bpf_eaprog_sec_def bpf_aprog_compat_def)

text \<open>
  The table of section names is in an order that hides no entry: every name of it resolves to its own
  program type and attach type; the list of names for the error message fits its buffer; every section
  whose name begins with \<open>xdp\<close> is an XDP program, while the section \<open>syncookie\<close> of the filter is not
  recognised, so it can only be loaded by a caller that gives the type.
\<close>

theorem section_name_table:
  "list_all (\<lambda>s. libbpf_prog_type_by_name (Some (sec s)) = (0, Some (sec_prog_type s, sec_expected_attach_type s)) \<and>
     libbpf_attach_type_by_name (Some (sec s)) = (if is_attachable s then (0, Some (sec_attach_type s)) else (- EINVAL, None)))
   section_names \<and>
   libbpf_get_type_names True attach \<noteq> None \<and>
   libbpf_prog_type_by_name (Some (''xdp'' @ n)) = (0, Some (BPF_PROG_TYPE_XDP, no_attach_type)) \<and>
   libbpf_prog_type_by_name (Some ''syncookie'') = (- EINVAL, None)"
proof (intro conjI)
  show "libbpf_get_type_names True attach \<noteq> None" using type_names_fit by (cases attach) auto
  show "libbpf_prog_type_by_name (Some (''xdp'' @ n)) = (0, Some (BPF_PROG_TYPE_XDP, no_attach_type))"
    using xdp_section_entry [of n] by (simp add: libbpf_prog_type_by_name_def bpf_prog_sec_def)
  show "libbpf_prog_type_by_name (Some ''syncookie'') = (- EINVAL, None)" by code_simp
qed (rule section_names_resolve)

section \<open>Relocations refer to the program and its maps\<close>

text \<open>What an entry promises of the symbol it stands for: the instruction is in the program and of the
  right kind, the symbol is in the section of the maps or of the functions, and the map is the one
  whose definition is at the symbol's value.\<close>

fun reloc_ok :: "bpf_program \<Rightarrow> bpf_object \<Rightarrow> gelf_sym option \<Rightarrow> reloc_desc \<Rightarrow> bool" where
  "reloc_ok prog obj (Some s) (RELO_LD64 i k) \<longleftrightarrow>
     i < length (insns prog) \<and> code (insns prog ! i) = BPF_LD_IMM_DW \<and>
     k < length (maps obj) \<and> map_offset (maps obj ! k) = st_value s \<and>
     (st_shndx s = maps_shndx obj \<or> st_shndx s = text_shndx obj)"
| "reloc_ok prog obj (Some s) (RELO_CALL i off) \<longleftrightarrow>
     i < length (insns prog) \<and> code (insns prog ! i) = BPF_JMP_CALL \<and> src_reg (insns prog ! i) = BPF_PSEUDO_CALL \<and>
     off = st_value s \<and> (st_shndx s = maps_shndx obj \<or> st_shndx s = text_shndx obj)"
| "reloc_ok prog obj None _ = False"

lemma find_map_idx_spec:
  "i \<le> find_map_idx i ms v \<and>
   (find_map_idx i ms v < i + length ms \<longrightarrow> map_offset (ms ! (find_map_idx i ms v - i)) = v)"
proof (induction i ms v rule: find_map_idx.induct)
  case (2 i m ms v)
  show ?case
  proof (cases "map_offset m = v")
    case False
    with 2 have IH: "Suc i \<le> find_map_idx (Suc i) ms v"
      "find_map_idx (Suc i) ms v < Suc i + length ms \<Longrightarrow> map_offset (ms ! (find_map_idx (Suc i) ms v - Suc i)) = v"
      by blast+
    then have "find_map_idx (Suc i) ms v - i = Suc (find_map_idx (Suc i) ms v - Suc i)" by simp
    with IH False show ?thesis by simp
  qed simp
qed simp

lemma collect_reloc_ok: "collect_reloc prog obj rel sy = Some (Inr d) \<Longrightarrow> reloc_ok prog obj sy d"
  using find_map_idx_spec [of 0 "maps obj"]
  by (auto simp: collect_reloc_def Let_def split: option.splits if_splits)

lemma collect_reloc_error: "collect_reloc prog obj rel sy = Some (Inl e) \<Longrightarrow> e < 0"
  by (auto simp: collect_reloc_def Let_def LIBBPF_ERRNO__START_def split: option.splits if_splits)

lemma collect_relocs_ok:
  assumes "collect_relocs symbols rels prog obj = Some (0, prog', obj')"
  shows "\<exists>ds. relocs prog' = relocs prog @ ds \<and> list_all2 (\<lambda>rel. reloc_ok prog obj (rel_sym symbols rel)) rels ds"
  using assms
proof (induction rels arbitrary: prog obj)
  case (Cons rel rels)
  from Cons.prems obtain e where d: "collect_reloc prog obj rel (rel_sym symbols rel) = Some e"
    by (auto simp: bind_eq_Some_conv)
  show ?case
  proof (cases e)
    case (Inl c)
    then show ?thesis using Cons.prems d collect_reloc_error by fastforce
  next
    case (Inr desc)
    let ?prog = "prog\<lparr>relocs := relocs prog @ [desc]\<rparr>"
    let ?obj = "if is_call desc then obj\<lparr>has_pseudo_calls := True\<rparr> else obj"
    have c: "collect_relocs symbols rels ?prog ?obj = Some (0, prog', obj')"
      using Cons.prems d Inr by simp
    have same: "reloc_ok ?prog ?obj sy x = reloc_ok prog obj sy x" for sy x
      by (cases sy; cases x) simp_all
    from Cons.IH [OF c] obtain ds where "relocs prog' = relocs prog @ desc # ds"
      "list_all2 (\<lambda>rel. reloc_ok prog obj (rel_sym symbols rel)) rels ds"
      unfolding same by auto
    then show ?thesis
      using collect_reloc_ok d Inr by (intro exI [of _ "desc # ds"]) auto
  qed
qed simp

text \<open>
  C27. A successful \<open>bpf_program__collect_reloc\<close> gives one entry per relocation, each with an instruction
  of the program of the kind it patches and a map that is defined where the symbol points. So a program
  that refers to anything outside the sections of maps and functions, such as the initialised variable
  \<open>insert\<close> of the filter in its data section, is not loaded: the collection does not succeed.
\<close>

theorem collect_reloc_sound:
  assumes "bpf_program__collect_reloc True symbols rels prog obj = Some (err, prog', obj')"
  shows "(err = 0 \<longrightarrow> list_all2 (\<lambda>rel. reloc_ok prog obj (rel_sym symbols rel)) rels (relocs prog')) \<and>
     (\<forall>rel s. rel \<in> set rels \<longrightarrow> rel_sym symbols rel = Some s \<longrightarrow>
        st_shndx s \<noteq> maps_shndx obj \<longrightarrow> st_shndx s \<noteq> text_shndx obj \<longrightarrow> err \<noteq> 0)"
proof -
  have ok: "list_all2 (\<lambda>rel. reloc_ok prog obj (rel_sym symbols rel)) rels (relocs prog')" if "err = 0"
  proof -
    have same: "reloc_ok (prog\<lparr>relocs := []\<rparr>) obj sy = reloc_ok prog obj sy" for sy
    proof (rule ext)
      fix x
      show "reloc_ok (prog\<lparr>relocs := []\<rparr>) obj sy x = reloc_ok prog obj sy x" by (cases sy; cases x) simp_all
    qed
    show ?thesis
      using collect_relocs_ok [of symbols rels "prog\<lparr>relocs := []\<rparr>" obj prog' obj'] assms that
      by (auto simp: bpf_program__collect_reloc_def same)
  qed
  moreover have "err \<noteq> 0" if r: "rel \<in> set rels" and s: "rel_sym symbols rel = Some s"
    and n: "st_shndx s \<noteq> maps_shndx obj" "st_shndx s \<noteq> text_shndx obj" for rel s
  proof
    assume "err = 0"
    from list_all2_nthD [OF ok [OF this]] r obtain d where "reloc_ok prog obj (rel_sym symbols rel) d"
      by (auto simp: in_set_conv_nth)
    then show False using s n by (cases d) simp_all
  qed
  ultimately show ?thesis by blast
qed

text \<open>A program with two instructions that load addresses: the map at offset 0 and the variable in
  section 5.\<close>

definition sample_insn :: "u8 \<Rightarrow> bpf_insn" where
  "sample_insn c = \<lparr> code = c, dst_reg = 0, src_reg = 0, insn_off = 0, imm = 0 \<rparr>"

definition sample_program :: bpf_program where
  "sample_program = \<lparr> idx = 3, section_name = ''syncookie'', pin_name = ''syncookie'', prog_ifindex = 0,
     prog_type = BPF_PROG_TYPE_XDP, expected_attach_type = no_attach_type,
     insns = [sample_insn 0x18, sample_insn 0, sample_insn 0x18],
     inst_nr = -1, inst_fds = [], relocs = [], prog_name = Some ''syncookie_fn'', main_prog_cnt = 0, preprocessor = None,
     prog_btf_fd = -1, func_info = None, func_info_cnt = 0, func_info_rec_size = 0,
     line_info = None, line_info_cnt = 0, line_info_rec_size = 0,
     insns_dangling = False \<rparr>"

definition connections_map :: bpf_map where
  "connections_map = \<lparr> map_fd = -1, map_name = ''connections_table'', map_offset = 0, map_ifindex = 0, inner_map_fd = -1,
     map_def = \<lparr> def_type = map_type_code BPF_MAP_TYPE_LPM_TRIE, def_key_size = 12, def_value_size = 1,
       def_max_entries = 1000, def_map_flags = 0, def_inner_map_idx = 0, def_numa_node = 0 \<rparr>,
     btf_key_type_id = 0, btf_value_type_id = 0 \<rparr>"

definition sample_object :: bpf_object where
  "sample_object = \<lparr> loaded = False, programs = [sample_program], maps = [connections_map],
     has_pseudo_calls = False, maps_shndx = 4, text_shndx = 2, license = ''GPL'', kern_version = 0, caps_name = False,
     obj_btf = None, obj_btf_ext = None \<rparr>"

definition sample_symbols :: "nat \<Rightarrow> gelf_sym option" where
  "sample_symbols i =
     (if i = 0 then Some \<lparr> st_name = 1, st_info = 0x11, st_shndx = 4, st_value = 0 \<rparr>
      else if i = 1 then Some \<lparr> st_name = 8, st_info = 0x11, st_shndx = 5, st_value = 0 \<rparr> else None)"

definition sample_rels :: "gelf_rel option list" where
  "sample_rels = [Some \<lparr> r_offset = 0, r_sym = 0 \<rparr>, Some \<lparr> r_offset = 16, r_sym = 1 \<rparr>]"

theorem collect_reloc_sound_witness:
  "(\<exists>err p' o'. bpf_program__collect_reloc True sample_symbols sample_rels sample_program sample_object
      = Some (err, p', o') \<and> err \<noteq> 0) \<and>
   (\<exists>p' o'. bpf_program__collect_reloc True sample_symbols [hd sample_rels] sample_program sample_object
      = Some (0, p', o') \<and> relocs p' = [RELO_LD64 0 0])"
proof
  have "(case bpf_program__collect_reloc True sample_symbols sample_rels sample_program sample_object of
      None \<Rightarrow> False | Some _ \<Rightarrow> True)" by code_simp
  then obtain err p' o' where c: "bpf_program__collect_reloc True sample_symbols sample_rels sample_program sample_object
      = Some (err, p', o')" by (auto split: option.splits)
  have "sample_rels ! 1 \<in> set sample_rels" "rel_sym sample_symbols (sample_rels ! 1) =
      Some \<lparr> st_name = 8, st_info = 0x11, st_shndx = 5, st_value = 0 \<rparr>"
    "(5 :: int) \<noteq> maps_shndx sample_object" "(5 :: int) \<noteq> text_shndx sample_object"
    by (simp_all add: sample_rels_def sample_symbols_def rel_sym_def sample_object_def)
  then have "err \<noteq> 0"
    using collect_reloc_sound [OF c] by (metis gelf_sym.select_convs(3))
  then show "\<exists>err p' o'. bpf_program__collect_reloc True sample_symbols sample_rels sample_program sample_object
      = Some (err, p', o') \<and> err \<noteq> 0" using c by blast
  have "(case bpf_program__collect_reloc True sample_symbols [hd sample_rels] sample_program sample_object of
      None \<Rightarrow> False | Some (e, p', o') \<Rightarrow> e = 0 \<and> relocs p' = [RELO_LD64 0 0])" by code_simp
  then show "\<exists>p' o'. bpf_program__collect_reloc True sample_symbols [hd sample_rels] sample_program sample_object
      = Some (0, p', o') \<and> relocs p' = [RELO_LD64 0 0]" by (auto split: option.splits)
qed

end
