(* ===== verification/Pinning.thy ===== *)
theory Pinning
  imports Bpf_Object
begin

text \<open>
  Pinning programs and maps to the BPF file system: the functions around \<open>bpf_map__pin\<close> and
  \<open>bpf_program__pin\<close> in \<open>src/libbpf/src/libbpf.c\<close>. The file system belongs to the kernel and is the
  parameter \<open>fs_os\<close>; its calls give the error number (0 on success) and the new state. \<open>snprintf\<close> of a
  path never fails here, it only reports a length of \<open>PATH_MAX\<close> or more.

  The locale \<open>pin_fs\<close> states what the kernel documents of these calls, as seen through \<open>pinned\<close>, the map
  from paths to the objects pinned there; pinning may fail for any reason, removing
  a pinned file of the own process does not. The locale
  \<open>rollback\<close> is the contract of one step of the loops that pin several things and undo what they did on
  an error; it holds for maps, for the instances of a program and for programs.
\<close>

section \<open>The file system\<close>

definition PATH_MAX :: nat where "PATH_MAX = 4096"
definition BPF_FS_MAGIC :: u64 where "BPF_FS_MAGIC = 0xCAFE4A11"

record 'w fs_os =
  strdup_ok :: bool
  statfs :: "string \<Rightarrow> int \<times> u64"
  obj_pin :: "'w \<Rightarrow> int \<Rightarrow> string \<Rightarrow> int \<times> 'w"
  unlink_path :: "'w \<Rightarrow> string \<Rightarrow> int \<times> 'w"
  mkdir_700 :: "'w \<Rightarrow> string \<Rightarrow> int \<times> 'w"
  rmdir_path :: "'w \<Rightarrow> string \<Rightarrow> int \<times> 'w"

text \<open>\<open>dirname\<close> of the C library.\<close>

definition dirname :: "string \<Rightarrow> string" where
  "dirname p =
     (let slash = (\<lambda>c. c = CHR ''/''); r = dropWhile slash (rev p) in
      if r = [] then (if p = [] then ''.'' else ''/'')
      else let r = dropWhile (\<lambda>c. \<not> slash c) r in
        if r = [] then ''.''
        else let r = dropWhile slash r in if r = [] then ''/'' else rev r)"

definition join :: "string \<Rightarrow> string \<Rightarrow> string" where
  "join path name = path @ ''/'' @ name"

definition check_path :: "'w fs_os \<Rightarrow> string option \<Rightarrow> int" where
  "check_path os path =
     (case path of
        None \<Rightarrow> - EINVAL
      | Some p \<Rightarrow>
          if \<not> strdup_ok os then - ENOMEM
          else case statfs os (dirname p) of
            (e, f_type) \<Rightarrow>
              if e \<noteq> 0 then - e
              else if f_type \<noteq> BPF_FS_MAGIC then - EINVAL else 0)"

definition make_dir :: "'w fs_os \<Rightarrow> string \<Rightarrow> 'w \<Rightarrow> int \<times> 'w" where
  "make_dir os path w =
     (case mkdir_700 os w path of (e, w) \<Rightarrow> (if e \<noteq> 0 \<and> e \<noteq> EEXIST then - e else 0, w))"

section \<open>Maps\<close>

definition bpf_map__pin :: "'w fs_os \<Rightarrow> bpf_map option \<Rightarrow> string \<Rightarrow> 'w \<Rightarrow> int \<times> 'w" where
  "bpf_map__pin os mp path w =
     (let err = check_path os (Some path) in
      if err \<noteq> 0 then (err, w)
      else case mp of
        None \<Rightarrow> (- EINVAL, w)
      | Some m \<Rightarrow> (case obj_pin os w (map_fd m) path of (e, w) \<Rightarrow> (if e \<noteq> 0 then - e else 0, w)))"

definition bpf_map__unpin :: "'w fs_os \<Rightarrow> bpf_map option \<Rightarrow> string \<Rightarrow> 'w \<Rightarrow> int \<times> 'w" where
  "bpf_map__unpin os mp path w =
     (let err = check_path os (Some path) in
      if err \<noteq> 0 then (err, w)
      else case mp of
        None \<Rightarrow> (- EINVAL, w)
      | Some m \<Rightarrow> (case unlink_path os w path of (e, w) \<Rightarrow> (if e \<noteq> 0 then - e else 0, w)))"

text \<open>The loop that three functions share: pin each item, and on an error unpin the ones before it, the
  last one first, whatever that gives. \<open>before\<close> holds these, in this order. The loop that unpins stops
  at the first error.\<close>

fun pin_loop :: "('i \<Rightarrow> 'w \<Rightarrow> int \<times> 'w) \<Rightarrow> ('i \<Rightarrow> 'w \<Rightarrow> int \<times> 'w) \<Rightarrow> 'i list \<Rightarrow> 'i list \<Rightarrow> 'w \<Rightarrow> int \<times> 'w" where
  "pin_loop pin unpin before [] w = (0, w)"
| "pin_loop pin unpin before (i # rest) w =
     (case pin i w of (err, w) \<Rightarrow>
        if err \<noteq> 0 then (err, fold (\<lambda>i w. snd (unpin i w)) before w)
        else pin_loop pin unpin (i # before) rest w)"

fun unpin_loop :: "('i \<Rightarrow> 'w \<Rightarrow> int \<times> 'w) \<Rightarrow> 'i list \<Rightarrow> 'w \<Rightarrow> int \<times> 'w" where
  "unpin_loop unpin [] w = (0, w)"
| "unpin_loop unpin (i # rest) w =
     (case unpin i w of (err, w) \<Rightarrow> if err \<noteq> 0 then (err, w) else unpin_loop unpin rest w)"

definition pin_map_at :: "'w fs_os \<Rightarrow> string \<Rightarrow> bpf_map \<Rightarrow> 'w \<Rightarrow> int \<times> 'w" where
  "pin_map_at os path m w =
     (let buf = join path (map_name m) in
      if length buf \<ge> PATH_MAX then (- ENAMETOOLONG, w) else bpf_map__pin os (Some m) buf w)"

definition unpin_map_at :: "'w fs_os \<Rightarrow> string \<Rightarrow> bpf_map \<Rightarrow> 'w \<Rightarrow> int \<times> 'w" where
  "unpin_map_at os path m w =
     (let buf = join path (map_name m) in
      if length buf \<ge> PATH_MAX then (- ENAMETOOLONG, w) else bpf_map__unpin os (Some m) buf w)"

definition bpf_object__pin_maps :: "'w fs_os \<Rightarrow> bpf_object option \<Rightarrow> string \<Rightarrow> 'w \<Rightarrow> int \<times> 'w" where
  "bpf_object__pin_maps os obj path w =
     (case obj of
        None \<Rightarrow> (- ENOENT, w)
      | Some obj \<Rightarrow>
          if \<not> loaded obj then (- ENOENT, w)
          else case make_dir os path w of (err, w) \<Rightarrow>
            if err \<noteq> 0 then (err, w)
            else pin_loop (pin_map_at os path) (unpin_map_at os path) [] (for_each_map obj) w)"

definition bpf_object__unpin_maps :: "'w fs_os \<Rightarrow> bpf_object option \<Rightarrow> string \<Rightarrow> 'w \<Rightarrow> int \<times> 'w" where
  "bpf_object__unpin_maps os obj path w =
     (case obj of
        None \<Rightarrow> (- ENOENT, w)
      | Some obj \<Rightarrow> unpin_loop (unpin_map_at os path) (for_each_map obj) w)"

section \<open>Programs\<close>

text \<open>The descriptor array is as long as \<open>instances.nr\<close> says; the index is checked first.\<close>

definition bpf_program__pin_instance :: "'w fs_os \<Rightarrow> bpf_program option \<Rightarrow> string \<Rightarrow> int \<Rightarrow> 'w \<Rightarrow> int \<times> 'w" where
  "bpf_program__pin_instance os prog path i w =
     (let err = check_path os (Some path) in
      if err \<noteq> 0 then (err, w)
      else case prog of
        None \<Rightarrow> (- EINVAL, w)
      | Some p \<Rightarrow>
          if i < 0 \<or> i \<ge> inst_nr p then (- EINVAL, w)
          else case obj_pin os w (inst_fds p ! nat i) path of (e, w) \<Rightarrow> (if e \<noteq> 0 then - e else 0, w))"

definition bpf_program__unpin_instance :: "'w fs_os \<Rightarrow> bpf_program option \<Rightarrow> string \<Rightarrow> int \<Rightarrow> 'w \<Rightarrow> int \<times> 'w" where
  "bpf_program__unpin_instance os prog path i w =
     (let err = check_path os (Some path) in
      if err \<noteq> 0 then (err, w)
      else case prog of
        None \<Rightarrow> (- EINVAL, w)
      | Some p \<Rightarrow>
          if i < 0 \<or> i \<ge> inst_nr p then (- EINVAL, w)
          else case unlink_path os w path of (e, w) \<Rightarrow> (if e \<noteq> 0 then - e else 0, w))"

definition pin_instance_at :: "'w fs_os \<Rightarrow> bpf_program \<Rightarrow> string \<Rightarrow> nat \<Rightarrow> 'w \<Rightarrow> int \<times> 'w" where
  "pin_instance_at os p path i w =
     (let buf = join path (decimal i) in
      if length buf \<ge> PATH_MAX then (- ENAMETOOLONG, w)
      else bpf_program__pin_instance os (Some p) buf (int i) w)"

definition unpin_instance_at :: "'w fs_os \<Rightarrow> bpf_program \<Rightarrow> string \<Rightarrow> nat \<Rightarrow> 'w \<Rightarrow> int \<times> 'w" where
  "unpin_instance_at os p path i w =
     (let buf = join path (decimal i) in
      if length buf \<ge> PATH_MAX then (- ENAMETOOLONG, w)
      else bpf_program__unpin_instance os (Some p) buf (int i) w)"

definition bpf_program__pin :: "'w fs_os \<Rightarrow> bpf_program option \<Rightarrow> string \<Rightarrow> 'w \<Rightarrow> int \<times> 'w" where
  "bpf_program__pin os prog path w =
     (let err = check_path os (Some path) in
      if err \<noteq> 0 then (err, w)
      else case prog of
        None \<Rightarrow> (- EINVAL, w)
      | Some p \<Rightarrow>
          if inst_nr p \<le> 0 then (- EINVAL, w)
          else if inst_nr p = 1 then bpf_program__pin_instance os (Some p) path 0 w
          else case make_dir os path w of (err, w) \<Rightarrow>
            if err \<noteq> 0 then (err, w)
            else case pin_loop (pin_instance_at os p path) (unpin_instance_at os p path) [] [0..<nat (inst_nr p)] w of
              (err, w) \<Rightarrow> if err \<noteq> 0 then (err, snd (rmdir_path os w path)) else (0, w))"

definition bpf_program__unpin :: "'w fs_os \<Rightarrow> bpf_program option \<Rightarrow> string \<Rightarrow> 'w \<Rightarrow> int \<times> 'w" where
  "bpf_program__unpin os prog path w =
     (let err = check_path os (Some path) in
      if err \<noteq> 0 then (err, w)
      else case prog of
        None \<Rightarrow> (- EINVAL, w)
      | Some p \<Rightarrow>
          if inst_nr p \<le> 0 then (- EINVAL, w)
          else if inst_nr p = 1 then bpf_program__unpin_instance os (Some p) path 0 w
          else case unpin_loop (unpin_instance_at os p path) [0..<nat (inst_nr p)] w of (err, w) \<Rightarrow>
            if err \<noteq> 0 then (err, w)
            else case rmdir_path os w path of (e, w) \<Rightarrow> (if e \<noteq> 0 then - e else 0, w))"

definition pin_program_at :: "'w fs_os \<Rightarrow> string \<Rightarrow> bpf_program \<Rightarrow> 'w \<Rightarrow> int \<times> 'w" where
  "pin_program_at os path p w =
     (let buf = join path (pin_name p) in
      if length buf \<ge> PATH_MAX then (- ENAMETOOLONG, w) else bpf_program__pin os (Some p) buf w)"

definition unpin_program_at :: "'w fs_os \<Rightarrow> string \<Rightarrow> bpf_program \<Rightarrow> 'w \<Rightarrow> int \<times> 'w" where
  "unpin_program_at os path p w =
     (let buf = join path (pin_name p) in
      if length buf \<ge> PATH_MAX then (- ENAMETOOLONG, w) else bpf_program__unpin os (Some p) buf w)"

definition bpf_object__pin_programs :: "'w fs_os \<Rightarrow> bpf_object option \<Rightarrow> string \<Rightarrow> 'w \<Rightarrow> int \<times> 'w" where
  "bpf_object__pin_programs os obj path w =
     (case obj of
        None \<Rightarrow> (- ENOENT, w)
      | Some obj \<Rightarrow>
          if \<not> loaded obj then (- ENOENT, w)
          else case make_dir os path w of (err, w) \<Rightarrow>
            if err \<noteq> 0 then (err, w)
            else pin_loop (pin_program_at os path) (unpin_program_at os path) [] (for_each_program obj) w)"

definition bpf_object__unpin_programs :: "'w fs_os \<Rightarrow> bpf_object option \<Rightarrow> string \<Rightarrow> 'w \<Rightarrow> int \<times> 'w" where
  "bpf_object__unpin_programs os obj path w =
     (case obj of
        None \<Rightarrow> (- ENOENT, w)
      | Some obj \<Rightarrow> unpin_loop (unpin_program_at os path) (for_each_program obj) w)"

definition bpf_object__pin :: "'w fs_os \<Rightarrow> bpf_object option \<Rightarrow> string \<Rightarrow> 'w \<Rightarrow> int \<times> 'w" where
  "bpf_object__pin os obj path w =
     (case bpf_object__pin_maps os obj path w of (err, w) \<Rightarrow>
        if err \<noteq> 0 then (err, w)
        else case bpf_object__pin_programs os obj path w of (err, w) \<Rightarrow>
          if err \<noteq> 0 then (err, snd (bpf_object__unpin_maps os obj path w))
          else (0, w))"

section \<open>Loops that undo what they did\<close>

locale rollback =
  fixes pin :: "'i \<Rightarrow> 'w \<Rightarrow> int \<times> 'w"
    and unpin :: "'i \<Rightarrow> 'w \<Rightarrow> int \<times> 'w"
    and view :: "'w \<Rightarrow> string \<rightharpoonup> int"
    and eff :: "'i \<Rightarrow> string \<rightharpoonup> int"
  assumes pin_ok: "pin i w = (0, w') \<Longrightarrow> view w' = view w ++ eff i \<and> dom (view w) \<inter> dom (eff i) = {}"
    and pin_fail: "\<lbrakk> pin i w = (e, w'); e \<noteq> 0 \<rbrakk> \<Longrightarrow> view w' = view w"
    and unpin_pin: "\<lbrakk> pin i w = (0, w1); view w2 = v ++ eff i; dom v \<inter> dom (eff i) = {} \<rbrakk> \<Longrightarrow>
      view (snd (unpin i w2)) = v"
begin

text \<open>The items before the current one were pinned one after the other, starting from the view \<open>v0\<close>.\<close>

fun chain :: "(string \<rightharpoonup> int) \<Rightarrow> 'i list \<Rightarrow> (string \<rightharpoonup> int) \<Rightarrow> bool" where
  "chain v0 [] v \<longleftrightarrow> v = v0"
| "chain v0 (i # before) v \<longleftrightarrow>
     (\<exists>v1 w w1. chain v0 before v1 \<and> v = v1 ++ eff i \<and> dom v1 \<inter> dom (eff i) = {} \<and> pin i w = (0, w1))"

lemma unpin_chain: "chain v0 before (view w) \<Longrightarrow> view (fold (\<lambda>i w. snd (unpin i w)) before w) = v0"
proof (induction before arbitrary: w)
  case (Cons i before)
  then obtain v1 w0 w1 where "chain v0 before v1" "view w = v1 ++ eff i" "dom v1 \<inter> dom (eff i) = {}"
    "pin i w0 = (0, w1)" by auto
  then have "chain v0 before (view (snd (unpin i w)))" using unpin_pin by metis
  then show ?case using Cons.IH by simp
qed simp

abbreviation effs :: "(string \<rightharpoonup> int) \<Rightarrow> 'i list \<Rightarrow> string \<rightharpoonup> int" where
  "effs v items \<equiv> foldl (\<lambda>v i. v ++ eff i) v items"

text \<open>Every item can be pinned and claims paths that were free.\<close>

fun claims :: "(string \<rightharpoonup> int) \<Rightarrow> 'i list \<Rightarrow> bool" where
  "claims v [] = True"
| "claims v (i # items) \<longleftrightarrow>
     (\<exists>w w1. pin i w = (0, w1)) \<and> dom v \<inter> dom (eff i) = {} \<and> claims (v ++ eff i) items"

lemma pin_loop_all_or_nothing:
  assumes "pin_loop pin unpin before items w = (e, w')" "chain v0 before (view w)"
  shows "if e = 0 then view w' = effs (view w) items \<and> claims (view w) items else view w' = v0"
  using assms
proof (induction items arbitrary: before w)
  case (Cons i items)
  obtain err w1 where p: "pin i w = (err, w1)" by (cases "pin i w")
  show ?case
  proof (cases "err = 0")
    case False
    then have "view w1 = view w" using p pin_fail by blast
    then show ?thesis using False p Cons.prems unpin_chain [of v0 before w1] by simp
  next
    case True
    then have v: "view w1 = view w ++ eff i" "dom (view w) \<inter> dom (eff i) = {}" using p pin_ok by auto
    then have "chain v0 (i # before) (view w1)" using Cons.prems p True by auto
    from Cons.IH [OF _ this] show ?thesis using Cons.prems p True v by auto
  qed
qed simp

lemma claims_commute:
  "\<lbrakk> claims (v ++ d) items; dom v \<inter> dom d = {} \<rbrakk> \<Longrightarrow>
     effs (v ++ d) items = effs v items ++ d \<and> dom (effs v items) \<inter> dom d = {} \<and> claims v items"
proof (induction items arbitrary: v)
  case (Cons i items)
  then have disj: "dom d \<inter> dom (eff i) = {}" "dom v \<inter> dom (eff i) = {}" "dom (v ++ eff i) \<inter> dom d = {}" by auto
  have "(v ++ d) ++ eff i = (v ++ eff i) ++ d"
    using map_add_comm [OF disj(1)] by (metis map_add_assoc)
  then show ?case using Cons.IH [of "v ++ eff i"] Cons.prems disj by simp
qed simp

lemma effs_split: "effs v items = v ++ effs Map.empty items"
proof (induction items arbitrary: v)
  case (Cons i items)
  show ?case using Cons [of "v ++ eff i"] Cons [of "eff i"] by simp
qed simp

lemma claims_disjoint: "claims v items \<Longrightarrow> dom v \<inter> dom (effs Map.empty items) = {}"
proof (induction items arbitrary: v)
  case (Cons i items)
  then have "dom v \<inter> dom (eff i) = {}" "claims (v ++ eff i) items" by simp_all
  moreover from Cons.IH [OF this(2)] have "dom v \<inter> dom (effs Map.empty items) = {}" by auto
  ultimately show ?case using effs_split [of "eff i" items] by auto
qed simp

lemma claims_transfer:
  "\<lbrakk> claims v0 items; dom v \<inter> dom (effs Map.empty items) = {} \<rbrakk> \<Longrightarrow> claims v items"
proof (induction items arbitrary: v0 v)
  case (Cons i items)
  then have "claims (v0 ++ eff i) items" by simp
  moreover from claims_disjoint [OF this] have "dom (eff i) \<inter> dom (effs Map.empty items) = {}" by auto
  moreover have "effs Map.empty (i # items) = eff i ++ effs Map.empty items" using effs_split [of "eff i" items] by simp
  moreover have "dom v \<inter> dom (eff i) = {}" "dom v \<inter> dom (effs Map.empty items) = {}"
    using Cons.prems(2) calculation(3) by auto
  moreover have "dom (v ++ eff i) \<inter> dom (effs Map.empty items) = {}" using calculation by auto
  ultimately show ?case using Cons.IH [of "v0 ++ eff i" "v ++ eff i"] Cons.prems(1) by auto
qed simp

end

text \<open>When unpinning what was pinned also reports success, a whole list can be taken back, in the order
  in which it was pinned.\<close>

locale reversible = rollback +
  assumes unpin_reports: "\<lbrakk> pin i w = (0, w1); view w2 = v ++ eff i; dom v \<inter> dom (eff i) = {} \<rbrakk> \<Longrightarrow>
    fst (unpin i w2) = 0"
begin

lemma unpin_loop_restores:
  "\<lbrakk> claims v items; view w = effs v items \<rbrakk> \<Longrightarrow> \<exists>w'. unpin_loop unpin items w = (0, w') \<and> view w' = v"
proof (induction items arbitrary: v w)
  case (Cons i items)
  then obtain w0 w1 where p: "pin i w0 = (0, w1)" and d: "dom v \<inter> dom (eff i) = {}" by auto
  have c: "effs (v ++ eff i) items = effs v items ++ eff i" "dom (effs v items) \<inter> dom (eff i) = {}" "claims v items"
    using claims_commute [of v "eff i" items] Cons.prems d by auto
  then have "view (snd (unpin i w)) = effs v items" "fst (unpin i w) = 0"
    using unpin_pin [OF p, of w "effs v items"] unpin_reports [OF p, of w "effs v items"] Cons.prems by auto
  then show ?case using Cons.IH [OF c(3), of "snd (unpin i w)"] by (cases "unpin i w") auto
qed simp

end

section \<open>What the kernel promises of pinned objects\<close>

locale pin_fs =
  fixes os :: "'w fs_os"
    and pinned :: "'w \<Rightarrow> string \<rightharpoonup> int"
  assumes pin_new: "obj_pin os w fd p = (0, w') \<Longrightarrow> pinned w p = None \<and> pinned w' = (pinned w)(p \<mapsto> fd)"
    and pin_error: "\<lbrakk> obj_pin os w fd p = (e, w'); e \<noteq> 0 \<rbrakk> \<Longrightarrow> pinned w' = pinned w"
    and unlink_present: "pinned w p = Some fd \<Longrightarrow>
      fst (unlink_path os w p) = 0 \<and> pinned (snd (unlink_path os w p)) = (pinned w)(p := None)"
    and mkdir_keeps: "pinned (snd (mkdir_700 os w p)) = pinned w"
    and rmdir_keeps: "pinned (snd (rmdir_path os w p)) = pinned w"

definition map_eff :: "string \<Rightarrow> bpf_map \<Rightarrow> string \<rightharpoonup> int" where
  "map_eff path m = [join path (map_name m) \<mapsto> map_fd m]"

definition instance_eff :: "bpf_program \<Rightarrow> string \<Rightarrow> nat \<Rightarrow> string \<rightharpoonup> int" where
  "instance_eff p path i = [join path (decimal i) \<mapsto> inst_fds p ! i]"

definition program_eff :: "string \<Rightarrow> bpf_program \<Rightarrow> string \<rightharpoonup> int" where
  "program_eff path p =
     (let buf = join path (pin_name p) in
      if inst_nr p = 1 then [buf \<mapsto> inst_fds p ! 0]
      else foldl (\<lambda>v i. v ++ instance_eff p buf i) Map.empty [0..<nat (inst_nr p)])"

lemma update_none: "v p = None \<Longrightarrow> (v(p \<mapsto> x))(p := None) = v"
  by (rule ext) simp

context pin_fs
begin

lemma map_pins_laws: "reversible (pin_map_at os path) (unpin_map_at os path) pinned (map_eff path)"
proof
  fix i w w'
  assume "pin_map_at os path i w = (0, w')"
  then show "pinned w' = pinned w ++ map_eff path i \<and> dom (pinned w) \<inter> dom (map_eff path i) = {}"
    using pin_new by (auto simp: pin_map_at_def bpf_map__pin_def map_eff_def Let_def ENAMETOOLONG_def split: if_splits prod.splits)
next
  fix i w e w'
  assume "pin_map_at os path i w = (e, w')" "e \<noteq> 0"
  then show "pinned w' = pinned w"
    using pin_error by (auto simp: pin_map_at_def bpf_map__pin_def Let_def split: if_splits prod.splits)
next
  fix i w w1 w2 v
  assume p: "pin_map_at os path i w = (0, w1)" and v: "pinned w2 = v ++ map_eff path i"
    and d: "dom v \<inter> dom (map_eff path i) = {}"
  let ?b = "join path (map_name i)"
  have "\<not> length ?b \<ge> PATH_MAX" "check_path os (Some ?b) = 0"
    using p by (auto simp: pin_map_at_def bpf_map__pin_def Let_def ENAMETOOLONG_def split: if_splits)
  moreover have "pinned w2 ?b = Some (map_fd i)" "v ?b = None" "pinned w2 = v(?b \<mapsto> map_fd i)"
    using v d by (auto simp: map_eff_def)
  ultimately show "pinned (snd (unpin_map_at os path i w2)) = v" "fst (unpin_map_at os path i w2) = 0"
    using unlink_present [of w2 ?b "map_fd i"]
    by (auto simp: unpin_map_at_def bpf_map__unpin_def Let_def update_none split: prod.split)
qed

lemma instance_pins_laws:
  "reversible (pin_instance_at os q path) (unpin_instance_at os q path) pinned (instance_eff q path)"
proof
  fix i w w'
  assume "pin_instance_at os q path i w = (0, w')"
  then show "pinned w' = pinned w ++ instance_eff q path i \<and> dom (pinned w) \<inter> dom (instance_eff q path i) = {}"
    using pin_new
    by (auto simp: pin_instance_at_def bpf_program__pin_instance_def instance_eff_def Let_def ENAMETOOLONG_def EINVAL_def
        split: if_splits prod.splits)
next
  fix i w e w'
  assume "pin_instance_at os q path i w = (e, w')" "e \<noteq> 0"
  then show "pinned w' = pinned w"
    using pin_error
    by (auto simp: pin_instance_at_def bpf_program__pin_instance_def Let_def split: if_splits prod.splits)
next
  fix i w w1 w2 v
  assume p: "pin_instance_at os q path i w = (0, w1)" and v: "pinned w2 = v ++ instance_eff q path i"
    and d: "dom v \<inter> dom (instance_eff q path i) = {}"
  let ?b = "join path (decimal i)"
  have "\<not> length ?b \<ge> PATH_MAX" "check_path os (Some ?b) = 0" "\<not> int i \<ge> inst_nr q"
    using p by (auto simp: pin_instance_at_def bpf_program__pin_instance_def Let_def ENAMETOOLONG_def EINVAL_def split: if_splits)
  moreover have "pinned w2 ?b = Some (inst_fds q ! i)" "v ?b = None" "pinned w2 = v(?b \<mapsto> inst_fds q ! i)"
    using v d by (auto simp: instance_eff_def)
  ultimately show "pinned (snd (unpin_instance_at os q path i w2)) = v" "fst (unpin_instance_at os q path i w2) = 0"
    using unlink_present [of w2 ?b "inst_fds q ! i"]
    by (auto simp: unpin_instance_at_def bpf_program__unpin_instance_def Let_def update_none split: prod.split)
qed

end

sublocale pin_fs \<subseteq> map_pins: reversible "pin_map_at os path" "unpin_map_at os path" pinned "map_eff path"
  for path
  by (rule map_pins_laws)

sublocale pin_fs \<subseteq> instance_pins: reversible "pin_instance_at os q path" "unpin_instance_at os q path" pinned "instance_eff q path"
  for q path
  by (rule instance_pins_laws)

context pin_fs
begin

lemma make_dir_keeps: "make_dir os path w = (e, w') \<Longrightarrow> pinned w' = pinned w"
  using mkdir_keeps [of w path] by (auto simp: make_dir_def split: prod.splits)

lemma single_instance:
  assumes "inst_nr q = 1"
  shows "bpf_program__pin os (Some q) b w = (e, w') \<Longrightarrow>
      if e = 0 then check_path os (Some b) = 0 \<and> pinned w b = None \<and> pinned w' = (pinned w)(b \<mapsto> inst_fds q ! 0)
      else pinned w' = pinned w"
    and "\<lbrakk> check_path os (Some b) = 0; pinned w b = Some fd \<rbrakk> \<Longrightarrow>
      pinned (snd (bpf_program__unpin os (Some q) b w)) = (pinned w)(b := None)"
  using assms pin_new [of w "inst_fds q ! 0" b] pin_error [of w "inst_fds q ! 0" b] unlink_present [of w b fd]
  by (auto simp: bpf_program__pin_def bpf_program__pin_instance_def bpf_program__unpin_def bpf_program__unpin_instance_def
      Let_def split: if_splits prod.splits)

text \<open>Several instances: all of them or none, and they can be taken back.\<close>

lemma several_instances:
  assumes "inst_nr q > 1"
  defines "ids \<equiv> [0..<nat (inst_nr q)]"
  shows "bpf_program__pin os (Some q) b w = (e, w') \<Longrightarrow>
      if e = 0 then check_path os (Some b) = 0 \<and> pinned w' = instance_pins.effs q b (pinned w) ids \<and>
        instance_pins.claims q b (pinned w) ids
      else pinned w' = pinned w"
    and "\<lbrakk> check_path os (Some b) = 0; instance_pins.claims q b v ids; pinned w = instance_pins.effs q b v ids \<rbrakk> \<Longrightarrow>
      pinned (snd (bpf_program__unpin os (Some q) b w)) = v"
proof -
  assume p: "bpf_program__pin os (Some q) b w = (e, w')"
  show "if e = 0 then check_path os (Some b) = 0 \<and> pinned w' = instance_pins.effs q b (pinned w) ids \<and>
      instance_pins.claims q b (pinned w) ids
    else pinned w' = pinned w"
  proof (cases "check_path os (Some b) = 0 \<and> fst (make_dir os b w) = 0")
    case False
    then show ?thesis
      using p assms(1) make_dir_keeps [of b w] by (auto simp: bpf_program__pin_def Let_def split: if_splits prod.splits)
  next
    case True
    obtain w1 where m: "make_dir os b w = (0, w1)" using True by (cases "make_dir os b w") auto
    then have v: "pinned w1 = pinned w" by (rule make_dir_keeps)
    obtain e2 w2 where l: "pin_loop (pin_instance_at os q b) (unpin_instance_at os q b) [] ids w1 = (e2, w2)"
      by (cases "pin_loop (pin_instance_at os q b) (unpin_instance_at os q b) [] ids w1")
    have "e = e2" "pinned w' = pinned w2"
      using p assms(1) True m l rmdir_keeps [of w2 b]
      by (auto simp: bpf_program__pin_def Let_def ids_def split: if_splits)
    then show ?thesis
      using instance_pins.pin_loop_all_or_nothing [OF l, of "pinned w1"] v True by auto
  qed
next
  assume c: "check_path os (Some b) = 0" "instance_pins.claims q b v ids" "pinned w = instance_pins.effs q b v ids"
  obtain w1 where "unpin_loop (unpin_instance_at os q b) ids w = (0, w1)" "pinned w1 = v"
    using instance_pins.unpin_loop_restores [OF c(2,3)] by blast
  then show "pinned (snd (bpf_program__unpin os (Some q) b w)) = v"
    using c(1) assms(1) rmdir_keeps [of w1 b] by (auto simp: bpf_program__unpin_def Let_def ids_def split: prod.split)
qed

lemma program_eff_cases:
  assumes "b = join path (pin_name q)"
  shows "inst_nr q = 1 \<Longrightarrow> program_eff path q = [b \<mapsto> inst_fds q ! 0]"
    and "inst_nr q > 1 \<Longrightarrow> program_eff path q = instance_pins.effs q b Map.empty [0..<nat (inst_nr q)]"
  using assms by (simp_all add: program_eff_def Let_def)

lemma program_pin_nr: "pin_program_at os path q w = (0, w') \<Longrightarrow> inst_nr q = 1 \<or> inst_nr q > 1"
  by (auto simp: pin_program_at_def bpf_program__pin_def Let_def ENAMETOOLONG_def EINVAL_def split: if_splits)

lemma program_pins_laws: "rollback (pin_program_at os path) (unpin_program_at os path) pinned (program_eff path)"
proof
  fix q w w'
  assume p: "pin_program_at os path q w = (0, w')"
  let ?b = "join path (pin_name q)"
  have b: "bpf_program__pin os (Some q) ?b w = (0, w')"
    using p by (auto simp: pin_program_at_def Let_def ENAMETOOLONG_def split: if_splits)
  from program_pin_nr [OF p] show "pinned w' = pinned w ++ program_eff path q \<and> dom (pinned w) \<inter> dom (program_eff path q) = {}"
  proof
    assume nr: "inst_nr q = 1"
    then show ?thesis using single_instance(1) [OF nr b] program_eff_cases(1) [OF refl nr] by auto
  next
    assume nr: "inst_nr q > 1"
    then show ?thesis
      using several_instances(1) [OF nr b] program_eff_cases(2) [OF refl nr, of path]
        instance_pins.effs_split [of q ?b "pinned w"] instance_pins.claims_disjoint [of q ?b "pinned w"] by auto
  qed
next
  fix q w e w'
  assume p: "pin_program_at os path q w = (e, w')" "e \<noteq> 0"
  let ?b = "join path (pin_name q)"
  show "pinned w' = pinned w"
  proof (cases "length ?b \<ge> PATH_MAX \<or> inst_nr q < 1")
    case True
    then show ?thesis using p by (auto simp: pin_program_at_def bpf_program__pin_def Let_def split: if_splits)
  next
    case False
    then have "bpf_program__pin os (Some q) ?b w = (e, w')" "inst_nr q = 1 \<or> inst_nr q > 1"
      using p by (auto simp: pin_program_at_def Let_def)
    then show ?thesis using single_instance(1) [of q ?b w e w'] several_instances(1) [of q ?b w e w'] p(2) by auto
  qed
next
  fix q w w1 w2 v
  assume p: "pin_program_at os path q w = (0, w1)" and v: "pinned w2 = v ++ program_eff path q"
    and d: "dom v \<inter> dom (program_eff path q) = {}"
  let ?b = "join path (pin_name q)"
  have b: "bpf_program__pin os (Some q) ?b w = (0, w1)" and len: "\<not> length ?b \<ge> PATH_MAX"
    using p by (auto simp: pin_program_at_def Let_def ENAMETOOLONG_def split: if_splits)
  have u: "unpin_program_at os path q w2 = bpf_program__unpin os (Some q) ?b w2"
    using len by (simp add: unpin_program_at_def)
  from program_pin_nr [OF p] show "pinned (snd (unpin_program_at os path q w2)) = v"
  proof
    assume nr: "inst_nr q = 1"
    have "check_path os (Some ?b) = 0" using single_instance(1) [OF nr b] by simp
    moreover have "v ?b = None" "pinned w2 = v(?b \<mapsto> inst_fds q ! 0)"
      using v d by (auto simp: program_eff_cases(1) [OF refl nr])
    ultimately show ?thesis using single_instance(2) [OF nr, of ?b w2] by (simp add: u fun_upd_idem)
  next
    assume nr: "inst_nr q > 1"
    let ?ids = "[0..<nat (inst_nr q)]"
    have c: "check_path os (Some ?b) = 0" "instance_pins.claims q ?b (pinned w) ?ids"
      using several_instances(1) [OF nr b] by simp_all
    have "instance_pins.claims q ?b v ?ids"
      using instance_pins.claims_transfer [OF c(2)] d by (simp add: program_eff_cases(2) [OF refl nr])
    moreover have "pinned w2 = instance_pins.effs q ?b v ?ids"
      using v instance_pins.effs_split [of q ?b v ?ids] by (simp add: program_eff_cases(2) [OF refl nr])
    ultimately show ?thesis using several_instances(2) [OF nr c(1)] by (simp add: u)
  qed
qed

end

sublocale pin_fs \<subseteq> program_pins: rollback "pin_program_at os path" "unpin_program_at os path" pinned "program_eff path"
  for path
  by (rule program_pins_laws)

context pin_fs
begin

lemma pin_maps_cases:
  assumes "bpf_object__pin_maps os (Some obj) path w = (e, w')"
  shows "if e = 0 then pinned w' = map_pins.effs path (pinned w) (maps obj) \<and> map_pins.claims path (pinned w) (maps obj)
     else pinned w' = pinned w"
proof (cases "loaded obj \<and> fst (make_dir os path w) = 0")
  case False
  then show ?thesis
    using assms make_dir_keeps [of path w] by (auto simp: bpf_object__pin_maps_def ENOENT_def split: if_splits prod.splits)
next
  case True
  obtain w1 where m: "make_dir os path w = (0, w1)" using True by (cases "make_dir os path w") auto
  then have "pin_loop (pin_map_at os path) (unpin_map_at os path) [] (maps obj) w1 = (e, w')"
    using assms True by (simp add: bpf_object__pin_maps_def for_each_map_all)
  from map_pins.pin_loop_all_or_nothing [OF this, of "pinned w1"] make_dir_keeps [OF m] show ?thesis by auto
qed

lemma unpin_maps_restores:
  assumes "map_pins.claims path v (maps obj)" "pinned w = map_pins.effs path v (maps obj)"
  shows "\<exists>w'. bpf_object__unpin_maps os (Some obj) path w = (0, w') \<and> pinned w' = v"
  using map_pins.unpin_loop_restores [OF assms] by (simp add: bpf_object__unpin_maps_def for_each_map_all)

lemma pin_programs_cases:
  assumes "bpf_object__pin_programs os (Some obj) path w = (e, w')"
  shows "pinned w' = (if e = 0 then program_pins.effs path (pinned w) (for_each_program obj) else pinned w)"
proof (cases "loaded obj \<and> fst (make_dir os path w) = 0")
  case False
  then show ?thesis
    using assms make_dir_keeps [of path w] by (auto simp: bpf_object__pin_programs_def ENOENT_def split: if_splits prod.splits)
next
  case True
  obtain w1 where m: "make_dir os path w = (0, w1)" using True by (cases "make_dir os path w") auto
  then have "pin_loop (pin_program_at os path) (unpin_program_at os path) [] (for_each_program obj) w1 = (e, w')"
    using assms True by (simp add: bpf_object__pin_programs_def)
  from program_pins.pin_loop_all_or_nothing [OF this, of "pinned w1"] make_dir_keeps [OF m] show ?thesis by auto
qed

lemma object_pin_cases:
  assumes "bpf_object__pin os (Some obj) path w = (e, w')"
  shows "pinned w' =
     (if e = 0 then program_pins.effs path (map_pins.effs path (pinned w) (maps obj)) (for_each_program obj) else pinned w)"
proof -
  obtain e1 w1 where m: "bpf_object__pin_maps os (Some obj) path w = (e1, w1)" by fastforce
  show ?thesis
  proof (cases "e1 = 0")
    case False
    then show ?thesis using assms m pin_maps_cases [OF m] by (simp add: bpf_object__pin_def)
  next
    case True
    obtain e2 w2 where p: "bpf_object__pin_programs os (Some obj) path w1 = (e2, w2)" by fastforce
    have maps: "pinned w1 = map_pins.effs path (pinned w) (maps obj)" "map_pins.claims path (pinned w) (maps obj)"
      using pin_maps_cases [OF m] True by simp_all
    show ?thesis
    proof (cases "e2 = 0")
      case True
      then show ?thesis using assms m p \<open>e1 = 0\<close> pin_programs_cases [OF p] maps by (simp add: bpf_object__pin_def)
    next
      case False
      then have "pinned w2 = map_pins.effs path (pinned w) (maps obj)" using pin_programs_cases [OF p] maps by simp
      from unpin_maps_restores [OF maps(2) this] show ?thesis
        using assms m p \<open>e1 = 0\<close> False by (auto simp: bpf_object__pin_def)
    qed
  qed
qed

end


text \<open>
  The maps of an object that \<open>bpf_object__pin_maps\<close> pinned are taken back by \<open>bpf_object__unpin_maps\<close>,
  which then succeeds, whatever happened to the rest of the system as long as the pins are the same.
\<close>

theorem unpin_maps_after_pin_maps:
  assumes "pin_fs os pinned" "bpf_object__pin_maps os (Some obj) path w = (0, w1)" "pinned w2 = pinned w1"
  shows "\<exists>w3. bpf_object__unpin_maps os (Some obj) path w2 = (0, w3) \<and> pinned w3 = pinned w"
  using pin_fs.pin_maps_cases [OF assms(1,2)] pin_fs.unpin_maps_restores [OF assms(1)] assms(3) by simp

section \<open>A file system\<close>

text \<open>Paths to objects; everything lies on the BPF file system and \<open>mkdir\<close> and \<open>rmdir\<close> always succeed.
  A path that ends in \<open>full\<close> cannot be created, for the failing case.\<close>

definition EPERM :: int where "EPERM = 1"

definition table_fs :: "(string \<rightharpoonup> int) fs_os" where
  "table_fs = \<lparr> strdup_ok = True, statfs = \<lambda>d. (0, BPF_FS_MAGIC),
     obj_pin = \<lambda>w fd p. if w p \<noteq> None then (EEXIST, w) else if take 4 (rev p) = ''lluf'' then (EPERM, w) else (0, w(p \<mapsto> fd)),
     unlink_path = \<lambda>w p. if w p = None then (ENOENT, w) else (0, w(p := None)),
     mkdir_700 = \<lambda>w p. (0, w), rmdir_path = \<lambda>w p. (0, w) \<rparr>"

interpretation table_pins: pin_fs table_fs "\<lambda>w. w"
  by unfold_locales (auto simp: table_fs_def EPERM_def EEXIST_def split: if_splits)

definition pinned_object :: bpf_object where
  "pinned_object = sample_object\<lparr>loaded := True, programs := [sample_program\<lparr>inst_nr := 1, inst_fds := [7]\<rparr>],
     maps := [connections_map\<lparr>map_fd := 5\<rparr>]\<rparr>"

definition failing_object :: bpf_object where
  "failing_object = pinned_object\<lparr>programs := [sample_program\<lparr>inst_nr := 1, inst_fds := [7], pin_name := ''full''\<rparr>]\<rparr>"


theorem unpin_maps_after_pin_maps_witness:
  "\<exists>w1 w3. bpf_object__pin_maps table_fs (Some pinned_object) ''/sys/fs/bpf/eth0'' Map.empty = (0, w1) \<and>
     bpf_object__unpin_maps table_fs (Some pinned_object) ''/sys/fs/bpf/eth0'' w1 = (0, w3) \<and> w3 = Map.empty"
proof -
  let ?p = "bpf_object__pin_maps table_fs (Some pinned_object) ''/sys/fs/bpf/eth0'' Map.empty"
  have "fst ?p = 0" by code_simp
  then obtain w1 where p: "?p = (0, w1)" by (cases ?p) auto
  then show ?thesis using unpin_maps_after_pin_maps [OF table_pins.pin_fs_axioms p refl] by auto
qed

end
