(* ===== verification/Bpf_Sys.thy ===== *)
theory Bpf_Sys
  imports Bpf_Object
begin

text \<open>
  The wrappers of \<open>src/libbpf/src/bpf.c\<close> around the \<open>bpf\<close> system call, as far as loading an object and using its
  maps needs them. The argument of the call is a union: a record holds the members that the commands of
  one group use, the others being zero. The kernel is the parameter \<open>bpf_os\<close>; a call may change its state, and
  \<open>sys_errno\<close> reads the error number it left. Pointers to data are the data; what the kernel stores in
  a buffer is part of its answer. \<open>sys_malloc\<close> says whether an allocation of some size succeeds and \<open>host_bo\<close> is
  the byte order.

  Loading a program is tried again while the error is \<open>EAGAIN\<close>. This loop need not end; a call that never
  returns is the outcome \<open>Blocked\<close>.
\<close>

section \<open>The system call\<close>

definition EAGAIN :: int where "EAGAIN = 11"
definition BPF_OBJ_NAME_LEN :: nat where "BPF_OBJ_NAME_LEN = 16"
definition BPF_F_NUMA_NODE :: u32 where "BPF_F_NUMA_NODE = 4"

record map_create_attr =
  mc_map_type :: u32
  mc_key_size :: u32
  mc_value_size :: u32
  mc_max_entries :: u32
  mc_map_flags :: u32
  mc_map_name :: string
  mc_numa_node :: u32
  mc_btf_fd :: u32
  mc_btf_key_type_id :: u32
  mc_btf_value_type_id :: u32
  mc_map_ifindex :: u32
  mc_inner_map_fd :: u32

record prog_load_attr =
  pl_prog_type :: bpf_prog_type
  pl_expected_attach_type :: bpf_attach_type
  pl_insns :: "bpf_insn list"
  pl_license :: string
  pl_log_level :: u32
  pl_log_size :: nat
  pl_kern_version :: u32
  pl_prog_flags :: u32
  pl_prog_ifindex :: u32
  pl_prog_btf_fd :: u32
  pl_func_info :: "bytes option"
  pl_func_info_rec_size :: u32
  pl_func_info_cnt :: u32
  pl_line_info :: "bytes option"
  pl_line_info_rec_size :: u32
  pl_line_info_cnt :: u32
  pl_prog_name :: string

text \<open>What loading gives: the descriptor, the record sizes the kernel leaves in the argument and, if there is a log
  buffer, the text in it.\<close>

record load_answer =
  la_fd :: int
  la_func_info_rec_size :: u32
  la_line_info_rec_size :: u32
  la_log :: string

record elem_attr =
  ea_map_fd :: int
  ea_key :: bytes
  ea_value :: bytes
  ea_flags :: u64

datatype elem_cmd = UPDATE_ELEM | LOOKUP_ELEM | LOOKUP_AND_DELETE_ELEM | DELETE_ELEM | GET_NEXT_KEY

record attach_attr =
  aa_target_fd :: int
  aa_attach_bpf_fd :: int
  aa_attach_type :: bpf_attach_type
  aa_attach_flags :: u32

record 'w bpf_os =
  host_bo :: byte_order
  sys_errno :: "'w \<Rightarrow> int"
  sys_malloc :: "'w \<Rightarrow> nat \<Rightarrow> bool"
  sys_map_create :: "'w \<Rightarrow> map_create_attr \<Rightarrow> int \<times> 'w"
  sys_prog_load :: "'w \<Rightarrow> prog_load_attr \<Rightarrow> load_answer \<times> 'w"
  sys_btf_load :: "'w \<Rightarrow> bytes \<Rightarrow> bool \<Rightarrow> int \<times> 'w"
  sys_elem :: "'w \<Rightarrow> elem_cmd \<Rightarrow> elem_attr \<Rightarrow> (int \<times> bytes) \<times> 'w"
  sys_attach :: "'w \<Rightarrow> bool \<Rightarrow> attach_attr \<Rightarrow> int \<times> 'w"
  sys_close :: "'w \<Rightarrow> int \<Rightarrow> int \<times> 'w"

definition get_errno :: "'w bpf_os \<Rightarrow> ('w, int) prog" where
  "get_errno os = (\<lambda>w. (Return (sys_errno os w), w))"

definition malloc :: "'w bpf_os \<Rightarrow> nat \<Rightarrow> ('w, bool) prog" where
  "malloc os n = (\<lambda>w. (Return (sys_malloc os w n), w))"

definition close_fd :: "'w bpf_os \<Rightarrow> int \<Rightarrow> ('w, int) prog" where
  "close_fd os fd = call (\<lambda>w. sys_close os w fd)"

lemma wlp_malloc [simp]: "wlp (malloc os n) Q w \<longleftrightarrow> Q (sys_malloc os w n) w"
  by (simp add: malloc_def wlp_def)

lemma wlp_errno [simp]: "wlp (get_errno os) Q w \<longleftrightarrow> Q (sys_errno os w) w"
  by (simp add: get_errno_def wlp_def)

lemma errno_spec: "wlp (get_errno os) (\<lambda>_ w'. w' = w) w"
  by simp

lemma malloc_spec: "wlp (malloc os n) (\<lambda>_ w'. w' = w) w"
  by simp

text \<open>The first characters of a name, as many as fit with a terminator.\<close>

definition obj_name :: "string option \<Rightarrow> string" where
  "obj_name name = (case name of None \<Rightarrow> [] | Some s \<Rightarrow> take (BPF_OBJ_NAME_LEN - 1) s)"

section \<open>Maps\<close>

record bpf_create_map_attr =
  cm_name :: "string option"
  cm_map_type :: u32
  cm_map_flags :: u32
  cm_key_size :: u32
  cm_value_size :: u32
  cm_max_entries :: u32
  cm_numa_node :: u32
  cm_btf_fd :: u32
  cm_btf_key_type_id :: u32
  cm_btf_value_type_id :: u32
  cm_map_ifindex :: u32
  cm_inner_map_fd :: u32

definition zero_create_attr :: bpf_create_map_attr where
  "zero_create_attr = \<lparr> cm_name = None, cm_map_type = 0, cm_map_flags = 0, cm_key_size = 0, cm_value_size = 0,
     cm_max_entries = 0, cm_numa_node = 0, cm_btf_fd = 0, cm_btf_key_type_id = 0, cm_btf_value_type_id = 0,
     cm_map_ifindex = 0, cm_inner_map_fd = 0 \<rparr>"

text \<open>The result is the descriptor, or a negative number.\<close>

definition bpf_create_map_xattr :: "'w bpf_os \<Rightarrow> bpf_create_map_attr \<Rightarrow> 'w \<Rightarrow> int \<times> 'w" where
  "bpf_create_map_xattr os a w =
     sys_map_create os w \<lparr> mc_map_type = cm_map_type a, mc_key_size = cm_key_size a, mc_value_size = cm_value_size a,
       mc_max_entries = cm_max_entries a, mc_map_flags = cm_map_flags a, mc_map_name = obj_name (cm_name a),
       mc_numa_node = cm_numa_node a, mc_btf_fd = cm_btf_fd a, mc_btf_key_type_id = cm_btf_key_type_id a,
       mc_btf_value_type_id = cm_btf_value_type_id a, mc_map_ifindex = cm_map_ifindex a,
       mc_inner_map_fd = cm_inner_map_fd a \<rparr>"

definition bpf_create_map_node ::
  "'w bpf_os \<Rightarrow> u32 \<Rightarrow> string option \<Rightarrow> u32 \<Rightarrow> u32 \<Rightarrow> u32 \<Rightarrow> u32 \<Rightarrow> int \<Rightarrow> 'w \<Rightarrow> int \<times> 'w" where
  "bpf_create_map_node os map_type name key_size value_size max_entries flags node =
     (let a = zero_create_attr\<lparr>cm_name := name, cm_map_type := map_type, cm_map_flags := flags, cm_key_size := key_size,
                cm_value_size := value_size, cm_max_entries := max_entries\<rparr>;
          a = (if node \<ge> 0 then a\<lparr>cm_numa_node := of_int node, cm_map_flags := flags OR BPF_F_NUMA_NODE\<rparr> else a)
      in bpf_create_map_xattr os a)"

definition bpf_create_map :: "'w bpf_os \<Rightarrow> u32 \<Rightarrow> u32 \<Rightarrow> u32 \<Rightarrow> u32 \<Rightarrow> u32 \<Rightarrow> 'w \<Rightarrow> int \<times> 'w" where
  "bpf_create_map os map_type key_size value_size max_entries flags =
     bpf_create_map_xattr os (zero_create_attr\<lparr>cm_map_type := map_type, cm_map_flags := flags, cm_key_size := key_size,
       cm_value_size := value_size, cm_max_entries := max_entries\<rparr>)"

definition bpf_create_map_name ::
  "'w bpf_os \<Rightarrow> u32 \<Rightarrow> string option \<Rightarrow> u32 \<Rightarrow> u32 \<Rightarrow> u32 \<Rightarrow> u32 \<Rightarrow> 'w \<Rightarrow> int \<times> 'w" where
  "bpf_create_map_name os map_type name key_size value_size max_entries flags =
     bpf_create_map_xattr os (zero_create_attr\<lparr>cm_name := name, cm_map_type := map_type, cm_map_flags := flags,
       cm_key_size := key_size, cm_value_size := value_size, cm_max_entries := max_entries\<rparr>)"

definition bpf_create_map_in_map_node ::
  "'w bpf_os \<Rightarrow> u32 \<Rightarrow> string option \<Rightarrow> u32 \<Rightarrow> u32 \<Rightarrow> u32 \<Rightarrow> u32 \<Rightarrow> int \<Rightarrow> 'w \<Rightarrow> int \<times> 'w" where
  "bpf_create_map_in_map_node os map_type name key_size inner_fd max_entries flags node w =
     (let a = \<lparr> mc_map_type = map_type, mc_key_size = key_size, mc_value_size = 4, mc_max_entries = max_entries,
                mc_map_flags = flags, mc_map_name = obj_name name, mc_numa_node = 0, mc_btf_fd = 0, mc_btf_key_type_id = 0,
                mc_btf_value_type_id = 0, mc_map_ifindex = 0, mc_inner_map_fd = inner_fd \<rparr>;
          a = (if node \<ge> 0 then a\<lparr>mc_map_flags := flags OR BPF_F_NUMA_NODE, mc_numa_node := of_int node\<rparr> else a)
      in sys_map_create os w a)"

definition bpf_create_map_in_map ::
  "'w bpf_os \<Rightarrow> u32 \<Rightarrow> string option \<Rightarrow> u32 \<Rightarrow> u32 \<Rightarrow> u32 \<Rightarrow> u32 \<Rightarrow> 'w \<Rightarrow> int \<times> 'w" where
  "bpf_create_map_in_map os map_type name key_size inner_fd max_entries flags =
     bpf_create_map_in_map_node os map_type name key_size inner_fd max_entries flags (-1)"

definition bpf_map_update_elem :: "'w bpf_os \<Rightarrow> int \<Rightarrow> bytes \<Rightarrow> bytes \<Rightarrow> u64 \<Rightarrow> 'w \<Rightarrow> int \<times> 'w" where
  "bpf_map_update_elem os fd key value flags w =
     (case sys_elem os w UPDATE_ELEM \<lparr> ea_map_fd = fd, ea_key = key, ea_value = value, ea_flags = flags \<rparr> of
        ((r, _), w) \<Rightarrow> (r, w))"

definition bpf_map_lookup_elem :: "'w bpf_os \<Rightarrow> int \<Rightarrow> bytes \<Rightarrow> 'w \<Rightarrow> (int \<times> bytes) \<times> 'w" where
  "bpf_map_lookup_elem os fd key w =
     sys_elem os w LOOKUP_ELEM \<lparr> ea_map_fd = fd, ea_key = key, ea_value = [], ea_flags = 0 \<rparr>"

definition bpf_map_lookup_elem_flags :: "'w bpf_os \<Rightarrow> int \<Rightarrow> bytes \<Rightarrow> u64 \<Rightarrow> 'w \<Rightarrow> (int \<times> bytes) \<times> 'w" where
  "bpf_map_lookup_elem_flags os fd key flags w =
     sys_elem os w LOOKUP_ELEM \<lparr> ea_map_fd = fd, ea_key = key, ea_value = [], ea_flags = flags \<rparr>"

definition bpf_map_lookup_and_delete_elem :: "'w bpf_os \<Rightarrow> int \<Rightarrow> bytes \<Rightarrow> 'w \<Rightarrow> (int \<times> bytes) \<times> 'w" where
  "bpf_map_lookup_and_delete_elem os fd key w =
     sys_elem os w LOOKUP_AND_DELETE_ELEM \<lparr> ea_map_fd = fd, ea_key = key, ea_value = [], ea_flags = 0 \<rparr>"

definition bpf_map_delete_elem :: "'w bpf_os \<Rightarrow> int \<Rightarrow> bytes \<Rightarrow> 'w \<Rightarrow> int \<times> 'w" where
  "bpf_map_delete_elem os fd key w =
     (case sys_elem os w DELETE_ELEM \<lparr> ea_map_fd = fd, ea_key = key, ea_value = [], ea_flags = 0 \<rparr> of ((r, _), w) \<Rightarrow> (r, w))"

definition bpf_map_get_next_key :: "'w bpf_os \<Rightarrow> int \<Rightarrow> bytes \<Rightarrow> 'w \<Rightarrow> (int \<times> bytes) \<times> 'w" where
  "bpf_map_get_next_key os fd key w =
     sys_elem os w GET_NEXT_KEY \<lparr> ea_map_fd = fd, ea_key = key, ea_value = [], ea_flags = 0 \<rparr>"

definition bpf_prog_attach :: "'w bpf_os \<Rightarrow> int \<Rightarrow> int \<Rightarrow> bpf_attach_type \<Rightarrow> u32 \<Rightarrow> 'w \<Rightarrow> int \<times> 'w" where
  "bpf_prog_attach os prog_fd target_fd t flags w =
     sys_attach os w True \<lparr> aa_target_fd = target_fd, aa_attach_bpf_fd = prog_fd, aa_attach_type = t, aa_attach_flags = flags \<rparr>"

definition bpf_prog_detach :: "'w bpf_os \<Rightarrow> int \<Rightarrow> bpf_attach_type \<Rightarrow> 'w \<Rightarrow> int \<times> 'w" where
  "bpf_prog_detach os target_fd t w =
     sys_attach os w False \<lparr> aa_target_fd = target_fd, aa_attach_bpf_fd = 0, aa_attach_type = t, aa_attach_flags = 0 \<rparr>"

definition bpf_prog_detach2 :: "'w bpf_os \<Rightarrow> int \<Rightarrow> int \<Rightarrow> bpf_attach_type \<Rightarrow> 'w \<Rightarrow> int \<times> 'w" where
  "bpf_prog_detach2 os prog_fd target_fd t w =
     sys_attach os w False \<lparr> aa_target_fd = target_fd, aa_attach_bpf_fd = prog_fd, aa_attach_type = t, aa_attach_flags = 0 \<rparr>"

section \<open>Programs\<close>

text \<open>The answer and the argument as the kernel leaves it; \<open>None\<close> when the loop does not end.\<close>

partial_function (option) prog_load_loop :: "'w bpf_os \<Rightarrow> prog_load_attr \<Rightarrow> 'w \<Rightarrow> ((load_answer \<times> prog_load_attr) \<times> 'w) option" where
  "prog_load_loop os attr w =
     (case sys_prog_load os w attr of (ans, w) \<Rightarrow>
      let attr = attr\<lparr>pl_func_info_rec_size := la_func_info_rec_size ans, pl_line_info_rec_size := la_line_info_rec_size ans\<rparr> in
      if la_fd ans < 0 \<and> sys_errno os w = EAGAIN then prog_load_loop os attr w else Some ((ans, attr), w))"

definition sys_bpf_prog_load :: "'w bpf_os \<Rightarrow> prog_load_attr \<Rightarrow> ('w, load_answer \<times> prog_load_attr) prog" where
  "sys_bpf_prog_load os attr = (\<lambda>w. case prog_load_loop os attr w of None \<Rightarrow> (Blocked, w) | Some (r, w) \<Rightarrow> (Return r, w))"

record bpf_load_program_attr =
  lp_prog_type :: bpf_prog_type
  lp_expected_attach_type :: bpf_attach_type
  lp_name :: "string option"
  lp_insns :: "bpf_insn list"
  lp_license :: string
  lp_kern_version :: u32
  lp_prog_ifindex :: u32
  lp_prog_btf_fd :: u32
  lp_func_info :: "bytes option"
  lp_func_info_rec_size :: u32
  lp_func_info_cnt :: u32
  lp_line_info :: "bytes option"
  lp_line_info_rec_size :: u32
  lp_line_info_cnt :: u32
  lp_log_level :: u32

definition zero_load_attr :: bpf_load_program_attr where
  "zero_load_attr = \<lparr> lp_prog_type = BPF_PROG_TYPE_UNSPEC, lp_expected_attach_type = no_attach_type, lp_name = None,
     lp_insns = [], lp_license = [], lp_kern_version = 0, lp_prog_ifindex = 0, lp_prog_btf_fd = 0,
     lp_func_info = None, lp_func_info_rec_size = 0, lp_func_info_cnt = 0,
     lp_line_info = None, lp_line_info_rec_size = 0, lp_line_info_cnt = 0, lp_log_level = 0 \<rparr>"

text \<open>The records with the bytes behind the first \<open>expected\<close> ones of each set to zero; \<open>None\<close> outside of the records.\<close>

fun zero_tails :: "nat \<Rightarrow> nat \<Rightarrow> nat \<Rightarrow> bytes \<Rightarrow> bytes option" where
  "zero_tails actual expected 0 d = Some []"
| "zero_tails actual expected (Suc n) d =
     do { r \<leftarrow> read_bytes expected d 0;
          rest \<leftarrow> zero_tails actual expected n (drop actual d);
          Some (r @ replicate (actual - expected) 0 @ rest) }"

text \<open>The length of the new array is computed with 32 bits; records that do not fit into it are a fault. The result is
  \<open>None\<close> when there is no memory.\<close>

definition alloc_zero_tailing_info :: "'w bpf_os \<Rightarrow> bytes option \<Rightarrow> u32 \<Rightarrow> u32 \<Rightarrow> u32 \<Rightarrow> ('w, bytes option) prog" where
  "alloc_zero_tailing_info os orecord cnt actual_rec_size expected_rec_size =
     andthen (malloc os (unat (actual_rec_size * cnt))) (\<lambda>ok.
     if \<not> ok then ret None
     else if unat actual_rec_size * unat cnt > unat (actual_rec_size * cnt) then fault
     else andthen (from_option (case orecord of
         None \<Rightarrow> if cnt = 0 then Some [] else None
       | Some d \<Rightarrow> zero_tails (unat actual_rec_size) (unat expected_rec_size) (unat cnt) d)) (\<lambda>info. ret (Some info)))"

text \<open>The attempts with corrected records. \<open>finfo\<close> and \<open>linfo\<close> say whether the pointers are set; the result is whether
  the function is left by \<open>goto done\<close>, the descriptor and the argument.\<close>

function load_corrected ::
  "'w bpf_os \<Rightarrow> bpf_load_program_attr \<Rightarrow> bool \<Rightarrow> bool \<Rightarrow> load_answer \<Rightarrow> prog_load_attr \<Rightarrow> ('w, bool \<times> load_answer \<times> prog_load_attr) prog" where
  "load_corrected os la finfo linfo ans attr =
     andthen (get_errno os) (\<lambda>errno.
     if errno = E2BIG \<and> (\<not> finfo \<or> \<not> linfo)
     then if \<not> finfo \<and> pl_func_info_cnt attr \<noteq> 0 \<and> pl_func_info_rec_size attr < lp_func_info_rec_size la
          then andthen (alloc_zero_tailing_info os (lp_func_info la) (lp_func_info_cnt la)
                          (lp_func_info_rec_size la) (pl_func_info_rec_size attr)) (\<lambda>info.
            if info = None then ret (True, ans, attr)
            else andthen (sys_bpf_prog_load os (attr\<lparr>pl_func_info := info, pl_func_info_rec_size := lp_func_info_rec_size la\<rparr>)) (\<lambda>(ans, attr).
            if la_fd ans \<ge> 0 then ret (True, ans, attr) else load_corrected os la True linfo ans attr))
          else if \<not> linfo \<and> pl_line_info_cnt attr \<noteq> 0 \<and> pl_line_info_rec_size attr < lp_line_info_rec_size la
          then andthen (alloc_zero_tailing_info os (lp_line_info la) (lp_line_info_cnt la)
                          (lp_line_info_rec_size la) (pl_line_info_rec_size attr)) (\<lambda>info.
            if info = None then ret (True, ans, attr)
            else andthen (sys_bpf_prog_load os (attr\<lparr>pl_line_info := info, pl_line_info_rec_size := lp_line_info_rec_size la\<rparr>)) (\<lambda>(ans, attr).
            if la_fd ans \<ge> 0 then ret (True, ans, attr) else load_corrected os la finfo True ans attr))
          else ret (False, ans, attr)
     else ret (False, ans, attr))"
  by pat_completeness auto

termination load_corrected
  by (relation "measure (\<lambda>(os, la, f, l, ans, attr). (if f then 0 else 1) + (if l then 0 else 1 :: nat))") auto

declare load_corrected.simps [simp del]

text \<open>\<open>bpf_load_program_xattr\<close>. The caller's buffer is given by \<open>log_buf\<close>, whether it is no null pointer, and its size. The
  result is the descriptor or a negative number, and the text in the buffer, \<open>None\<close> as long as nothing has been stored in it.\<close>

definition load_attr_of :: "bpf_load_program_attr \<Rightarrow> nat \<Rightarrow> prog_load_attr" where
  "load_attr_of la log_buf_sz =
     \<lparr> pl_prog_type = lp_prog_type la, pl_expected_attach_type = lp_expected_attach_type la, pl_insns = lp_insns la,
       pl_license = lp_license la, pl_log_level = lp_log_level la,
       pl_log_size = (if lp_log_level la \<noteq> 0 then log_buf_sz else 0),
       pl_kern_version = lp_kern_version la, pl_prog_flags = 0, pl_prog_ifindex = lp_prog_ifindex la,
       pl_prog_btf_fd = lp_prog_btf_fd la, pl_func_info = lp_func_info la, pl_func_info_rec_size = lp_func_info_rec_size la,
       pl_func_info_cnt = lp_func_info_cnt la, pl_line_info = lp_line_info la, pl_line_info_rec_size = lp_line_info_rec_size la,
       pl_line_info_cnt = lp_line_info_cnt la, pl_prog_name = obj_name (lp_name la) \<rparr>"

definition log_of :: "bpf_load_program_attr \<Rightarrow> load_answer \<Rightarrow> string option" where
  "log_of la ans = (if lp_log_level la \<noteq> 0 then Some (la_log ans) else None)"

definition bpf_load_program_xattr ::
  "'w bpf_os \<Rightarrow> bpf_load_program_attr option \<Rightarrow> bool \<Rightarrow> nat \<Rightarrow> ('w, int \<times> string option) prog" where
  "bpf_load_program_xattr os load_attr log_buf log_buf_sz =
     (case load_attr of
        None \<Rightarrow> ret (- EINVAL, None)
      | Some la \<Rightarrow>
        if (\<not> log_buf) \<noteq> (log_buf_sz = 0) then ret (- EINVAL, None)
        else if lp_log_level la > 2 \<or> lp_log_level la \<noteq> 0 \<and> \<not> log_buf then ret (- EINVAL, None)
        else
        andthen (sys_bpf_prog_load os (load_attr_of la log_buf_sz)) (\<lambda>(ans, attr).
        if la_fd ans \<ge> 0 then ret (la_fd ans, log_of la ans)
        else andthen (load_corrected os la False False ans attr) (\<lambda>(left_loop, ans, attr).
        if left_loop \<or> lp_log_level la \<noteq> 0 \<or> \<not> log_buf then ret (la_fd ans, log_of la ans)
        else andthen (sys_bpf_prog_load os (attr\<lparr>pl_log_size := log_buf_sz, pl_log_level := 1\<rparr>)) (\<lambda>(ans, attr).
        ret (la_fd ans, Some (la_log ans))))))"

definition bpf_load_program ::
  "'w bpf_os \<Rightarrow> bpf_prog_type \<Rightarrow> bpf_insn list \<Rightarrow> string \<Rightarrow> u32 \<Rightarrow> bool \<Rightarrow> nat \<Rightarrow> ('w, int \<times> string option) prog" where
  "bpf_load_program os t instrs lic kver =
     bpf_load_program_xattr os (Some (zero_load_attr\<lparr>lp_prog_type := t, lp_insns := instrs, lp_license := lic, lp_kern_version := kver\<rparr>))"

text \<open>\<open>bpf_verify_program\<close> stores a terminator in the buffer without looking at the pointer.\<close>

definition bpf_verify_program ::
  "'w bpf_os \<Rightarrow> bpf_prog_type \<Rightarrow> bpf_insn list \<Rightarrow> u32 \<Rightarrow> string \<Rightarrow> u32 \<Rightarrow> bool \<Rightarrow> nat \<Rightarrow> u32 \<Rightarrow> ('w, int \<times> string) prog" where
  "bpf_verify_program os t instrs prog_flags lic kver log_buf log_buf_sz log_level =
     (if \<not> log_buf then fault
      else andthen (sys_bpf_prog_load os ((load_attr_of (zero_load_attr\<lparr>lp_prog_type := t, lp_insns := instrs, lp_license := lic,
             lp_kern_version := kver, lp_log_level := log_level\<rparr>) log_buf_sz)\<lparr>pl_prog_flags := prog_flags, pl_log_size := log_buf_sz\<rparr>))
        (\<lambda>(ans, attr). ret (la_fd ans, la_log ans)))"

section \<open>Type information\<close>

text \<open>The buffer for the log is given by its size, 0 for none; its content is only printed. At most two attempts are made.\<close>

definition bpf_load_btf :: "'w bpf_os \<Rightarrow> bytes \<Rightarrow> nat \<Rightarrow> bool \<Rightarrow> ('w, int) prog" where
  "bpf_load_btf os d log_buf_size do_log =
     andthen (call (\<lambda>w. sys_btf_load os w d (do_log \<and> log_buf_size \<noteq> 0))) (\<lambda>fd.
     if fd = -1 \<and> \<not> do_log \<and> log_buf_size \<noteq> 0 then call (\<lambda>w. sys_btf_load os w d True) else ret fd)"

definition BPF_LOG_BUF_SIZE :: nat where "BPF_LOG_BUF_SIZE = 256 * 1024"

definition btf__load :: "'w bpf_os \<Rightarrow> btf \<Rightarrow> ('w, int \<times> btf) prog" where
  "btf__load os b =
     (if btf_fd b \<ge> 0 then ret (- EEXIST, b)
      else andthen (malloc os BPF_LOG_BUF_SIZE) (\<lambda>ok.
      if \<not> ok then ret (- ENOMEM, b)
      else andthen (bpf_load_btf os (btf_data b) BPF_LOG_BUF_SIZE False) (\<lambda>fd.
      let b = b\<lparr>btf_fd := fd\<rparr> in
      if fd < 0 then andthen (get_errno os) (\<lambda>errno. ret (- errno, b)) else ret (0, b))))"

end
