(* ===== verification/Obj_Load.thy ===== *)
theory Obj_Load
  imports Bpf_Sys
begin

text \<open>
  The stages of \<open>bpf_object__load\<close> in \<open>src/libbpf/src/libbpf.c\<close>: probing the kernel, creating the maps, patching the
  instructions and loading the programs; and giving the descriptors back.

  The functions run in the monad of \<open>Process\<close>: they call the kernel through \<open>bpf_os\<close>, may find that it never
  answers, and an access outside of an array is a fault. An object or program that a function changes is part of
  its result. Messages are not represented.
\<close>

section \<open>What the kernel can do\<close>

definition probe_insns :: "bpf_insn list" where
  "probe_insns =
     [\<lparr> code = 0xb7, dst_reg = 0, src_reg = 0, insn_off = 0, imm = 0 \<rparr>,
      \<lparr> code = 0x95, dst_reg = 0, src_reg = 0, insn_off = 0, imm = 0 \<rparr>]"

definition bpf_object__probe_name :: "'w bpf_os \<Rightarrow> bpf_object \<Rightarrow> ('w, int \<times> bpf_object) prog" where
  "bpf_object__probe_name os obj =
     (let attr = zero_load_attr\<lparr>lp_prog_type := BPF_PROG_TYPE_SOCKET_FILTER, lp_insns := probe_insns, lp_license := ''GPL''\<rparr> in
      andthen (bpf_load_program_xattr os (Some attr) False 0) (\<lambda>(r, _).
      if r < 0 then andthen (get_errno os) (\<lambda>errno. ret (- errno, obj))
      else andthen (close_fd os r) (\<lambda>_.
      andthen (bpf_load_program_xattr os (Some (attr\<lparr>lp_name := Some ''test''\<rparr>)) False 0) (\<lambda>(r, _).
      if r \<ge> 0 then andthen (close_fd os r) (\<lambda>_. ret (0, obj\<lparr>caps_name := True\<rparr>))
      else ret (0, obj)))))"

definition bpf_object__probe_caps :: "'w bpf_os \<Rightarrow> bpf_object \<Rightarrow> ('w, int \<times> bpf_object) prog" where
  "bpf_object__probe_caps os obj = bpf_object__probe_name os obj"

section \<open>Maps\<close>

definition bpf_map_find_btf_info :: "byte_order \<Rightarrow> bpf_map \<Rightarrow> btf \<Rightarrow> (int \<times> bpf_map) option" where
  "bpf_map_find_btf_info bo m b =
     do { r \<leftarrow> btf__get_map_kv_tids bo b (map_name m) (def_key_size (map_def m)) (def_value_size (map_def m));
          Some (case r of
             Inl e \<Rightarrow> (e, m)
           | Inr (key_type_id, value_type_id) \<Rightarrow>
               (0, m\<lparr>btf_key_type_id := key_type_id, btf_value_type_id := value_type_id\<rparr>)) }"

text \<open>The macro \<open>zclose\<close>: the result of \<open>close\<close> when the descriptor was open. The variable becomes -1, which is for
  the caller to do.\<close>

definition zclose :: "'w bpf_os \<Rightarrow> int \<Rightarrow> ('w, int) prog" where
  "zclose os fd = (if fd \<ge> 0 then close_fd os fd else ret 0)"

fun close_all :: "'w bpf_os \<Rightarrow> int list \<Rightarrow> ('w, unit) prog" where
  "close_all os [] = ret ()"
| "close_all os (fd # fds) = andthen (zclose os fd) (\<lambda>_. close_all os fds)"

definition close_maps :: "bpf_map list \<Rightarrow> bpf_map list" where
  "close_maps = map (\<lambda>m. m\<lparr>map_fd := -1\<rparr>)"

text \<open>One turn of the loop for a map without a descriptor: \<open>create_attr\<close> and the map with its new descriptor.
  \<open>create_attr\<close> lives through the loop, so what a turn does not set is from an earlier turn.\<close>

definition set_create_attr :: "bpf_object \<Rightarrow> bpf_map \<Rightarrow> bpf_create_map_attr \<Rightarrow> bpf_create_map_attr" where
  "set_create_attr obj m a =
     (let d = map_def m;
          a = (if caps_name obj then a\<lparr>cm_name := Some (map_name m)\<rparr> else a);
          a = a\<lparr>cm_map_ifindex := of_int (map_ifindex m), cm_map_type := def_type d, cm_map_flags := def_map_flags d,
                cm_key_size := def_key_size d, cm_value_size := def_value_size d, cm_max_entries := def_max_entries d,
                cm_btf_fd := 0, cm_btf_key_type_id := 0, cm_btf_value_type_id := 0\<rparr>
      in if bpf_map_type__is_map_in_map (def_type d) \<and> inner_map_fd m \<ge> 0 then a\<lparr>cm_inner_map_fd := of_int (inner_map_fd m)\<rparr> else a)"

definition create_map ::
  "'w bpf_os \<Rightarrow> bpf_object \<Rightarrow> bpf_create_map_attr \<Rightarrow> bpf_map \<Rightarrow> ('w, bpf_create_map_attr \<times> bpf_map) prog" where
  "create_map os obj create_attr m =
     (let a = set_create_attr obj m create_attr in
      andthen (case obj_btf obj of
          None \<Rightarrow> ret (a, m)
        | Some b \<Rightarrow> andthen (from_option (bpf_map_find_btf_info (host_bo os) m b)) (\<lambda>(r, m).
            ret (if r = 0 then a\<lparr>cm_btf_fd := of_int (btf_fd b), cm_btf_key_type_id := btf_key_type_id m,
                                cm_btf_value_type_id := btf_value_type_id m\<rparr> else a, m))) (\<lambda>(a, m).
      andthen (call (bpf_create_map_xattr os a)) (\<lambda>fd.
      if fd < 0 \<and> cm_btf_key_type_id a \<noteq> 0
      then let a = a\<lparr>cm_btf_fd := 0, cm_btf_key_type_id := 0, cm_btf_value_type_id := 0\<rparr> in
           andthen (call (bpf_create_map_xattr os a)) (\<lambda>fd.
           ret (a, m\<lparr>btf_key_type_id := 0, btf_value_type_id := 0, map_fd := fd\<rparr>))
      else ret (a, m\<lparr>map_fd := fd\<rparr>))))"

text \<open>The loop; \<open>earlier\<close> are the maps it has gone through. When one cannot be created, those are closed.\<close>

fun create_maps_loop ::
  "'w bpf_os \<Rightarrow> bpf_object \<Rightarrow> bpf_create_map_attr \<Rightarrow> bpf_map list \<Rightarrow> bpf_map list \<Rightarrow> ('w, int \<times> bpf_map list) prog" where
  "create_maps_loop os obj a earlier [] = ret (0, earlier)"
| "create_maps_loop os obj a earlier (m # ms) =
     (if map_fd m \<ge> 0 then create_maps_loop os obj a (earlier @ [m]) ms
      else andthen (create_map os obj a m) (\<lambda>(a, m).
           if map_fd m < 0
           then andthen (close_all os (map map_fd earlier)) (\<lambda>_. ret (map_fd m, close_maps earlier @ m # ms))
           else create_maps_loop os obj a (earlier @ [m]) ms))"

definition bpf_object__create_maps :: "'w bpf_os \<Rightarrow> bpf_object \<Rightarrow> ('w, int \<times> bpf_object) prog" where
  "bpf_object__create_maps os obj =
     andthen (create_maps_loop os obj zero_create_attr [] (maps obj)) (\<lambda>(err, ms). ret (err, obj\<lparr>maps := ms\<rparr>))"

section \<open>Patching the instructions\<close>

definition check_btf_ext_reloc_err :: "int \<Rightarrow> bool \<Rightarrow> int" where
  "check_btf_ext_reloc_err err has_info = (if err \<noteq> - ENOENT then err else if has_info then err else 0)"

text \<open>Without \<open>obj->btf\<close> the search for the section goes through a null pointer; \<open>bpf_object__elf_collect\<close> sets \<open>btf_ext\<close>
  only beside it.\<close>

definition records :: "bytes option \<Rightarrow> bytes" where
  "records d = (case d of None \<Rightarrow> [] | Some d \<Rightarrow> d)"

definition memory :: "'w bpf_os \<Rightarrow> ('w, nat \<Rightarrow> bool) prog" where
  "memory os = (\<lambda>w. (Return (sys_malloc os w), w))"

definition bpf_program_reloc_btf_ext ::
  "'w bpf_os \<Rightarrow> bpf_program \<Rightarrow> bpf_object \<Rightarrow> btf_ext \<Rightarrow> string \<Rightarrow> u32 \<Rightarrow> ('w, int \<times> bpf_program) prog" where
  "bpf_program_reloc_btf_ext os prog obj ext sname insn_offset =
     (case obj_btf obj of
        None \<Rightarrow> fault
      | Some b \<Rightarrow>
        andthen (memory os) (\<lambda>realloc_ok.
        andthen (if insn_offset = 0 \<or> func_info prog \<noteq> None
                 then andthen (from_option (btf_ext__reloc_func_info (host_bo os) b ext realloc_ok sname insn_offset
                                 (records (func_info prog), func_info_cnt prog))) (\<lambda>(err, info, cnt).
                      if err \<noteq> 0 then ret (Some (check_btf_ext_reloc_err err (func_info prog \<noteq> None)), prog)
                      else ret (None, prog\<lparr>func_info := Some info, func_info_cnt := cnt,
                                           func_info_rec_size := ext_rec_size (ext_func_info ext)\<rparr>))
                 else ret (None, prog)) (\<lambda>(left, prog).
        case left of
          Some err \<Rightarrow> ret (err, prog)
        | None \<Rightarrow>
        andthen (if insn_offset = 0 \<or> line_info prog \<noteq> None
                 then andthen (from_option (btf_ext__reloc_line_info (host_bo os) b ext realloc_ok sname insn_offset
                                 (records (line_info prog), line_info_cnt prog))) (\<lambda>(err, info, cnt).
                      if err \<noteq> 0 then ret (Some (check_btf_ext_reloc_err err (line_info prog \<noteq> None)), prog)
                      else ret (None, prog\<lparr>line_info := Some info, line_info_cnt := cnt,
                                           line_info_rec_size := ext_rec_size (ext_line_info ext)\<rparr>))
                 else ret (None, prog)) (\<lambda>(left, prog).
        case left of
          Some err \<Rightarrow> ret (err, prog)
        | None \<Rightarrow> ret (0, if insn_offset = 0 then prog\<lparr>prog_btf_fd := btf_fd b\<rparr> else prog)))))"

lemma memory_spec: "wlp (memory os) (\<lambda>_ w'. w' = w) w"
  by (simp add: memory_def wlp_def)

text \<open>Only the records and the number of the type information change.\<close>

lemma reloc_btf_ext_spec:
  "wlp (bpf_program_reloc_btf_ext os p obj ext s n) (\<lambda>(err, p') w'. w' = w \<and>
     insns p' = insns p \<and> relocs p' = relocs p \<and> main_prog_cnt p' = main_prog_cnt p \<and> idx p' = idx p \<and>
     inst_fds p' = inst_fds p \<and> inst_nr p' = inst_nr p \<and>
     (prog_btf_fd p' = prog_btf_fd p \<or> (\<exists>b. obj_btf obj = Some b \<and> prog_btf_fd p' = btf_fd b))) w"
proof (cases "obj_btf obj")
  case (Some b)
  show ?thesis
    unfolding bpf_program_reloc_btf_ext_def Some option.case
    by (rule wlp_bind [OF memory_spec]) (auto split: option.split prod.split)
qed (simp add: bpf_program_reloc_btf_ext_def)

text \<open>A call into \<open>.text\<close>. When the records of \<open>.text\<close> cannot be added, \<open>prog->insns\<close> is left pointing to the memory
  that \<open>reallocarray\<close> has moved.\<close>

definition add_text :: "'w bpf_os \<Rightarrow> bpf_program \<Rightarrow> bpf_object \<Rightarrow> ('w, int \<times> bpf_program) prog" where
  "add_text os prog obj =
     (case bpf_object__find_prog_by_idx obj (text_shndx obj) of
        None \<Rightarrow> ret (- errno_code LIBBPF_ERRNO__RELOC, prog)
      | Some text_prog \<Rightarrow>
        andthen (malloc os ((length (insns prog) + length (insns text_prog)) * sizeof_insn)) (\<lambda>ok.
        if \<not> ok then ret (- ENOMEM, prog)
        else andthen (case obj_btf_ext obj of
            None \<Rightarrow> ret (0, prog)
          | Some ext \<Rightarrow> bpf_program_reloc_btf_ext os prog obj ext (section_name text_prog) (of_nat (length (insns prog)))) (\<lambda>(err, prog).
        if err \<noteq> 0 then ret (err, prog\<lparr>insns_dangling := True\<rparr>)
        else ret (0, prog\<lparr>insns := insns prog @ insns text_prog, main_prog_cnt := length (insns prog)\<rparr>))))"

definition bpf_program__reloc_text ::
  "'w bpf_os \<Rightarrow> bpf_program \<Rightarrow> bpf_object \<Rightarrow> nat \<Rightarrow> ('w, int \<times> bpf_program) prog" where
  "bpf_program__reloc_text os prog obj insn_idx =
     (if idx prog = text_shndx obj then ret (- errno_code LIBBPF_ERRNO__RELOC, prog)
      else andthen (if main_prog_cnt prog = 0 then add_text os prog obj else ret (0, prog)) (\<lambda>(err, prog).
      if err \<noteq> 0 then ret (err, prog)
      else if insn_idx < length (insns prog)
      then let insn = insns prog ! insn_idx in
           ret (0, prog\<lparr>insns := (insns prog)[insn_idx := insn\<lparr>imm := imm insn + (of_nat (main_prog_cnt prog) - of_nat insn_idx)\<rparr>]\<rparr>)
      else fault))"

definition BPF_PSEUDO_MAP_FD :: u8 where "BPF_PSEUDO_MAP_FD = 1"

definition reloc_map :: "bpf_program \<Rightarrow> bpf_object \<Rightarrow> nat \<Rightarrow> nat \<Rightarrow> ('w, int \<times> bpf_program) prog" where
  "reloc_map prog obj insn_idx map_idx =
     (if insn_idx \<ge> length (insns prog) then ret (- errno_code LIBBPF_ERRNO__RELOC, prog)
      else if map_idx < length (maps obj)
      then ret (0, prog\<lparr>insns := (insns prog)[insn_idx := (insns prog ! insn_idx)\<lparr>src_reg := BPF_PSEUDO_MAP_FD,
                  imm := of_int (map_fd (maps obj ! map_idx))\<rparr>]\<rparr>)
      else fault)"

fun reloc_loop :: "'w bpf_os \<Rightarrow> bpf_object \<Rightarrow> reloc_desc list \<Rightarrow> bpf_program \<Rightarrow> ('w, int \<times> bpf_program) prog" where
  "reloc_loop os obj [] prog = ret (0, prog\<lparr>relocs := []\<rparr>)"
| "reloc_loop os obj (d # ds) prog =
     andthen (case d of
         RELO_LD64 insn_idx map_idx \<Rightarrow> reloc_map prog obj insn_idx map_idx
       | RELO_CALL insn_idx text_off \<Rightarrow> bpf_program__reloc_text os prog obj insn_idx) (\<lambda>(err, prog).
     if err \<noteq> 0 then ret (err, prog) else reloc_loop os obj ds prog)"

definition bpf_program__relocate :: "'w bpf_os \<Rightarrow> bpf_program \<Rightarrow> bpf_object \<Rightarrow> ('w, int \<times> bpf_program) prog" where
  "bpf_program__relocate os prog obj =
     andthen (case obj_btf_ext obj of
         None \<Rightarrow> ret (0, prog)
       | Some ext \<Rightarrow> bpf_program_reloc_btf_ext os prog obj ext (section_name prog) 0) (\<lambda>(err, prog).
     if err \<noteq> 0 then ret (err, prog) else reloc_loop os obj (relocs prog) prog)"

text \<open>The programs are patched in the order of the array; a later one sees the earlier ones patched.\<close>

fun relocate_from :: "'w bpf_os \<Rightarrow> nat \<Rightarrow> nat \<Rightarrow> bpf_object \<Rightarrow> ('w, int \<times> bpf_object) prog" where
  "relocate_from os i 0 obj = ret (0, obj)"
| "relocate_from os i (Suc n) obj =
     andthen (bpf_program__relocate os (programs obj ! i) obj) (\<lambda>(err, prog).
     let obj = obj\<lparr>programs := (programs obj)[i := prog]\<rparr> in
     if err \<noteq> 0 then ret (err, obj) else relocate_from os (Suc i) n obj)"

definition bpf_object__relocate :: "'w bpf_os \<Rightarrow> bpf_object \<Rightarrow> ('w, int \<times> bpf_object) prog" where
  "bpf_object__relocate os obj = relocate_from os 0 (length (programs obj)) obj"

section \<open>Loading the programs\<close>

definition BPF_MAXINSNS :: nat where "BPF_MAXINSNS = 4096"

text \<open>\<open>load_program\<close>: the error and, when it is 0, the descriptor. Reading the log buffer before anything has been stored in it
  counts as a fault.\<close>

definition prog_attr :: "bpf_program \<Rightarrow> bool \<Rightarrow> bpf_insn list \<Rightarrow> string \<Rightarrow> u32 \<Rightarrow> bpf_load_program_attr" where
  "prog_attr prog caps instrs lic kver =
     \<lparr> lp_prog_type = prog_type prog, lp_expected_attach_type = expected_attach_type prog,
       lp_name = (if caps then prog_name prog else None), lp_insns = instrs, lp_license = lic, lp_kern_version = kver,
       lp_prog_ifindex = of_int (prog_ifindex prog), lp_prog_btf_fd = (if prog_btf_fd prog \<ge> 0 then of_int (prog_btf_fd prog) else 0),
       lp_func_info = func_info prog, lp_func_info_rec_size = func_info_rec_size prog, lp_func_info_cnt = func_info_cnt prog,
       lp_line_info = line_info prog, lp_line_info_rec_size = line_info_rec_size prog, lp_line_info_cnt = line_info_cnt prog,
       lp_log_level = 0 \<rparr>"

text \<open>What is tried when the program was refused without a log and is not too long: whether another type would do.\<close>

definition retry_as_kprobe :: "'w bpf_os \<Rightarrow> bpf_load_program_attr \<Rightarrow> bool \<Rightarrow> ('w, int) prog" where
  "retry_as_kprobe os la log_buf =
     (let e = - errno_code (if log_buf then LIBBPF_ERRNO__KVER else LIBBPF_ERRNO__LOAD) in
      if lp_prog_type la \<noteq> BPF_PROG_TYPE_KPROBE
      then andthen (bpf_load_program_xattr os
             (Some (la\<lparr>lp_prog_type := BPF_PROG_TYPE_KPROBE, lp_expected_attach_type := no_attach_type\<rparr>)) False 0) (\<lambda>(fd, _).
           if fd \<ge> 0 then andthen (close_fd os fd) (\<lambda>_. ret (- errno_code LIBBPF_ERRNO__PROGTYPE)) else ret e)
      else ret e)"

definition load_program ::
  "'w bpf_os \<Rightarrow> bpf_program \<Rightarrow> bool \<Rightarrow> bpf_insn list \<Rightarrow> string \<Rightarrow> u32 \<Rightarrow> ('w, int \<times> int) prog" where
  "load_program os prog caps instrs lic kver =
     (let la = prog_attr prog caps instrs lic kver in
      if instrs = [] then ret (- EINVAL, -1)
      else andthen (malloc os BPF_LOG_BUF_SIZE) (\<lambda>log_buf.
      andthen (bpf_load_program_xattr os (Some la) log_buf BPF_LOG_BUF_SIZE) (\<lambda>(r, log).
      if r \<ge> 0 then ret (0, r)
      else andthen (if log_buf then from_option (map_option (\<lambda>t. t \<noteq> []) log) else ret False) (\<lambda>has_log.
      if has_log then ret (- errno_code LIBBPF_ERRNO__VERIFY, -1)
      else if length instrs \<ge> BPF_MAXINSNS then ret (- errno_code LIBBPF_ERRNO__PROG2BIG, -1)
      else andthen (retry_as_kprobe os la log_buf) (\<lambda>e. ret (e, -1))))))"

text \<open>The loop over the instances of a program with a preprocessor, from number \<open>i\<close> on with \<open>n\<close> to go.\<close>

fun load_instances ::
  "'w bpf_os \<Rightarrow> preprocessor_fn \<Rightarrow> bool \<Rightarrow> string \<Rightarrow> u32 \<Rightarrow> nat \<Rightarrow> nat \<Rightarrow> bpf_program \<Rightarrow> ('w, int \<times> bpf_program) prog" where
  "load_instances os prep caps lic kver i 0 prog = ret (0, prog)"
| "load_instances os prep caps lic kver i (Suc n) prog =
     (case prep i (insns prog) of (err, new) \<Rightarrow>
      if err \<noteq> 0 then ret (err, prog)
      else if i \<ge> length (inst_fds prog) then fault
      else if new = [] then load_instances os prep caps lic kver (Suc i) n (prog\<lparr>inst_fds := (inst_fds prog)[i := -1]\<rparr>)
      else andthen (load_program os prog caps new lic kver) (\<lambda>(err, fd).
      if err \<noteq> 0 then ret (err, prog)
      else load_instances os prep caps lic kver (Suc i) n (prog\<lparr>inst_fds := (inst_fds prog)[i := fd]\<rparr>)))"

text \<open>\<open>bpf_program__load\<close>: a place for the one instance is made if there is none; at the end the instructions are given back.\<close>

definition alloc_instance :: "'w bpf_os \<Rightarrow> bpf_program \<Rightarrow> ('w, int \<times> bpf_program) prog" where
  "alloc_instance os prog =
     (if inst_nr prog < 0 \<or> inst_fds prog = []
      then if preprocessor prog \<noteq> None then ret (- errno_code LIBBPF_ERRNO__INTERNAL, prog)
           else andthen (malloc os 4) (\<lambda>ok.
                if \<not> ok then ret (- ENOMEM, prog) else ret (0, prog\<lparr>inst_nr := 1, inst_fds := [-1]\<rparr>))
      else ret (0, prog))"

definition bpf_program__load :: "'w bpf_os \<Rightarrow> bpf_program \<Rightarrow> bool \<Rightarrow> string \<Rightarrow> u32 \<Rightarrow> ('w, int \<times> bpf_program) prog" where
  "bpf_program__load os prog caps lic kver =
     andthen (alloc_instance os prog) (\<lambda>(err, prog).
     if err \<noteq> 0 then ret (err, prog)
     else andthen (case preprocessor prog of
         None \<Rightarrow> andthen (load_program os prog caps (insns prog) lic kver) (\<lambda>(err, fd).
           ret (err, if err = 0 then prog\<lparr>inst_fds := (inst_fds prog)[0 := fd]\<rparr> else prog))
       | Some prep \<Rightarrow> load_instances os prep caps lic kver 0 (nat (inst_nr prog)) prog) (\<lambda>(err, prog).
     ret (err, prog\<lparr>insns := []\<rparr>)))"

fun load_progs_loop ::
  "'w bpf_os \<Rightarrow> bpf_object \<Rightarrow> bpf_program list \<Rightarrow> ('w, int \<times> bpf_program list) prog" where
  "load_progs_loop os obj [] = ret (0, [])"
| "load_progs_loop os obj (p # ps) =
     (if bpf_program__is_function_storage p obj
      then andthen (load_progs_loop os obj ps) (\<lambda>(err, ps). ret (err, p # ps))
      else andthen (bpf_program__load os p (caps_name obj) (license obj) (kern_version obj)) (\<lambda>(err, p).
      if err \<noteq> 0 then ret (err, p # ps)
      else andthen (load_progs_loop os obj ps) (\<lambda>(err, ps). ret (err, p # ps))))"

definition bpf_object__load_progs :: "'w bpf_os \<Rightarrow> bpf_object \<Rightarrow> ('w, int \<times> bpf_object) prog" where
  "bpf_object__load_progs os obj =
     andthen (load_progs_loop os obj (programs obj)) (\<lambda>(err, ps). ret (err, obj\<lparr>programs := ps\<rparr>))"

definition bpf_prog_type__needs_kver :: "bpf_prog_type \<Rightarrow> bool" where
  "bpf_prog_type__needs_kver t \<longleftrightarrow> t = BPF_PROG_TYPE_KPROBE"

definition bpf_object__validate :: "bpf_object \<Rightarrow> bool \<Rightarrow> int" where
  "bpf_object__validate obj needs_kver =
     (if needs_kver \<and> kern_version obj = 0 then - errno_code LIBBPF_ERRNO__KVERSION else 0)"

section \<open>Giving the descriptors back\<close>

text \<open>\<open>prog->btf_fd\<close> is the number that \<open>obj->btf\<close> holds, not a copy of the descriptor: it is closed with every program
  and once more with the type information.\<close>

definition bpf_program__unload :: "'w bpf_os \<Rightarrow> bpf_program \<Rightarrow> ('w, bpf_program) prog" where
  "bpf_program__unload os p =
     andthen (if inst_nr p > 0
              then if nat (inst_nr p) > length (inst_fds p) then fault
                   else close_all os (take (nat (inst_nr p)) (inst_fds p))
              else ret ()) (\<lambda>_.
     andthen (zclose os (prog_btf_fd p)) (\<lambda>_.
     ret (p\<lparr>inst_nr := -1, inst_fds := [], prog_btf_fd := -1, func_info := None, line_info := None\<rparr>)))"

fun unload_programs :: "'w bpf_os \<Rightarrow> bpf_program list \<Rightarrow> ('w, bpf_program list) prog" where
  "unload_programs os [] = ret []"
| "unload_programs os (p # ps) =
     andthen (bpf_program__unload os p) (\<lambda>p. andthen (unload_programs os ps) (\<lambda>ps. ret (p # ps)))"

definition bpf_object__unload :: "'w bpf_os \<Rightarrow> bpf_object \<Rightarrow> ('w, bpf_object) prog" where
  "bpf_object__unload os obj =
     andthen (close_all os (map map_fd (maps obj))) (\<lambda>_.
     andthen (unload_programs os (programs obj)) (\<lambda>ps.
     ret (obj\<lparr>maps := close_maps (maps obj), programs := ps\<rparr>)))"

text \<open>\<open>bpf_object__close\<close> as far as the system sees it: the descriptors are closed, that of the type information too, and the
  memory is given back. \<open>bpf_program__exit\<close> unloads the programs again, which does nothing. Instructions that have moved are
  freed a second time.\<close>

definition bpf_object__close :: "'w bpf_os \<Rightarrow> bpf_object \<Rightarrow> ('w, unit) prog" where
  "bpf_object__close os obj =
     andthen (bpf_object__unload os obj) (\<lambda>obj.
     andthen (case obj_btf obj of None \<Rightarrow> ret 0 | Some b \<Rightarrow> if btf_fd b \<noteq> -1 then close_fd os (btf_fd b) else ret 0) (\<lambda>_.
     if list_ex insns_dangling (programs obj) then fault else ret ()))"

section \<open>Loading an object\<close>

text \<open>The chain of \<open>CHECK_ERR\<close> in \<open>bpf_object__load\<close>.\<close>

fun run_stages :: "(bpf_object \<Rightarrow> ('w, int \<times> bpf_object) prog) list \<Rightarrow> bpf_object \<Rightarrow> ('w, int \<times> bpf_object) prog" where
  "run_stages [] obj = ret (0, obj)"
| "run_stages (f # fs) obj =
     andthen (f obj) (\<lambda>(err, obj). if err \<noteq> 0 then ret (err, obj) else run_stages fs obj)"

definition load_object :: "'w bpf_os \<Rightarrow> bpf_object \<Rightarrow> ('w, int \<times> bpf_object) prog" where
  "load_object os obj =
     (if loaded obj then ret (- EINVAL, obj)
      else
      andthen (run_stages [bpf_object__probe_caps os, bpf_object__create_maps os, bpf_object__relocate os, bpf_object__load_progs os]
                 (obj\<lparr>loaded := True\<rparr>)) (\<lambda>(err, obj).
      if err \<noteq> 0 then andthen (bpf_object__unload os obj) (\<lambda>obj. ret (err, obj)) else ret (0, obj)))"

definition bpf_object__load :: "'w bpf_os \<Rightarrow> bpf_object option \<Rightarrow> ('w, int \<times> bpf_object option) prog" where
  "bpf_object__load os obj =
     (case obj of
        None \<Rightarrow> ret (- EINVAL, None)
      | Some obj \<Rightarrow> andthen (load_object os obj) (\<lambda>(err, obj). ret (err, Some obj)))"

end
