(* ===== verification/Load_Fds.thy ===== *)
theory Load_Fds
  imports Obj_Load
begin

text \<open>
  The descriptors that loading an object opens and closes: the locale \<open>fd_table\<close> is what the kernel promises about them,
  and \<open>bpf_object__load\<close> gives back every descriptor it has opened when it fails.
\<close>

section \<open>Descriptors\<close>

locale fd_table =
  fixes os :: "'w bpf_os" and fds :: "'w \<Rightarrow> int set"
  assumes map_create: "sys_map_create os w a = (fd, w') \<Longrightarrow>
      if fd \<ge> 0 then fd \<notin> fds w \<and> fds w' = insert fd (fds w) else fds w' = fds w"
    and prog_load: "sys_prog_load os w b = (ans, w') \<Longrightarrow>
      if la_fd ans \<ge> 0 then la_fd ans \<notin> fds w \<and> fds w' = insert (la_fd ans) (fds w) else fds w' = fds w"
    and close: "sys_close os w fd = (r, w') \<Longrightarrow> fds w' = fds w - {fd}"

text \<open>The descriptors of a program, of a map and of an object.\<close>

definition open_fds :: "int list \<Rightarrow> int set" where
  "open_fds l = {fd \<in> set l. fd \<ge> 0}"

definition obj_fds :: "bpf_object \<Rightarrow> int set" where
  "obj_fds obj = open_fds (map map_fd (maps obj)) \<union> (\<Union>p \<in> set (programs obj). open_fds (inst_fds p))"

lemma open_fds_simps [simp]:
  "open_fds [] = {}"
  "open_fds (fd # l) = (if fd \<ge> 0 then insert fd (open_fds l) else open_fds l)"
  "open_fds (l @ k) = open_fds l \<union> open_fds k"
  by (auto simp: open_fds_def)

lemma open_fds_update:
  assumes "i < length l" "l ! i < 0"
  shows "open_fds (l[i := fd]) = open_fds l \<union> open_fds [fd]"
proof -
  obtain a x c where l: "l = a @ x # c" "length a = i" using id_take_nth_drop [OF assms(1)] assms(1) by fastforce
  then show ?thesis using assms(2) by (auto simp: list_update_append)
qed

lemma open_fds_none: "list_all (\<lambda>fd. fd < 0) l \<Longrightarrow> open_fds l = {}"
  by (induction l) auto

text \<open>A program before it is loaded: no instances, or as many as a preprocessor will make, none of them loaded. A
  program at any time has as many places as instances.\<close>

definition prog_sized :: "bpf_program \<Rightarrow> bool" where
  "prog_sized p \<longleftrightarrow> inst_nr p = (if inst_fds p = [] then -1 else int (length (inst_fds p)))"

definition prog_unloaded :: "bpf_program \<Rightarrow> bool" where
  "prog_unloaded p \<longleftrightarrow> prog_sized p \<and> list_all (\<lambda>fd. fd < 0) (inst_fds p)"

definition btf_number :: "bpf_object \<Rightarrow> int set" where
  "btf_number obj = (case obj_btf obj of None \<Rightarrow> {} | Some b \<Rightarrow> {btf_fd b})"

definition object_opened :: "bpf_object \<Rightarrow> bool" where
  "object_opened obj \<longleftrightarrow> list_all (\<lambda>p. prog_unloaded p \<and> prog_btf_fd p = -1) (programs obj)"

context fd_table
begin

lemma wlp_close [simp]: "wlp (close_fd os fd) Q w \<longleftrightarrow> (case sys_close os w fd of (r, w') \<Rightarrow> Q r w')"
  by (simp add: close_fd_def)

lemma close_spec: "wlp (close_fd os fd) (\<lambda>_ w'. fds w' = fds w - {fd}) w"
  using close by (auto simp: close_fd_def split: prod.split)

text \<open>A descriptor that a call may have opened.\<close>

definition may_open :: "int set \<Rightarrow> int \<Rightarrow> 'w \<Rightarrow> bool" where
  "may_open S fd w \<longleftrightarrow> (if fd \<ge> 0 then fd \<notin> S \<and> fds w = insert fd S else fds w = S)"

lemma may_open_cases:
  assumes "may_open S fd w"
  obtains "fd \<ge> 0" "fd \<notin> S" "fds w = insert fd S" | "fd < 0" "fds w = S"
  using assms by (auto simp: may_open_def split: if_splits)

lemma close_all_fds: "wlp (close_all os l) (\<lambda>_ w'. fds w' = fds w - open_fds l) w"
proof (induction l arbitrary: w)
  case (Cons fd l)
  show ?case
  proof (cases "fd \<ge> 0")
    case True
    obtain r w1 where c: "sys_close os w fd = (r, w1)" by fastforce
    then show ?thesis using True close [OF c] by (auto simp: zclose_def intro: wlp_mono [OF Cons.IH [of w1]])
  next
    case False
    then show ?thesis using Cons.IH [of w] by (simp add: zclose_def)
  qed
qed simp

lemma prog_load_loop_fds:
  assumes "prog_load_loop os attr w = Some r"
  shows "may_open (fds w) (la_fd (fst (fst r))) (snd r)"
proof -
  have "os = os \<longrightarrow> may_open (fds w) (la_fd (fst (fst r))) (snd r)"
  proof (rule prog_load_loop.raw_induct [where P = "\<lambda>os' attr w r. os' = os \<longrightarrow> may_open (fds w) (la_fd (fst (fst r))) (snd r)", OF _ assms],
      rule impI)
    fix loop os' attr w r
    assume IH: "\<And>os' attr w r. loop os' attr w = Some r \<Longrightarrow> os' = os \<longrightarrow> may_open (fds w) (la_fd (fst (fst r))) (snd r)"
      and body: "(case sys_prog_load os' w attr of (ans, w) \<Rightarrow>
        let attr = attr\<lparr>pl_func_info_rec_size := la_func_info_rec_size ans, pl_line_info_rec_size := la_line_info_rec_size ans\<rparr>
        in if la_fd ans < 0 \<and> sys_errno os' w = EAGAIN then loop os' attr w else Some ((ans, attr), w)) = Some r"
      and os: "os' = os"
    obtain ans w1 where l: "sys_prog_load os w attr = (ans, w1)" by fastforce
    show "may_open (fds w) (la_fd (fst (fst r))) (snd r)"
    proof (cases "la_fd ans < 0 \<and> sys_errno os w1 = EAGAIN")
      case True
      then show ?thesis
        using IH [of os _ w1 r] body os l prog_load [OF l] by (simp add: Let_def)
    next
      case False
      then show ?thesis using body os l prog_load [OF l] by (auto simp: Let_def may_open_def)
    qed
  qed
  then show ?thesis by simp
qed

lemma sys_bpf_prog_load_fds: "wlp (sys_bpf_prog_load os attr) (\<lambda>r w'. may_open (fds w) (la_fd (fst r)) w') w"
  using prog_load_loop_fds [of attr w] by (fastforce simp: wlp_def sys_bpf_prog_load_def split: option.splits)

lemma alloc_zero_same: "wlp (alloc_zero_tailing_info os d n a e) (\<lambda>_ w'. w' = w) w"
  by (auto simp: alloc_zero_tailing_info_def split: option.split)

lemma corrected_attempt:
  assumes "\<And>ans attr w1. fds w1 = fds w \<Longrightarrow> la_fd ans < 0 \<Longrightarrow> wlp (k ans attr) Q w1"
    and "\<And>ans attr w1. may_open (fds w) (la_fd ans) w1 \<Longrightarrow> Q (True, ans, attr) w1" "la_fd ans < 0"
  shows "wlp (andthen (alloc_zero_tailing_info os d n a e) (\<lambda>info.
      if info = None then ret (True, ans, attr)
      else andthen (sys_bpf_prog_load os (upd info)) (\<lambda>(ans, attr).
      if la_fd ans \<ge> 0 then ret (True, ans, attr) else k ans attr))) Q w"
  using assms by (intro wlp_bind [OF alloc_zero_same] wlp_if wlp_bind [OF sys_bpf_prog_load_fds] wlp_case_prod)
    (auto simp: may_open_def split: if_splits)

lemma load_corrected_fds:
  assumes "la_fd ans < 0"
  shows "wlp (load_corrected os la f l ans attr) (\<lambda>(left_loop, ans, attr) w'.
     may_open (fds w) (la_fd ans) w' \<and> (\<not> left_loop \<longrightarrow> la_fd ans < 0)) w"
  using assms
proof (induction "(if f then 0 else 1) + (if l then 0 else 1 :: nat)" arbitrary: f l ans attr w rule: less_induct)
  case less
  let ?Q = "\<lambda>(left_loop, ans, attr) w'. may_open (fds w) (la_fd ans) w' \<and> (\<not> left_loop \<longrightarrow> la_fd ans < 0)"
  have f: "\<not> f \<Longrightarrow> fds w1 = fds w \<Longrightarrow> la_fd ans' < 0 \<Longrightarrow> wlp (load_corrected os la True l ans' attr') ?Q w1" for ans' attr' w1
    using less.hyps [of True l ans' attr' w1] by simp
  have l: "\<not> l \<Longrightarrow> fds w1 = fds w \<Longrightarrow> la_fd ans' < 0 \<Longrightarrow> wlp (load_corrected os la f True ans' attr') ?Q w1" for ans' attr' w1
    using less.hyps [of f True ans' attr' w1] by simp
  show ?case
    unfolding load_corrected.simps [of os la f l ans attr] wlp_andthen [of "get_errno os"] wlp_errno
    by (intro wlp_if corrected_attempt f l) (use less.prems in \<open>simp_all add: may_open_def\<close>)
qed

lemma load_xattr_fds: "wlp (bpf_load_program_xattr os la buf n) (\<lambda>(r, _) w'. may_open (fds w) r w') w"
proof (cases la)
  case None
  then show ?thesis by (simp add: bpf_load_program_xattr_def may_open_def EINVAL_def)
next
  case (Some a)
  show ?thesis
    unfolding bpf_load_program_xattr_def Some option.case
    by (intro wlp_if wlp_bind [OF sys_bpf_prog_load_fds] wlp_case_prod wlp_bind [OF load_corrected_fds])
       (auto simp: may_open_def EINVAL_def split: if_splits)
qed

lemmas call_rules = wlp_if wlp_case_prod wlp_bind [OF close_spec] wlp_bind [OF errno_spec] wlp_bind [OF malloc_spec]
  wlp_bind [OF load_xattr_fds]

lemma probe_name_fds: "wlp (bpf_object__probe_name os obj) (\<lambda>(err, obj') w'. fds w' = fds w \<and> (\<exists>c. obj' = obj\<lparr>caps_name := c\<rparr>)) w"
  unfolding bpf_object__probe_name_def Let_def
  by (intro call_rules) (auto simp: may_open_def split: if_splits intro: exI [of _ "caps_name obj"])

lemma retry_as_kprobe_fds: "wlp (retry_as_kprobe os la buf) (\<lambda>e w'. fds w' = fds w \<and> e \<noteq> 0) w"
  unfolding retry_as_kprobe_def Let_def
  by (intro call_rules) (auto simp: may_open_def LIBBPF_ERRNO__START_def split: if_splits)

lemma read_log_same: "wlp (if b then from_option x else ret c) (\<lambda>_ w'. w' = w) w"
  by (auto split: option.split)

text \<open>The program is refused or there is one descriptor more.\<close>

lemma load_program_fds:
  "wlp (load_program os p caps instrs lic kver) (\<lambda>(err, fd) w'.
     if err = 0 then fd \<ge> 0 \<and> fd \<notin> fds w \<and> fds w' = insert fd (fds w) else fds w' = fds w) w"
  unfolding load_program_def Let_def
  by (intro call_rules wlp_bind [OF retry_as_kprobe_fds] wlp_bind [OF read_log_same])
     (auto simp: may_open_def EINVAL_def LIBBPF_ERRNO__START_def split: if_splits)

text \<open>The descriptors that are open are those of others, \<open>S\<close>, and those of a program.\<close>

definition prog_holds :: "int set \<Rightarrow> bpf_program \<Rightarrow> 'w \<Rightarrow> bool" where
  "prog_holds S p w \<longleftrightarrow> fds w = S \<union> open_fds (inst_fds p) \<and> S \<inter> open_fds (inst_fds p) = {} \<and> prog_sized p"

lemma load_instances_fds:
  assumes "prog_holds S p w" "list_all (\<lambda>fd. fd < 0) (drop i (inst_fds p))"
  shows "wlp (load_instances os prep caps lic kver i n p) (\<lambda>(err, p') w'. prog_holds S p' w' \<and> prog_btf_fd p' = prog_btf_fd p) w"
  using assms
proof (induction n arbitrary: i p w)
  case (Suc n)
  obtain err new where prep: "prep i (insns p) = (err, new)" by fastforce
  show ?case
  proof (cases "err = 0 \<and> i < length (inst_fds p)")
    case False
    then show ?thesis using Suc.prems prep by auto
  next
    case True
    then have neg: "inst_fds p ! i < 0" "list_all (\<lambda>fd. fd < 0) (drop (Suc i) (inst_fds p))"
      using Suc.prems(2) Cons_nth_drop_Suc [of i "inst_fds p", symmetric] by simp_all
    have upd: "prog_holds S (p\<lparr>inst_fds := (inst_fds p)[i := fd]\<rparr>) w1"
      if "fds w1 = fds w \<union> open_fds [fd]" "fds w \<inter> open_fds [fd] = {}" for fd w1
      using Suc.prems(1) that open_fds_update [OF _ neg(1), of fd] True by (auto simp: prog_holds_def prog_sized_def)
    have IH: "wlp (load_instances os prep caps lic kver (Suc i) n (p\<lparr>inst_fds := (inst_fds p)[i := fd]\<rparr>))
        (\<lambda>(err, p') w'. prog_holds S p' w' \<and> prog_btf_fd p' = prog_btf_fd p) w1"
      if "fds w1 = fds w \<union> open_fds [fd]" "fds w \<inter> open_fds [fd] = {}" for fd w1
      using Suc.IH [OF upd [OF that]] neg(2) by simp
    show ?thesis
    proof (cases "new = []")
      case True
      then show ?thesis using prep \<open>err = 0 \<and> i < length (inst_fds p)\<close> IH [of w "-1"] by simp
    next
      case False
      have "wlp (andthen (load_program os p caps new lic kver) (\<lambda>(err, fd).
          if err \<noteq> 0 then ret (err, p)
          else load_instances os prep caps lic kver (Suc i) n (p\<lparr>inst_fds := (inst_fds p)[i := fd]\<rparr>)))
        (\<lambda>(err, p') w'. prog_holds S p' w' \<and> prog_btf_fd p' = prog_btf_fd p) w"
        by (intro wlp_bind [OF load_program_fds] wlp_case_prod wlp_if)
           (use Suc.prems(1) IH in \<open>auto simp: prog_holds_def\<close>)
      then show ?thesis using prep False \<open>err = 0 \<and> i < length (inst_fds p)\<close> by (simp del: wlp_andthen)
    qed
  qed
qed simp

lemma load_one_fds:
  assumes "prog_holds S p w" "list_all (\<lambda>fd. fd < 0) (inst_fds p)" "inst_fds p \<noteq> []"
  shows "wlp (andthen (case preprocessor p of
         None \<Rightarrow> andthen (load_program os p caps (insns p) lic kver) (\<lambda>(err, fd).
           ret (err, if err = 0 then p\<lparr>inst_fds := (inst_fds p)[0 := fd]\<rparr> else p))
       | Some prep \<Rightarrow> load_instances os prep caps lic kver 0 (nat (inst_nr p)) p) (\<lambda>(err, p). ret (err, p\<lparr>insns := []\<rparr>)))
    (\<lambda>(err, p') w'. prog_holds S p' w' \<and> prog_btf_fd p' = prog_btf_fd p) w"
proof (cases "preprocessor p")
  case None
  have neg: "0 < length (inst_fds p)" "inst_fds p ! 0 < 0" using assms(2,3) by (auto simp: list_all_length)
  show ?thesis
    unfolding None option.case andthen_assoc
    by (intro wlp_bind [OF load_program_fds] wlp_case_prod)
       (use assms(1) neg open_fds_update [OF neg] in \<open>auto simp: prog_holds_def prog_sized_def split: if_splits\<close>)
next
  case (Some prep)
  show ?thesis
    unfolding Some option.case
    by (intro wlp_bind [OF load_instances_fds [OF assms(1)]] wlp_case_prod)
       (use assms(2) in \<open>auto simp: prog_holds_def prog_sized_def\<close>)
qed

lemma alloc_instance_spec:
  assumes "prog_unloaded p"
  shows "wlp (alloc_instance os p) (\<lambda>(err, p') w'. w' = w \<and> prog_unloaded p' \<and> prog_btf_fd p' = prog_btf_fd p \<and>
    (err = 0 \<longrightarrow> inst_fds p' \<noteq> [])) w"
  unfolding alloc_instance_def
  by (intro call_rules)
     (use assms in \<open>auto simp: prog_unloaded_def prog_sized_def LIBBPF_ERRNO__START_def ENOMEM_def split: if_splits\<close>)

lemma unloaded_holds: "prog_unloaded p \<Longrightarrow> prog_holds (fds w) p w" "prog_unloaded p \<Longrightarrow> list_all (\<lambda>fd. fd < 0) (inst_fds p)"
  using open_fds_none by (auto simp: prog_unloaded_def prog_holds_def)

lemma program_load_fds:
  assumes "prog_unloaded p"
  shows "wlp (bpf_program__load os p caps lic kver)
    (\<lambda>(err, p') w'. prog_holds (fds w) p' w' \<and> prog_btf_fd p' = prog_btf_fd p) w"
  unfolding bpf_program__load_def
  by (intro wlp_bind [OF alloc_instance_spec [OF assms]] wlp_case_prod wlp_if)
     (auto simp del: wlp_andthen simp: unloaded_holds intro!: wlp_mono [OF load_one_fds])

definition held :: "int set \<Rightarrow> bpf_program list \<Rightarrow> 'w \<Rightarrow> bool" where
  "held S ps w \<longleftrightarrow> fds w = S \<union> (\<Union>p \<in> set ps. open_fds (inst_fds p)) \<and> S \<inter> (\<Union>p \<in> set ps. open_fds (inst_fds p)) = {} \<and>
     list_all prog_sized ps"

lemma unloaded_none:
  "list_all prog_unloaded ps \<Longrightarrow> (\<Union>p \<in> set ps. open_fds (inst_fds p)) = {}" "list_all prog_unloaded ps \<Longrightarrow> list_all prog_sized ps"
  using open_fds_none by (induction ps) (auto simp: prog_unloaded_def)

lemma load_progs_fds:
  assumes "list_all prog_unloaded ps"
  shows "wlp (load_progs_loop os obj ps)
    (\<lambda>(err, ps') w'. held (fds w) ps' w' \<and> map prog_btf_fd ps' = map prog_btf_fd ps) w"
  using assms
proof (induction ps arbitrary: w)
  case Nil
  then show ?case by (simp add: held_def)
next
  case (Cons p ps)
  have u: "prog_unloaded p" "list_all prog_unloaded ps" using Cons.prems by simp_all
  have none: "open_fds (inst_fds p) = {}" "prog_sized p" using u(1) open_fds_none by (auto simp: prog_unloaded_def)
  show ?case
    unfolding load_progs_loop.simps
    by (intro wlp_if wlp_bind [OF Cons.IH [OF u(2)]] wlp_bind [OF program_load_fds [OF u(1)]] wlp_case_prod)
       (use none unloaded_none [OF u(2)] in \<open>auto simp: held_def prog_holds_def\<close>)
qed

text \<open>Giving everything back.\<close>

lemma zclose_spec: "wlp (zclose os fd) (\<lambda>_ w'. fds w' = fds w - open_fds [fd]) w"
  unfolding zclose_def by (rule wlp_if, rule wlp_mono [OF close_spec]) auto

lemma program_unload_fds:
  assumes "prog_sized p"
  shows "wlp (bpf_program__unload os p) (\<lambda>_ w'. fds w' = fds w - open_fds (inst_fds p) - open_fds [prog_btf_fd p]) w"
proof -
  have "wlp (if inst_nr p > 0
              then if nat (inst_nr p) > length (inst_fds p) then fault
                   else close_all os (take (nat (inst_nr p)) (inst_fds p))
              else ret ()) (\<lambda>_ w'. fds w' = fds w - open_fds (inst_fds p)) w"
    using assms close_all_fds [of "inst_fds p" w] by (auto simp: prog_sized_def split: if_splits)
  then show ?thesis unfolding bpf_program__unload_def
    by (intro wlp_bind [where R = "\<lambda>_ w'. fds w' = fds w - open_fds (inst_fds p)"] wlp_bind [OF zclose_spec]) auto
qed

lemma unload_programs_fds:
  assumes "list_all prog_sized ps"
  shows "wlp (unload_programs os ps)
    (\<lambda>ps' w'. fds w' = fds w - (\<Union>p \<in> set ps. open_fds (inst_fds p)) - open_fds (map prog_btf_fd ps)) w"
  using assms
proof (induction ps arbitrary: w)
  case (Cons p ps)
  then have s: "prog_sized p" "list_all prog_sized ps" by simp_all
  show ?case
    unfolding unload_programs.simps
    by (intro wlp_bind [OF program_unload_fds [OF s(1)]] wlp_bind [OF Cons.IH [OF s(2)]]) auto
qed simp

lemma unload_fds:
  assumes "list_all prog_sized (programs obj)"
  shows "wlp (bpf_object__unload os obj)
    (\<lambda>_ w'. fds w' = fds w - obj_fds obj - open_fds (map prog_btf_fd (programs obj))) w"
  unfolding bpf_object__unload_def
  by (intro wlp_bind [OF close_all_fds] wlp_bind [OF unload_programs_fds [OF assms]]) (auto simp: obj_fds_def)

text \<open>Creating the maps. \<open>B\<close> are the descriptors of others; after an error some of the maps may have been closed.\<close>

lemma create_call_fds: "wlp (call (bpf_create_map_xattr os a)) (\<lambda>fd w'. may_open (fds w) fd w') w"
  by (auto simp: bpf_create_map_xattr_def may_open_def dest: map_create split: prod.split)

lemma find_info_same:
  "wlp (case obj_btf obj of
      None \<Rightarrow> ret (a, m)
    | Some b \<Rightarrow> andthen (from_option (bpf_map_find_btf_info bo m b)) (\<lambda>(r, m). ret (f b r m, m))) (\<lambda>_ w'. w' = w) w"
  by (auto split: option.split)

lemma create_map_fds: "wlp (create_map os obj a m) (\<lambda>(a, m') w'. may_open (fds w) (map_fd m') w') w"
  unfolding create_map_def Let_def
  by (intro wlp_bind [OF find_info_same] wlp_case_prod wlp_bind [OF create_call_fds] wlp_if)
     (auto simp: may_open_def split: if_splits)

definition maps_held :: "int set \<Rightarrow> int \<Rightarrow> bpf_map list \<Rightarrow> 'w \<Rightarrow> bool" where
  "maps_held B err ms w \<longleftrightarrow> B \<inter> open_fds (map map_fd ms) = {} \<and> B \<subseteq> fds w \<and> fds w \<subseteq> B \<union> open_fds (map map_fd ms) \<and>
     (err = 0 \<longrightarrow> fds w = B \<union> open_fds (map map_fd ms))"

lemma open_fds_closed [simp]: "open_fds (map map_fd (close_maps ms)) = {}"
  by (induction ms) (auto simp: close_maps_def)

lemma create_maps_fds:
  assumes "maps_held B 0 (earlier @ ms) w"
  shows "wlp (create_maps_loop os obj a earlier ms) (\<lambda>(err, ms') w'. maps_held B err ms' w') w"
  using assms
proof (induction ms arbitrary: a earlier w)
  case (Cons m ms)
  show ?case
    unfolding create_maps_loop.simps
    apply (intro wlp_if wlp_bind [OF create_map_fds] wlp_case_prod wlp_bind [OF close_all_fds] Cons.IH)
    using Cons.prems by (auto simp: maps_held_def may_open_def split: if_splits)
qed simp

text \<open>Patching the instructions calls nobody.\<close>

definition patched :: "bpf_object \<Rightarrow> bpf_program \<Rightarrow> bpf_program \<Rightarrow> bool" where
  "patched obj p p' \<longleftrightarrow> inst_fds p' = inst_fds p \<and> inst_nr p' = inst_nr p \<and> prog_btf_fd p' \<in> {prog_btf_fd p} \<union> btf_number obj"

lemma patched_refl [simp]: "patched obj p p"
  by (simp add: patched_def)

lemma patched_trans: "patched obj p q \<Longrightarrow> patched obj q r \<Longrightarrow> patched obj p r"
  by (auto simp: patched_def)

lemma reloc_btf_ext_patched:
  "wlp (bpf_program_reloc_btf_ext os p obj ext s n) (\<lambda>(err, p') w'. w' = w \<and> patched obj p p') w"
  by (rule wlp_mono [OF reloc_btf_ext_spec]) (auto simp: patched_def btf_number_def)

lemma add_text_patched: "wlp (add_text os p obj) (\<lambda>(err, p') w'. w' = w \<and> patched obj p p') w"
proof (cases "bpf_object__find_prog_by_idx obj (text_shndx obj)")
  case (Some t)
  show ?thesis
  proof (cases "obj_btf_ext obj")
    case None
    then show ?thesis by (simp add: add_text_def Some patched_def)
  next
    case ext: (Some ext)
    show ?thesis
      unfolding add_text_def Some ext option.case
      by (intro wlp_bind [OF malloc_spec] wlp_if wlp_bind [OF reloc_btf_ext_patched] wlp_case_prod) (auto simp: patched_def)
  qed
qed (simp add: add_text_def)

lemma reloc_text_patched: "wlp (bpf_program__reloc_text os p obj i) (\<lambda>(err, p') w'. w' = w \<and> patched obj p p') w"
proof -
  have a: "wlp (if main_prog_cnt p = 0 then add_text os p obj else ret (0, p)) (\<lambda>(err, p') w'. w' = w \<and> patched obj p p') w"
    using add_text_patched by simp
  show ?thesis
    unfolding bpf_program__reloc_text_def Let_def
    by (intro wlp_if wlp_bind [OF a] wlp_case_prod) (auto simp: patched_def)
qed

lemma reloc_loop_patched: "wlp (reloc_loop os obj ds p) (\<lambda>(err, p') w'. w' = w \<and> patched obj p p') w"
proof (induction ds arbitrary: p)
  case Nil
  then show ?case by (simp add: patched_def)
next
  case (Cons d ds)
  have d: "wlp (case d of RELO_LD64 i k \<Rightarrow> reloc_map p obj i k | RELO_CALL i off \<Rightarrow> bpf_program__reloc_text os p obj i)
      (\<lambda>(err, p') w'. w' = w \<and> patched obj p p') w"
    using reloc_text_patched by (cases d) (auto simp: reloc_map_def patched_def)
  show ?case
    unfolding reloc_loop.simps
    by (intro wlp_bind [OF d] wlp_case_prod wlp_if) (auto intro!: wlp_mono [OF Cons.IH] intro: patched_trans)
qed

lemma program_relocate_patched: "wlp (bpf_program__relocate os p obj) (\<lambda>(err, p') w'. w' = w \<and> patched obj p p') w"
proof -
  have e: "wlp (case obj_btf_ext obj of None \<Rightarrow> ret (0, p) | Some ext \<Rightarrow> bpf_program_reloc_btf_ext os p obj ext (section_name p) 0)
      (\<lambda>(err, p') w'. w' = w \<and> patched obj p p') w"
    using reloc_btf_ext_patched by (auto split: option.split)
  show ?thesis
    unfolding bpf_program__relocate_def
    by (intro wlp_bind [OF e] wlp_case_prod wlp_if) (auto intro!: wlp_mono [OF reloc_loop_patched] intro: patched_trans)
qed

definition obj_patched :: "bpf_object \<Rightarrow> bpf_object \<Rightarrow> bool" where
  "obj_patched obj obj' \<longleftrightarrow> (\<exists>ps. obj' = obj\<lparr>programs := ps\<rparr> \<and> list_all2 (patched obj) (programs obj) ps)"

lemma relocate_from_patched: "wlp (relocate_from os i n obj) (\<lambda>(err, obj') w'. w' = w \<and> obj_patched obj obj') w"
proof (induction n arbitrary: i obj)
  case 0
  have "obj = obj\<lparr>programs := programs obj\<rparr>" by simp
  then show ?case by (auto simp: obj_patched_def intro!: exI [of _ "programs obj"] list.rel_refl)
next
  case (Suc n)
  have same: "patched (obj\<lparr>programs := ps\<rparr>) = patched obj" for ps
    by (intro ext) (simp add: patched_def btf_number_def)
  have one: "obj_patched obj (obj\<lparr>programs := (programs obj)[i := p]\<rparr>)" if "patched obj (programs obj ! i) p" for p
    unfolding obj_patched_def
    by (rule exI [of _ "(programs obj)[i := p]"], cases "i < length (programs obj)")
       (use that in \<open>auto simp: list_all2_conv_all_nth nth_list_update\<close>)
  have trans: "obj_patched obj obj''" if o: "obj_patched obj obj'" "obj_patched obj' obj''" for obj' obj''
  proof -
    obtain ps where ps: "obj' = obj\<lparr>programs := ps\<rparr>" "list_all2 (patched obj) (programs obj) ps"
      using o(1) by (auto simp: obj_patched_def)
    obtain qs where qs: "obj'' = obj'\<lparr>programs := qs\<rparr>" "list_all2 (patched obj) ps qs"
      using o(2) by (auto simp: obj_patched_def ps(1) same)
    have "list_all2 (patched obj) (programs obj) qs" by (rule list_all2_trans [OF _ ps(2) qs(2)]) (rule patched_trans)
    then show ?thesis using ps(1) qs(1) by (auto simp: obj_patched_def)
  qed
  show ?case
    unfolding relocate_from.simps Let_def
    by (intro wlp_bind [OF program_relocate_patched] wlp_case_prod wlp_if)
       (use one trans in \<open>auto intro!: wlp_mono [OF Suc.IH]\<close>)
qed

text \<open>Between two stages: the object holds what has been opened for it.\<close>

definition stage_inv :: "int set \<Rightarrow> int set \<Rightarrow> int \<Rightarrow> bpf_object \<Rightarrow> 'w \<Rightarrow> bool" where
  "stage_inv B N err obj w \<longleftrightarrow> B \<inter> obj_fds obj = {} \<and> B \<subseteq> fds w \<and> fds w \<subseteq> B \<union> obj_fds obj \<and> (err = 0 \<longrightarrow> fds w = B \<union> obj_fds obj) \<and>
     list_all prog_sized (programs obj) \<and> btf_number obj = N \<and> set (map prog_btf_fd (programs obj)) \<subseteq> {-1} \<union> N"

definition ready :: "int set \<Rightarrow> int set \<Rightarrow> int \<Rightarrow> bpf_object \<Rightarrow> 'w \<Rightarrow> bool" where
  "ready B N err obj w \<longleftrightarrow> stage_inv B N err obj w \<and> list_all prog_unloaded (programs obj)"

lemma ready_maps: "list_all prog_unloaded (programs obj) \<Longrightarrow> obj_fds obj = open_fds (map map_fd (maps obj))"
  using unloaded_none(1) by (simp add: obj_fds_def)

lemma probe_ready:
  assumes "ready B N 0 obj w"
  shows "wlp (bpf_object__probe_caps os obj) (\<lambda>(err, obj') w'. ready B N err obj' w') w"
  unfolding bpf_object__probe_caps_def
  by (rule wlp_mono [OF probe_name_fds]) (use assms in \<open>clarsimp simp: ready_def stage_inv_def obj_fds_def btf_number_def\<close>)

lemma create_ready:
  assumes "ready B N 0 obj w"
  shows "wlp (bpf_object__create_maps os obj) (\<lambda>(err, obj') w'. ready B N err obj' w') w"
proof -
  have m: "maps_held B 0 ([] @ maps obj) w"
    using assms ready_maps [of obj] by (auto simp: ready_def stage_inv_def maps_held_def)
  have u: "obj_fds (obj\<lparr>maps := ms\<rparr>) = open_fds (map map_fd ms)" for ms
    using ready_maps [of "obj\<lparr>maps := ms\<rparr>"] assms by (simp add: ready_def)
  show ?thesis unfolding bpf_object__create_maps_def
    by (intro wlp_bind [OF create_maps_fds [OF m]] wlp_case_prod)
       (use assms u in \<open>auto simp: ready_def stage_inv_def maps_held_def btf_number_def\<close>)
qed

lemma patched_programs:
  assumes "list_all2 (patched obj) ps qs"
  shows "list_all prog_unloaded ps \<Longrightarrow> list_all prog_unloaded qs" "list_all prog_sized ps \<Longrightarrow> list_all prog_sized qs"
    "set (map prog_btf_fd qs) \<subseteq> set (map prog_btf_fd ps) \<union> btf_number obj"
    "(\<Union>p \<in> set qs. open_fds (inst_fds p)) = (\<Union>p \<in> set ps. open_fds (inst_fds p))"
  using assms by (induction ps qs rule: list_all2_induct) (auto simp: patched_def prog_unloaded_def prog_sized_def)

lemma relocate_ready:
  assumes "ready B N 0 obj w"
  shows "wlp (bpf_object__relocate os obj) (\<lambda>(err, obj') w'. ready B N err obj' w') w"
  unfolding bpf_object__relocate_def
proof (rule wlp_mono [OF relocate_from_patched], clarify)
  fix err obj' w'
  assume "obj_patched obj obj'"
  then obtain ps where ps: "obj' = obj\<lparr>programs := ps\<rparr>" "list_all2 (patched obj) (programs obj) ps"
    by (auto simp: obj_patched_def)
  note p = patched_programs [OF ps(2)]
  have "obj_fds obj' = obj_fds obj" "btf_number obj' = btf_number obj" using ps(1) p(4) by (simp_all add: obj_fds_def btf_number_def)
  moreover have "set (map prog_btf_fd ps) \<subseteq> {-1} \<union> N" using assms p(3) unfolding ready_def stage_inv_def by blast
  ultimately show "ready B N err obj' w" using assms ps(1) p(1,2) by (simp add: ready_def stage_inv_def)
qed

lemma load_progs_inv:
  assumes "ready B N 0 obj w"
  shows "wlp (bpf_object__load_progs os obj) (\<lambda>(err, obj') w'. stage_inv B N err obj' w') w"
proof -
  have u: "list_all prog_unloaded (programs obj)" using assms by (simp add: ready_def)
  show ?thesis unfolding bpf_object__load_progs_def
  proof (intro wlp_bind [OF load_progs_fds [OF u]] wlp_case_prod, clarsimp)
    fix err ps w'
    assume ps: "held (fds w) ps w'" "map prog_btf_fd ps = map prog_btf_fd (programs obj)"
    have "set (map prog_btf_fd ps) \<subseteq> {-1} \<union> N" using assms ps(2) by (simp add: ready_def stage_inv_def del: set_map)
    then show "stage_inv B N err (obj\<lparr>programs := ps\<rparr>) w'"
      using assms ready_maps [OF u] ps(1) by (auto simp: ready_def stage_inv_def held_def obj_fds_def btf_number_def)
  qed
qed

lemma stages_bind:
  assumes "wlp (f obj) (\<lambda>(err, obj') w'. I err obj' w') w"
    and "\<And>obj' w'. I 0 obj' w' \<Longrightarrow> wlp (run_stages fs obj') Q w'" "\<And>err obj' w'. I err obj' w' \<Longrightarrow> Q (err, obj') w'"
  shows "wlp (run_stages (f # fs) obj) Q w"
  unfolding run_stages.simps using assms(2,3) by (intro wlp_bind [OF assms(1)] wlp_case_prod wlp_if) auto

lemma stages_inv:
  assumes "ready B N 0 obj w"
  shows "wlp (run_stages [bpf_object__probe_caps os, bpf_object__create_maps os, bpf_object__relocate os, bpf_object__load_progs os] obj)
    (\<lambda>(err, obj') w'. stage_inv B N err obj' w') w"
proof -
  have "ready B N err obj' w' \<Longrightarrow> stage_inv B N err obj' w'" for err obj' w' by (simp add: ready_def)
  then show ?thesis
    by (intro stages_bind [where f = "bpf_object__probe_caps os" and I = "ready B N", OF probe_ready [OF assms]]
        stages_bind [where f = "bpf_object__create_maps os" and I = "ready B N", OF create_ready]
        stages_bind [where f = "bpf_object__relocate os" and I = "ready B N", OF relocate_ready]
        stages_bind [where f = "bpf_object__load_progs os" and I = "stage_inv B N", OF load_progs_inv]) simp_all
qed

lemma load_object_fds:
  assumes "object_opened obj" "obj_fds obj \<subseteq> fds w" "\<not> loaded obj"
  shows "wlp (load_object os obj) (\<lambda>(err, obj') w'.
    if err = 0 then fds w' = (fds w - obj_fds obj) \<union> obj_fds obj' \<and> (fds w - obj_fds obj) \<inter> obj_fds obj' = {}
    else fds w - obj_fds obj - btf_number obj \<subseteq> fds w' \<and> fds w' \<subseteq> fds w - obj_fds obj) w"
proof -
  let ?B = "fds w - obj_fds obj" and ?N = "btf_number obj"
  have "obj_fds (obj\<lparr>loaded := True\<rparr>) = obj_fds obj" "btf_number (obj\<lparr>loaded := True\<rparr>) = ?N"
    by (simp_all add: obj_fds_def btf_number_def)
  moreover have "list_all prog_sized (programs obj)" "list_all prog_unloaded (programs obj)"
    using assms(1) by (auto simp: object_opened_def prog_unloaded_def list_all_iff)
  moreover have "set (map prog_btf_fd (programs obj)) \<subseteq> {-1} \<union> ?N"
    using assms(1) by (auto simp: object_opened_def list_all_iff)
  ultimately have r: "ready ?B ?N 0 (obj\<lparr>loaded := True\<rparr>) w"
    using assms(2) unfolding ready_def stage_inv_def by auto
  have fail: "wlp (bpf_object__unload os obj') (\<lambda>_ w''. ?B - ?N \<subseteq> fds w'' \<and> fds w'' \<subseteq> ?B) w'"
    if "stage_inv ?B ?N err obj' w'" for err obj' w'
  proof (rule wlp_mono [OF unload_fds])
    show "list_all prog_sized (programs obj')" using that by (simp add: stage_inv_def)
    have "open_fds (map prog_btf_fd (programs obj')) \<subseteq> ?N" using that by (auto simp: stage_inv_def open_fds_def)
    then show "?B - ?N \<subseteq> fds w'' \<and> fds w'' \<subseteq> ?B"
      if "fds w'' = fds w' - obj_fds obj' - open_fds (map prog_btf_fd (programs obj'))" for w''
      using that \<open>stage_inv ?B ?N err obj' w'\<close> unfolding stage_inv_def by blast
  qed
  show ?thesis
    unfolding load_object_def if_not_P [OF assms(3)]
    by (intro wlp_bind [OF stages_inv [OF r]] wlp_case_prod wlp_if wlp_bind [OF fail]) (auto simp: stage_inv_def)
qed

end

text \<open>
  C40. \<open>bpf_object__load\<close> keeps track of its descriptors. If the kernel gives every new descriptor a number that is
  not in use and \<open>close\<close> ends the use of a number, then after a successful load the descriptors in use are those of
  others and those the object records, and after a failure in any stage, in any map, program or instance, all that was
  opened is closed again, with the descriptors the object had before. Only the descriptor of the type
  information may be closed in addition.
\<close>

theorem load_leaks_no_descriptor:
  assumes "fd_table os fds" "object_opened obj" "\<not> loaded obj" "obj_fds obj \<subseteq> fds w"
    and "bpf_object__load os (Some obj) w = (Return (err, Some obj'), w')"
  shows "if err = 0 then fds w' = (fds w - obj_fds obj) \<union> obj_fds obj' \<and> (fds w - obj_fds obj) \<inter> obj_fds obj' = {}
    else fds w - obj_fds obj - btf_number obj \<subseteq> fds w' \<and> fds w' \<subseteq> fds w - obj_fds obj"
proof -
  have "load_object os obj w = (Return (err, obj'), w')"
    using assms(5) by (auto simp: bpf_object__load_def andthen_eq_Return prog_simps)
  then show ?thesis using wlpD [OF fd_table.load_object_fds [OF assms(1,2,4,3)]] by fastforce
qed

section \<open>A kernel\<close>

text \<open>The descriptors in use, as a list. A map without entries and a program with another license than GPL are refused.\<close>

definition fresh_fd :: "int list \<Rightarrow> int" where
  "fresh_fd l = fold max l 2 + 1"

definition load_ok :: "int \<Rightarrow> string \<Rightarrow> load_answer" where
  "load_ok fd msg = \<lparr> la_fd = fd, la_func_info_rec_size = 0, la_line_info_rec_size = 0, la_log = msg \<rparr>"

definition list_bpf :: "int list bpf_os" where
  "list_bpf = \<lparr> host_bo = LittleEndian, sys_errno = (\<lambda>w. EINVAL), sys_malloc = (\<lambda>w n. True),
     sys_map_create = (\<lambda>w a. if mc_max_entries a = 0 then (-1, w) else (fresh_fd w, fresh_fd w # w)),
     sys_prog_load = (\<lambda>w a. if pl_license a \<noteq> ''GPL'' then (load_ok (-1) ''refused'', w) else (load_ok (fresh_fd w) [], fresh_fd w # w)),
     sys_btf_load = (\<lambda>w d l. (-1, w)), sys_elem = (\<lambda>w c a. ((-1, []), w)), sys_attach = (\<lambda>w f a. (-1, w)),
     sys_close = (\<lambda>w fd. (if fd \<in> set w then 0 else -1, removeAll fd w)) \<rparr>"

lemma fold_max_ge: "b \<le> fold max l (b :: int)" "x \<in> set l \<Longrightarrow> x \<le> fold max l b"
proof (induction l arbitrary: b)
  case (Cons y l)
  { case 1 show ?case using Cons(1) [of "max y b"] by simp }
  { case 2 then show ?case using Cons(1) [of "max y b"] Cons(2) [of "max y b"] by auto }
qed simp_all

lemma fresh_fd_new: "fresh_fd l \<notin> set l" "fresh_fd l \<ge> 0"
  using fold_max_ge [of 2 l] fold_max_ge(2) [of "fold max l 2 + 1" l 2] by (auto simp: fresh_fd_def)

interpretation list_fds: fd_table list_bpf set
  by unfold_locales (use fresh_fd_new in \<open>auto simp: list_bpf_def load_ok_def split: if_splits\<close>)

lemma list_bpf_load:
  "prog_load_loop list_bpf a w =
     (let ans = (if pl_license a \<noteq> ''GPL'' then load_ok (-1) ''refused'' else load_ok (fresh_fd w) []) in
      Some ((ans, a\<lparr>pl_func_info_rec_size := 0, pl_line_info_rec_size := 0\<rparr>), if pl_license a \<noteq> ''GPL'' then w else fresh_fd w # w))"
  by (simp add: prog_load_loop.simps list_bpf_def load_ok_def EINVAL_def EAGAIN_def)

lemma list_bpf_sys: "sys_bpf_prog_load list_bpf a w =
    (if pl_license a = ''GPL''
     then (Return (load_ok (fresh_fd w) [], a\<lparr>pl_func_info_rec_size := 0, pl_line_info_rec_size := 0\<rparr>), fresh_fd w # w)
     else (Return (load_ok (-1) ''refused'', a\<lparr>pl_func_info_rec_size := 0, pl_line_info_rec_size := 0\<rparr>), w))"
  by (simp add: sys_bpf_prog_load_def list_bpf_load Let_def)

lemma list_bpf_simps:
  "close_fd list_bpf fd w = (Return (if fd \<in> set w then 0 else -1), removeAll fd w)"
  "malloc list_bpf n w = (Return True, w)"
  "get_errno list_bpf w = (Return EINVAL, w)"
  by (simp_all add: close_fd_def malloc_def get_errno_def list_bpf_def call_def)

lemma list_bpf_xattr:
  assumes "lp_log_level la = 0" "buf \<longleftrightarrow> n \<noteq> 0"
  shows "bpf_load_program_xattr list_bpf (Some la) buf n w =
    (if lp_license la = ''GPL'' then (Return (fresh_fd w, None), fresh_fd w # w)
     else (Return (-1, if buf then Some ''refused'' else None), w))"
proof -
  have "load_corrected list_bpf la False False ans a w = (Return (False, ans, a), w)" for ans a
    by (simp add: load_corrected.simps list_bpf_simps prog_simps EINVAL_def E2BIG_def)
  then show ?thesis
    using assms fresh_fd_new(2) [of w] by (simp add: bpf_load_program_xattr_def list_bpf_sys andthen_def load_attr_of_def load_ok_def log_of_def prog_simps)
qed

lemma list_bpf_program:
  assumes "instrs \<noteq> []"
  shows "load_program list_bpf p caps instrs lic kver w =
    (if lic = ''GPL'' then (Return (0, fresh_fd w), fresh_fd w # w) else (Return (- errno_code LIBBPF_ERRNO__VERIFY, -1), w))"
  using assms fresh_fd_new(2) [of w]
  by (simp add: load_program_def list_bpf_simps andthen_def list_bpf_xattr prog_attr_def BPF_LOG_BUF_SIZE_def prog_simps del: errno_code.simps)

lemma list_bpf_probe: "bpf_object__probe_caps list_bpf obj w = (Return (0, obj\<lparr>caps_name := True\<rparr>), w)"
  using fresh_fd_new [of w]
  by (simp add: bpf_object__probe_caps_def bpf_object__probe_name_def list_bpf_xattr list_bpf_simps andthen_def zero_load_attr_def prog_simps)

definition refused_object :: bpf_object where
  "refused_object = sample_object\<lparr>license := ''none''\<rparr>"

text \<open>The sample object with what it holds after its map has been created.\<close>

definition map_created :: "bpf_object \<Rightarrow> bpf_object" where
  "map_created obj = obj\<lparr>loaded := True, caps_name := True, maps := [connections_map\<lparr>map_fd := 3\<rparr>]\<rparr>"

lemma sample_stages:
  assumes "obj \<in> {sample_object, refused_object}"
  shows "bpf_object__create_maps list_bpf (obj\<lparr>loaded := True, caps_name := True\<rparr>) [2, 1, 0] = (Return (0, map_created obj), [3, 2, 1, 0])"
    "bpf_object__relocate list_bpf (map_created obj) w = (Return (0, map_created obj), w)"
  using assms
  by (auto simp: map_created_def sample_object_def refused_object_def bpf_object__create_maps_def create_map_def Let_def andthen_def
      bpf_create_map_xattr_def list_bpf_def prog_simps connections_map_def set_create_attr_def zero_create_attr_def fresh_fd_def
      bpf_object__relocate_def bpf_program__relocate_def sample_program_def)

definition tried :: "bpf_object \<Rightarrow> int \<Rightarrow> bpf_object" where
  "tried obj fd = (map_created obj)\<lparr>programs := [sample_program\<lparr>inst_nr := 1, inst_fds := [fd], insns := []\<rparr>]\<rparr>"

lemma sample_load_progs:
  "bpf_object__load_progs list_bpf (map_created sample_object) w = (Return (0, tried sample_object (fresh_fd w)), fresh_fd w # w)"
  "bpf_object__load_progs list_bpf (map_created refused_object) w =
     (Return (- errno_code LIBBPF_ERRNO__VERIFY, tried refused_object (-1)), w)"
  by (simp_all add: bpf_object__load_progs_def map_created_def sample_object_def refused_object_def bpf_program__is_function_storage_def
      sample_program_def bpf_program__load_def alloc_instance_def list_bpf_simps list_bpf_program andthen_def prog_simps tried_def
      LIBBPF_ERRNO__START_def)

lemma sample_load_object:
  "load_object list_bpf sample_object [2, 1, 0] = (Return (0, tried sample_object 4), [4, 3, 2, 1, 0])"
  "\<exists>err obj' w'. load_object list_bpf refused_object [2, 1, 0] = (Return (err, obj'), w') \<and> err \<noteq> 0"
proof -
  have not_loaded: "\<not> loaded sample_object" "\<not> loaded refused_object" by (simp_all add: sample_object_def refused_object_def)
  have four: "fresh_fd [3, 2, 1, 0] = 4" by (simp add: fresh_fd_def)
  show "load_object list_bpf sample_object [2, 1, 0] = (Return (0, tried sample_object 4), [4, 3, 2, 1, 0])"
    by (simp add: load_object_def not_loaded list_bpf_probe sample_stages sample_load_progs andthen_def prog_simps four)
  obtain obj' w' where u: "bpf_object__unload list_bpf (tried refused_object (-1)) [3, 2, 1, 0] = (Return obj', w')"
    by (simp add: bpf_object__unload_def tried_def map_created_def connections_map_def sample_program_def
        bpf_program__unload_def zclose_def list_bpf_simps andthen_def prog_simps)
  have "load_object list_bpf refused_object [2, 1, 0] = (Return (- errno_code LIBBPF_ERRNO__VERIFY, obj'), w')"
    by (simp add: load_object_def not_loaded list_bpf_probe sample_stages sample_load_progs andthen_def prog_simps u
        LIBBPF_ERRNO__START_def)
  then show "\<exists>err obj' w'. load_object list_bpf refused_object [2, 1, 0] = (Return (err, obj'), w') \<and> err \<noteq> 0"
    by (auto simp: LIBBPF_ERRNO__START_def)
qed

theorem load_leaks_no_descriptor_witness:
  "(\<exists>obj' w'. bpf_object__load list_bpf (Some sample_object) [2, 1, 0] = (Return (0, Some obj'), w') \<and>
     set w' = {2, 1, 0} \<union> obj_fds obj' \<and> obj_fds obj' = {3, 4}) \<and>
   (\<exists>err obj' w'. bpf_object__load list_bpf (Some refused_object) [2, 1, 0] = (Return (err, Some obj'), w') \<and>
     err \<noteq> 0 \<and> set w' = {2, 1, 0})"
proof
  have opened: "object_opened obj" "\<not> loaded obj" "obj_fds obj = {}" "btf_number obj = {}" if "obj \<in> {sample_object, refused_object}" for obj
    using that by (auto simp: object_opened_def prog_unloaded_def prog_sized_def sample_object_def refused_object_def sample_program_def
        obj_fds_def connections_map_def btf_number_def)
  have ok: "bpf_object__load list_bpf (Some sample_object) [2, 1, 0] = (Return (0, Some (tried sample_object 4)), [4, 3, 2, 1, 0])"
    by (simp add: bpf_object__load_def andthen_def sample_load_object(1) prog_simps)
  have "obj_fds (tried sample_object 4) = {3, 4}"
    by (auto simp: obj_fds_def tried_def map_created_def connections_map_def sample_program_def)
  then show "\<exists>obj' w'. bpf_object__load list_bpf (Some sample_object) [2, 1, 0] = (Return (0, Some obj'), w') \<and>
     set w' = {2, 1, 0} \<union> obj_fds obj' \<and> obj_fds obj' = {3, 4}"
    using load_leaks_no_descriptor [OF list_fds.fd_table_axioms opened(1,2) _ ok] ok opened(3) [of sample_object] by auto
  obtain err obj' w' where "load_object list_bpf refused_object [2, 1, 0] = (Return (err, obj'), w')" "err \<noteq> 0"
    using sample_load_object(2) by blast
  then have no: "bpf_object__load list_bpf (Some refused_object) [2, 1, 0] = (Return (err, Some obj'), w')" "err \<noteq> 0"
    by (simp_all add: bpf_object__load_def andthen_def prog_simps)
  then show "\<exists>err obj' w'. bpf_object__load list_bpf (Some refused_object) [2, 1, 0] = (Return (err, Some obj'), w') \<and>
     err \<noteq> 0 \<and> set w' = {2, 1, 0}"
    using load_leaks_no_descriptor [OF list_fds.fd_table_axioms opened(1,2) _ no(1)] opened(3,4) [of refused_object] by auto
qed

end
