(* ===== verification/Load_Prog.thy ===== *)
theory Load_Prog
  imports Pinning Load_Fds
begin

text \<open>
  Loading an object file: \<open>bpf_map__reuse_fd\<close> and \<open>bpf_prog_load_xattr\<close> of \<open>src/libbpf/src/libbpf.c\<close>, and the variant
  \<open>bpf_prog_load_xattr_maps\<close> of \<open>src/common/common_libbpf.c\<close> that reuses pinned maps.

  Reading the ELF file, which is up to libelf, is the member \<open>open_xattr\<close> of \<open>load_os\<close>; the other members are the
  calls the code makes itself, with \<open>bpf\<close> for those of \<open>Obj_Load\<close>. An access to memory the code does not own, through a
  null pointer or to a name that has been freed, is a fault.
\<close>

record map_info =
  info_type :: u32
  info_key_size :: u32
  info_value_size :: u32
  info_max_entries :: u32
  info_map_flags :: u32
  info_name :: string
  info_btf_key_type_id :: u32
  info_btf_value_type_id :: u32

record 'w load_os =
  bpf :: "'w bpf_os"
  open_xattr :: "'w \<Rightarrow> string \<Rightarrow> bpf_prog_type \<Rightarrow> bpf_object option \<times> 'w"
  obj_get :: "'w \<Rightarrow> string \<Rightarrow> int \<times> 'w"
  info_by_fd :: "'w \<Rightarrow> int \<Rightarrow> int \<times> map_info"
  open_root :: "'w \<Rightarrow> int \<times> 'w"
  dup3 :: "'w \<Rightarrow> int \<Rightarrow> int \<Rightarrow> int \<times> 'w"

section \<open>\<open>bpf_prog_load_xattr\<close>\<close>

record bpf_prog_load_attr =
  attr_file :: "string option"
  attr_prog_type :: bpf_prog_type
  attr_expected_attach_type :: bpf_attach_type
  attr_ifindex :: int

text \<open>The body of the first loop for one program: \<open>None\<close> when the type cannot be guessed.\<close>

definition prep_program :: "bpf_prog_load_attr \<Rightarrow> bpf_program \<Rightarrow> bpf_program option" where
  "prep_program attr p =
     (let p = p\<lparr>prog_ifindex := attr_ifindex attr\<rparr> in
      do { (t, e) \<leftarrow>
             (if attr_prog_type attr = BPF_PROG_TYPE_UNSPEC
              then snd (libbpf_prog_type_by_name (Some (section_name p)))
              else Some (attr_prog_type attr, attr_expected_attach_type attr));
           Some (bpf_program__set_expected_attach_type e (bpf_program__set_type t p)) })"

fun prep_programs :: "(bpf_program \<Rightarrow> bpf_program option) \<Rightarrow> bpf_object \<Rightarrow> bpf_program list \<Rightarrow> bpf_program list option" where
  "prep_programs f obj [] = Some []"
| "prep_programs f obj (p # ps) =
     do { p \<leftarrow> (if bpf_program__is_function_storage p obj then Some p else f p);
          ps \<leftarrow> prep_programs f obj ps;
          Some (p # ps) }"

definition prep_map :: "int \<Rightarrow> bpf_map \<Rightarrow> bpf_map" where
  "prep_map ifindex m = (if \<not> bpf_map__is_offload_neutral m then bpf_map__set_ifindex ifindex m else m)"

text \<open>The end of both functions: without a program the object is closed, otherwise it is loaded; the
  result is the error, the object and the descriptor of its first program.\<close>

type_synonym load_result = "int \<times> (bpf_object \<times> int) option"

definition first_fd :: "bpf_object \<Rightarrow> nat option \<Rightarrow> int option" where
  "first_fd obj first_prog =
     bpf_program__fd (case first_prog of None \<Rightarrow> None | Some i \<Rightarrow> Some (programs obj ! i))"

definition load_prepared :: "'w load_os \<Rightarrow> bpf_object \<Rightarrow> nat option \<Rightarrow> ('w, load_result) prog" where
  "load_prepared os obj first_prog =
     (if first_prog = None then andthen (bpf_object__close (bpf os) obj) (\<lambda>_. ret (- ENOENT, None))
      else
      andthen (bpf_object__load (bpf os) (Some obj)) (\<lambda>(err, loaded_obj).
      andthen (from_option loaded_obj) (\<lambda>obj.
      if err \<noteq> 0 then andthen (bpf_object__close (bpf os) obj) (\<lambda>_. ret (- EINVAL, None))
      else andthen (from_option (first_fd obj first_prog)) (\<lambda>fd. ret (0, Some (obj, fd))))))"

definition bpf_prog_load_xattr :: "'w load_os \<Rightarrow> bpf_prog_load_attr option \<Rightarrow> ('w, load_result) prog" where
  "bpf_prog_load_xattr os attr =
     (case attr of
        None \<Rightarrow> fault
      | Some attr \<Rightarrow>
     (case attr_file attr of
        None \<Rightarrow> ret (- EINVAL, None)
      | Some file \<Rightarrow>
     andthen (call (\<lambda>w. open_xattr os w file (attr_prog_type attr))) (\<lambda>opened.
     case opened of
        None \<Rightarrow> ret (- ENOENT, None)
      | Some obj \<Rightarrow>
     (case prep_programs (prep_program attr) obj (programs obj) of
        None \<Rightarrow> andthen (bpf_object__close (bpf os) obj) (\<lambda>_. ret (- EINVAL, None))
      | Some ps \<Rightarrow>
          load_prepared os (obj\<lparr>programs := ps, maps := map (prep_map (attr_ifindex attr)) (for_each_map obj)\<rparr>)
            (bpf_program__next None obj)))))"

definition bpf_prog_load :: "'w load_os \<Rightarrow> string \<Rightarrow> bpf_prog_type \<Rightarrow> ('w, load_result) prog" where
  "bpf_prog_load os file t =
     bpf_prog_load_xattr os (Some \<lparr> attr_file = Some file, attr_prog_type = t,
       attr_expected_attach_type = no_attach_type, attr_ifindex = 0 \<rparr>)"

section \<open>Reusing pinned maps\<close>

text \<open>\<open>bpf_map__reuse_fd\<close>. When \<open>dup3\<close> fails, \<open>close\<close> gets its negative result and the descriptor of the root directory
  stays open. The error is the one that is set after the clean-up.\<close>

definition bpf_map__reuse_fd :: "'w load_os \<Rightarrow> bpf_map \<Rightarrow> int \<Rightarrow> ('w, int \<times> bpf_map) prog" where
  "bpf_map__reuse_fd os m fd =
     andthen (call (\<lambda>w. (info_by_fd os w fd, w))) (\<lambda>(err, info).
     if err \<noteq> 0 then ret (err, m)
     else andthen (malloc (bpf os) (length (info_name info) + 1)) (\<lambda>ok.
     if \<not> ok then ret (- ENOMEM, m)
     else andthen (call (open_root os)) (\<lambda>root_fd.
     if root_fd < 0 then andthen (get_errno (bpf os)) (\<lambda>e. ret (- e, m))
     else andthen (call (\<lambda>w. dup3 os w fd root_fd)) (\<lambda>new_fd.
     if new_fd < 0
     then andthen (close_fd (bpf os) new_fd) (\<lambda>_. andthen (get_errno (bpf os)) (\<lambda>e. ret (- e, m)))
     else andthen (zclose (bpf os) (map_fd m)) (\<lambda>err.
     if err \<noteq> 0
     then andthen (close_fd (bpf os) new_fd) (\<lambda>_. andthen (get_errno (bpf os)) (\<lambda>e. ret (- e, m\<lparr>map_fd := -1\<rparr>)))
     else ret (0, m\<lparr>map_fd := new_fd, map_name := info_name info,
            map_def := (map_def m)\<lparr>def_type := info_type info, def_key_size := info_key_size info,
              def_value_size := info_value_size info, def_max_entries := info_max_entries info,
              def_map_flags := info_map_flags info\<rparr>,
            btf_key_type_id := info_btf_key_type_id info, btf_value_type_id := info_btf_value_type_id info\<rparr>))))))"

record bpf_pinned_map =
  pm_name :: string
  pm_filename :: string
  pm_map_fd :: int

text \<open>The inner loop over the requests for one map. \<open>mapname\<close> was read before the loop;
  \<open>bpf_map__reuse_fd\<close> frees it when it succeeds, and a comparison with it afterwards reads freed
  memory.\<close>

fun reuse_pinned ::
  "'w load_os \<Rightarrow> string \<Rightarrow> bool \<Rightarrow> bpf_pinned_map list \<Rightarrow> bpf_map \<Rightarrow> ('w, bpf_map \<times> bpf_pinned_map list) prog" where
  "reuse_pinned os mapname freed [] m = ret (m, [])"
| "reuse_pinned os mapname freed (p # ps) m =
     (if freed then fault
      else if mapname \<noteq> pm_name p
      then andthen (reuse_pinned os mapname freed ps m) (\<lambda>(m, ps). ret (m, p # ps))
      else andthen (call (\<lambda>w. obj_get os w (pm_filename p))) (\<lambda>fd.
        if fd > 0
        then andthen (bpf_map__reuse_fd os m fd) (\<lambda>(err, m).
             andthen (reuse_pinned os mapname (err = 0) ps m) (\<lambda>(m, ps). ret (m, p\<lparr>pm_map_fd := fd\<rparr> # ps)))
        else andthen (reuse_pinned os mapname freed ps m) (\<lambda>(m, ps). ret (m, p # ps))))"

fun reuse_all ::
  "'w load_os \<Rightarrow> int \<Rightarrow> bpf_map list \<Rightarrow> bpf_pinned_map list \<Rightarrow> ('w, bpf_map list \<times> bpf_pinned_map list) prog" where
  "reuse_all os ifindex [] pins = ret ([], pins)"
| "reuse_all os ifindex (m # ms) pins =
     andthen (reuse_pinned os (map_name m) False pins (prep_map ifindex m)) (\<lambda>(m, pins).
     andthen (reuse_all os ifindex ms pins) (\<lambda>(ms, pins). ret (m # ms, pins)))"

text \<open>The second pair of loops: pin the maps that were requested and not found.\<close>

fun pin_requests :: "'w fs_os \<Rightarrow> bpf_map \<Rightarrow> bpf_pinned_map list \<Rightarrow> ('w, bpf_pinned_map list) prog" where
  "pin_requests fs m [] = ret []"
| "pin_requests fs m (p # ps) =
     andthen (if map_name m \<noteq> pm_name p \<or> pm_map_fd p \<noteq> -1 then ret p
              else andthen (call (bpf_map__pin fs (Some m) (pm_filename p))) (\<lambda>err.
                   ret (if err \<noteq> 0 then p else p\<lparr>pm_map_fd := bpf_map__fd (Some m)\<rparr>))) (\<lambda>p.
     andthen (pin_requests fs m ps) (\<lambda>ps. ret (p # ps)))"

fun pin_missing :: "'w fs_os \<Rightarrow> bpf_map list \<Rightarrow> bpf_pinned_map list \<Rightarrow> ('w, bpf_pinned_map list) prog" where
  "pin_missing fs [] pins = ret pins"
| "pin_missing fs (m # ms) pins = andthen (pin_requests fs m pins) (pin_missing fs ms)"

record bpf_prog_load_attr_maps = bpf_prog_load_attr +
  pinned_maps :: "bpf_pinned_map list"

definition set_all :: "bpf_prog_load_attr_maps \<Rightarrow> bpf_program \<Rightarrow> bpf_program option" where
  "set_all attr p =
     Some (bpf_program__set_expected_attach_type (attr_expected_attach_type attr)
       (bpf_program__set_type (attr_prog_type attr) (bpf_program__set_ifindex (attr_ifindex attr) p)))"

text \<open>The array of requests is the caller's: its new content is part of the result.\<close>

definition bpf_prog_load_xattr_maps ::
  "'w load_os \<Rightarrow> 'w fs_os \<Rightarrow> bpf_prog_load_attr_maps option \<Rightarrow> ('w, load_result \<times> bpf_pinned_map list) prog" where
  "bpf_prog_load_xattr_maps os fs attr =
     (case attr of
        None \<Rightarrow> fault
      | Some attr \<Rightarrow>
     (case attr_file attr of
        None \<Rightarrow> ret ((- EINVAL, None), pinned_maps attr)
      | Some file \<Rightarrow>
     andthen (call (\<lambda>w. open_xattr os w file (attr_prog_type attr))) (\<lambda>opened.
     case opened of
        None \<Rightarrow> ret ((- ENOENT, None), pinned_maps attr)
      | Some obj \<Rightarrow>
          andthen (from_option (prep_programs (set_all attr) obj (programs obj))) (\<lambda>ps.
          andthen (reuse_all os (attr_ifindex attr) (for_each_map obj) (map (\<lambda>p. p\<lparr>pm_map_fd := -1\<rparr>) (pinned_maps attr))) (\<lambda>(ms, pins).
          let first_prog = bpf_program__next None obj;
              obj = obj\<lparr>programs := ps, maps := ms\<rparr>
          in
          if first_prog = None then andthen (bpf_object__close (bpf os) obj) (\<lambda>_. ret ((- ENOENT, None), pins))
          else
          andthen (bpf_object__load (bpf os) (Some obj)) (\<lambda>(err, loaded_obj).
          andthen (from_option loaded_obj) (\<lambda>obj.
          if err \<noteq> 0 then andthen (bpf_object__close (bpf os) obj) (\<lambda>_. ret ((- EINVAL, None), pins))
          else andthen (pin_missing fs (for_each_map obj) pins) (\<lambda>pins.
          andthen (from_option (first_fd obj first_prog)) (\<lambda>fd. ret ((0, Some (obj, fd)), pins))))))))))"

section \<open>The two loaders\<close>

lemma prep_programs_agree:
  assumes "attr_prog_type attr \<noteq> BPF_PROG_TYPE_UNSPEC"
  shows "prep_programs (set_all attr) obj ps =
     prep_programs (prep_program (bpf_prog_load_attr.truncate attr)) obj ps"
proof (induction ps)
  case (Cons p ps)
  have "set_all attr p = prep_program (bpf_prog_load_attr.truncate attr) p"
    using assms by (simp add: set_all_def prep_program_def bpf_prog_load_attr.truncate_def Let_def
        bpf_program__set_ifindex_def)
  then show ?case using Cons by simp
qed simp

lemma reuse_none: "reuse_all os ifindex ms [] = ret (map (prep_map ifindex) ms, [])"
  by (induction ms) simp_all

lemma pin_missing_none: "pin_missing fs ms [] = ret []"
  by (induction ms) simp_all

text \<open>
  The loader of \<open>common_libbpf.c\<close> is the one of libbpf when no pinned map is requested and the program
  type is given, as its comment says: same error, same object, same descriptor, same effects.
\<close>

theorem load_xattr_maps_agrees:
  assumes "attr_prog_type attr \<noteq> BPF_PROG_TYPE_UNSPEC" "pinned_maps attr = []"
  shows "bpf_prog_load_xattr_maps os fs (Some attr) =
     andthen (bpf_prog_load_xattr os (Some (bpf_prog_load_attr.truncate attr))) (\<lambda>r. ret (r, []))"
proof (cases "attr_file attr")
  case None
  then show ?thesis
    using assms(2) by (simp add: bpf_prog_load_xattr_maps_def bpf_prog_load_xattr_def bpf_prog_load_attr.truncate_def)
next
  case (Some f)
  have t: "attr_file (bpf_prog_load_attr.truncate attr) = attr_file attr"
    "attr_prog_type (bpf_prog_load_attr.truncate attr) = attr_prog_type attr"
    "attr_ifindex (bpf_prog_load_attr.truncate attr) = attr_ifindex attr"
    by (simp_all add: bpf_prog_load_attr.truncate_def)
  have "prep_programs (set_all attr) obj l \<noteq> None" for obj l
    by (induction l) (auto simp: set_all_def)
  moreover define qs where "qs obj l = the (prep_programs (set_all attr) obj l)" for obj l
  ultimately have ps: "prep_programs (set_all attr) obj l = Some (qs obj l)" for obj l by simp
  have ps': "prep_programs (prep_program (bpf_prog_load_attr.truncate attr)) obj l = Some (qs obj l)" for obj l
    using ps [of obj l] prep_programs_agree [OF assms(1), of obj l] by simp
  show ?thesis
    unfolding bpf_prog_load_xattr_maps_def bpf_prog_load_xattr_def
    by (simp add: Some t assms(2) andthen_assoc, rule andthen_cong)
       (simp add: ps ps' t prog_eval(6) reuse_none pin_missing_none load_prepared_def andthen_if andthen_assoc case_prod_unfold Let_def cong: if_cong
          split: option.split)
qed

lemma reuse_fd_safe: "safe (bpf_map__reuse_fd os m fd)"
  unfolding bpf_map__reuse_fd_def zclose_def close_fd_def malloc_def get_errno_def
  by (auto intro!: safe_andthen safe_intros split: prod.split)

lemma reuse_pinned_single: "length pins \<le> 1 \<Longrightarrow> safe (reuse_pinned os name False pins m)"
  by (cases pins) (auto intro!: safe_andthen safe_intros reuse_fd_safe split: prod.split)


lemma reuse_pinned_length:
  "reuse_pinned os name freed pins m w = (Return (m', pins'), w') \<Longrightarrow> length pins' = length pins"
proof (induction pins arbitrary: freed m w m' pins' w')
  case (Cons p ps)
  then show ?case by (auto simp: andthen_eq_Return prog_simps split: if_splits prod.splits)
qed (simp add: prog_simps)

lemma reuse_all_single: "length pins \<le> 1 \<Longrightarrow> safe (reuse_all os ifindex ms pins)"
proof (induction ms arbitrary: pins)
  case (Cons m ms)
  show ?case unfolding safe_def
  proof
    fix w
    obtain r w1 where r: "reuse_pinned os (map_name m) False pins (prep_map ifindex m) w = (r, w1)" by fastforce
    then have "r \<noteq> Fault" using reuse_pinned_single [OF Cons.prems] unfolding safe_def by (metis fst_conv)
    moreover have "fst (reuse_all os ifindex ms pins' w1) \<noteq> Fault" if "r = Return (m', pins')" for m' pins'
      using that r Cons.IH [of pins'] Cons.prems reuse_pinned_length [of os "map_name m" False pins _ w] by (auto simp: safe_def)
    ultimately show "fst (reuse_all os ifindex (m # ms) pins w) \<noteq> Fault"
      using r by (auto simp: andthen_def ret_def split: outcome.splits prod.splits)
  qed
qed (simp add: safe_intros)


section \<open>Samples\<close>

text \<open>A system where every file is the filter and every pinned file opens as descriptor 9.\<close>

definition sample_load_os :: "int list load_os" where
  "sample_load_os = \<lparr> bpf = list_bpf, open_xattr = \<lambda>w f t. (Some sample_object, w), obj_get = \<lambda>w path. (9, w),
     info_by_fd = \<lambda>w fd. (0, \<lparr> info_type = 11, info_key_size = 12, info_value_size = 1, info_max_entries = 1000,
       info_map_flags = 0, info_name = ''connections_tab'', info_btf_key_type_id = 0, info_btf_value_type_id = 0 \<rparr>),
     open_root = \<lambda>w. (10, w), dup3 = \<lambda>w fd new_fd. (new_fd, w) \<rparr>"

definition sample_attr :: "bpf_pinned_map list \<Rightarrow> bpf_prog_load_attr_maps" where
  "sample_attr pins = \<lparr> attr_file = Some ''syncookie.o'', attr_prog_type = BPF_PROG_TYPE_XDP,
     attr_expected_attach_type = no_attach_type, attr_ifindex = 0, pinned_maps = pins \<rparr>"

definition sample_fs :: "int list fs_os" where
  "sample_fs = \<lparr> strdup_ok = True, statfs = \<lambda>d. (0, BPF_FS_MAGIC), obj_pin = \<lambda>w fd p. (0, w),
     unlink_path = \<lambda>w p. (0, w), mkdir_700 = \<lambda>w p. (0, w), rmdir_path = \<lambda>w p. (0, w) \<rparr>"

theorem load_xattr_maps_agrees_witness:
  "attr_prog_type (sample_attr []) \<noteq> BPF_PROG_TYPE_UNSPEC \<and>
   bpf_prog_load_xattr_maps sample_load_os sample_fs (Some (sample_attr [])) =
     andthen (bpf_prog_load_xattr sample_load_os (Some (bpf_prog_load_attr.truncate (sample_attr [])))) (\<lambda>r. ret (r, []))"
proof
  show t: "attr_prog_type (sample_attr []) \<noteq> BPF_PROG_TYPE_UNSPEC" by (simp add: sample_attr_def)
  have "pinned_maps (sample_attr []) = []" by (simp add: sample_attr_def)
  from load_xattr_maps_agrees [OF t this] show "bpf_prog_load_xattr_maps sample_load_os sample_fs (Some (sample_attr [])) =
     andthen (bpf_prog_load_xattr sample_load_os (Some (bpf_prog_load_attr.truncate (sample_attr [])))) (\<lambda>r. ret (r, []))" .
qed

definition pin_request :: "string \<Rightarrow> bpf_pinned_map" where
  "pin_request n = \<lparr> pm_name = n, pm_filename = ''/sys/fs/bpf/'' @ n, pm_map_fd = -1 \<rparr>"


end
