(* ===== verification/Params.thy ===== *)
theory Params
  imports Uapi Process
begin

text \<open>
  Command lines: \<open>src/common/common_params.c\<close>, the configuration of \<open>src/common/common_defines.h\<close> and
  the option tables of the two programs of \<open>src/loader\<close>.

  An array of options is a list whose end is the entry without a name (\<open>None\<close>); reading on past a list
  without such an entry is \<open>None\<close>. \<open>getopt_long\<close> is the C library's, with its defaults (arguments are
  permuted, a long name may be abbreviated, errors give \<open>?\<close>): \<open>getopt_events\<close> is the sequence of its
  results. \<open>option_wrappers_to_options\<close> allocates no room for the closing entry, so \<open>getopt_long\<close>
  reads on behind the allocation; what it finds there before the next entry without a name is the
  parameter \<open>behind\<close>. The pointer members \<open>ifname\<close> and \<open>redirect_ifname\<close> are \<open>NULL\<close> or point to the
  buffer of the same record.
\<close>

section \<open>Option tables\<close>

record opt_entry =
  opt_name :: "string option"
  opt_has_arg :: bool
  opt_val :: int

record option_wrapper =
  wr_option :: opt_entry
  wr_help :: "string option"
  wr_metavar :: "string option"
  wr_required :: bool

definition named_opt :: "string \<Rightarrow> bool \<Rightarrow> int \<Rightarrow> string \<Rightarrow> string option \<Rightarrow> bool \<Rightarrow> option_wrapper" where
  "named_opt name arg v help metavar req =
     \<lparr> wr_option = \<lparr> opt_name = Some name, opt_has_arg = arg, opt_val = v \<rparr>, wr_help = Some help,
       wr_metavar = metavar, wr_required = req \<rparr>"

definition no_opt :: option_wrapper where
  "no_opt = \<lparr> wr_option = \<lparr> opt_name = None, opt_has_arg = False, opt_val = 0 \<rparr>, wr_help = None,
     wr_metavar = None, wr_required = False \<rparr>"

definition loader_options :: "option_wrapper list" where
  "loader_options =
     [named_opt ''help'' False (of_char CHR ''h'') ''Show help'' None False,
      named_opt ''dev'' True (of_char CHR ''d'') ''Operate on device <ifname>'' (Some ''<ifname>'') True,
      named_opt ''skb-mode'' False (of_char CHR ''S'') ''Install XDP program in SKB (AKA generic) mode'' None False,
      named_opt ''native-mode'' False (of_char CHR ''N'') ''Install XDP program in native mode'' None False,
      named_opt ''auto-mode'' False (of_char CHR ''A'') ''Auto-detect SKB or native mode'' None False,
      named_opt ''force'' False (of_char CHR ''F'') ''Force install, replacing existing program on interface'' None False,
      named_opt ''unload'' False (of_char CHR ''U'') ''Unload XDP program instead of loading'' None False,
      named_opt ''quiet'' False (of_char CHR ''q'') ''Quiet mode (no output)'' None False,
      named_opt ''filename'' True 1 ''Load program from <file>'' (Some ''<file>'') False,
      named_opt ''progsec'' True 2 ''Load program in <section> of the ELF file'' (Some ''<section>'') False,
      no_opt]"

definition stats_options :: "option_wrapper list" where
  "stats_options =
     [named_opt ''help'' False (of_char CHR ''h'') ''Show help'' None False,
      named_opt ''dev'' True (of_char CHR ''d'') ''Operate on device <ifname>'' (Some ''<ifname>'') True,
      named_opt ''quiet'' False (of_char CHR ''q'') ''Quiet mode (no output)'' None False,
      no_opt]"

text \<open>The entries before the closing one, when there is one.\<close>

fun named_options :: "option_wrapper list \<Rightarrow> option_wrapper list option" where
  "named_options [] = None"
| "named_options (w # ws) =
     (if opt_name (wr_option w) = None then Some []
      else do { ws \<leftarrow> named_options ws; Some (w # ws) })"

section \<open>The usage text\<close>

definition BUFSIZE :: nat where "BUFSIZE = 30"

text \<open>The buffer after the two \<open>snprintf\<close> calls of \<open>_print_options\<close>: the first returns the length of
  the whole text, so a long name moves the second call out of the buffer.\<close>

definition option_column :: "string \<Rightarrow> string option \<Rightarrow> string option" where
  "option_column name metavar =
     (let text = '' --'' @ name; pos = length text; buf = take (BUFSIZE - 1) text
      in case metavar of
        None \<Rightarrow> Some buf
      | Some m \<Rightarrow>
          if pos \<ge> BUFSIZE then None
          else Some (buf @ take (BUFSIZE - pos - 1) ('' '' @ m)))"

definition pad :: "nat \<Rightarrow> string \<Rightarrow> string" where
  "pad n s = s @ replicate (n - length s) CHR '' ''"

fun print_options_list :: "option_wrapper list \<Rightarrow> bool \<Rightarrow> string option" where
  "print_options_list [] required = Some []"
| "print_options_list (w # ws) required =
     (if wr_required w \<noteq> required then print_options_list ws required
      else do {
        name \<leftarrow> opt_name (wr_option w);
        col \<leftarrow> option_column name (wr_metavar w);
        help \<leftarrow> wr_help w;
        rest \<leftarrow> print_options_list ws required;
        Some ((if opt_val (wr_option w) > 64 then '' -'' @ [char_of (nat (opt_val (wr_option w)))] @ '',''
               else ''    '') @ pad 22 col @ ''  '' @ help @ [CHR 0x0A] @ rest) })"

definition print_options_of :: "option_wrapper list \<Rightarrow> bool \<Rightarrow> string option" where
  "print_options_of long_options required =
     do { ws \<leftarrow> named_options long_options; print_options_list ws required }"

definition usage :: "string \<Rightarrow> string \<Rightarrow> option_wrapper list \<Rightarrow> bool \<Rightarrow> string option" where
  "usage prog_name doc long_options full =
     (let head = ''Usage: '' @ prog_name @ '' [options]'' @ [CHR 0x0A] in
      if \<not> full
      then Some (head @ ''Use --help (or -h) to see full option list.'' @ [CHR 0x0A])
      else do {
        req \<leftarrow> print_options_of long_options True;
        oth \<leftarrow> print_options_of long_options False;
        Some (head @ [CHR 0x0A] @ ''DOCUMENTATION:'' @ [CHR 0x0A] @ '' '' @ doc @ [CHR 0x0A] @
          ''Required options:'' @ [CHR 0x0A] @ req @ [CHR 0x0A] @
          ''Other options:'' @ [CHR 0x0A] @ oth @ [CHR 0x0A]) })"

section \<open>Scanning the arguments\<close>

text \<open>The array that \<open>option_wrappers_to_options\<close> builds, when \<open>malloc\<close> succeeds.\<close>

definition option_wrappers_to_options :: "bool \<Rightarrow> option_wrapper list \<Rightarrow> (int \<times> opt_entry list) option" where
  "option_wrappers_to_options malloc_ok wrapper =
     do { ws \<leftarrow> named_options wrapper;
          Some (if \<not> malloc_ok then (-1, []) else (0, map wr_option ws)) }"

type_synonym getopt_event = "int \<times> string"

definition question :: getopt_event where
  "question = (of_char CHR ''?'', [])"

fun optstring_lookup :: "string \<Rightarrow> char \<Rightarrow> bool option" where
  "optstring_lookup [] c = None"
| "optstring_lookup (x # xs) c =
     (if c = CHR '':'' \<or> c = CHR '';'' then None
      else if x = c then Some (xs \<noteq> [] \<and> hd xs = CHR '':'')
      else optstring_lookup xs c)"

definition cmdline_optstring :: string where
  "cmdline_optstring = ''hd:r:L:R:ASNFUq''"

fun short_cluster :: "string \<Rightarrow> string list \<Rightarrow> getopt_event list \<times> string list" where
  "short_cluster [] args = ([], args)"
| "short_cluster (c # cs) args =
     (case optstring_lookup cmdline_optstring c of
        None \<Rightarrow> (case short_cluster cs args of (es, args) \<Rightarrow> (question # es, args))
      | Some False \<Rightarrow> (case short_cluster cs args of (es, args) \<Rightarrow> ((of_char c, []) # es, args))
      | Some True \<Rightarrow>
          if cs \<noteq> [] then ([(of_char c, cs)], args)
          else (case args of [] \<Rightarrow> ([question], []) | a # args \<Rightarrow> ([(of_char c, a)], args)))"

definition name_matches :: "string \<Rightarrow> opt_entry \<Rightarrow> bool" where
  "name_matches s e = (case opt_name e of None \<Rightarrow> False | Some n \<Rightarrow> take (length s) n = s)"

text \<open>An exact match wins; otherwise the abbreviation must not fit entries that differ.\<close>

definition find_long :: "opt_entry list \<Rightarrow> string \<Rightarrow> opt_entry option" where
  "find_long opts s =
     (case filter (\<lambda>e. opt_name e = Some s) opts of
        e # _ \<Rightarrow> Some e
      | [] \<Rightarrow> (case filter (name_matches s) opts of
          [] \<Rightarrow> None
        | e # es \<Rightarrow> if list_all (\<lambda>e'. opt_has_arg e' = opt_has_arg e \<and> opt_val e' = opt_val e) es
                   then Some e else None))"

definition long_option :: "opt_entry list \<Rightarrow> string \<Rightarrow> string list \<Rightarrow> getopt_event \<times> string list" where
  "long_option opts s args =
     (let name = takeWhile (\<lambda>c. c \<noteq> CHR ''='') s; rest = drop (length name) s in
      case find_long opts name of
        None \<Rightarrow> (question, args)
      | Some e \<Rightarrow>
          if rest \<noteq> [] then (if opt_has_arg e then (opt_val e, tl rest) else question, args)
          else if opt_has_arg e
          then (case args of [] \<Rightarrow> (question, []) | a # args \<Rightarrow> ((opt_val e, a), args))
          else ((opt_val e, []), args))"

lemma length_short_cluster: "length (snd (short_cluster cs args)) \<le> length args"
  by (induction cs args rule: short_cluster.induct) (auto split: option.splits bool.splits prod.splits list.splits)

lemma length_long_option: "length (snd (long_option opts s args)) \<le> length args"
  by (auto simp: long_option_def Let_def split: option.splits list.splits)

function getopt_events :: "opt_entry list \<Rightarrow> string list \<Rightarrow> getopt_event list" where
  "getopt_events opts [] = []"
| "getopt_events opts (a # args) =
     (if a = ''--'' then []
      else if take 2 a = ''--''
      then (case long_option opts (drop 2 a) args of (e, args) \<Rightarrow> e # getopt_events opts args)
      else if take 1 a = ''-'' \<and> length a > 1
      then (case short_cluster (drop 1 a) args of (es, args) \<Rightarrow> es @ getopt_events opts args)
      else getopt_events opts args)"
  by pat_completeness auto
termination
proof (relation "measure (\<lambda>(opts, args). length args)")
  fix opts args e rest and a :: string
  assume "(e, rest) = long_option opts (drop 2 a) args"
  then show "((opts, rest), (opts, a # args)) \<in> measure (\<lambda>(opts, args). length args)"
    using length_long_option [of opts "drop 2 a" args] by (metis case_prod_conv in_measure le_imp_less_Suc length_Cons snd_conv)
next
  fix opts args es rest and a :: string
  assume "(es, rest) = short_cluster (drop 1 a) args"
  then show "((opts, rest), (opts, a # args)) \<in> measure (\<lambda>(opts, args). length args)"
    using length_short_cluster [of "drop 1 a" args] by (metis case_prod_conv in_measure le_imp_less_Suc length_Cons snd_conv)
qed simp_all

section \<open>The configuration\<close>

datatype buf_ptr = NullPtr | OwnBuf

definition IF_NAMESIZE :: nat where "IF_NAMESIZE = 16"

record config =
  xdp_flags :: u32
  ifindex :: int
  ifname :: buf_ptr
  ifname_buf :: string
  redirect_ifindex :: int
  redirect_ifname :: buf_ptr
  redirect_ifname_buf :: string
  do_unload :: bool
  filename :: string
  progsec :: string
  src_mac :: string
  dest_mac :: string

text \<open>One turn of the \<open>switch\<close> in \<open>parse_cmdline_args\<close>: the new configuration and \<open>verbose\<close>, or
  \<open>Inl full_help\<close> for the cases that print the usage and exit.\<close>

definition parse_opt ::
  "(string \<Rightarrow> int) \<Rightarrow> getopt_event \<Rightarrow> config \<times> bool \<Rightarrow> bool + config \<times> bool" where
  "parse_opt if_nametoindex ev st =
     (case ev of (opt, optarg) \<Rightarrow> case st of (cfg, verbose) \<Rightarrow>
      if opt = of_char CHR ''d'' then
        (if length optarg \<ge> IF_NAMESIZE then Inl False
         else let cfg = cfg\<lparr>ifname := OwnBuf, ifname_buf := strncpy optarg IF_NAMESIZE\<rparr>;
                  cfg = cfg\<lparr>ifindex := if_nametoindex optarg\<rparr>
              in if ifindex cfg = 0 then Inl False else Inr (cfg, verbose))
      else if opt = of_char CHR ''r'' then
        (if length optarg \<ge> IF_NAMESIZE then Inl False
         else let cfg = cfg\<lparr>redirect_ifname := OwnBuf, redirect_ifname_buf := strncpy optarg IF_NAMESIZE\<rparr>;
                  cfg = cfg\<lparr>redirect_ifindex := if_nametoindex optarg\<rparr>
              in if redirect_ifindex cfg = 0 then Inl False else Inr (cfg, verbose))
      else if opt = of_char CHR ''A'' then
        Inr (cfg\<lparr>xdp_flags := xdp_flags cfg AND NOT XDP_FLAGS_MODES\<rparr>, verbose)
      else if opt = of_char CHR ''S'' then
        Inr (cfg\<lparr>xdp_flags := (xdp_flags cfg AND NOT XDP_FLAGS_MODES) OR XDP_FLAGS_SKB_MODE\<rparr>, verbose)
      else if opt = of_char CHR ''N'' then
        Inr (cfg\<lparr>xdp_flags := (xdp_flags cfg AND NOT XDP_FLAGS_MODES) OR XDP_FLAGS_DRV_MODE\<rparr>, verbose)
      else if opt = 3 then
        Inr (cfg\<lparr>xdp_flags := (xdp_flags cfg AND NOT XDP_FLAGS_MODES) OR XDP_FLAGS_HW_MODE\<rparr>, verbose)
      else if opt = of_char CHR ''F'' then
        Inr (cfg\<lparr>xdp_flags := xdp_flags cfg AND NOT XDP_FLAGS_UPDATE_IF_NOEXIST\<rparr>, verbose)
      else if opt = of_char CHR ''U'' then Inr (cfg\<lparr>do_unload := True\<rparr>, verbose)
      else if opt = of_char CHR ''q'' then Inr (cfg, False)
      else if opt = 1 then Inr (cfg\<lparr>filename := strncpy optarg 512\<rparr>, verbose)
      else if opt = 2 then Inr (cfg\<lparr>progsec := strncpy optarg 32\<rparr>, verbose)
      else if opt = of_char CHR ''L'' then Inr (cfg\<lparr>src_mac := strncpy optarg 18\<rparr>, verbose)
      else if opt = of_char CHR ''R'' then Inr (cfg\<lparr>dest_mac := strncpy optarg 18\<rparr>, verbose)
      else if opt = of_char CHR ''h'' then Inl True
      else Inl False)"

fun parse_opts ::
  "(string \<Rightarrow> int) \<Rightarrow> getopt_event list \<Rightarrow> config \<times> bool \<Rightarrow> bool + config \<times> bool" where
  "parse_opts if_nametoindex [] st = Inr st"
| "parse_opts if_nametoindex (ev # evs) st =
     (case parse_opt if_nametoindex ev st of Inl h \<Rightarrow> Inl h | Inr st \<Rightarrow> parse_opts if_nametoindex evs st)"

text \<open>What the process is started with: \<open>argv\<close>, the result of \<open>malloc\<close>, the
  memory behind the allocation, and \<open>if_nametoindex\<close>.\<close>

record cmd_env =
  argv0 :: string
  args :: "string list"
  malloc_ok :: bool
  behind :: "opt_entry list"
  nametoindex :: "string \<Rightarrow> int"

definition parse_cmdline_args ::
  "cmd_env \<Rightarrow> option_wrapper list \<Rightarrow> string \<Rightarrow> config \<times> bool \<Rightarrow> ('w, config \<times> bool) prog" where
  "parse_cmdline_args env options_wrapper doc st =
     andthen (from_option (option_wrappers_to_options (malloc_ok env) options_wrapper)) (\<lambda>(err, long_options).
     if err \<noteq> 0 then exit_with EXIT_FAIL_OPTION
     else case parse_opts (nametoindex env) (getopt_events (long_options @ behind env) (args env)) st of
       Inl full_help \<Rightarrow>
         andthen (from_option (usage (argv0 env) doc options_wrapper full_help)) (\<lambda>text.
         exit_with EXIT_FAIL_OPTION)
     | Inr st \<Rightarrow> ret st)"

text \<open>The configurations \<open>main\<close> of the two programs starts from: members that are not named in the
  initialiser are zero, and \<open>xdp_loader\<close> copies the default file name afterwards.\<close>

definition zero_config :: config where
  "zero_config = \<lparr> xdp_flags = 0, ifindex = 0, ifname = NullPtr, ifname_buf = replicate IF_NAMESIZE NUL,
     redirect_ifindex = 0, redirect_ifname = NullPtr, redirect_ifname_buf = replicate IF_NAMESIZE NUL,
     do_unload = False, filename = replicate 512 NUL, progsec = replicate 32 NUL,
     src_mac = replicate 18 NUL, dest_mac = replicate 18 NUL \<rparr>"

definition default_filename :: string where "default_filename = ''syncookie.o''"

definition loader_config :: config where
  "loader_config = zero_config\<lparr>xdp_flags := XDP_FLAGS_UPDATE_IF_NOEXIST OR XDP_FLAGS_DRV_MODE, ifindex := -1,
     do_unload := False, filename := strncpy default_filename 512\<rparr>"

definition stats_config :: config where
  "stats_config = zero_config\<lparr>ifindex := -1, do_unload := False\<rparr>"

section \<open>The configuration stays well-formed\<close>

text \<open>At most one mode flag is set; an interface, once chosen, is a name in the buffer whose index is
  stored with it; the arrays keep their size.\<close>

definition one_mode :: "u32 \<Rightarrow> bool" where
  "one_mode flags \<longleftrightarrow>
     flags AND XDP_FLAGS_MODES \<in> {0, XDP_FLAGS_SKB_MODE, XDP_FLAGS_DRV_MODE, XDP_FLAGS_HW_MODE}"

definition names_device :: "(string \<Rightarrow> int) \<Rightarrow> buf_ptr \<Rightarrow> string \<Rightarrow> int \<Rightarrow> bool" where
  "names_device nti p buf ix \<longleftrightarrow>
     p = OwnBuf \<and> ix \<noteq> 0 \<and> (\<exists>name. length name < IF_NAMESIZE \<and> buf = strncpy name IF_NAMESIZE \<and> nti name = ix)"

definition config_ok :: "(string \<Rightarrow> int) \<Rightarrow> config \<Rightarrow> bool" where
  "config_ok nti cfg \<longleftrightarrow>
     one_mode (xdp_flags cfg) \<and>
     (ifindex cfg = -1 \<and> ifname cfg = NullPtr \<or> names_device nti (ifname cfg) (ifname_buf cfg) (ifindex cfg)) \<and>
     (redirect_ifname cfg = NullPtr \<or>
        names_device nti (redirect_ifname cfg) (redirect_ifname_buf cfg) (redirect_ifindex cfg)) \<and>
     length (filename cfg) = 512 \<and> length (progsec cfg) = 32 \<and>
     length (src_mac cfg) = 18 \<and> length (dest_mac cfg) = 18"

lemma clear_set_mode: "((f AND NOT m) OR s) AND m = s AND (m :: u32)"
  by (rule bit_word_eqI) (auto simp: bit_simps)

lemma clear_mode: "(f AND NOT m) AND m = (0 :: u32)"
  by (rule bit_word_eqI) (auto simp: bit_simps)

lemma mode_bits:
  "XDP_FLAGS_SKB_MODE AND XDP_FLAGS_MODES = XDP_FLAGS_SKB_MODE"
  "XDP_FLAGS_DRV_MODE AND XDP_FLAGS_MODES = XDP_FLAGS_DRV_MODE"
  "XDP_FLAGS_HW_MODE AND XDP_FLAGS_MODES = XDP_FLAGS_HW_MODE"
  "NOT XDP_FLAGS_UPDATE_IF_NOEXIST AND XDP_FLAGS_MODES = XDP_FLAGS_MODES"
  by code_simp+

lemma one_mode_updates:
  "one_mode (f AND NOT XDP_FLAGS_MODES)"
  "one_mode ((f AND NOT XDP_FLAGS_MODES) OR XDP_FLAGS_SKB_MODE)"
  "one_mode ((f AND NOT XDP_FLAGS_MODES) OR XDP_FLAGS_DRV_MODE)"
  "one_mode ((f AND NOT XDP_FLAGS_MODES) OR XDP_FLAGS_HW_MODE)"
  "one_mode f \<Longrightarrow> one_mode (f AND NOT XDP_FLAGS_UPDATE_IF_NOEXIST)"
  by (simp_all add: one_mode_def clear_set_mode clear_mode mode_bits and.assoc)

lemma config_ok_updates:
  assumes "config_ok nti cfg"
  shows "config_ok nti (cfg\<lparr>do_unload := b\<rparr>)"
    "config_ok nti (cfg\<lparr>filename := strncpy a 512\<rparr>)" "config_ok nti (cfg\<lparr>progsec := strncpy a 32\<rparr>)"
    "config_ok nti (cfg\<lparr>src_mac := strncpy a 18\<rparr>)" "config_ok nti (cfg\<lparr>dest_mac := strncpy a 18\<rparr>)"
    "one_mode f \<Longrightarrow> config_ok nti (cfg\<lparr>xdp_flags := f\<rparr>)"
    "names_device nti OwnBuf buf ix \<Longrightarrow>
       config_ok nti (cfg\<lparr>ifname := OwnBuf, ifname_buf := buf, ifindex := ix\<rparr>)"
    "names_device nti OwnBuf buf ix \<Longrightarrow>
       config_ok nti (cfg\<lparr>redirect_ifname := OwnBuf, redirect_ifname_buf := buf, redirect_ifindex := ix\<rparr>)"
  using assms by (simp_all add: config_ok_def)

lemma parse_opt_ok:
  assumes "parse_opt nti ev (cfg, v) = Inr (cfg', v')" "config_ok nti cfg"
  shows "config_ok nti cfg'"
proof -
  obtain c a where ev: "ev = (c, a)" by (cases ev)
  have d: "names_device nti OwnBuf (strncpy a IF_NAMESIZE) (nti a)"
    if "\<not> IF_NAMESIZE \<le> length a" "nti a \<noteq> 0"
    using that unfolding names_device_def by (intro conjI exI [of _ a]) simp_all
  have "one_mode (xdp_flags cfg)" using assms(2) by (simp add: config_ok_def)
  then show ?thesis
    using assms unfolding parse_opt_def ev prod.case Let_def
    by (auto simp: config_ok_updates one_mode_updates d split: if_split_asm)
qed

lemma parse_opts_ok:
  "parse_opts nti evs st = Inr st' \<Longrightarrow> config_ok nti (fst st) \<Longrightarrow> config_ok nti (fst st')"
proof (induction nti evs st rule: parse_opts.induct)
  case (2 nti ev evs st)
  then show ?case by (cases st) (auto dest: parse_opt_ok split: sum.splits)
qed simp

lemma tables_closed:
  "named_options loader_options = Some (butlast loader_options)"
  "named_options stats_options = Some (butlast stats_options)"
  by code_simp+

lemma print_options_list_defined:
  "list_all (\<lambda>w. opt_name (wr_option w) \<noteq> None \<and> wr_help w \<noteq> None \<and>
     option_column (the (opt_name (wr_option w))) (wr_metavar w) \<noteq> None) ws \<Longrightarrow>
   \<exists>t. print_options_list ws r = Some t"
  by (induction ws) auto

lemma columns_fit:
  "list_all (\<lambda>w. opt_name (wr_option w) \<noteq> None \<and> wr_help w \<noteq> None \<and>
     option_column (the (opt_name (wr_option w))) (wr_metavar w) \<noteq> None) (butlast loader_options)"
  "list_all (\<lambda>w. opt_name (wr_option w) \<noteq> None \<and> wr_help w \<noteq> None \<and>
     option_column (the (opt_name (wr_option w))) (wr_metavar w) \<noteq> None) (butlast stats_options)"
  by code_simp+

lemma tables_printable:
  "print_options_of loader_options r \<noteq> None"
  "print_options_of stats_options r \<noteq> None"
  using print_options_list_defined [OF columns_fit(1), of r] print_options_list_defined [OF columns_fit(2), of r]
  by (auto simp: print_options_of_def tables_closed)

lemma usage_defined:
  "ws = loader_options \<or> ws = stats_options \<Longrightarrow> \<exists>t. usage prog doc ws full = Some t"
  using tables_printable [of True] tables_printable [of False] by (auto simp: usage_def Let_def)

lemma parse_cmdline_unfold:
  assumes "ws = loader_options \<or> ws = stats_options" "malloc_ok env"
  shows "parse_cmdline_args env ws doc st w =
     (case parse_opts (nametoindex env) (getopt_events (map wr_option (butlast ws) @ behind env) (args env)) st of
        Inl full_help \<Rightarrow> (Exit EXIT_FAIL_OPTION, w) | Inr st' \<Rightarrow> (Return st', w))"
proof -
  have o: "option_wrappers_to_options (malloc_ok env) ws = Some (0, map wr_option (butlast ws))"
    using assms tables_closed by (auto simp only: option_wrappers_to_options_def bind.bind_lunit simp_thms if_False)
  have u: "andthen (from_option (usage (argv0 env) doc ws full)) (\<lambda>text. exit_with c) w = (Exit c, w)" for full c
    using usage_defined [OF assms(1), of "argv0 env" doc full] by (auto simp: prog_simps)
  show ?thesis
    by (simp add: parse_cmdline_args_def o u prog_eval split: sum.split)
qed


section \<open>Long spellings are read back\<close>

definition spelled :: "opt_entry \<times> string \<Rightarrow> string list" where
  "spelled c = (case c of (e, a) \<Rightarrow> case opt_name e of
       None \<Rightarrow> [] | Some n \<Rightarrow> (''--'' @ n) # (if opt_has_arg e then [a] else []))"

definition event_of :: "opt_entry \<times> string \<Rightarrow> getopt_event" where
  "event_of c = (case c of (e, a) \<Rightarrow> (opt_val e, if opt_has_arg e then a else []))"

lemma long_option_exact:
  assumes "filter (\<lambda>e'. opt_name e' = Some n) opts = [e]" "CHR ''='' \<notin> set n"
  shows "long_option (opts @ tail) n rest =
     (if opt_has_arg e then case rest of [] \<Rightarrow> (question, []) | a # rest \<Rightarrow> ((opt_val e, a), rest)
      else ((opt_val e, []), rest))"
proof -
  have n: "takeWhile (\<lambda>c. c \<noteq> CHR ''='') n = n" using assms(2) by (auto simp: takeWhile_eq_all_conv)
  show ?thesis using assms(1) by (simp add: n long_option_def find_long_def Let_def)
qed

lemma getopt_spelled:
  assumes "filter (\<lambda>e'. opt_name e' = opt_name e) opts = [e]" "opt_name e = Some n" "CHR ''='' \<notin> set n" "n \<noteq> []"
  shows "getopt_events (opts @ tail) (spelled (e, a) @ rest) = event_of (e, a) # getopt_events (opts @ tail) rest"
  using long_option_exact [of n opts e] assms by (simp add: spelled_def event_of_def)

lemma loader_entries:
  "list_all (\<lambda>e. filter (\<lambda>e'. opt_name e' = opt_name e) (map wr_option (butlast loader_options)) = [e] \<and>
     opt_name e \<noteq> None \<and> CHR ''='' \<notin> set (the (opt_name e)) \<and> the (opt_name e) \<noteq> [])
     (map wr_option (butlast loader_options))"
  by code_simp


text \<open>Without the closing entry, a long option that is not in the table is decided by the memory behind
  the array.\<close>

lemma options_unterminated:
  "getopt_events (map wr_option (butlast loader_options) @ []) [''--bogus''] = [question]"
  "getopt_events (map wr_option (butlast loader_options)
      @ [\<lparr> opt_name = Some ''bogus'', opt_has_arg = False, opt_val = of_char CHR ''U'' \<rparr>]) [''--bogus'']
     = [(of_char CHR ''U'', [])]"
  by code_simp+

section \<open>Samples\<close>

lemma default_configs_ok: "config_ok nti loader_config" "config_ok nti stats_config"
  by (simp_all add: config_ok_def loader_config_def stats_config_def zero_config_def one_mode_def xdp_flag_defs)

definition sample_env :: "string list \<Rightarrow> cmd_env" where
  "sample_env as = \<lparr> argv0 = ''xdp_loader'', args = as, malloc_ok = True, behind = [],
     nametoindex = (\<lambda>n. if n = ''eth0'' then 2 else 0) \<rparr>"


definition dev_entry :: opt_entry where
  "dev_entry = \<lparr> opt_name = Some ''dev'', opt_has_arg = True, opt_val = of_char CHR ''d'' \<rparr>"

definition force_entry :: opt_entry where
  "force_entry = \<lparr> opt_name = Some ''force'', opt_has_arg = False, opt_val = of_char CHR ''F'' \<rparr>"


end
