(* ===== verification/Xdp_Link.thy ===== *)
theory Xdp_Link
  imports Netlink Load_Prog Params
begin

text \<open>
  Attaching to and detaching from the XDP hook of an interface: \<open>src/common/common_user_bpf_xdp.c\<close>.

  The two functions of libbpf it calls are the members of \<open>xdp_link_ops\<close>; \<open>libbpf_link\<close> is the record
  with the functions of \<open>Netlink\<close>, and theory \<open>Xdp_Hook\<close> shows that they are what the code here relies on.
  That is the locale \<open>xdp_hook\<close>, the behaviour of the hook that the kernel documents: the hook of an
  interface has a slot for the driver and one for the generic (SKB) mode; at most one holds a program; a
  program is refused with \<open>EEXIST\<close> while the other slot is taken, and with an error while its own
  slot is taken if the flags ask for that. Any call may fail for other reasons, without effect.
\<close>

section \<open>The functions\<close>

record 'w xdp_link_ops =
  set_link_xdp_fd :: "int \<Rightarrow> int \<Rightarrow> u32 \<Rightarrow> ('w, int) prog"
  get_link_xdp_id :: "int \<Rightarrow> u32 \<Rightarrow> ('w, int \<times> u32 option) prog"

text \<open>A function that waits forever (\<open>None\<close>) or leaves its buffers (\<open>Some (None, w)\<close>) as a program.\<close>

definition libbpf_call :: "('w \<Rightarrow> ('a option \<times> 'w) option) \<Rightarrow> ('w, 'a) prog" where
  "libbpf_call f = (\<lambda>w. case f w of
       None \<Rightarrow> (Blocked, w)
     | Some (None, w') \<Rightarrow> (Fault, w')
     | Some (Some a, w') \<Rightarrow> (Return a, w'))"

definition libbpf_link :: "byte_order \<Rightarrow> 'w nl_os \<Rightarrow> bytes \<Rightarrow> 'w xdp_link_ops" where
  "libbpf_link bo os stack =
     \<lparr> set_link_xdp_fd = (\<lambda>ifx fd flags. libbpf_call (bpf_set_link_xdp_fd bo os stack (of_int ifx) (of_int fd) flags)),
       get_link_xdp_id = (\<lambda>ifx flags. libbpf_call (bpf_get_link_xdp_id bo os stack (of_int ifx) flags)) \<rparr>"

definition xdp_link_attach :: "'w xdp_link_ops \<Rightarrow> int \<Rightarrow> u32 \<Rightarrow> int \<Rightarrow> ('w, int) prog" where
  "xdp_link_attach lib ifx flags prog_fd =
     andthen (set_link_xdp_fd lib ifx prog_fd flags) (\<lambda>err.
     andthen
       (if err = - EEXIST \<and> flags AND XDP_FLAGS_UPDATE_IF_NOEXIST = 0
        then let old_flags = flags;
                 flags = flags AND NOT XDP_FLAGS_MODES;
                 flags = flags OR (if old_flags AND XDP_FLAGS_SKB_MODE \<noteq> 0 then XDP_FLAGS_DRV_MODE else XDP_FLAGS_SKB_MODE)
             in andthen (set_link_xdp_fd lib ifx (-1) flags) (\<lambda>err.
                if err = 0 then set_link_xdp_fd lib ifx prog_fd old_flags else ret err)
        else ret err) (\<lambda>err.
     if err < 0 then ret EXIT_FAIL_XDP else ret EXIT_OK))"

text \<open>\<open>curr_prog_id\<close> is only read after \<open>bpf_get_link_xdp_id\<close> reported success.\<close>

definition xdp_link_detach :: "'w xdp_link_ops \<Rightarrow> int \<Rightarrow> u32 \<Rightarrow> u32 \<Rightarrow> ('w, int) prog" where
  "xdp_link_detach lib ifx flags expected_prog_id =
     andthen (get_link_xdp_id lib ifx flags) (\<lambda>(err, id).
     if err \<noteq> 0 then ret EXIT_FAIL_XDP
     else andthen (from_option id) (\<lambda>curr_prog_id.
     if curr_prog_id = 0 then ret EXIT_OK
     else if expected_prog_id \<noteq> 0 \<and> curr_prog_id \<noteq> expected_prog_id then ret EXIT_FAIL
     else andthen (set_link_xdp_fd lib ifx (-1) flags) (\<lambda>err.
     if err < 0 then ret EXIT_FAIL_XDP else ret EXIT_OK)))"

definition load_bpf_object_file :: "'w load_os \<Rightarrow> string \<Rightarrow> int \<Rightarrow> ('w, bpf_object option) prog" where
  "load_bpf_object_file os file ifx =
     andthen (bpf_prog_load_xattr os (Some \<lparr> attr_file = Some file, attr_prog_type = BPF_PROG_TYPE_XDP,
       attr_expected_attach_type = no_attach_type, attr_ifindex = ifx \<rparr>)) (\<lambda>(err, res).
     if err \<noteq> 0 then ret None else ret (map_option fst res))"

text \<open>The program is a member of the object; the new content of \<open>cfg->progsec\<close> is part of the result.\<close>

definition load_bpf_and_xdp_attach ::
  "'w load_os \<Rightarrow> 'w xdp_link_ops \<Rightarrow> config \<Rightarrow> ('w, bpf_object \<times> config) prog" where
  "load_bpf_and_xdp_attach os lib cfg =
     (let offload_ifindex = (if xdp_flags cfg AND XDP_FLAGS_HW_MODE \<noteq> 0 then ifindex cfg else 0) in
      andthen (from_option (c_string (filename cfg))) (\<lambda>file.
      andthen (load_bpf_object_file os file offload_ifindex) (\<lambda>obj.
      case obj of
        None \<Rightarrow> exit_with EXIT_FAIL_BPF
      | Some bpf_obj \<Rightarrow>
          andthen (if hd (progsec cfg) \<noteq> NUL
                   then andthen (from_option (c_string (progsec cfg))) (\<lambda>sec.
                        ret (bpf_object__find_program_by_title bpf_obj sec))
                   else ret (map_option (\<lambda>i. programs bpf_obj ! i) (bpf_program__next None bpf_obj))) (\<lambda>prog.
          case prog of
            None \<Rightarrow> exit_with EXIT_FAIL_BPF
          | Some bpf_prog \<Rightarrow>
              let cfg = cfg\<lparr>progsec := strncpy (section_name bpf_prog) 32\<rparr> in
              andthen (from_option (bpf_program__fd (Some bpf_prog))) (\<lambda>prog_fd.
              if prog_fd \<le> 0 then exit_with EXIT_FAIL_BPF
              else andthen (xdp_link_attach lib (ifindex cfg) (xdp_flags cfg) prog_fd) (\<lambda>err.
              if err \<noteq> 0 then exit_with err else ret (bpf_obj, cfg)))))))"

definition xdp_action_names :: "string list" where
  "xdp_action_names = [''XDP_ABORTED'', ''XDP_DROP'', ''XDP_PASS'', ''XDP_TX'', ''XDP_REDIRECT'', ''XDP_UNKNOWN'']"

definition action2str :: "u32 \<Rightarrow> string option" where
  "action2str action =
     (if action < action_code XDP_REDIRECT + 1 + 1 then Some (xdp_action_names ! unat action) else None)"

text \<open>The result and what the kernel stored in \<open>info\<close>. A member of \<open>expect\<close> that is zero is not compared.\<close>

definition check_map_fd_info :: "'w load_os \<Rightarrow> int \<Rightarrow> map_info \<Rightarrow> map_info \<Rightarrow> ('w, int \<times> map_info) prog" where
  "check_map_fd_info os fd info expect = (\<lambda>w.
     if fd < 0 then (Return (EXIT_FAIL, info), w)
     else case info_by_fd os w fd of (err, info) \<Rightarrow>
       if err \<noteq> 0 then (Return (EXIT_FAIL_BPF, info), w)
       else if info_key_size expect \<noteq> 0 \<and> info_key_size expect \<noteq> info_key_size info then (Return (EXIT_FAIL, info), w)
       else if info_value_size expect \<noteq> 0 \<and> info_value_size expect \<noteq> info_value_size info then (Return (EXIT_FAIL, info), w)
       else if info_max_entries expect \<noteq> 0 \<and> info_max_entries expect \<noteq> info_max_entries info then (Return (EXIT_FAIL, info), w)
       else if info_type expect \<noteq> 0 \<and> info_type expect \<noteq> info_type info then (Return (EXIT_FAIL, info), w)
       else (Return (0, info), w))"

section \<open>The hook\<close>

datatype xdp_mode = Native | Generic

fun other_mode :: "xdp_mode \<Rightarrow> xdp_mode" where
  "other_mode Native = Generic"
| "other_mode Generic = Native"

text \<open>The mode the kernel chooses: generic if it is asked for or if the driver knows no other.\<close>

definition mode_of :: "bool \<Rightarrow> u32 \<Rightarrow> xdp_mode" where
  "mode_of native_ok flags =
     (if flags AND XDP_FLAGS_SKB_MODE \<noteq> 0 \<or> \<not> native_ok then Generic else Native)"

definition supported :: "bool \<Rightarrow> u32 \<Rightarrow> bool" where
  "supported native_ok flags \<longleftrightarrow> flags AND XDP_FLAGS_DRV_MODE = 0 \<or> native_ok"

text \<open>The flags of the two modes: known bits, at most one mode, no offload to the hardware.\<close>

definition link_flags :: "u32 \<Rightarrow> bool" where
  "link_flags flags \<longleftrightarrow> flags AND NOT XDP_FLAGS_MASK = 0 \<and>
     flags AND XDP_FLAGS_MODES \<in> {0, XDP_FLAGS_SKB_MODE, XDP_FLAGS_DRV_MODE}"

definition attached :: "(xdp_mode \<Rightarrow> u32) \<Rightarrow> u32" where
  "attached slots = (if slots Native \<noteq> 0 then slots Native else slots Generic)"

lemma slots_eqI:
  assumes "f m = g m" "f (other_mode m) = g (other_mode m)"
  shows "f = (g :: xdp_mode \<Rightarrow> u32)"
proof
  fix x show "f x = g x" using assms by (cases m; cases x) simp_all
qed

lemma other_mode_neq [simp]: "other_mode m \<noteq> m" "m \<noteq> other_mode m"
  by (cases m; simp)+

text \<open>The flags of the second attempt in \<open>xdp_link_attach\<close>.\<close>

definition opposite_flags :: "u32 \<Rightarrow> u32" where
  "opposite_flags f = (f AND NOT XDP_FLAGS_MODES) OR
     (if f AND XDP_FLAGS_SKB_MODE \<noteq> 0 then XDP_FLAGS_DRV_MODE else XDP_FLAGS_SKB_MODE)"

lemma set_within: "((f AND NOT m) OR s) AND NOT k = (f AND NOT k) AND NOT m OR (s AND NOT (k :: u32))"
  by (rule bit_word_eqI) (auto simp: bit_simps)

lemma and_within: "m AND k = k \<Longrightarrow> f AND k = (f AND m) AND (k :: u32)"
  by (metis and.assoc)

lemma modes_within:
  "XDP_FLAGS_MODES AND XDP_FLAGS_SKB_MODE = XDP_FLAGS_SKB_MODE"
  "XDP_FLAGS_MODES AND XDP_FLAGS_DRV_MODE = XDP_FLAGS_DRV_MODE"
  "XDP_FLAGS_SKB_MODE AND NOT XDP_FLAGS_MASK = 0" "XDP_FLAGS_DRV_MODE AND NOT XDP_FLAGS_MASK = 0"
  "XDP_FLAGS_SKB_MODE AND XDP_FLAGS_DRV_MODE = 0" "XDP_FLAGS_DRV_MODE AND XDP_FLAGS_SKB_MODE = 0"
  "XDP_FLAGS_SKB_MODE \<noteq> 0" "XDP_FLAGS_DRV_MODE \<noteq> 0"
  by code_simp+

lemma link_flags_opposite: "link_flags f \<Longrightarrow> link_flags (opposite_flags f)"
  by (auto simp: link_flags_def opposite_flags_def set_within clear_set_mode modes_within mode_bits)

lemma opposite_modes:
  "opposite_flags f AND XDP_FLAGS_SKB_MODE = (if f AND XDP_FLAGS_SKB_MODE \<noteq> 0 then 0 else XDP_FLAGS_SKB_MODE)"
  "opposite_flags f AND XDP_FLAGS_DRV_MODE = (if f AND XDP_FLAGS_SKB_MODE \<noteq> 0 then XDP_FLAGS_DRV_MODE else 0)"
  using and_within [OF modes_within(1), of "opposite_flags f"] and_within [OF modes_within(2), of "opposite_flags f"]
  by (simp_all add: opposite_flags_def clear_set_mode mode_bits modes_within)

lemma opposite_mode: "native_ok \<Longrightarrow> mode_of native_ok (opposite_flags f) = other_mode (mode_of native_ok f)"
  by (simp add: mode_of_def opposite_modes modes_within)

definition descriptor :: "int \<Rightarrow> bool" where
  "descriptor fd \<longleftrightarrow> 0 < fd \<and> fd < 2 ^ 31"

locale xdp_hook =
  fixes lib :: "'w xdp_link_ops"
    and ifx :: int
    and native_ok :: bool
    and slot :: "'w \<Rightarrow> xdp_mode \<Rightarrow> u32"
    and prog_id :: "int \<Rightarrow> u32"
    and valid :: "'w \<Rightarrow> bool"
  assumes one_slot: "valid w \<Longrightarrow> slot w Native = 0 \<or> slot w Generic = 0"
    and native_slot: "\<lbrakk> valid w; \<not> native_ok \<rbrakk> \<Longrightarrow> slot w Native = 0"
    and install: "\<lbrakk> valid w; link_flags flags; descriptor fd \<rbrakk> \<Longrightarrow>
      \<exists>r w'. set_link_xdp_fd lib ifx fd flags w = (Return r, w') \<and> valid w' \<and>
        (if r = 0
         then supported native_ok flags \<and> slot w (other_mode (mode_of native_ok flags)) = 0 \<and>
           (flags AND XDP_FLAGS_UPDATE_IF_NOEXIST \<noteq> 0 \<longrightarrow> slot w (mode_of native_ok flags) = 0) \<and>
           slot w' = (slot w)(mode_of native_ok flags := prog_id fd)
         else r < 0 \<and> slot w' = slot w)"
    and taken: "\<lbrakk> valid w; link_flags flags; descriptor fd; supported native_ok flags;
      slot w (other_mode (mode_of native_ok flags)) \<noteq> 0 \<rbrakk> \<Longrightarrow>
      \<exists>w'. set_link_xdp_fd lib ifx fd flags w = (Return (- EEXIST), w')"
    and remove: "\<lbrakk> valid w; link_flags flags \<rbrakk> \<Longrightarrow>
      \<exists>r w'. set_link_xdp_fd lib ifx (-1) flags w = (Return r, w') \<and> valid w' \<and>
        (if r = 0 then slot w' = (slot w)(mode_of native_ok flags := 0) else r < 0 \<and> slot w' = slot w)"
    and query: "\<lbrakk> valid w; link_flags flags \<rbrakk> \<Longrightarrow>
      \<exists>r i w'. get_link_xdp_id lib ifx flags w = (Return (r, i), w') \<and> valid w' \<and> slot w' = slot w \<and>
        (r = 0 \<longrightarrow> i = Some (attached (slot w)))"
begin

lemma one_of_two: "valid w \<Longrightarrow> slot w m = 0 \<or> slot w (other_mode m) = 0"
  using one_slot by (cases m) auto

lemma installed:
  assumes "slot w (other_mode m) = 0" "slot w' = (slot w)(m := i)"
  shows "slot w' = (\<lambda>_. 0)(m := i)"
  using assms by (intro slots_eqI [of _ m]) simp_all

lemma removed:
  assumes "valid w"
  shows "(slot w)(m := 0) = slot w \<or> (slot w)(m := 0) = (\<lambda>_. 0)"
proof (cases "slot w m = 0")
  case True
  then show ?thesis by (metis fun_upd_triv)
next
  case False
  then have "slot w (other_mode m) = 0" using one_of_two [OF assms, of m] by simp
  then have "(slot w)(m := 0) = (\<lambda>_. 0)" by (intro slots_eqI [of _ m]) simp_all
  then show ?thesis by simp
qed

text \<open>One call of \<open>bpf_set_link_xdp_fd\<close> with a program.\<close>

lemma install_cases:
  assumes "valid w" "link_flags flags" "descriptor fd"
  obtains (ok) w' where "set_link_xdp_fd lib ifx fd flags w = (Return 0, w')" "valid w'"
      "supported native_ok flags" "slot w' = (\<lambda>_. 0)(mode_of native_ok flags := prog_id fd)"
      "flags AND XDP_FLAGS_UPDATE_IF_NOEXIST \<noteq> 0 \<Longrightarrow> slot w = (\<lambda>_. 0)"
  | (refused) r w' where "set_link_xdp_fd lib ifx fd flags w = (Return r, w')" "valid w'" "r < 0" "slot w' = slot w"
proof -
  obtain r w' where i: "set_link_xdp_fd lib ifx fd flags w = (Return r, w')" "valid w'"
    "if r = 0
     then supported native_ok flags \<and> slot w (other_mode (mode_of native_ok flags)) = 0 \<and>
       (flags AND XDP_FLAGS_UPDATE_IF_NOEXIST \<noteq> 0 \<longrightarrow> slot w (mode_of native_ok flags) = 0) \<and>
       slot w' = (slot w)(mode_of native_ok flags := prog_id fd)
     else r < 0 \<and> slot w' = slot w"
    using install [OF assms] by blast
  show ?thesis
  proof (cases "r = 0")
    case True
    then show ?thesis
      using i ok [of w'] installed [of w "mode_of native_ok flags" w'] slots_eqI [of "slot w" "mode_of native_ok flags"]
      by auto
  qed (use i refused [of r w'] in auto)
qed

lemma attach_outcome:
  assumes "valid w" "link_flags flags" "descriptor fd"
  shows "\<exists>r w'. xdp_link_attach lib ifx flags fd w = (Return r, w') \<and> valid w' \<and>
    (if r = EXIT_OK
     then slot w' = (\<lambda>_. 0)(mode_of native_ok flags := prog_id fd) \<and> supported native_ok flags \<and>
       (flags AND XDP_FLAGS_UPDATE_IF_NOEXIST \<noteq> 0 \<longrightarrow> slot w = (\<lambda>_. 0))
     else r = EXIT_FAIL_XDP \<and>
       (slot w' = slot w \<or> flags AND XDP_FLAGS_UPDATE_IF_NOEXIST = 0 \<and> slot w' = (\<lambda>_. 0)))"
  using assms
proof (cases rule: install_cases)
  case (ok w')
  then show ?thesis by (simp add: xdp_link_attach_def prog_simps EXIT_OK_def EEXIST_def)
next
  case (refused r w1)
  show ?thesis
  proof (cases "r = - EEXIST \<and> flags AND XDP_FLAGS_UPDATE_IF_NOEXIST = 0")
    case False
    then have "xdp_link_attach lib ifx flags fd w = (Return EXIT_FAIL_XDP, w1)"
      using refused by (auto simp add: xdp_link_attach_def prog_simps)
    then show ?thesis using refused by (simp add: exit_code_defs)
  next
    case True
    obtain r2 w2 where rm: "set_link_xdp_fd lib ifx (-1) (opposite_flags flags) w1 = (Return r2, w2)" "valid w2"
      "r2 \<le> 0" "slot w2 = slot w \<or> slot w2 = (\<lambda>_. 0)"
      using remove [OF refused(2) link_flags_opposite [OF assms(2)]] removed [OF assms(1)] refused(4)
      by (metis order.order_iff_strict)
    show ?thesis
    proof (cases "r2 = 0")
      case False
      then have "xdp_link_attach lib ifx flags fd w = (Return EXIT_FAIL_XDP, w2)"
        using refused(1) rm True by (simp add: xdp_link_attach_def prog_simps opposite_flags_def [symmetric] Let_def)
      then show ?thesis using rm True by (auto simp: exit_code_defs)
    next
      case r2: True
      from rm(2) assms(2,3) show ?thesis
      proof (cases rule: install_cases)
        case (ok w')
        then have "xdp_link_attach lib ifx flags fd w = (Return EXIT_OK, w')"
          using refused(1) rm(1) True r2 by (simp add: xdp_link_attach_def prog_simps opposite_flags_def [symmetric] Let_def)
        then show ?thesis using ok True by (simp add: exit_code_defs)
      next
        case (refused r3 w3)
        then have "xdp_link_attach lib ifx flags fd w = (Return EXIT_FAIL_XDP, w3)"
          using \<open>set_link_xdp_fd lib ifx fd flags w = (Return r, w1)\<close> rm(1) True r2
          by (simp add: xdp_link_attach_def prog_simps opposite_flags_def [symmetric] Let_def)
        then show ?thesis using refused rm True by (auto simp: exit_code_defs)
      qed
    qed
  qed
qed

lemma detach_outcome:
  assumes "valid w" "link_flags flags"
  shows "\<exists>r w'. xdp_link_detach lib ifx flags expected w = (Return r, w') \<and> valid w' \<and>
    (if r = EXIT_OK
     then slot w' = (slot w)(mode_of native_ok flags := 0) \<and> (expected = 0 \<or> attached (slot w) \<in> {0, expected})
     else slot w' = slot w \<and>
       (r = EXIT_FAIL_XDP \<or> r = EXIT_FAIL \<and> expected \<noteq> 0 \<and> attached (slot w) \<notin> {0, expected}))"
proof -
  obtain r i w1 where q: "get_link_xdp_id lib ifx flags w = (Return (r, i), w1)" "valid w1" "slot w1 = slot w"
    "r = 0 \<longrightarrow> i = Some (attached (slot w))"
    using query [OF assms] by blast
  obtain r2 w2 where rm: "set_link_xdp_fd lib ifx (-1) flags w1 = (Return r2, w2)" "valid w2"
    "if r2 = 0 then slot w2 = (slot w)(mode_of native_ok flags := 0) else r2 < 0 \<and> slot w2 = slot w"
    using remove [OF q(2) assms(2)] q(3) by metis
  have none: "attached (slot w) = 0 \<Longrightarrow> (slot w)(m := 0) = slot w" for m
    by (cases m) (auto simp: attached_def fun_eq_iff split: if_splits)
  let ?a = "attached (slot w)"
  consider "r \<noteq> 0" | "r = 0" "?a = 0" | "r = 0" "?a \<noteq> 0" "expected \<noteq> 0" "?a \<noteq> expected"
    | "r = 0" "?a \<noteq> 0" "expected = 0 \<or> ?a = expected" by blast
  then show ?thesis
  proof cases
    case 4
    then have "xdp_link_detach lib ifx flags expected w = (Return (if r2 < 0 then EXIT_FAIL_XDP else EXIT_OK), w2)"
      using q rm by (auto simp: xdp_link_detach_def prog_simps)
    then show ?thesis using 4 rm by (auto simp: exit_code_defs split: if_splits)
  qed (use q none in \<open>simp_all add: xdp_link_detach_def prog_simps exit_code_defs\<close>)
qed

end

text \<open>A kernel that refuses nothing else.\<close>

locale willing_hook = xdp_hook +
  assumes installs: "\<lbrakk> valid w; link_flags flags; descriptor fd; supported native_ok flags;
      slot w (other_mode (mode_of native_ok flags)) = 0;
      flags AND XDP_FLAGS_UPDATE_IF_NOEXIST \<noteq> 0 \<Longrightarrow> slot w (mode_of native_ok flags) = 0 \<rbrakk> \<Longrightarrow>
      \<exists>w'. set_link_xdp_fd lib ifx fd flags w = (Return 0, w')"
    and removes: "\<lbrakk> valid w; link_flags flags; supported native_ok flags \<rbrakk> \<Longrightarrow>
      \<exists>w'. set_link_xdp_fd lib ifx (-1) flags w = (Return 0, w')"
    and answers: "\<lbrakk> valid w; link_flags flags \<rbrakk> \<Longrightarrow>
      \<exists>i w'. get_link_xdp_id lib ifx flags w = (Return (0, i), w')"
begin

lemma force_attach_ok:
  assumes "valid w" "link_flags flags" "descriptor fd" "supported native_ok flags"
    and "flags AND XDP_FLAGS_UPDATE_IF_NOEXIST = 0"
  shows "\<exists>w'. xdp_link_attach lib ifx flags fd w = (Return EXIT_OK, w')"
proof (cases "slot w (other_mode (mode_of native_ok flags)) = 0")
  case True
  then obtain w' where "set_link_xdp_fd lib ifx fd flags w = (Return 0, w')" using installs [OF assms(1-4)] assms(5) by auto
  then show ?thesis by (simp add: xdp_link_attach_def prog_simps EEXIST_def)
next
  case False
  have nat: native_ok
  proof (rule ccontr)
    assume "\<not> native_ok"
    then have "mode_of native_ok flags = Generic" by (simp add: mode_of_def)
    then show False using native_slot [OF assms(1) \<open>\<not> native_ok\<close>] False by simp
  qed
  obtain w1 where w1: "set_link_xdp_fd lib ifx fd flags w = (Return (- EEXIST), w1)"
    using taken [OF assms(1-4) False] by blast
  then have v1: "valid w1" "slot w1 = slot w" using install [OF assms(1-3)] by (auto simp: EEXIST_def)
  obtain w2 where w2: "set_link_xdp_fd lib ifx (-1) (opposite_flags flags) w1 = (Return 0, w2)"
    using removes [OF v1(1) link_flags_opposite [OF assms(2)]] nat by (auto simp: supported_def)
  then have v2: "valid w2" "slot w2 = (slot w)(other_mode (mode_of native_ok flags) := 0)"
    using remove [OF v1(1) link_flags_opposite [OF assms(2)]] v1(2) opposite_mode [OF nat] by auto
  obtain w3 where "set_link_xdp_fd lib ifx fd flags w2 = (Return 0, w3)"
    using installs [OF v2(1) assms(2-4)] v2(2) assms(5) by auto
  then show ?thesis
    using w1 w2 assms(5) by (simp add: xdp_link_attach_def prog_simps Let_def flip: opposite_flags_def)
qed

lemma attach_decides:
  assumes "valid w" "link_flags flags" "descriptor fd"
  shows "\<exists>w'. xdp_link_attach lib ifx flags fd w =
    (Return (if supported native_ok flags \<and> (flags AND XDP_FLAGS_UPDATE_IF_NOEXIST = 0 \<or> slot w = (\<lambda>_. 0))
             then EXIT_OK else EXIT_FAIL_XDP), w')"
proof (cases "supported native_ok flags \<and> (flags AND XDP_FLAGS_UPDATE_IF_NOEXIST = 0 \<or> slot w = (\<lambda>_. 0))")
  case False
  then show ?thesis using attach_outcome [OF assms] by (auto split: if_splits)
next
  case True
  show ?thesis
  proof (cases "flags AND XDP_FLAGS_UPDATE_IF_NOEXIST = 0")
    case force: True
    then show ?thesis using force_attach_ok [OF assms _ force] True by auto
  next
    case False
    then obtain w' where "set_link_xdp_fd lib ifx fd flags w = (Return 0, w')" using installs [OF assms] True by auto
    then have "xdp_link_attach lib ifx flags fd w = (Return EXIT_OK, w')"
      by (simp add: xdp_link_attach_def prog_simps EEXIST_def)
    then show ?thesis using True by auto
  qed
qed

end

end
