(* ===== verification/Xdp_Hook.thy ===== *)
theory Xdp_Hook
  imports Xdp_Link
begin

text \<open>
  The promises of the XDP hook hold for the netlink client. \<open>hook_os\<close> is a kernel with one interface that is
  reached by messages only: it parses the request of \<open>bpf_set_link_xdp_fd\<close>, follows the rules of the hook and
  acknowledges, and answers the request of \<open>bpf_get_link_xdp_id\<close> with a link message and an end mark. On it
  \<open>libbpf_link\<close>, the functions of \<open>Netlink\<close>, satisfies the locale \<open>willing_hook\<close>. With that, the properties of
  \<open>xdp_link_attach\<close> and \<open>xdp_link_detach\<close> hold down to the bytes that are exchanged.
\<close>

section \<open>A kernel\<close>

record hook_kernel =
  k_slot :: "xdp_mode \<Rightarrow> u32"
  k_out :: "(int \<times> bytes) list"

definition hook_set :: "bool \<Rightarrow> (int \<Rightarrow> u32) \<Rightarrow> int \<Rightarrow> u32 \<Rightarrow> (xdp_mode \<Rightarrow> u32) \<Rightarrow> int \<times> (xdp_mode \<Rightarrow> u32)" where
  "hook_set native_ok prog_of fd flags slots =
     (let m = mode_of native_ok flags in
      if \<not> supported native_ok flags then (- EOPNOTSUPP, slots)
      else if fd < 0 then (0, slots(m := 0))
      else if slots (other_mode m) \<noteq> 0 then (- EEXIST, slots)
      else if flags AND XDP_FLAGS_UPDATE_IF_NOEXIST \<noteq> 0 \<and> slots m \<noteq> 0 then (- EBUSY, slots)
      else (0, slots(m := prog_of fd)))"

text \<open>The descriptor and the flags a request asks for.\<close>

definition requested :: "byte_order \<Rightarrow> bytes \<Rightarrow> (u32 \<times> u32) option" where
  "requested bo msg =
     do { (_, tb) \<leftarrow> libbpf_nla_parse bo msg IFLA_MAX 32 (int (length msg) - 32) None;
          nla \<leftarrow> tb ! IFLA_XDP;
          (_, xtb) \<leftarrow> libbpf_nla_parse_nested bo msg IFLA_XDP_MAX nla None;
          off \<leftarrow> xtb ! IFLA_XDP_FD;
          fd \<leftarrow> libbpf_nla_getattr_u32 bo msg off;
          flags \<leftarrow> (case xtb ! IFLA_XDP_FLAGS of None \<Rightarrow> Some 0 | Some foff \<Rightarrow> libbpf_nla_getattr_u32 bo msg foff);
          Some (fd, flags) }"

definition RTM_NEWLINK :: u16 where "RTM_NEWLINK = 16"

definition mode_byte :: "(xdp_mode \<Rightarrow> u32) \<Rightarrow> u8" where
  "mode_byte slots = (if slots Native \<noteq> 0 then 1 else if slots Generic \<noteq> 0 then 2 else XDP_ATTACHED_NONE)"

definition hook_attrs :: "byte_order \<Rightarrow> (xdp_mode \<Rightarrow> u32) \<Rightarrow> attr_value list" where
  "hook_attrs bo slots =
     [(of_nat IFLA_XDP_ATTACHED, [mode_byte slots]), (of_nat IFLA_XDP_PROG_ID, encode_word bo 4 (attached slots))]"

definition link_message :: "byte_order \<Rightarrow> u32 \<Rightarrow> u32 \<Rightarrow> u32 \<Rightarrow> (xdp_mode \<Rightarrow> u32) \<Rightarrow> bytes" where
  "link_message bo port seq ifx slots =
     encode_nlmsghdr bo \<lparr> nlmsg_len = 52, nlmsg_type = RTM_NEWLINK, nlmsg_flags = NLM_F_MULTI,
       nlmsg_seq = seq, nlmsg_pid = port \<rparr> @
     encode_ifinfomsg bo AF_UNSPEC ifx @
     encode_nla bo (of_nat IFLA_XDP, concat (map (encode_nla bo) (hook_attrs bo slots)))"

definition done_message :: "byte_order \<Rightarrow> u32 \<Rightarrow> u32 \<Rightarrow> bytes" where
  "done_message bo port seq =
     encode_nlmsghdr bo \<lparr> nlmsg_len = 20, nlmsg_type = NLMSG_DONE, nlmsg_flags = NLM_F_MULTI,
       nlmsg_seq = seq, nlmsg_pid = port \<rparr> @ encode_word bo 4 (0 :: u32)"

definition hook_answer ::
  "byte_order \<Rightarrow> bool \<Rightarrow> (int \<Rightarrow> u32) \<Rightarrow> u32 \<Rightarrow> int \<Rightarrow> hook_kernel \<Rightarrow> bytes \<Rightarrow> hook_kernel" where
  "hook_answer bo native_ok prog_of port ifx k msg =
     (case load_nlmsghdr bo msg 0 of
        None \<Rightarrow> k
      | Some h \<Rightarrow>
          if nlmsg_type h = RTM_SETLINK then
            (case requested bo msg of
               None \<Rightarrow> k
             | Some (fd, flags) \<Rightarrow>
                 (case hook_set native_ok prog_of (sint fd) flags (k_slot k) of (e, slots) \<Rightarrow>
                    k\<lparr>k_slot := slots,
                      k_out := [(0, encode_ack bo port (nlmsg_seq h) 0 (of_int e) (take 16 msg))]\<rparr>))
          else
            k\<lparr>k_out := [(0, link_message bo port (nlmsg_seq h) (of_int ifx) (k_slot k)),
                       (0, done_message bo port (nlmsg_seq h))]\<rparr>)"

definition hook_os :: "byte_order \<Rightarrow> bool \<Rightarrow> (int \<Rightarrow> u32) \<Rightarrow> u32 \<Rightarrow> int \<Rightarrow> hook_kernel nl_os" where
  "hook_os bo native_ok prog_of port ifx =
     \<lparr> socket = (\<lambda>k. (3, k)), bind_errno = (\<lambda>_ _. 0), getsockname = (\<lambda>_ _. (0, sizeof_sockaddr_nl, port)),
       close_sock = (\<lambda>k _. k\<lparr>k_out := []\<rparr>), send = (\<lambda>k _ msg. (0, hook_answer bo native_ok prog_of port ifx k msg)),
       replies = (\<lambda>k _. k_out k), time_now = (\<lambda>_. 0) \<rparr>"

definition hook_valid :: "bool \<Rightarrow> hook_kernel \<Rightarrow> bool" where
  "hook_valid native_ok k \<longleftrightarrow>
     (k_slot k Native = 0 \<or> k_slot k Generic = 0) \<and> (native_ok \<or> k_slot k Native = 0)"

section \<open>Setting\<close>

lemma requested_inverts: "requested bo (setlink_request bo seq ifx fd flags) = Some (fd, flags)"
  using setlink_request_parses [of bo seq ifx fd flags]
  by (auto simp: requested_def split: if_splits)

lemma hook_answer_setlink:
  "hook_answer bo native_ok prog_of port i k (setlink_request bo seq ifx fd flags) =
     (case hook_set native_ok prog_of (sint fd) flags (k_slot k) of (e, slots) \<Rightarrow>
        k\<lparr>k_slot := slots, k_out := [(0, encode_ack bo port seq 0 (of_int e) (take 16 (setlink_request bo seq ifx fd flags)))]\<rparr>)"
  using setlink_request_parses [of bo seq ifx fd flags] by (auto simp: hook_answer_def requested_inverts)

lemma length_request: "16 \<le> length (setlink_request bo seq ifx fd flags)"
  by (simp add: setlink_request_def Let_def)

lemma hook_set_error: "fst (hook_set native_ok prog_of fd flags slots) \<in> {0, - EOPNOTSUPP, - EEXIST, - EBUSY}"
  by (auto simp: hook_set_def Let_def)

lemma set_on_hook:
  "set_link_xdp_fd (libbpf_link bo (hook_os bo native_ok prog_of port ifx) stack) i fd flags k =
     (case hook_set native_ok prog_of (sint (of_int fd :: u32)) flags (k_slot k) of (e, slots) \<Rightarrow>
        (Return e, \<lparr>k_slot = slots, k_out = []\<rparr>))"
proof -
  obtain e slots where h: "hook_set native_ok prog_of (sint (of_int fd :: u32)) flags (k_slot k) = (e, slots)"
    by (cases "hook_set native_ok prog_of (sint (of_int fd :: u32)) flags (k_slot k)")
  have "sint (of_int e :: u32) = e"
    using hook_set_error [of native_ok prog_of "sint (of_int fd :: u32)" flags "k_slot k"] h
    by (auto simp: errno_defs)
  then show ?thesis
    using length_request [of bo 1 "of_int i" "of_int fd" flags]
    by (simp add: libbpf_link_def libbpf_call_def bpf_set_link_xdp_fd_def libbpf_netlink_open_def hook_os_def
        hook_answer_setlink h recv_ack min_absorb2 del: bpf_netlink_recv.simps)
qed

section \<open>Asking\<close>

lemma hook_attrs_ok:
  "list_all attr_ok (hook_attrs bo slots)" "length (concat (map (encode_nla bo) (hook_attrs bo slots))) = 16"
  by (simp_all add: hook_attrs_def attr_ok_def length_encode_nla align4_def)

lemma hook_attrs_keys:
  "map_of (rev (map (\<lambda>(t, p). (attr_key t, p)) (hook_attrs bo slots))) IFLA_XDP_ATTACHED = Some [mode_byte slots]"
  "map_of (rev (map (\<lambda>(t, p). (attr_key t, p)) (hook_attrs bo slots))) IFLA_XDP_PROG_ID = Some (encode_word bo 4 (attached slots))"
proof -
  have "attr_key (of_nat IFLA_XDP_ATTACHED) = IFLA_XDP_ATTACHED" "attr_key (of_nat IFLA_XDP_PROG_ID) = IFLA_XDP_PROG_ID"
    by code_simp+
  moreover have "IFLA_XDP_ATTACHED \<noteq> IFLA_XDP_PROG_ID" by code_simp
  ultimately show
    "map_of (rev (map (\<lambda>(t, p). (attr_key t, p)) (hook_attrs bo slots))) IFLA_XDP_ATTACHED = Some [mode_byte slots]"
    "map_of (rev (map (\<lambda>(t, p). (attr_key t, p)) (hook_attrs bo slots))) IFLA_XDP_PROG_ID = Some (encode_word bo 4 (attached slots))"
    by (simp_all add: hook_attrs_def)
qed

lemma link_message_loads:
  "load_nlmsghdr bo (link_message bo port seq ifx slots @ post) 0 =
     Some \<lparr> nlmsg_len = 52, nlmsg_type = RTM_NEWLINK, nlmsg_flags = NLM_F_MULTI, nlmsg_seq = seq, nlmsg_pid = port \<rparr>"
  "load_word bo 4 (link_message bo port seq ifx slots @ post) 0 = Some (52 :: u32)"
  "load_word bo 4 (link_message bo port seq ifx slots @ post) 20 = Some ifx"
proof -
  let ?h = "\<lparr> nlmsg_len = 52, nlmsg_type = RTM_NEWLINK, nlmsg_flags = NLM_F_MULTI, nlmsg_seq = seq, nlmsg_pid = port \<rparr>"
  show hdr: "load_nlmsghdr bo (link_message bo port seq ifx slots @ post) 0 = Some ?h"
    using load_encoded_hdr [of bo ?h] by (simp add: link_message_def)
  show "load_word bo 4 (link_message bo port seq ifx slots @ post) 0 = Some (52 :: u32)"
    using hdr by (auto simp: load_nlmsghdr_def split: bind_splits)
  let ?x = "encode_nla bo (of_nat IFLA_XDP, concat (map (encode_nla bo) (hook_attrs bo slots)))"
  show "load_word bo 4 (link_message bo port seq ifx slots @ post) 20 = Some ifx"
    using read_bytes_append [of 20 "encode_nlmsghdr bo ?h @ [AF_UNSPEC, 0] @ encode_word bo 2 (0 :: u16)" 4 "encode_word bo 4 ifx"
        "encode_word bo 4 (0 :: u32) @ encode_word bo 4 (0 :: u32) @ ?x @ post"]
    by (simp add: link_message_def encode_ifinfomsg_def load_word_def decode_encode_word)
qed

lemma link_message_parses:
  obtains tb nla xtb where "libbpf_nla_parse bo (link_message bo port seq ifx slots @ post) IFLA_MAX 32 20 None = Some (0, tb)"
    "tb ! IFLA_XDP = Some nla"
    "libbpf_nla_parse_nested bo (link_message bo port seq ifx slots @ post) IFLA_XDP_MAX nla None = Some (0, xtb)"
    "\<And>t. t \<le> IFLA_XDP_MAX \<Longrightarrow> indexed bo (link_message bo port seq ifx slots @ post) (hook_attrs bo slots) None t (xtb ! t)"
proof -
  let ?buf = "link_message bo port seq ifx slots @ post"
  let ?pay = "concat (map (encode_nla bo) (hook_attrs bo slots))"
  let ?outer = "[(of_nat IFLA_XDP, ?pay)] :: attr_value list"
  let ?pre = "encode_nlmsghdr bo \<lparr> nlmsg_len = 52, nlmsg_type = RTM_NEWLINK, nlmsg_flags = NLM_F_MULTI,
       nlmsg_seq = seq, nlmsg_pid = port \<rparr> @ encode_ifinfomsg bo AF_UNSPEC ifx"
  have buf: "?buf = ?pre @ concat (map (encode_nla bo) ?outer) @ post" by (simp add: link_message_def)
  have ok: "list_all attr_ok ?outer" by (simp only: list.pred_inject attr_ok_def snd_conv hook_attrs_ok) simp
  have len: "length (concat (map (encode_nla bo) ?outer)) = 20"
    by (simp only: list.map concat.simps append_Nil2 length_encode_nla hook_attrs_ok) (simp add: align4_def)
  obtain tb where tb: "libbpf_nla_parse bo ?buf IFLA_MAX 32 20 None = Some (0, tb)"
    "\<And>t. t \<le> IFLA_MAX \<Longrightarrow> indexed bo ?buf ?outer None t (tb ! t)"
    by (rule parse_encoded [OF ok _ buf, of 32 20 IFLA_MAX]) (simp_all only: len, simp_all)
  have key: "map_of (rev (map (\<lambda>(t, p). (attr_key t, p)) ?outer)) IFLA_XDP = Some ?pay"
  proof -
    have "attr_key (of_nat IFLA_XDP) = IFLA_XDP" by code_simp
    then show ?thesis by simp
  qed
  have le: "IFLA_XDP \<le> IFLA_MAX" by (simp add: IFLA_XDP_def IFLA_MAX_def)
  have small: "length ?pay < 2 ^ 31" by (simp only: hook_attrs_ok) simp
  show ?thesis by (rule nested_parse [OF tb(2) [OF le] key hook_attrs_ok(1) small, of IFLA_XDP_MAX]) (rule that [OF tb(1)])
qed

lemma get_xdp_id_on_link_message:
  assumes "md_ifindex md = ifx" "md_flags md AND XDP_FLAGS_HW_MODE = 0"
  shows "dump_link_nlmsg bo (get_xdp_id bo) md (link_message bo port seq ifx slots @ post) 0 =
     Some (0, if attached slots = 0 then md else md\<lparr>md_id := attached slots\<rparr>)"
proof -
  let ?buf = "link_message bo port seq ifx slots @ post"
  obtain tb nla xtb where p: "libbpf_nla_parse bo ?buf IFLA_MAX 32 20 None = Some (0, tb)"
    "tb ! IFLA_XDP = Some nla" "libbpf_nla_parse_nested bo ?buf IFLA_XDP_MAX nla None = Some (0, xtb)"
    "\<And>t. t \<le> IFLA_XDP_MAX \<Longrightarrow> indexed bo ?buf (hook_attrs bo slots) None t (xtb ! t)"
    using link_message_parses [of bo port seq ifx slots post] by blast
  have le: "IFLA_XDP_ATTACHED \<le> IFLA_XDP_MAX" "IFLA_XDP_PROG_ID \<le> IFLA_XDP_MAX"
    by (simp_all add: IFLA_XDP_ATTACHED_def IFLA_XDP_PROG_ID_def IFLA_XDP_MAX_def)
  obtain a where a: "xtb ! IFLA_XDP_ATTACHED = Some a" "libbpf_nla_getattr_u8 ?buf a = Some (mode_byte slots)"
    using indexed_u8 [OF p(4) [OF le(1)] hook_attrs_keys(1)] by blast
  obtain i where i: "xtb ! IFLA_XDP_PROG_ID = Some i" "libbpf_nla_getattr_u32 bo ?buf i = Some (attached slots)"
    using indexed_u32 [OF p(4) [OF le(2)] hook_attrs_keys(2)] by blast
  have m: "mode_byte slots = XDP_ATTACHED_NONE \<longleftrightarrow> attached slots = 0" "mode_byte slots \<noteq> XDP_ATTACHED_MULTI"
    by (auto simp: mode_byte_def attached_def XDP_ATTACHED_NONE_def XDP_ATTACHED_MULTI_def)
  have id: "get_xdp_id_attr (mode_byte slots) flags = IFLA_XDP_PROG_ID" "IFLA_XDP_PROG_ID \<noteq> 0" for flags
    using m(2) by (simp_all add: get_xdp_id_attr_def IFLA_XDP_PROG_ID_def)
  show ?thesis
    using p(1-3) a i m(1) assms(1)
    by (simp add: dump_link_nlmsg_def dump_nlmsg_def get_xdp_id_def link_message_loads NLMSG_HDRLEN_def
        sizeof_ifinfomsg_def align4_def id Let_def)
qed

lemma recv_dump:
  assumes "\<And>post. f cookie (link_message bo port seq ifx slots @ post) 0 = Some (0, cookie')"
  shows "bpf_netlink_recv bo stack [(0, link_message bo port seq ifx slots), (0, done_message bo port seq)] port seq (Some f) cookie
    = Some (Some (0, cookie'))"
proof -
  let ?m = "link_message bo port seq ifx slots" and ?d = "done_message bo port seq"
  have len: "length ?m = 52" "length ?d = 20"
    by (simp only: link_message_def length_append length_encode_nlmsghdr length_encode_ifinfomsg length_encode_nla hook_attrs_ok)
       (simp_all add: align4_def done_message_def)
  then have ne: "?m \<noteq> []" "?d \<noteq> []" by auto
  have rest: "nlmsg_loop bo b port seq cb 52 0 m c = Some (More m c)" for b cb m c
    by (simp add: nlmsg_loop.simps NLMSG_HDRLEN_def)
  have first: "nlmsg_loop bo (recv_buf stack ?m) port seq (Some f) 0 52 False cookie = Some (More True cookie')"
    using assms rest
    by (simp add: nlmsg_loop.simps [of bo _ port seq _ 0] recv_buf_def link_message_loads NLMSG_HDRLEN_def align4_def
        RTM_NEWLINK_def NLMSG_ERROR_def NLMSG_DONE_def NLM_F_MULTI_def)
  have hdr: "load_nlmsghdr bo (?d @ post) 0 = Some \<lparr> nlmsg_len = 20, nlmsg_type = NLMSG_DONE,
      nlmsg_flags = NLM_F_MULTI, nlmsg_seq = seq, nlmsg_pid = port \<rparr>" for post
    using load_encoded_hdr by (simp add: done_message_def)
  have "nlmsg_loop bo (recv_buf s ?d) port seq (Some f) 0 20 False cookie' = Some (Finished 0 cookie')" for s
    by (simp add: nlmsg_loop.simps [of bo _ port seq _ 0] recv_buf_def hdr NLMSG_HDRLEN_def NLMSG_ERROR_def NLMSG_DONE_def)
  then show ?thesis using ne first len by simp
qed

lemma query_on_hook:
  assumes "link_flags flags" "of_int i = (of_int ifx :: u32)"
  shows "get_link_xdp_id (libbpf_link bo (hook_os bo native_ok prog_of port ifx) stack) i flags k =
     (Return (0, Some (attached (k_slot k))), \<lparr>k_slot = k_slot k, k_out = []\<rparr>)"
proof -
  let ?fl = "flags AND (XDP_FLAGS_SKB_MODE OR XDP_FLAGS_DRV_MODE OR XDP_FLAGS_HW_MODE)"
  have fl: "flags AND NOT XDP_FLAGS_MASK = 0" "?fl AND (?fl - 1) = 0" "?fl AND XDP_FLAGS_HW_MODE = 0"
    using assms(1) unfolding link_flags_def XDP_FLAGS_MODES_def
    by (auto simp: xdp_flag_defs)
  have hdr: "load_nlmsghdr bo (getlink_request bo seq) 0 = Some \<lparr> nlmsg_len = of_nat (NLMSG_HDRLEN + sizeof_ifinfomsg),
      nlmsg_type = RTM_GETLINK, nlmsg_flags = NLM_F_DUMP OR NLM_F_REQUEST, nlmsg_seq = seq, nlmsg_pid = 0 \<rparr>" for seq
    by (simp add: getlink_request_def load_encoded_hdr)
  have ans: "hook_answer bo native_ok prog_of port ifx k (getlink_request bo seq) =
      k\<lparr>k_out := [(0, link_message bo port seq (of_int ifx) (k_slot k)), (0, done_message bo port seq)]\<rparr>" for seq
    by (simp add: hook_answer_def hdr RTM_GETLINK_def RTM_SETLINK_def)
  let ?md = "\<lparr> md_ifindex = of_int ifx, md_flags = ?fl, md_id = 0 \<rparr>"
  have "bpf_netlink_recv bo stack [(0, link_message bo port 0 (of_int ifx) (k_slot k)), (0, done_message bo port 0)] port 0
      (Some (dump_link_nlmsg bo (get_xdp_id bo))) ?md =
    Some (Some (0, if attached (k_slot k) = 0 then ?md else ?md\<lparr>md_id := attached (k_slot k)\<rparr>))"
    by (rule recv_dump) (simp add: get_xdp_id_on_link_message fl)
  then show ?thesis
    using fl(1,2) assms(2)
    by (simp add: libbpf_link_def libbpf_call_def bpf_get_link_xdp_id_def libbpf_netlink_open_def hook_os_def
        libbpf_nl_get_link_def nl_dump_def ans Let_def del: bpf_netlink_recv.simps)
qed

section \<open>The promises\<close>

lemma sint_descriptor: "descriptor fd \<Longrightarrow> sint (of_int fd :: u32) = fd"
  by (simp add: descriptor_def sint_sbintrunc' signed_take_bit_int_eq_self)

lemma hook_set_valid:
  "hook_valid native_ok k \<Longrightarrow> hook_set native_ok prog_of fd flags (k_slot k) = (e, slots) \<Longrightarrow>
     hook_valid native_ok \<lparr>k_slot = slots, k_out = out\<rparr>"
  by (auto simp: hook_valid_def hook_set_def Let_def mode_of_def split: if_splits)

interpretation netlink_hook: willing_hook
  "libbpf_link bo (hook_os bo native_ok prog_of port ifx) stack" ifx native_ok k_slot prog_of "hook_valid native_ok"
  for bo native_ok prog_of port ifx stack
proof
  fix k :: hook_kernel and flags fd
  let ?m = "mode_of native_ok flags" and ?ok = "supported native_ok flags"
  let ?lib = "libbpf_link bo (hook_os bo native_ok prog_of port ifx) stack"
  assume v: "hook_valid native_ok k"
  show "k_slot k Native = 0 \<or> k_slot k Generic = 0" using v by (simp add: hook_valid_def)
  show "k_slot k Native = 0" if "\<not> native_ok" using v that by (simp add: hook_valid_def)
  show "\<exists>r w'. set_link_xdp_fd ?lib ifx (-1) flags k = (Return r, w') \<and> hook_valid native_ok w' \<and>
      (if r = 0 then k_slot w' = (k_slot k)(?m := 0) else r < 0 \<and> k_slot w' = k_slot k)"
    using v by (auto simp: set_on_hook hook_set_def Let_def hook_valid_def errno_defs)
  show "\<exists>w'. set_link_xdp_fd ?lib ifx (-1) flags k = (Return 0, w')" if ?ok
    using that by (simp add: set_on_hook hook_set_def Let_def)
  show "\<exists>r i w'. get_link_xdp_id ?lib ifx flags k = (Return (r, i), w') \<and> hook_valid native_ok w' \<and>
      k_slot w' = k_slot k \<and> (r = 0 \<longrightarrow> i = Some (attached (k_slot k)))" if "link_flags flags"
    using v that by (simp add: query_on_hook hook_valid_def)
  show "\<exists>i w'. get_link_xdp_id ?lib ifx flags k = (Return (0, i), w')" if "link_flags flags"
    using that by (simp add: query_on_hook)
  assume d: "descriptor fd"
  then have fd: "sint (of_int fd :: u32) = fd" "\<not> fd < 0" by (simp_all add: sint_descriptor descriptor_def)
  show "\<exists>r w'. set_link_xdp_fd ?lib ifx fd flags k = (Return r, w') \<and> hook_valid native_ok w' \<and>
      (if r = 0
       then ?ok \<and> k_slot k (other_mode ?m) = 0 \<and>
         (flags AND XDP_FLAGS_UPDATE_IF_NOEXIST \<noteq> 0 \<longrightarrow> k_slot k ?m = 0) \<and> k_slot w' = (k_slot k)(?m := prog_of fd)
       else r < 0 \<and> k_slot w' = k_slot k)"
    using hook_set_valid [OF v, of prog_of fd flags] fd
    by (auto simp: set_on_hook hook_set_def Let_def errno_defs split: prod.split)
  show "\<exists>w'. set_link_xdp_fd ?lib ifx fd flags k = (Return (- EEXIST), w')" if ?ok "k_slot k (other_mode ?m) \<noteq> 0"
    using that fd by (simp add: set_on_hook hook_set_def Let_def)
  show "\<exists>w'. set_link_xdp_fd ?lib ifx fd flags k = (Return 0, w')"
    if ?ok "k_slot k (other_mode ?m) = 0" "flags AND XDP_FLAGS_UPDATE_IF_NOEXIST \<noteq> 0 \<Longrightarrow> k_slot k ?m = 0"
    using that fd by (auto simp: set_on_hook hook_set_def Let_def)
qed

section \<open>What the functions do\<close>

text \<open>
  C36. \<open>xdp_link_attach\<close> on a hook as the kernel documents it always returns. With \<open>EXIT_OK\<close> the hook holds the new
  program in the slot of the chosen mode and nothing else, and without \<open>--force\<close> it was empty before. With
  \<open>EXIT_FAIL_XDP\<close> the hook is as it was, or, only if the old program was to be replaced, empty: the new program
  is never attached beside an old one, and never without success being reported.
\<close>

theorem xdp_link_attach_outcome:
  assumes "xdp_hook lib ifx native_ok slot prog_id valid" "valid w" "link_flags flags" "descriptor fd"
  shows "\<exists>r w'. xdp_link_attach lib ifx flags fd w = (Return r, w') \<and> valid w' \<and>
    (if r = EXIT_OK
     then slot w' = (\<lambda>_. 0)(mode_of native_ok flags := prog_id fd) \<and> supported native_ok flags \<and>
       (flags AND XDP_FLAGS_UPDATE_IF_NOEXIST \<noteq> 0 \<longrightarrow> slot w = (\<lambda>_. 0))
     else r = EXIT_FAIL_XDP \<and>
       (slot w' = slot w \<or> flags AND XDP_FLAGS_UPDATE_IF_NOEXIST = 0 \<and> slot w' = (\<lambda>_. 0)))"
  using xdp_hook.attach_outcome [OF assms] .

text \<open>
  C37. When the kernel refuses for no other reason, attaching with \<open>--force\<close> succeeds whatever is attached, in
  whichever mode, and attaching without it succeeds exactly if nothing is attached; a mode the driver does not
  support is the only other failure.
\<close>

theorem xdp_link_attach_succeeds:
  assumes "willing_hook lib ifx native_ok slot prog_id valid" "valid w" "link_flags flags" "descriptor fd"
  shows "\<exists>w'. xdp_link_attach lib ifx flags fd w =
    (Return (if supported native_ok flags \<and> (flags AND XDP_FLAGS_UPDATE_IF_NOEXIST = 0 \<or> slot w = (\<lambda>_. 0))
             then EXIT_OK else EXIT_FAIL_XDP), w')"
  using willing_hook.attach_decides [OF assms] .

text \<open>
  C38. \<open>xdp_link_detach\<close> always returns. With \<open>EXIT_OK\<close> the slot of the chosen mode is empty and the other one is
  untouched, which also means that a program in the other mode stays attached although success is reported. If
  a program id is expected and another program is attached the result is \<open>EXIT_FAIL\<close>, and no failure changes the
  hook.
\<close>

theorem xdp_link_detach_outcome:
  assumes "xdp_hook lib ifx native_ok slot prog_id valid" "valid w" "link_flags flags"
  shows "\<exists>r w'. xdp_link_detach lib ifx flags expected w = (Return r, w') \<and> valid w' \<and>
    (if r = EXIT_OK
     then slot w' = (slot w)(mode_of native_ok flags := 0) \<and> (expected = 0 \<or> attached (slot w) \<in> {0, expected})
     else slot w' = slot w \<and>
       (r = EXIT_FAIL_XDP \<or> r = EXIT_FAIL \<and> expected \<noteq> 0 \<and> attached (slot w) \<notin> {0, expected}))"
  using xdp_hook.detach_outcome [OF assms] .

section \<open>Samples\<close>

text \<open>A kernel on which program 41 is attached in generic mode; descriptor \<open>n\<close> is the program with id \<open>n\<close>.\<close>

definition busy_hook :: hook_kernel where
  "busy_hook = \<lparr> k_slot = (\<lambda>_. 0)(Generic := 41), k_out = [] \<rparr>"

abbreviation sample_lib :: "hook_kernel xdp_link_ops" where
  "sample_lib \<equiv> libbpf_link LittleEndian (hook_os LittleEndian True of_int 77 2) []"

lemma busy_hook_valid: "hook_valid True busy_hook"
  by (simp add: hook_valid_def busy_hook_def)

lemma sample_flags: "link_flags XDP_FLAGS_DRV_MODE" "link_flags (XDP_FLAGS_UPDATE_IF_NOEXIST OR XDP_FLAGS_DRV_MODE)" "descriptor 5"
  by (simp_all add: link_flags_def xdp_flag_defs descriptor_def)

lemma sample_mode:
  "mode_of True XDP_FLAGS_DRV_MODE = Native" "supported True XDP_FLAGS_DRV_MODE"
  "XDP_FLAGS_DRV_MODE AND XDP_FLAGS_UPDATE_IF_NOEXIST = 0"
  "(XDP_FLAGS_UPDATE_IF_NOEXIST OR XDP_FLAGS_DRV_MODE) AND XDP_FLAGS_UPDATE_IF_NOEXIST \<noteq> 0"
  by (simp_all add: mode_of_def supported_def xdp_flag_defs)

theorem xdp_link_attach_outcome_witness:
  "\<exists>k. xdp_link_attach sample_lib 2 (XDP_FLAGS_UPDATE_IF_NOEXIST OR XDP_FLAGS_DRV_MODE) 5 busy_hook
     = (Return EXIT_FAIL_XDP, k) \<and> k_slot k Generic = 41 \<and> k_slot k Native = 0"
proof -
  have "k_slot busy_hook \<noteq> (\<lambda>_. 0)" by (auto simp: busy_hook_def fun_eq_iff)
  then show ?thesis
    using xdp_link_attach_outcome [OF netlink_hook.xdp_hook_axioms busy_hook_valid sample_flags(2,3),
        of LittleEndian of_int 77 2 "[]"] sample_mode(4)
    by (auto simp: busy_hook_def split: if_splits)
qed

theorem xdp_link_attach_succeeds_witness:
  "\<exists>k. xdp_link_attach sample_lib 2 XDP_FLAGS_DRV_MODE 5 busy_hook = (Return EXIT_OK, k)"
  using xdp_link_attach_succeeds [OF netlink_hook.willing_hook_axioms busy_hook_valid sample_flags(1,3),
      of LittleEndian of_int 77 2 "[]"] sample_mode(2,3) by simp

text \<open>The program in generic mode survives \<open>--unload\<close> in the default mode, and success is reported.\<close>

theorem xdp_link_detach_outcome_witness:
  "\<exists>k. xdp_link_detach sample_lib 2 XDP_FLAGS_DRV_MODE 0 busy_hook = (Return EXIT_OK, k) \<and> k_slot k Generic = 41"
proof -
  have "\<exists>k. xdp_link_detach sample_lib 2 XDP_FLAGS_DRV_MODE 0 busy_hook = (Return EXIT_OK, k)"
    by (simp add: xdp_link_detach_def andthen_def query_on_hook [OF sample_flags(1)] from_option_def attached_def busy_hook_def
        set_on_hook hook_set_def sample_mode Let_def ret_def)
  then show ?thesis
    using xdp_link_detach_outcome [OF netlink_hook.xdp_hook_axioms busy_hook_valid sample_flags(1),
        of LittleEndian of_int 77 2 "[]" 0] sample_mode(1)
    by (auto simp: busy_hook_def split: if_splits)
qed

end
