(* ===== verification/Relocate.thy ===== *)
theory Relocate
  imports Obj_Load
begin

text \<open>
  What patching the instructions of an object does: the reference is a program whose instructions are changed one by
  one, each at the place its relocation names, with the functions of \<open>.text\<close> behind it if it calls one.
\<close>

fun reloc_insn :: "reloc_desc \<Rightarrow> nat" where
  "reloc_insn (RELO_LD64 i k) = i"
| "reloc_insn (RELO_CALL i off) = i"

text \<open>The instruction after a relocation of a program with \<open>n\<close> instructions of its own. A call of the function at
  \<open>imm + 1\<close> in \<open>.text\<close> becomes a call of what is \<open>n\<close> instructions further from the start of the program.\<close>

fun patch_insn :: "bpf_object \<Rightarrow> nat \<Rightarrow> reloc_desc \<Rightarrow> bpf_insn \<Rightarrow> bpf_insn" where
  "patch_insn obj n (RELO_LD64 i k) insn = insn\<lparr>src_reg := BPF_PSEUDO_MAP_FD, imm := of_int (map_fd (maps obj ! k))\<rparr>"
| "patch_insn obj n (RELO_CALL i off) insn = insn\<lparr>imm := imm insn + (of_nat n - of_nat i)\<rparr>"

definition patched_insn :: "bpf_object \<Rightarrow> bpf_program \<Rightarrow> nat \<Rightarrow> bpf_insn" where
  "patched_insn obj p i =
     (case find (\<lambda>d. reloc_insn d = i) (relocs p) of
        None \<Rightarrow> insns p ! i
      | Some d \<Rightarrow> patch_insn obj (length (insns p)) d (insns p ! i))"

definition patch :: "bpf_object \<Rightarrow> nat \<Rightarrow> reloc_desc \<Rightarrow> bpf_insn list \<Rightarrow> bpf_insn list" where
  "patch obj n d l = l[reloc_insn d := patch_insn obj n d (l ! reloc_insn d)]"

lemma length_patch [simp]: "length (patch obj n d l) = length l"
  by (simp add: patch_def)

lemma nth_patch: "i < length l \<Longrightarrow> patch obj n d l ! i = (if reloc_insn d = i then patch_insn obj n d (l ! i) else l ! i)"
  by (auto simp: patch_def nth_list_update)

lemma length_patches [simp]: "length (fold (patch obj n) ds l) = length l"
  by (induction ds arbitrary: l) simp_all

lemma nth_patches:
  assumes "distinct (map reloc_insn ds)" "i < length l"
  shows "fold (patch obj n) ds l ! i =
    (case find (\<lambda>d. reloc_insn d = i) ds of None \<Rightarrow> l ! i | Some d \<Rightarrow> patch_insn obj n d (l ! i))"
  using assms
proof (induction ds arbitrary: l)
  case (Cons d ds)
  have none: "find (\<lambda>d. reloc_insn d = i) ds = None" if "reloc_insn d = i"
    using Cons.prems(1) that by (auto simp: find_None_iff intro: rev_image_eqI)
  show ?case
    using Cons.IH [of "patch obj n d l"] Cons.prems none by (cases "reloc_insn d = i") (simp_all add: nth_patch split: option.split)
qed simp

lemma patches_are_patched:
  assumes "distinct (map reloc_insn (relocs p))"
  shows "fold (patch obj (length (insns p))) (relocs p) (insns p) = map (patched_insn obj p) [0..<length (insns p)]"
  by (rule nth_equalityI) (simp_all add: nth_patches [OF assms] patched_insn_def)

section \<open>One program\<close>

definition text_insns :: "bpf_object \<Rightarrow> bpf_insn list" where
  "text_insns obj = (case bpf_object__find_prog_by_idx obj (text_shndx obj) of None \<Rightarrow> [] | Some t \<Rightarrow> insns t)"

text \<open>The program consists of its own instructions \<open>l\<close> and, when they have been added, the functions of \<open>.text\<close>.\<close>

definition code_of :: "bpf_object \<Rightarrow> bpf_insn list \<Rightarrow> bool \<Rightarrow> bpf_program \<Rightarrow> bool" where
  "code_of obj l added p \<longleftrightarrow> l \<noteq> [] \<and> insns p = l @ (if added then text_insns obj else []) \<and>
     main_prog_cnt p = (if added then length l else 0) \<and>
     (added \<longrightarrow> bpf_object__find_prog_by_idx obj (text_shndx obj) \<noteq> None \<and> idx p \<noteq> text_shndx obj)"

lemma add_text_spec:
  "wlp (add_text os p obj) (\<lambda>(err, p') w'. err = 0 \<longrightarrow> insns p' = insns p @ text_insns obj \<and>
     main_prog_cnt p' = length (insns p) \<and> idx p' = idx p \<and> bpf_object__find_prog_by_idx obj (text_shndx obj) \<noteq> None) w"
proof (cases "bpf_object__find_prog_by_idx obj (text_shndx obj)")
  case (Some t)
  show ?thesis
  proof (cases "obj_btf_ext obj")
    case None
    then show ?thesis by (simp add: add_text_def Some text_insns_def ENOMEM_def)
  next
    case ext: (Some ext)
    show ?thesis
      unfolding add_text_def Some ext option.case
      by (intro wlp_bind [OF malloc_spec] wlp_if wlp_bind [OF reloc_btf_ext_spec] wlp_case_prod)
         (auto simp: text_insns_def Some ENOMEM_def)
  qed
qed (simp add: add_text_def LIBBPF_ERRNO__START_def)

lemma reloc_map_spec:
  assumes "code_of obj l added p" "i < length l"
  shows "wlp (reloc_map p obj i k) (\<lambda>(err, p') w'. err = 0 \<longrightarrow> code_of obj (patch obj (length l) (RELO_LD64 i k) l) added p' \<and> idx p' = idx p) w"
  using assms by (auto simp: reloc_map_def code_of_def patch_def list_update_append nth_append)

lemma reloc_text_spec:
  assumes "code_of obj l added p" "i < length l"
  shows "wlp (bpf_program__reloc_text os p obj i)
    (\<lambda>(err, p') w'. err = 0 \<longrightarrow> code_of obj (patch obj (length l) (RELO_CALL i off) l) True p' \<and> idx p' = idx p) w"
proof -
  have a: "wlp (if main_prog_cnt p = 0 then add_text os p obj else ret (0, p))
      (\<lambda>(err, p') w'. idx p \<noteq> text_shndx obj \<longrightarrow> err = 0 \<longrightarrow> code_of obj l True p' \<and> idx p' = idx p) w"
    using assms(1) by (auto simp: code_of_def intro!: wlp_mono [OF add_text_spec])
  show ?thesis
    unfolding bpf_program__reloc_text_def Let_def
    by (intro wlp_if wlp_bind [OF a] wlp_case_prod)
       (use assms(2) in \<open>auto simp: code_of_def patch_def list_update_append nth_append LIBBPF_ERRNO__START_def\<close>)
qed

lemma reloc_loop_spec:
  assumes "code_of obj l added p" "\<forall>d \<in> set ds. reloc_insn d < length l"
  shows "wlp (reloc_loop os obj ds p) (\<lambda>(err, p') w'. err = 0 \<longrightarrow>
    code_of obj (fold (patch obj (length l)) ds l) (added \<or> list_ex is_call ds) p' \<and> idx p' = idx p \<and> relocs p' = []) w"
  using assms
proof (induction ds arbitrary: l added p w)
  case Nil
  then show ?case by (simp add: code_of_def)
next
  case (Cons d ds)
  let ?l = "patch obj (length l) d l" and ?a = "added \<or> is_call d"
  have d: "wlp (case d of RELO_LD64 i k \<Rightarrow> reloc_map p obj i k | RELO_CALL i off \<Rightarrow> bpf_program__reloc_text os p obj i)
      (\<lambda>(err, p') w'. err = 0 \<longrightarrow> code_of obj ?l ?a p' \<and> idx p' = idx p) w" for w
    using reloc_map_spec [OF Cons.prems(1)] reloc_text_spec [OF Cons.prems(1)] Cons.prems(2) by (cases d) auto
  have IH: "wlp (reloc_loop os obj ds q) (\<lambda>(err, p') w'. err = 0 \<longrightarrow>
      code_of obj (fold (patch obj (length l)) (d # ds) l) (added \<or> list_ex is_call (d # ds)) p' \<and> idx p' = idx p \<and> relocs p' = []) w'"
    if "code_of obj ?l ?a q \<and> idx q = idx p" for q w'
    by (rule wlp_mono [OF Cons.IH [of ?l ?a q w']]) (use that Cons.prems(2) in \<open>auto simp: disj_assoc\<close>)
  show ?case
    unfolding reloc_loop.simps by (intro wlp_bind [OF d] wlp_case_prod wlp_if) (use IH in auto)
qed

lemma program_relocate_spec:
  assumes "main_prog_cnt p = 0" "distinct (map reloc_insn (relocs p))" "\<forall>d \<in> set (relocs p). reloc_insn d < length (insns p)"
  shows "wlp (bpf_program__relocate os p obj) (\<lambda>(err, p') w'. err = 0 \<longrightarrow>
    insns p' = map (patched_insn obj p) [0..<length (insns p)] @ (if list_ex is_call (relocs p) then text_insns obj else []) \<and>
    (list_ex is_call (relocs p) \<longrightarrow> bpf_object__find_prog_by_idx obj (text_shndx obj) \<noteq> None \<and> idx p \<noteq> text_shndx obj) \<and> relocs p' = []) w"
proof -
  have e: "wlp (case obj_btf_ext obj of None \<Rightarrow> ret (0, p) | Some ext \<Rightarrow> bpf_program_reloc_btf_ext os p obj ext (section_name p) 0)
      (\<lambda>(err, q) w'. insns q = insns p \<and> relocs q = relocs p \<and> main_prog_cnt q = main_prog_cnt p \<and> idx q = idx p) w"
    by (auto split: option.split intro!: wlp_mono [OF reloc_btf_ext_spec])
  let ?Q = "\<lambda>(err, p') (w' :: 'a). err = 0 \<longrightarrow>
    insns p' = map (patched_insn obj p) [0..<length (insns p)] @ (if list_ex is_call (relocs p) then text_insns obj else []) \<and>
    (list_ex is_call (relocs p) \<longrightarrow> bpf_object__find_prog_by_idx obj (text_shndx obj) \<noteq> None \<and> idx p \<noteq> text_shndx obj) \<and> relocs p' = []"
  have l: "wlp (reloc_loop os obj (relocs p) q) ?Q w'"
    if q: "insns q = insns p" "main_prog_cnt q = main_prog_cnt p" "idx q = idx p" "relocs q = relocs p" for q w'
  proof (cases "relocs p = []")
    case True
    then show ?thesis using q patches_are_patched [OF assms(2), of obj] by simp
  next
    case False
    then have "insns p \<noteq> []" using assms(3) by (cases "relocs p") auto
    then have "code_of obj (insns p) False q" using q assms(1) by (simp add: code_of_def)
    from reloc_loop_spec [OF this assms(3)] show ?thesis
      by (rule wlp_mono) (use q patches_are_patched [OF assms(2)] in \<open>auto simp: code_of_def\<close>)
  qed
  show ?thesis
    unfolding bpf_program__relocate_def
    by (intro wlp_bind [OF e] wlp_case_prod wlp_if) (use l in auto)
qed

section \<open>All programs\<close>

text \<open>The object when program \<open>j\<close> is patched: the programs before it have been.\<close>

definition obj_at :: "bpf_object \<Rightarrow> bpf_object \<Rightarrow> nat \<Rightarrow> bpf_object" where
  "obj_at obj obj' j = obj\<lparr>programs := take j (programs obj') @ drop j (programs obj)\<rparr>"

lemma relocate_from_each:
  assumes "relocate_from os i n obj w = (Return (0, obj'), w')" "i + n = length (programs obj)"
  shows "length (programs obj') = length (programs obj) \<and> take i (programs obj') = take i (programs obj) \<and>
    (\<forall>j. i \<le> j \<longrightarrow> j < length (programs obj) \<longrightarrow>
       (\<exists>v v'. bpf_program__relocate os (programs obj ! j) (obj_at obj obj' j) v = (Return (0, programs obj' ! j), v')))"
  using assms
proof (induction n arbitrary: i obj w)
  case 0
  then show ?case by (simp add: prog_simps)
next
  case (Suc n)
  obtain p w1 where p: "bpf_program__relocate os (programs obj ! i) obj w = (Return (0, p), w1)"
    and r: "relocate_from os (Suc i) n (obj\<lparr>programs := (programs obj)[i := p]\<rparr>) w1 = (Return (0, obj'), w')"
    using Suc.prems(1) by (auto simp: andthen_eq_Return Let_def prog_simps split: if_splits)
  let ?o = "obj\<lparr>programs := (programs obj)[i := p]\<rparr>"
  have i: "i < length (programs obj)" using Suc.prems(2) by simp
  from Suc.IH [OF r] i Suc.prems(2) have IH: "length (programs obj') = length (programs obj)"
    "take (Suc i) (programs obj') = take (Suc i) ((programs obj)[i := p])"
    "\<And>j. Suc i \<le> j \<Longrightarrow> j < length (programs obj) \<Longrightarrow>
       \<exists>v v'. bpf_program__relocate os ((programs obj)[i := p] ! j) (obj_at ?o obj' j) v = (Return (0, programs obj' ! j), v')"
    by auto
  have t: "take i (programs obj') = take i (programs obj)" and pi: "programs obj' ! i = p"
    using IH(1,2) i by (auto simp: take_Suc_conv_app_nth)
  have at: "obj_at ?o obj' j = obj_at obj obj' j" if "Suc i \<le> j" for j
    using that by (simp add: obj_at_def)
  have at_i: "obj_at obj obj' i = obj" using t by (simp add: obj_at_def)
  have "\<exists>v v'. bpf_program__relocate os (programs obj ! j) (obj_at obj obj' j) v = (Return (0, programs obj' ! j), v')"
    if "i \<le> j" "j < length (programs obj)" for j
    using that IH(3) [of j] at [of j] at_i p pi by (cases "i = j") auto
  then show ?case using IH(1) t by blast
qed

lemma patch_insn_at: "patch_insn (obj_at obj obj' j) n d = patch_insn obj n d"
  by (cases d) (simp_all add: fun_eq_iff obj_at_def)

lemma text_insns_at:
  assumes "bpf_object__find_prog_by_idx (obj_at obj obj' i) n \<noteq> None" "length (programs obj') = length (programs obj)"
    "i < length (programs obj)" "n = text_shndx obj" "idx (programs obj ! i) \<noteq> n"
  shows "\<exists>k < length (programs obj). k \<noteq> i \<and> idx ((if k < i then programs obj' else programs obj) ! k) = n \<and>
    text_insns (obj_at obj obj' i) = insns ((if k < i then programs obj' else programs obj) ! k)"
proof -
  let ?ps = "take i (programs obj') @ drop i (programs obj)"
  obtain t where t: "find (\<lambda>p. idx p = n) ?ps = Some t" using assms(1) by (auto simp: bpf_object__find_prog_by_idx_def obj_at_def)
  then obtain k where k: "k < length ?ps" "idx (?ps ! k) = n" "t = ?ps ! k" by (auto simp: find_Some_iff)
  have nth: "?ps ! k = (if k < i then programs obj' else programs obj) ! k" using assms(2,3) k(1) by (auto simp: nth_append)
  have "k \<noteq> i" using k(2) nth assms(5) by auto
  moreover have "text_insns (obj_at obj obj' i) = insns (?ps ! k)"
    using t k(3) assms(4) by (simp add: text_insns_def bpf_object__find_prog_by_idx_def obj_at_def)
  ultimately show ?thesis using k(1,2) nth assms(2,3) by (intro exI [of _ k]) auto
qed

text \<open>
  C26. \<open>bpf_object__relocate\<close> patches the programs of an object as the linker would. After a success every instruction of a
  program that a relocation names for a map holds the descriptor of that map, marked as such; every call into \<open>.text\<close> is
  moved by the length of the program, so that it reaches the same function in the copy of \<open>.text\<close> that follows the
  program's own instructions; all other instructions are as before, and a program without such calls gets nothing
  more. The copy is that of \<open>.text\<close> as it is at that time: patched itself only if it comes earlier in the array.
\<close>

theorem relocate_patches_instructions:
  assumes "bpf_object__relocate os obj w = (Return (0, obj'), w')" "i < length (programs obj)"
    and "main_prog_cnt (programs obj ! i) = 0" "distinct (map reloc_insn (relocs (programs obj ! i)))"
    and "\<forall>d \<in> set (relocs (programs obj ! i)). reloc_insn d < length (insns (programs obj ! i))"
  shows "\<exists>t. insns (programs obj' ! i) =
      map (patched_insn obj (programs obj ! i)) [0..<length (insns (programs obj ! i))] @ t \<and>
    (if list_ex is_call (relocs (programs obj ! i))
     then \<exists>k < length (programs obj). k \<noteq> i \<and> idx ((if k < i then programs obj' else programs obj) ! k) = text_shndx obj \<and>
       t = insns ((if k < i then programs obj' else programs obj) ! k)
     else t = [])"
proof -
  let ?p = "programs obj ! i" and ?o = "obj_at obj obj' i"
  have each: "length (programs obj') = length (programs obj)"
    "\<exists>v v'. bpf_program__relocate os ?p ?o v = (Return (0, programs obj' ! i), v')"
    using relocate_from_each [of os 0 "length (programs obj)" obj w obj' w'] assms(1,2) by (simp_all add: bpf_object__relocate_def)
  then obtain v v' where r: "bpf_program__relocate os ?p ?o v = (Return (0, programs obj' ! i), v')" by blast
  have same: "patched_insn ?o ?p = patched_insn obj ?p" "text_shndx ?o = text_shndx obj"
    by (simp_all add: fun_eq_iff patched_insn_def patch_insn_at split: option.split) (simp add: obj_at_def)
  from wlpD [OF program_relocate_spec [OF assms(3-5)] r] show ?thesis
    using text_insns_at [OF _ each(1) assms(2) refl] by (auto simp: same)
qed

text \<open>A program that loads the address of the map and calls the second function of \<open>.text\<close>, at instruction 1 there.\<close>

definition text_program :: bpf_program where
  "text_program = sample_program\<lparr>idx := 2, insns := [sample_insn 0x95, sample_insn 0x95]\<rparr>"

definition calling_program :: bpf_program where
  "calling_program = sample_program\<lparr>insns := [sample_insn 0x18, sample_insn 0, (sample_insn 0x85)\<lparr>src_reg := BPF_PSEUDO_CALL\<rparr>, sample_insn 0x95],
     relocs := [RELO_LD64 0 0, RELO_CALL 2 8]\<rparr>"

definition calling_object :: bpf_object where
  "calling_object = sample_object\<lparr>has_pseudo_calls := True, programs := [text_program, calling_program], maps := [connections_map\<lparr>map_fd := 7\<rparr>]\<rparr>"

definition null_bpf :: "unit bpf_os" where
  "null_bpf = \<lparr> host_bo = LittleEndian, sys_errno = (\<lambda>w. 0), sys_malloc = (\<lambda>w n. True), sys_map_create = (\<lambda>w a. (-1, w)),
     sys_prog_load = (\<lambda>w a. (\<lparr> la_fd = -1, la_func_info_rec_size = 0, la_line_info_rec_size = 0, la_log = [] \<rparr>, w)),
     sys_btf_load = (\<lambda>w d l. (-1, w)), sys_elem = (\<lambda>w c a. ((-1, []), w)), sys_attach = (\<lambda>w f a. (-1, w)), sys_close = (\<lambda>w fd. (0, w)) \<rparr>"

theorem relocate_patches_instructions_witness:
  "\<exists>obj'. bpf_object__relocate null_bpf calling_object () = (Return (0, obj'), ()) \<and>
     map imm (insns (programs obj' ! 1)) = [7, 0, 2, 0, 0, 0] \<and> src_reg (insns (programs obj' ! 1) ! 0) = BPF_PSEUDO_MAP_FD"
proof -
  have "case bpf_object__relocate null_bpf calling_object () of (Return (e, _), _) \<Rightarrow> e = 0 | _ \<Rightarrow> False" by code_simp
  then obtain obj' where r: "bpf_object__relocate null_bpf calling_object () = (Return (0, obj'), ())"
    by (auto split: prod.splits outcome.splits)
  have own: "map (patched_insn calling_object calling_program) [0..<4] =
      [(sample_insn 0x18)\<lparr>src_reg := 1, imm := 7\<rparr>, sample_insn 0, (sample_insn 0x85)\<lparr>src_reg := 1, imm := 2\<rparr>, sample_insn 0x95]"
    "map (patched_insn calling_object text_program) [0..<2] = [sample_insn 0x95, sample_insn 0x95]"
    by code_simp+
  have p: "programs calling_object ! 1 = calling_program" "programs calling_object ! 0 = text_program"
    "length (programs calling_object) = 2" "length (insns calling_program) = 4" "length (insns text_program) = 2"
    "main_prog_cnt calling_program = 0" "main_prog_cnt text_program = 0" "relocs text_program = []"
    "relocs calling_program = [RELO_LD64 0 0, RELO_CALL 2 8]"
    by (simp_all add: calling_object_def calling_program_def text_program_def sample_program_def)
  have text_code: "insns (programs obj' ! 0) = [sample_insn 0x95, sample_insn 0x95]"
    using relocate_patches_instructions [OF r, of 0] by (simp add: p own)
  obtain k where "k < 2" "k \<noteq> 1" "insns (programs obj' ! 1) = map (patched_insn calling_object calling_program) [0..<4] @
      insns ((if k < 1 then programs obj' else programs calling_object) ! k)"
    using relocate_patches_instructions [OF r, of 1] by (auto simp: p simp del: One_nat_def)
  then have "insns (programs obj' ! 1) =
      [(sample_insn 0x18)\<lparr>src_reg := 1, imm := 7\<rparr>, sample_insn 0, (sample_insn 0x85)\<lparr>src_reg := 1, imm := 2\<rparr>, sample_insn 0x95] @
      [sample_insn 0x95, sample_insn 0x95]"
    using text_code own(1) by (cases k) (simp_all del: One_nat_def)
  then show ?thesis using r by (simp add: sample_insn_def BPF_PSEUDO_MAP_FD_def)
qed

end
