(* ===== verification/Loader.thy ===== *)
theory Loader
  imports Xdp_Hook Xdp_Stats
begin

text \<open>
  The two programs of \<open>src/loader\<close>: \<open>main\<close> and \<open>pin_maps_in_bpf_object\<close> of \<open>xdp_loader.c\<close>, and \<open>main\<close> and
  \<open>open_bpf_map_file\<close> of \<open>xdp_stats.c\<close>, composed of the functions of \<open>Params\<close>, \<open>Xdp_Link\<close>, \<open>Load_Prog\<close>,
  \<open>Pinning\<close> and \<open>Xdp_Stats\<close>.

  \<open>loader_os\<close> collects the calls to the system; \<open>access_ok\<close> is \<open>access\<close> with \<open>F_OK\<close>. \<open>snprintf\<close> with a path
  never returns a negative number here; it cuts a path at \<open>PATH_MAX - 1\<close> characters. The messages on
  success read the configuration's arrays as C strings, which is a fault if one of them is not terminated.
\<close>

section \<open>The loader\<close>

record 'w loader_os =
  ld_os :: "'w load_os"
  fs_ops :: "'w fs_os"
  link_lib :: "'w xdp_link_ops"
  access_ok :: "'w \<Rightarrow> string \<Rightarrow> bool"

definition pin_basedir :: string where "pin_basedir = ''/sys/fs/bpf''"
definition loader_map_name :: string where "loader_map_name = ''xdp_stats_map''"

definition path_buf :: "string \<Rightarrow> string" where
  "path_buf p = take (PATH_MAX - 1) p"

definition pin_maps_in_bpf_object :: "'w loader_os \<Rightarrow> bpf_object \<Rightarrow> string \<Rightarrow> ('w, int) prog" where
  "pin_maps_in_bpf_object os obj subdir =
     (let pin_dir = path_buf (join pin_basedir subdir);
          map_filename = path_buf (join (join pin_basedir subdir) loader_map_name)
      in (\<lambda>w.
        let unpin = (if access_ok os w map_filename
                     then bpf_object__unpin_maps (fs_ops os) (Some obj) pin_dir w else (0, w))
        in case unpin of (err, w) \<Rightarrow>
          if err \<noteq> 0 then (Return EXIT_FAIL_BPF, w)
          else case bpf_object__pin_maps (fs_ops os) (Some obj) pin_dir w of (err, w) \<Rightarrow>
            if err \<noteq> 0 then (Return EXIT_FAIL_BPF, w) else (Return 0, w)))"

text \<open>\<open>cfg.ifname\<close> as a string.\<close>

definition ifname_string :: "config \<Rightarrow> string option" where
  "ifname_string cfg = (case ifname cfg of NullPtr \<Rightarrow> None | OwnBuf \<Rightarrow> c_string (ifname_buf cfg))"

definition loader_doc :: string where
  "loader_doc = ''XDP loader'' @ [CHR 0x0A] @
     '' - Allows selecting BPF section --progsec name to XDP-attach to --dev'' @ [CHR 0x0A]"

definition loader_main :: "cmd_env \<Rightarrow> 'w loader_os \<Rightarrow> ('w, int) prog" where
  "loader_main env os =
     andthen (parse_cmdline_args env loader_options loader_doc (loader_config, True)) (\<lambda>(cfg, verbose).
     if ifindex cfg = -1
     then andthen (from_option (usage (argv0 env) loader_doc loader_options (args env = []))) (\<lambda>_. ret EXIT_FAIL_OPTION)
     else if do_unload cfg then xdp_link_detach (link_lib os) (ifindex cfg) (xdp_flags cfg) 0
     else
     andthen (load_bpf_and_xdp_attach (ld_os os) (link_lib os) cfg) (\<lambda>(obj, cfg).
     andthen (if verbose
              then andthen (from_option (c_string (filename cfg))) (\<lambda>_.
                   andthen (from_option (c_string (progsec cfg))) (\<lambda>_. ret ()))
              else ret ()) (\<lambda>_.
     andthen (from_option (ifname_string cfg)) (\<lambda>dev.
     andthen (pin_maps_in_bpf_object os obj dev) (\<lambda>err.
     if err \<noteq> 0 then ret err else ret EXIT_OK)))))"

section \<open>The statistics reader\<close>

definition open_bpf_map_file :: "'w load_os \<Rightarrow> string \<Rightarrow> string \<Rightarrow> ('w, int) prog" where
  "open_bpf_map_file os pin_dir mapname =
     (let file = path_buf (join pin_dir mapname) in
      andthen (call (\<lambda>w. obj_get os w file)) (\<lambda>fd. ret fd))"

definition zero_info :: map_info where
  "zero_info = \<lparr> info_type = 0, info_key_size = 0, info_value_size = 0, info_max_entries = 0, info_map_flags = 0,
     info_name = [], info_btf_key_type_id = 0, info_btf_value_type_id = 0 \<rparr>"

definition map_expect :: map_info where
  "map_expect = zero_info\<lparr>info_key_size := 4, info_value_size := of_nat sizeof_datarec, info_max_entries := XDP_ACTION_MAX\<rparr>"

definition stats_doc :: string where
  "stats_doc = ''XDP stats program'' @ [CHR 0x0A] @ '' - Finding xdp_stats_map via --dev name info'' @ [CHR 0x0A]"

text \<open>The loop of \<open>stats_poll\<close> does not end: \<open>main\<close> is modelled for \<open>n\<close> of its rounds, and gives what they print
  or the exit code with which it returns before.\<close>

definition stats_main ::
  "nat \<Rightarrow> cmd_env \<Rightarrow> 'w load_os \<Rightarrow> 'w stats_os \<Rightarrow> (nat \<Rightarrow> datarec list) \<Rightarrow> datarec
     \<Rightarrow> ('w, int + (stats_line list \<times> bool) list) prog" where
  "stats_main n env os sos stack garbage =
     andthen (parse_cmdline_args env stats_options stats_doc (stats_config, True)) (\<lambda>(cfg, verbose).
     if ifindex cfg = -1
     then andthen (from_option (usage (argv0 env) stats_doc stats_options (args env = []))) (\<lambda>_. ret (Inl EXIT_FAIL_OPTION))
     else andthen (from_option (ifname_string cfg)) (\<lambda>dev.
     let pin_dir = path_buf (join pin_basedir dev) in
     andthen (open_bpf_map_file os pin_dir ''xdp_stats_map'') (\<lambda>stats_map_fd.
     if stats_map_fd < 0 then ret (Inl EXIT_FAIL_BPF)
     else andthen (check_map_fd_info os stats_map_fd zero_info map_expect) (\<lambda>(err, info).
     if err \<noteq> 0 then ret (Inl err)
     else andthen (stats_poll n sos stack garbage stats_map_fd (info_type info)) (\<lambda>outs. ret (Inr outs))))))"

section \<open>Pinning again\<close>

lemma unpin_loop_names:
  assumes "map map_name ms = map map_name ms'"
  shows "unpin_loop (unpin_map_at os path) ms w = unpin_loop (unpin_map_at os path) ms' w"
  using assms
proof (induction ms arbitrary: ms' w)
  case (Cons m ms)
  then obtain m' ms'' where ms': "ms' = m' # ms''" "map_name m = map_name m'" "map map_name ms = map map_name ms''"
    by (cases ms') auto
  then have "unpin_map_at os path m = unpin_map_at os path m'"
    by (intro ext) (simp add: unpin_map_at_def bpf_map__unpin_def Let_def)
  then show ?case using Cons.IH [OF ms'(3)] ms'(1) by (simp split: prod.split)
qed simp


section \<open>Samples\<close>

text \<open>A system with the file system of \<open>Pinning\<close>, where loading fails and attaching succeeds.\<close>

definition no_bpf :: "'w bpf_os" where
  "no_bpf = \<lparr> host_bo = LittleEndian, sys_errno = (\<lambda>w. EPERM), sys_malloc = (\<lambda>w n. True), sys_map_create = (\<lambda>w a. (-1, w)),
     sys_prog_load = (\<lambda>w a. (load_ok (-1) [], w)), sys_btf_load = (\<lambda>w d l. (-1, w)), sys_elem = (\<lambda>w c a. ((-1, []), w)),
     sys_attach = (\<lambda>w f a. (-1, w)), sys_close = (\<lambda>w fd. (0, w)) \<rparr>"

definition sample_loader_os :: "(string \<rightharpoonup> int) loader_os" where
  "sample_loader_os =
     \<lparr> ld_os = \<lparr> bpf = no_bpf, open_xattr = (\<lambda>w _ _. (None, w)), obj_get = (\<lambda>w _. (-1, w)),
         info_by_fd = (\<lambda>_ _. (-1, zero_info)), open_root = (\<lambda>w. (3, w)), dup3 = (\<lambda>w _ n. (n, w)) \<rparr>,
       fs_ops = table_fs,
       link_lib = \<lparr> set_link_xdp_fd = (\<lambda>_ _ _. ret 0), get_link_xdp_id = (\<lambda>_ _. ret (0, Some 0)) \<rparr>,
       access_ok = (\<lambda>w p. w p \<noteq> None) \<rparr>"

text \<open>The maps of the filter, with the descriptors of one run.\<close>

definition filter_object :: "int \<Rightarrow> bpf_object" where
  "filter_object n = pinned_object\<lparr>maps :=
     [connections_map\<lparr>map_fd := n\<rparr>, connections_map\<lparr>map_name := loader_map_name, map_fd := n + 1\<rparr>]\<rparr>"


end
