(* ===== verification/Xsk_Ring.thy ===== *)
theory Xsk_Ring
  imports Prelude
begin

text \<open>
  The rings of an AF_XDP socket, \<open>src/libbpf/src/xsk.h\<close>. A ring is an array in memory shared with the kernel and two
  32 bit counters that only ever grow, modulo \<open>2 ^ 32\<close>: how many entries the producing side has made available and how
  many the consuming side has given back. Each side keeps a private copy of what it last knew of the other. The
  record \<open>xsk_ring\<close> is the private part of \<open>struct xsk_ring_prod\<close> and \<open>struct xsk_ring_cons\<close>, the record \<open>ring_mem\<close>
  is what their pointers \<open>producer\<close>, \<open>consumer\<close> and \<open>ring\<close> lead to.

  Every ring has one side in the program and one in the kernel. The step relations \<open>prod_step\<close> and \<open>cons_step\<close> are the
  calls of the program on its side, interleaved in any order with what the other side may do: it takes at most what
  has been made available, or stores into the part that is not in use. A client of the library writes only to
  entries it has reserved, and submits or releases no more than it holds.

  The specification is a bounded queue, \<open>queue_step\<close>. The locale \<open>fifo\<close> is the contract of a system that refines it; it is interpreted
  for both sides, so in every execution the entries come out in the order in which they were put in, none is lost,
  duplicated or overwritten, and at most as many as the size of the ring are on their way. The counters are related to natural numbers,
  so that wrapping at \<open>2 ^ 32\<close> is covered.
\<close>

section \<open>The rings\<close>

record xsk_ring =
  cached_prod :: u32
  cached_cons :: u32
  ring_mask :: u32
  ring_size :: u32

record 'a ring_mem =
  producer :: u32
  consumer :: u32
  ring :: "'a list"

text \<open>The functions return the address of an entry: its number in the array.\<close>

definition xsk_ring_prod__fill_addr :: "xsk_ring \<Rightarrow> u32 \<Rightarrow> nat" where
  "xsk_ring_prod__fill_addr fill idx = unat (idx AND ring_mask fill)"

definition xsk_ring_cons__comp_addr :: "xsk_ring \<Rightarrow> u32 \<Rightarrow> nat" where
  "xsk_ring_cons__comp_addr r idx = unat (idx AND ring_mask r)"

definition xsk_ring_prod__tx_desc :: "xsk_ring \<Rightarrow> u32 \<Rightarrow> nat" where
  "xsk_ring_prod__tx_desc tx idx = unat (idx AND ring_mask tx)"

definition xsk_ring_cons__rx_desc :: "xsk_ring \<Rightarrow> u32 \<Rightarrow> nat" where
  "xsk_ring_cons__rx_desc rx idx = unat (idx AND ring_mask rx)"

definition xsk_prod_nb_free :: "xsk_ring \<Rightarrow> 'a ring_mem \<Rightarrow> u32 \<Rightarrow> u32 \<times> xsk_ring" where
  "xsk_prod_nb_free r m nb =
     (let free_entries = cached_cons r - cached_prod r in
      if free_entries \<ge> nb then (free_entries, r)
      else let r = r\<lparr>cached_cons := consumer m + ring_size r\<rparr> in (cached_cons r - cached_prod r, r))"

definition xsk_cons_nb_avail :: "xsk_ring \<Rightarrow> 'a ring_mem \<Rightarrow> u32 \<Rightarrow> u32 \<times> xsk_ring" where
  "xsk_cons_nb_avail r m nb =
     (let entries = cached_prod r - cached_cons r;
          r' = (if entries = 0 then r\<lparr>cached_prod := producer m\<rparr> else r);
          entries' = cached_prod r' - cached_cons r'
      in (if entries' > nb then nb else entries', r'))"

text \<open>The number of entries is a \<open>size_t\<close>; passing it on cuts it to 32 bits. The results are the number of entries, the
  value stored in \<open>*idx\<close> (\<open>None\<close>: nothing is stored) and the private part.\<close>

definition xsk_ring_prod__reserve :: "xsk_ring \<Rightarrow> 'a ring_mem \<Rightarrow> u64 \<Rightarrow> u64 \<times> u32 option \<times> xsk_ring" where
  "xsk_ring_prod__reserve r m nb =
     (case xsk_prod_nb_free r m (ucast nb) of (free, r) \<Rightarrow>
      if ucast free < nb then (0, None, r)
      else (nb, Some (cached_prod r), r\<lparr>cached_prod := cached_prod r + ucast nb\<rparr>))"

definition xsk_ring_prod__submit :: "'a ring_mem \<Rightarrow> u64 \<Rightarrow> 'a ring_mem" where
  "xsk_ring_prod__submit m nb = m\<lparr>producer := producer m + ucast nb\<rparr>"

definition xsk_ring_cons__peek :: "xsk_ring \<Rightarrow> 'a ring_mem \<Rightarrow> u64 \<Rightarrow> u64 \<times> u32 option \<times> xsk_ring" where
  "xsk_ring_cons__peek r m nb =
     (case xsk_cons_nb_avail r m (ucast nb) of (entries, r) \<Rightarrow>
      if entries > 0 then (ucast entries, Some (cached_cons r), r\<lparr>cached_cons := cached_cons r + entries\<rparr>)
      else (ucast entries, None, r))"

definition xsk_ring_cons__release :: "'a ring_mem \<Rightarrow> u64 \<Rightarrow> 'a ring_mem" where
  "xsk_ring_cons__release m nb = m\<lparr>consumer := consumer m + ucast nb\<rparr>"

definition xsk_umem__get_data :: "u64 \<Rightarrow> u64 \<Rightarrow> u64" where
  "xsk_umem__get_data umem_area addr = umem_area + addr"

section \<open>The specification: a bounded queue\<close>

datatype 'a action = Tau | Put "'a list" | Get "'a list"

inductive queue_step :: "nat \<Rightarrow> 'a list \<Rightarrow> 'a action \<Rightarrow> 'a list \<Rightarrow> bool" for N where
  silent: "queue_step N q Tau q"
| put: "length q + length vs \<le> N \<Longrightarrow> queue_step N q (Put vs) (q @ vs)"
| get: "queue_step N (vs @ q) (Get vs) q"

inductive_simps queue_step_simps [simp]:
  "queue_step N q Tau q'"
  "queue_step N q (Put vs) q'"
  "queue_step N q (Get vs) q'"

text \<open>Executions of a system, and what went in and came out.\<close>

inductive run :: "('s \<Rightarrow> 'a action \<Rightarrow> 's \<Rightarrow> bool) \<Rightarrow> 's \<Rightarrow> 'a action list \<Rightarrow> 's \<Rightarrow> bool" for step s where
  run_start: "run step s [] s"
| run_step: "run step s tr s' \<Longrightarrow> step s' a s'' \<Longrightarrow> run step s (tr @ [a]) s''"

fun puts :: "'a action list \<Rightarrow> 'a list" where
  "puts [] = []"
| "puts (Put vs # tr) = vs @ puts tr"
| "puts (a # tr) = puts tr"

fun gets :: "'a action list \<Rightarrow> 'a list" where
  "gets [] = []"
| "gets (Get vs # tr) = vs @ gets tr"
| "gets (a # tr) = gets tr"

lemma puts_gets_append [simp]:
  "puts (tr @ tr') = puts tr @ puts tr'"
  "gets (tr @ tr') = gets tr @ gets tr'"
  by (induction tr rule: puts.induct) simp_all

locale fifo =
  fixes step :: "'s \<Rightarrow> 'a action \<Rightarrow> 's \<Rightarrow> bool"
    and inv :: "'s \<Rightarrow> bool"
    and contents :: "'s \<Rightarrow> 'a list"
    and cap :: "'s \<Rightarrow> nat"
  assumes bounded: "inv s \<Longrightarrow> length (contents s) \<le> cap s"
    and step_inv: "inv s \<Longrightarrow> step s a s' \<Longrightarrow> inv s' \<and> cap s' = cap s"
    and step_queue: "inv s \<Longrightarrow> step s a s' \<Longrightarrow> queue_step (cap s) (contents s) a (contents s')"
begin

lemma run_inv: "run step s tr s' \<Longrightarrow> inv s \<Longrightarrow> inv s' \<and> cap s' = cap s"
  by (induction rule: run.induct) (auto dest: step_inv)

lemma step_balance:
  assumes "inv s" "step s a s'"
  shows "contents s @ puts [a] = gets [a] @ contents s'"
  using step_queue [OF assms] by (cases a) auto

theorem run_fifo:
  assumes "run step s tr s'" "inv s"
  shows "contents s @ puts tr = gets tr @ contents s' \<and> length (contents s') \<le> cap s"
  using assms
proof (induction rule: run.induct)
  case run_start
  then show ?case by (simp add: bounded)
next
  case (run_step tr s' a s'')
  have inv: "inv s'" "cap s' = cap s" using run_inv [OF run_step.hyps(1) run_step.prems] by auto
  have "contents s @ puts tr @ puts [a] = gets tr @ gets [a] @ contents s''"
    using run_step.IH [OF run_step.prems] step_balance [OF inv(1) run_step.hyps(2)] by (metis append.assoc)
  then show ?case
    using step_inv [OF inv(1) run_step.hyps(2)] bounded [of s''] inv(2) by simp
qed

end

section \<open>The two systems\<close>

definition entry :: "xsk_ring \<Rightarrow> 'a ring_mem \<Rightarrow> u32 \<Rightarrow> 'a" where
  "entry r m idx = ring m ! unat (idx AND ring_mask r)"

definition window :: "xsk_ring \<Rightarrow> 'a ring_mem \<Rightarrow> u32 \<Rightarrow> nat \<Rightarrow> 'a list" where
  "window r m idx n = map (\<lambda>k. entry r m (idx + of_nat k)) [0..<n]"

text \<open>The entries on their way, and those that the program has reserved and not yet submitted.\<close>

fun in_flight :: "xsk_ring \<times> 'a ring_mem \<Rightarrow> 'a list" where
  "in_flight (r, m) = window r m (consumer m) (unat (producer m - consumer m))"

fun reserved :: "xsk_ring \<times> 'a ring_mem \<Rightarrow> nat" where
  "reserved (r, m) = unat (cached_prod r - producer m)"

text \<open>The entries that the program has peeked at and not yet released.\<close>

fun held :: "xsk_ring \<times> 'a ring_mem \<Rightarrow> nat" where
  "held (r, m) = unat (cached_cons r - consumer m)"

fun capacity :: "xsk_ring \<times> 'a ring_mem \<Rightarrow> nat" where
  "capacity (r, m) = unat (ring_size r)"

text \<open>The program on the producing side, the kernel consuming.\<close>

inductive prod_step :: "xsk_ring \<times> 'a ring_mem \<Rightarrow> 'a action \<Rightarrow> xsk_ring \<times> 'a ring_mem \<Rightarrow> bool" where
  reserve: "xsk_ring_prod__reserve r m nb = (n, idx, r') \<Longrightarrow> prod_step (r, m) Tau (r', m)"
| store: "k < reserved (r, m) \<Longrightarrow> i = xsk_ring_prod__fill_addr r (producer m + of_nat k) \<Longrightarrow>
    prod_step (r, m) Tau (r, m\<lparr>ring := (ring m)[i := v]\<rparr>)"
| submit: "unat nb \<le> reserved (r, m) \<Longrightarrow>
    prod_step (r, m) (Put (window r m (producer m) (unat nb))) (r, xsk_ring_prod__submit m nb)"
| consumed: "n \<le> unat (producer m - consumer m) \<Longrightarrow>
    prod_step (r, m) (Get (window r m (consumer m) n)) (r, m\<lparr>consumer := consumer m + of_nat n\<rparr>)"

text \<open>The program on the consuming side, the kernel producing.\<close>

inductive cons_step :: "xsk_ring \<times> 'a ring_mem \<Rightarrow> 'a action \<Rightarrow> xsk_ring \<times> 'a ring_mem \<Rightarrow> bool" where
  peek: "xsk_ring_cons__peek r m nb = (n, idx, r') \<Longrightarrow> cons_step (r, m) Tau (r', m)"
| release: "unat nb \<le> held (r, m) \<Longrightarrow>
    cons_step (r, m) (Get (window r m (consumer m) (unat nb))) (r, xsk_ring_cons__release m nb)"
| stored: "k < capacity (r, m) - unat (producer m - consumer m) \<Longrightarrow> i = unat ((producer m + of_nat k) AND ring_mask r) \<Longrightarrow>
    cons_step (r, m) Tau (r, m\<lparr>ring := (ring m)[i := v]\<rparr>)"
| produced: "n \<le> capacity (r, m) - unat (producer m - consumer m) \<Longrightarrow>
    cons_step (r, m) (Put (window r m (producer m) n)) (r, m\<lparr>producer := producer m + of_nat n\<rparr>)"

text \<open>A ring as the kernel sets it up: a power of two many entries, and a mask for it.\<close>

definition ring_shape :: "xsk_ring \<Rightarrow> 'a ring_mem \<Rightarrow> nat \<Rightarrow> bool" where
  "ring_shape r m k \<longleftrightarrow> k < 32 \<and> ring_size r = 2 ^ k \<and> ring_mask r = ring_size r - 1 \<and> length (ring m) = 2 ^ k"

fun prod_inv :: "xsk_ring \<times> 'a ring_mem \<Rightarrow> bool" where
  "prod_inv (r, m) \<longleftrightarrow> (\<exists>k c0 c p e. ring_shape r m k \<and> c0 \<le> c \<and> c \<le> p \<and> p \<le> e \<and> e \<le> c0 + 2 ^ k \<and>
     cached_cons r = of_nat (c0 + 2 ^ k) \<and> consumer m = of_nat c \<and> producer m = of_nat p \<and> cached_prod r = of_nat e)"

fun cons_inv :: "xsk_ring \<times> 'a ring_mem \<Rightarrow> bool" where
  "cons_inv (r, m) \<longleftrightarrow> (\<exists>k c g p0 p. ring_shape r m k \<and> c \<le> g \<and> g \<le> p0 \<and> p0 \<le> p \<and> p \<le> c + 2 ^ k \<and>
     consumer m = of_nat c \<and> cached_cons r = of_nat g \<and> cached_prod r = of_nat p0 \<and> producer m = of_nat p)"

declare prod_inv.simps [simp del] cons_inv.simps [simp del] in_flight.simps [simp del]

section \<open>Counters as natural numbers\<close>

lemma shape_cong: "ring_shape r m k \<Longrightarrow> ring_mask r' = ring_mask r \<Longrightarrow> ring_size r' = ring_size r \<Longrightarrow>
   length (ring m') = length (ring m) \<Longrightarrow> ring_shape r' m' k"
  by (simp add: ring_shape_def)

lemma pow_less_word: "k < 32 \<Longrightarrow> (2::nat) ^ k < 2 ^ 32"
  by (simp only: power_strict_increasing_iff)

lemma unat_pow: "k < 32 \<Longrightarrow> unat (2 ^ k :: u32) = 2 ^ k"
  using unat_of_nat [of "2 ^ k", where 'a = 32] pow_less_word [of k] by (simp add: take_bit_nat_eq_self)

lemma unat_diff_counters:
  assumes "a \<le> b" "b - a < 2 ^ 32"
  shows "unat (of_nat b - of_nat a :: u32) = b - a"
proof -
  have "(of_nat b - of_nat a :: u32) = of_nat (b - a)" using assms(1) by (simp add: of_nat_diff)
  then show ?thesis using assms(2) by (simp add: unat_of_nat take_bit_nat_eq_self)
qed

lemma counter_slot:
  assumes "ring_shape r m k"
  shows "unat (of_nat a AND ring_mask r) = a mod 2 ^ k"
proof -
  have "(of_nat a AND ring_mask r :: u32) = take_bit k (of_nat a)"
    using assms by (simp add: ring_shape_def take_bit_eq_mask mask_eq_exp_minus_1)
  then have "unat (of_nat a AND ring_mask r) = take_bit k (take_bit LENGTH(32) a)"
    by (simp only: unsigned_take_bit_eq unsigned_of_nat of_nat_id)
  also have "\<dots> = take_bit k a" using assms by (simp only: take_bit_take_bit ring_shape_def) (simp add: min_def)
  finally show ?thesis by (simp only: take_bit_eq_mod)
qed

lemma window_counters:
  assumes "ring_shape r m k"
  shows "window r m (of_nat a) n = map (\<lambda>i. ring m ! (i mod 2 ^ k)) [a..<a + n]"
  unfolding window_def entry_def
  by (rule nth_equalityI) (use counter_slot [OF assms] in \<open>auto simp flip: of_nat_add\<close>)

text \<open>Within one turn of the ring, different counters have different places.\<close>

lemma mod_window_inj:
  assumes "a \<le> i" "i < a + N" "a \<le> j" "j < a + N" "i mod N = j mod (N :: nat)"
  shows "i = j"
proof -
  have eq: "x = y" if "x \<le> y" "y < x + N" "x mod N = y mod N" for x y
  proof -
    have "N dvd y - x" using mod_eq_dvd_iff_nat [OF that(1), of N] that(3) by simp
    moreover have "y - x < N" using that by simp
    ultimately show ?thesis using that(1) by (metis dvd_imp_le diff_is_0_eq le_antisym not_less zero_less_iff_neq_zero)
  qed
  show ?thesis using assms eq [of i j] eq [of j i] by (cases "i \<le> j") auto
qed

text \<open>Storing at one counter leaves the others of the turn.\<close>

lemma slots_store_elsewhere:
  assumes "a \<le> i" "i < b" "b \<le> j" "j < a + N"
  shows "l[j mod N := v] ! (i mod N) = l ! (i mod N)"
  using mod_window_inj [of a i N j] assms by (metis nth_list_update_neq not_less order_less_imp_le order_less_le_trans)

section \<open>The producing side\<close>

lemma prod_invE:
  assumes "prod_inv (r, m)"
  obtains k c0 c p e where "ring_shape r m k" "c0 \<le> c" "c \<le> p" "p \<le> e" "e \<le> c0 + 2 ^ k"
    "cached_cons r = of_nat (c0 + 2 ^ k)" "consumer m = of_nat c" "producer m = of_nat p" "cached_prod r = of_nat e"
    "k < 32" "(2::nat) ^ k < 2 ^ 32" "e - c0 < 2 ^ 32"
proof -
  from assms obtain k c0 c p e where *: "ring_shape r m k" "c0 \<le> c" "c \<le> p" "p \<le> e" "e \<le> c0 + 2 ^ k"
    "cached_cons r = of_nat (c0 + 2 ^ k)" "consumer m = of_nat c" "producer m = of_nat p" "cached_prod r = of_nat e"
    by (auto simp: prod_inv.simps)
  then have "k < 32" by (simp add: ring_shape_def)
  then show thesis using that [OF *] pow_less_word [of k] * by linarith
qed

lemma in_flight_counters:
  assumes "ring_shape r m k" "consumer m = of_nat c" "producer m = of_nat p" "c \<le> p" "p \<le> c + 2 ^ k"
  shows "in_flight (r, m) = map (\<lambda>i. ring m ! (i mod 2 ^ k)) [c..<p]"
proof -
  have "k < 32" using assms by (simp add: ring_shape_def)
  then have "unat (producer m - consumer m) = p - c"
    using assms pow_less_word [of k] by (simp add: unat_diff_counters)
  then show ?thesis using assms window_counters [OF assms(1), of c "p - c"] by (simp add: in_flight.simps)
qed

lemma ucast_counter: "(ucast (nb :: u64) :: u32) = of_nat (unat nb)"
  by (simp add: unsigned_ucast_eq)

lemma unat_ucast_64: "unat (ucast (x :: u32) :: u64) = unat x"
  using unsigned_less [of x, where 'a = nat] by (simp add: unsigned_ucast_eq take_bit_nat_eq_self)

lemma prod_nb_free_counters:
  assumes "prod_inv (r, m)" "xsk_prod_nb_free r m nb = (free, r1)"
  shows "prod_inv (r1, m) \<and> free = cached_cons r1 - cached_prod r1 \<and>
     cached_prod r1 = cached_prod r \<and> ring_mask r1 = ring_mask r \<and> ring_size r1 = ring_size r"
  using assms(1)
proof (cases rule: prod_invE)
  case (1 k c0 c p e)
  then show ?thesis
  proof (cases "nb \<le> cached_cons r - cached_prod r")
    case True
    then show ?thesis using assms by (auto simp: xsk_prod_nb_free_def)
  next
    case False
    then have r1: "r1 = r\<lparr>cached_cons := consumer m + ring_size r\<rparr>" "free = cached_cons r1 - cached_prod r1"
      using assms(2) by (auto simp: xsk_prod_nb_free_def Let_def)
    have "ring_shape r1 m k" "cached_cons r1 = of_nat (c + 2 ^ k)" using 1 by (simp_all add: r1 ring_shape_def)
    then have "prod_inv (r1, m)"
      unfolding prod_inv.simps using 1 by (intro exI [of _ k] exI [of _ c] exI [of _ p] exI [of _ e]) (auto simp: r1)
    then show ?thesis by (simp add: r1)
  qed
qed

text \<open>What \<open>reserve\<close> does: whole batches or nothing, from the counter reached so far.\<close>

lemma reserve_counters:
  assumes inv: "prod_inv (r, m)" and res: "xsk_ring_prod__reserve r m nb = (n, idx, r')"
  shows "prod_inv (r', m) \<and> ring_mask r' = ring_mask r \<and> ring_size r' = ring_size r \<and>
     (if idx = None then n = 0 \<and> cached_prod r' = cached_prod r
      else n = nb \<and> idx = Some (cached_prod r) \<and> reserved (r', m) = reserved (r, m) + unat nb)"
proof -
  obtain free r1 where f: "xsk_prod_nb_free r m (ucast nb) = (free, r1)" by fastforce
  note r1 = prod_nb_free_counters [OF inv f]
  show ?thesis
  proof (cases "ucast free < nb")
    case True
    then show ?thesis using res f r1 by (auto simp: xsk_ring_prod__reserve_def)
  next
    case False
    then have nb: "unat nb \<le> unat free" by (simp add: word_less_nat_alt unat_ucast_64)
    have r': "r' = r1\<lparr>cached_prod := cached_prod r1 + ucast nb\<rparr>" "n = nb" "idx = Some (cached_prod r1)"
      using res f False by (auto simp: xsk_ring_prod__reserve_def)
    from r1 have "prod_inv (r1, m)" by simp
    then show ?thesis
    proof (cases rule: prod_invE)
      case (1 k c0 c p e)
      have "unat free = c0 + 2 ^ k - e" using 1 r1 unat_diff_counters [of e "c0 + 2 ^ k"] by simp
      then have e: "e + unat nb \<le> c0 + 2 ^ k" using nb 1 by simp
      have cp: "cached_prod r' = of_nat (e + unat nb)" using 1 by (simp add: r' flip: ucast_counter)
      have "ring_shape r' m k" "cached_cons r' = of_nat (c0 + 2 ^ k)" using 1 by (auto simp: r' ring_shape_def)
      then have "prod_inv (r', m)"
        unfolding prod_inv.simps using 1 cp e
        by (intro exI [of _ k] exI [of _ c0] exI [of _ c] exI [of _ p] exI [of _ "e + unat nb"]) (simp del: of_nat_add)
      moreover have "e + unat nb - p < 2 ^ 32" using e 1 by linarith
      then have "reserved (r', m) = e + unat nb - p" "reserved (r, m) = e - p"
        using 1 cp r1 unat_diff_counters [of p "e + unat nb"] unat_diff_counters [of p e]
        by (simp_all del: of_nat_add)
      ultimately show ?thesis using 1 r1 by (simp add: r')
    qed
  qed
qed

lemma reserve_iff_room:
  assumes inv: "prod_inv (r, m)" and res: "xsk_ring_prod__reserve r m nb = (n, idx, r')"
  shows "idx \<noteq> None \<longleftrightarrow> length (in_flight (r, m)) + reserved (r, m) + unat nb \<le> capacity (r, m)"
  using inv
proof (cases rule: prod_invE)
  case (1 k c0 c p e)
  obtain free r1 where f: "xsk_prod_nb_free r m (ucast nb) = (free, r1)" by fastforce
  have "idx \<noteq> None \<longleftrightarrow> unat nb \<le> unat free"
    using res f by (auto simp: xsk_ring_prod__reserve_def word_less_nat_alt unat_ucast_64 split: if_splits)
  moreover have c0: "unat (cached_cons r - cached_prod r) = c0 + 2 ^ k - e"
    using 1 unat_diff_counters [of e "c0 + 2 ^ k"] by simp
  moreover have c: "unat (consumer m + ring_size r - cached_prod r) = c + 2 ^ k - e"
    using 1 unat_diff_counters [of e "c + 2 ^ k"] by (simp add: ring_shape_def)
  moreover have "unat (ucast nb :: u32) = unat nb" if "unat nb \<le> 2 ^ k"
    using that 1 by (simp add: unsigned_ucast_eq take_bit_nat_eq_self)
  ultimately have "idx \<noteq> None \<longleftrightarrow> e + unat nb \<le> c + 2 ^ k"
    using f 1 by (auto simp: xsk_prod_nb_free_def Let_def word_le_nat_alt split: if_splits)
  moreover have "length (in_flight (r, m)) = p - c" "reserved (r, m) = e - p" "capacity (r, m) = 2 ^ k"
    using 1 in_flight_counters [of r m k c p] unat_diff_counters [of p e] by (auto simp: ring_shape_def unat_pow)
  ultimately show ?thesis using 1 by auto
qed

text \<open>Every step of the producing side keeps the invariant and is a step of the queue.\<close>

lemma in_flight_private: "ring_mask r' = ring_mask r \<Longrightarrow> in_flight (r', m) = in_flight (r, m)"
  by (simp add: in_flight.simps window_def entry_def)

lemma added_counters:
  assumes "ring_shape r m k" "consumer m = of_nat c" "producer m = of_nat p" "c \<le> p" "p + n \<le> c + 2 ^ k"
  shows "in_flight (r, m\<lparr>producer := of_nat (p + n)\<rparr>) = in_flight (r, m) @ window r m (producer m) n"
proof -
  let ?m = "m\<lparr>producer := of_nat (p + n)\<rparr>"
  have shape: "ring_shape r ?m k" using assms by (simp add: ring_shape_def)
  have "in_flight (r, m) = map (\<lambda>i. ring m ! (i mod 2 ^ k)) [c..<p]"
    using in_flight_counters [OF assms(1-4)] assms(5) by simp
  moreover have "in_flight (r, ?m) = map (\<lambda>i. ring m ! (i mod 2 ^ k)) [c..<p + n]"
    using in_flight_counters [OF shape, of c "p + n"] assms by simp
  ultimately show ?thesis using assms(3,4) upt_add_eq_append [of c p n] by (simp add: window_counters [OF assms(1)])
qed

lemma stored_counters:
  assumes "ring_shape r m n" "consumer m = of_nat c" "producer m = of_nat p" "c \<le> p" "p + k < c + 2 ^ n"
    and "i = (p + k) mod 2 ^ n"
  shows "ring_shape r (m\<lparr>ring := (ring m)[i := v]\<rparr>) n \<and> in_flight (r, m\<lparr>ring := (ring m)[i := v]\<rparr>) = in_flight (r, m)"
proof -
  let ?m = "m\<lparr>ring := (ring m)[i := v]\<rparr>"
  have shape: "ring_shape r ?m n" using assms by (simp add: ring_shape_def)
  have "in_flight (r, m) = map (\<lambda>i. ring m ! (i mod 2 ^ n)) [c..<p]"
    using in_flight_counters [OF assms(1-4)] assms(5) by simp
  moreover have "in_flight (r, ?m) = map (\<lambda>j. (ring m)[i := v] ! (j mod 2 ^ n)) [c..<p]"
    using in_flight_counters [OF shape, of c p] assms by simp
  ultimately show ?thesis
    using shape assms(4-6) slots_store_elsewhere [of c _ p "p + k" "2 ^ n" "ring m" v] by simp
qed

lemma prod_store:
  assumes "prod_inv (r, m)" "k < reserved (r, m)" "i = xsk_ring_prod__fill_addr r (producer m + of_nat k)"
  shows "prod_inv (r, m\<lparr>ring := (ring m)[i := v]\<rparr>) \<and> in_flight (r, m\<lparr>ring := (ring m)[i := v]\<rparr>) = in_flight (r, m)"
  using assms(1)
proof (cases rule: prod_invE)
  case (1 n c0 c p e)
  have k: "p + k < e" using 1 assms(2) unat_diff_counters [of p e] by (simp add: less_diff_conv add.commute)
  have "i = (p + k) mod 2 ^ n"
    using assms(3) 1 counter_slot [OF 1(1), of "p + k"] by (simp add: xsk_ring_prod__fill_addr_def)
  then have *: "ring_shape r (m\<lparr>ring := (ring m)[i := v]\<rparr>) n" "in_flight (r, m\<lparr>ring := (ring m)[i := v]\<rparr>) = in_flight (r, m)"
    using stored_counters [OF 1(1,7,8,3), of k i v] 1 k by auto
  have "prod_inv (r, m\<lparr>ring := (ring m)[i := v]\<rparr>)"
    unfolding prod_inv.simps using 1 *(1) by (intro exI [of _ n] exI [of _ c0] exI [of _ c] exI [of _ p] exI [of _ e]) simp
  then show ?thesis using *(2) by simp
qed

lemma prod_submit:
  assumes "prod_inv (r, m)" "unat nb \<le> reserved (r, m)"
  shows "prod_inv (r, xsk_ring_prod__submit m nb) \<and>
     in_flight (r, xsk_ring_prod__submit m nb) = in_flight (r, m) @ window r m (producer m) (unat nb)"
  using assms(1)
proof (cases rule: prod_invE)
  case (1 n c0 c p e)
  have nb: "p + unat nb \<le> e" using 1 assms(2) unat_diff_counters [of p e] by simp
  have m: "xsk_ring_prod__submit m nb = m\<lparr>producer := of_nat (p + unat nb)\<rparr>"
    using 1 by (simp add: xsk_ring_prod__submit_def flip: ucast_counter)
  have "ring_shape r (m\<lparr>producer := of_nat (p + unat nb)\<rparr>) n" using 1 by (simp add: ring_shape_def)
  then have "prod_inv (r, m\<lparr>producer := of_nat (p + unat nb)\<rparr>)"
    unfolding prod_inv.simps using 1 nb
    by (intro exI [of _ n] exI [of _ c0] exI [of _ c] exI [of _ "p + unat nb"] exI [of _ e]) simp
  then show ?thesis unfolding m using added_counters [of r m n c p "unat nb"] 1 nb by simp
qed

lemma taken_counters:
  assumes "ring_shape r m k" "consumer m = of_nat c" "producer m = of_nat p" "c + n \<le> p" "p \<le> c + 2 ^ k"
  shows "in_flight (r, m) = window r m (consumer m) n @ in_flight (r, m\<lparr>consumer := of_nat (c + n)\<rparr>)"
proof -
  let ?m = "m\<lparr>consumer := of_nat (c + n)\<rparr>"
  have shape: "ring_shape r ?m k" using assms by (simp add: ring_shape_def)
  have "in_flight (r, m) = map (\<lambda>i. ring m ! (i mod 2 ^ k)) [c..<p]"
    using in_flight_counters [OF assms(1-3)] assms(4,5) by simp
  moreover have "in_flight (r, ?m) = map (\<lambda>i. ring m ! (i mod 2 ^ k)) [c + n..<p]"
    using in_flight_counters [OF shape, of "c + n" p] assms by simp
  moreover have "[c..<p] = [c..<c + n] @ [c + n..<p]"
    using upt_add_eq_append [of c "c + n" "p - (c + n)"] assms(4) by simp
  ultimately show ?thesis using assms(2) by (simp add: window_counters [OF assms(1)])
qed

lemma prod_consumed:
  assumes "prod_inv (r, m)" "n \<le> unat (producer m - consumer m)"
  shows "prod_inv (r, m\<lparr>consumer := consumer m + of_nat n\<rparr>) \<and>
     in_flight (r, m) = window r m (consumer m) n @ in_flight (r, m\<lparr>consumer := consumer m + of_nat n\<rparr>)"
  using assms(1)
proof (cases rule: prod_invE)
  case (1 k c0 c p e)
  let ?m = "m\<lparr>consumer := of_nat (c + n)\<rparr>"
  have n: "c + n \<le> p" using 1 assms(2) unat_diff_counters [of c p] by simp
  have "ring_shape r ?m k" using 1 by (simp add: ring_shape_def)
  then have "prod_inv (r, ?m)"
    unfolding prod_inv.simps using 1 n
    by (intro exI [of _ k] exI [of _ c0] exI [of _ "c + n"] exI [of _ p] exI [of _ e]) simp
  then show ?thesis using taken_counters [of r m k c p n] 1 n by simp
qed

lemma prod_bounded: "prod_inv s \<Longrightarrow> length (in_flight s) \<le> capacity s"
proof (cases s)
  case (Pair r m)
  assume "prod_inv s"
  then have "prod_inv (r, m)" using Pair by simp
  then show ?thesis
  proof (cases rule: prod_invE)
    case (1 k c0 c p e)
    then show ?thesis using in_flight_counters [of r m k c p] Pair by (simp add: ring_shape_def unat_pow)
  qed
qed

lemma prod_step_sound:
  assumes "prod_step s a s'" "prod_inv s"
  shows "prod_inv s' \<and> capacity s' = capacity s \<and> queue_step (capacity s) (in_flight s) a (in_flight s')"
  using assms
proof (induction rule: prod_step.induct)
  case (reserve r m nb n idx r')
  then show ?case using reserve_counters [OF reserve.prems reserve.hyps] in_flight_private [of r' r m] by simp
next
  case (store k r m i v)
  then show ?case using prod_store [OF store.prems store.hyps] by simp
next
  case (submit nb r m)
  have *: "prod_inv (r, xsk_ring_prod__submit m nb)"
      "in_flight (r, xsk_ring_prod__submit m nb) = in_flight (r, m) @ window r m (producer m) (unat nb)"
    using prod_submit [OF submit.prems submit.hyps] by auto
  then show ?case using prod_bounded [OF *(1)] by simp
next
  case (consumed n m r)
  then show ?case using prod_consumed [OF consumed.prems consumed.hyps] by simp
qed

interpretation prod_ring: fifo prod_step prod_inv in_flight capacity
  by (unfold_locales; use prod_step_sound prod_bounded in blast)

section \<open>The consuming side\<close>

lemma cons_invE:
  assumes "cons_inv (r, m)"
  obtains k c g p0 p where "ring_shape r m k" "c \<le> g" "g \<le> p0" "p0 \<le> p" "p \<le> c + 2 ^ k"
    "consumer m = of_nat c" "cached_cons r = of_nat g" "cached_prod r = of_nat p0" "producer m = of_nat p"
    "k < 32" "(2::nat) ^ k < 2 ^ 32" "p - c < 2 ^ 32"
proof -
  from assms obtain k c g p0 p where *: "ring_shape r m k" "c \<le> g" "g \<le> p0" "p0 \<le> p" "p \<le> c + 2 ^ k"
    "consumer m = of_nat c" "cached_cons r = of_nat g" "cached_prod r = of_nat p0" "producer m = of_nat p"
    by (auto simp: cons_inv.simps)
  then have "k < 32" by (simp add: ring_shape_def)
  then show thesis using that [OF *] pow_less_word [of k] * by linarith
qed

lemma cons_bounded: "cons_inv s \<Longrightarrow> length (in_flight s) \<le> capacity s"
proof (cases s)
  case (Pair r m)
  assume "cons_inv s"
  then have "cons_inv (r, m)" using Pair by simp
  then show ?thesis
  proof (cases rule: cons_invE)
    case (1 k c g p0 p)
    then show ?thesis using in_flight_counters [of r m k c p] Pair by (simp add: ring_shape_def unat_pow)
  qed
qed

lemma cons_nb_avail_counters:
  assumes "cons_inv (r, m)" "xsk_cons_nb_avail r m nb = (entries, r1)"
  shows "cons_inv (r1, m) \<and> entries = min nb (cached_prod r1 - cached_cons r1) \<and>
     cached_cons r1 = cached_cons r \<and> ring_mask r1 = ring_mask r \<and> ring_size r1 = ring_size r \<and>
     (entries = 0 \<longrightarrow> nb = 0 \<or> producer m = cached_cons r)"
  using assms(1)
proof (cases rule: cons_invE)
  case (1 k c g p0 p)
  have min: "(if x > nb then nb else x) = min nb x" for x :: u32 by (auto simp: min_def)
  show ?thesis
  proof (cases "cached_prod r - cached_cons r = 0")
    case False
    then have "entries = min nb (cached_prod r - cached_cons r)" "r1 = r"
      using assms(2) by (auto simp: xsk_cons_nb_avail_def min Let_def)
    then show ?thesis using assms(1) False by (simp add: min_def)
  next
    case True
    then have r1: "r1 = r\<lparr>cached_prod := producer m\<rparr>" "entries = min nb (cached_prod r1 - cached_cons r1)"
      using assms(2) by (auto simp: xsk_cons_nb_avail_def min Let_def)
    have "ring_shape r1 m k" using 1 by (simp add: r1 ring_shape_def)
    then have "cons_inv (r1, m)"
      unfolding cons_inv.simps using 1
      by (intro exI [of _ k] exI [of _ c] exI [of _ g] exI [of _ p] exI [of _ p]) (auto simp: r1)
    then show ?thesis by (auto simp: r1 min_def)
  qed
qed

text \<open>What \<open>peek\<close> does: it delivers the entries that follow those already held, as many as are known to be there.\<close>

lemma peek_counters:
  assumes inv: "cons_inv (r, m)" and pk: "xsk_ring_cons__peek r m nb = (n, idx, r')"
  shows "cons_inv (r', m) \<and> ring_mask r' = ring_mask r \<and> ring_size r' = ring_size r \<and>
     held (r', m) = held (r, m) + unat n \<and> held (r', m) \<le> length (in_flight (r, m)) \<and>
     (if n = 0 then idx = None else
       idx = Some (cached_cons r) \<and> window r m (cached_cons r) (unat n) = take (unat n) (drop (held (r, m)) (in_flight (r, m))))"
proof -
  obtain entries r1 where f: "xsk_cons_nb_avail r m (ucast nb) = (entries, r1)" by fastforce
  note r1 = cons_nb_avail_counters [OF inv f]
  have r': "r' = r1\<lparr>cached_cons := cached_cons r1 + entries\<rparr>" "n = ucast entries"
      "idx = (if entries = 0 then None else Some (cached_cons r1))"
    using pk f by (auto simp: xsk_ring_cons__peek_def word_gt_0 split: if_splits)
  have n: "unat n = unat entries" by (simp add: r' unat_ucast_64)
  from r1 have "cons_inv (r1, m)" by simp
  then show ?thesis
  proof (cases rule: cons_invE)
    case (1 k c g p0 p)
    have le: "c \<le> p" using 1 by simp
    have "entries \<le> cached_prod r1 - cached_cons r1" using r1 by simp
    then have g: "g + unat entries \<le> p0"
      using 1 unat_diff_counters [of g p0] by (simp add: word_le_nat_alt)
    have cc: "cached_cons r' = of_nat (g + unat entries)" using 1 by (simp add: r')
    have shape: "ring_shape r' m k" "ring_shape r m k" using 1(1) r1 by (auto simp: r' ring_shape_def)
    have inv': "cons_inv (r', m)"
      unfolding cons_inv.simps using 1 shape cc g
      by (intro exI [of _ k] exI [of _ c] exI [of _ "g + unat entries"] exI [of _ p0] exI [of _ p]) (simp add: r')
    have fl: "in_flight (r, m) = map (\<lambda>i. ring m ! (i mod 2 ^ k)) [c..<p]"
      by (rule in_flight_counters [OF shape(2) 1(6) 1(9) le 1(5)])
    have h: "held (r', m) = g + unat entries - c" "held (r, m) = g - c"
      using 1 r1 cc g unat_diff_counters [of c "g + unat entries"] unat_diff_counters [of c g] by simp_all
    have "window r m (cached_cons r) (unat n) = take (unat n) (drop (held (r, m)) (in_flight (r, m)))"
      using 1 r1 g fl h n window_counters [OF shape(2), of g "unat n"] by (simp add: drop_map take_map)
    moreover have "held (r', m) = held (r, m) + unat n" "held (r', m) \<le> length (in_flight (r, m))"
      using h g n 1(2,4) fl by simp_all
    moreover have "n = 0 \<longleftrightarrow> entries = 0" using n by (metis unsigned_eq_0_iff)
    moreover have "cached_cons r1 = cached_cons r" "ring_mask r' = ring_mask r" "ring_size r' = ring_size r" using r1 by (auto simp: r')
    ultimately show ?thesis using inv' r'(3) by (simp del: held.simps)
  qed
qed

lemma peek_amount:
  assumes inv: "cons_inv (r, m)" and pk: "xsk_ring_cons__peek r m nb = (n, idx, r')"
  shows "n \<le> nb" "n = 0 \<longleftrightarrow> (ucast nb :: u32) = 0 \<or> length (in_flight (r, m)) = held (r, m)"
proof -
  obtain entries r1 where f: "xsk_cons_nb_avail r m (ucast nb) = (entries, r1)" by fastforce
  note r1 = cons_nb_avail_counters [OF inv f]
  have n: "unat n = unat entries" using pk f by (auto simp: xsk_ring_cons__peek_def unat_ucast_64 split: if_splits)
  have "entries \<le> ucast nb" using r1 by simp
  then have "unat entries \<le> unat (ucast nb :: u32)" by (simp add: word_le_nat_alt)
  also have "\<dots> \<le> unat nb" by (simp add: unsigned_ucast_eq)
  finally show "n \<le> nb" using n by (simp add: word_le_nat_alt)
  have zero: "n = 0 \<longleftrightarrow> entries = 0" using n by (metis unsigned_eq_0_iff)
  show "n = 0 \<longleftrightarrow> (ucast nb :: u32) = 0 \<or> length (in_flight (r, m)) = held (r, m)"
    using inv
  proof (cases rule: cons_invE)
    case (1 k c g p0 p)
    have len: "length (in_flight (r, m)) = p - c" "held (r, m) = g - c"
      using 1 in_flight_counters [of r m k c p] unat_diff_counters [of c g] by auto
    have "p - g < 2 ^ 32" using 1 by linarith
    then have "producer m = cached_cons r \<Longrightarrow> p = g" using 1 unat_diff_counters [of g p] by simp
    then have "n = 0 \<Longrightarrow> (ucast nb :: u32) = 0 \<or> length (in_flight (r, m)) = held (r, m)" using r1 zero len by auto
    moreover have "(ucast nb :: u32) = 0 \<Longrightarrow> n = 0" using r1 zero by (simp add: min_def)
    moreover have "length (in_flight (r, m)) = held (r, m) \<Longrightarrow> n = 0"
      using peek_counters [OF inv pk] by (metis add_le_same_cancel1 le_zero_eq unsigned_eq_0_iff)
    ultimately show ?thesis by blast
  qed
qed

lemma cons_release:
  assumes "cons_inv (r, m)" "unat nb \<le> held (r, m)"
  shows "cons_inv (r, xsk_ring_cons__release m nb) \<and>
     in_flight (r, m) = window r m (consumer m) (unat nb) @ in_flight (r, xsk_ring_cons__release m nb)"
  using assms(1)
proof (cases rule: cons_invE)
  case (1 k c g p0 p)
  have nb: "c + unat nb \<le> g" using 1 assms(2) unat_diff_counters [of c g] by simp
  have m: "xsk_ring_cons__release m nb = m\<lparr>consumer := of_nat (c + unat nb)\<rparr>"
    using 1 by (simp add: xsk_ring_cons__release_def flip: ucast_counter)
  have "ring_shape r (m\<lparr>consumer := of_nat (c + unat nb)\<rparr>) k" using 1 by (simp add: ring_shape_def)
  then have "cons_inv (r, m\<lparr>consumer := of_nat (c + unat nb)\<rparr>)"
    unfolding cons_inv.simps using 1 nb
    by (intro exI [of _ k] exI [of _ "c + unat nb"] exI [of _ g] exI [of _ p0] exI [of _ p]) simp
  then show ?thesis unfolding m using taken_counters [of r m k c p "unat nb"] 1 nb by simp
qed

text \<open>The room that the kernel sees.\<close>

lemma cons_room:
  assumes "ring_shape r m k" "consumer m = of_nat c" "producer m = of_nat p" "c \<le> p" "p \<le> c + 2 ^ k"
  shows "capacity (r, m) - unat (producer m - consumer m) = c + 2 ^ k - p"
proof -
  have "k < 32" using assms(1) by (simp add: ring_shape_def)
  then show ?thesis using assms pow_less_word [of k] unat_diff_counters [of c p] by (simp add: ring_shape_def unat_pow)
qed

lemma cons_stored:
  assumes "cons_inv (r, m)" "k < capacity (r, m) - unat (producer m - consumer m)"
    and "i = unat ((producer m + of_nat k) AND ring_mask r)"
  shows "cons_inv (r, m\<lparr>ring := (ring m)[i := v]\<rparr>) \<and> in_flight (r, m\<lparr>ring := (ring m)[i := v]\<rparr>) = in_flight (r, m)"
  using assms(1)
proof (cases rule: cons_invE)
  case (1 n c g p0 p)
  have le: "c \<le> p" using 1 by simp
  have k: "p + k < c + 2 ^ n" using assms(2) cons_room [OF 1(1,6,9) le 1(5)] by simp
  have "i = (p + k) mod 2 ^ n" using assms(3) 1 counter_slot [OF 1(1), of "p + k"] by simp
  then have *: "ring_shape r (m\<lparr>ring := (ring m)[i := v]\<rparr>) n" "in_flight (r, m\<lparr>ring := (ring m)[i := v]\<rparr>) = in_flight (r, m)"
    using stored_counters [OF 1(1,6,9) le k, of i v] by auto
  have "cons_inv (r, m\<lparr>ring := (ring m)[i := v]\<rparr>)"
    unfolding cons_inv.simps using 1 *(1) by (intro exI [of _ n] exI [of _ c] exI [of _ g] exI [of _ p0] exI [of _ p]) simp
  then show ?thesis using *(2) by simp
qed

lemma cons_produced:
  assumes "cons_inv (r, m)" "n \<le> capacity (r, m) - unat (producer m - consumer m)"
  shows "cons_inv (r, m\<lparr>producer := producer m + of_nat n\<rparr>) \<and>
     in_flight (r, m\<lparr>producer := producer m + of_nat n\<rparr>) = in_flight (r, m) @ window r m (producer m) n"
  using assms(1)
proof (cases rule: cons_invE)
  case (1 k c g p0 p)
  have le: "c \<le> p" using 1 by simp
  have n: "p + n \<le> c + 2 ^ k" using assms(2) cons_room [OF 1(1,6,9) le 1(5)] 1(5) by linarith
  have m: "m\<lparr>producer := producer m + of_nat n\<rparr> = m\<lparr>producer := of_nat (p + n)\<rparr>" using 1 by simp
  have "ring_shape r (m\<lparr>producer := of_nat (p + n)\<rparr>) k" using 1 by (simp add: ring_shape_def)
  then have "cons_inv (r, m\<lparr>producer := of_nat (p + n)\<rparr>)"
    unfolding cons_inv.simps using 1 n
    by (intro exI [of _ k] exI [of _ c] exI [of _ g] exI [of _ p0] exI [of _ "p + n"]) simp
  then show ?thesis unfolding m using added_counters [OF 1(1,6,9) le n] by simp
qed

lemma cons_step_sound:
  assumes "cons_step s a s'" "cons_inv s"
  shows "cons_inv s' \<and> capacity s' = capacity s \<and> queue_step (capacity s) (in_flight s) a (in_flight s')"
  using assms
proof (induction rule: cons_step.induct)
  case (peek r m nb n idx r')
  then show ?case using peek_counters [OF peek.prems peek.hyps] in_flight_private [of r' r m] by simp
next
  case (release nb r m)
  then show ?case using cons_release [OF release.prems release.hyps] by simp
next
  case (stored k r m i v)
  then show ?case using cons_stored [OF stored.prems stored.hyps] by simp
next
  case (produced n r m)
  have *: "cons_inv (r, m\<lparr>producer := producer m + of_nat n\<rparr>)"
      "in_flight (r, m\<lparr>producer := producer m + of_nat n\<rparr>) = in_flight (r, m) @ window r m (producer m) n"
    using cons_produced [OF produced.prems produced.hyps] by auto
  then show ?case using cons_bounded [OF *(1)] by simp
qed

interpretation cons_ring: fifo cons_step cons_inv in_flight capacity
  by (unfold_locales; use cons_step_sound cons_bounded in blast)

section \<open>Whole executions\<close>

text \<open>The rings as \<open>xsk_umem__create\<close> and \<open>xsk_socket__create\<close> leave them when the caller's structures were zero.\<close>

definition fresh_prod :: "nat \<Rightarrow> xsk_ring" where
  "fresh_prod k = \<lparr> cached_prod = 0, cached_cons = 2 ^ k, ring_mask = 2 ^ k - 1, ring_size = 2 ^ k \<rparr>"

definition fresh_cons :: "nat \<Rightarrow> xsk_ring" where
  "fresh_cons k = \<lparr> cached_prod = 0, cached_cons = 0, ring_mask = 2 ^ k - 1, ring_size = 2 ^ k \<rparr>"

definition fresh_mem :: "'a list \<Rightarrow> 'a ring_mem" where
  "fresh_mem xs = \<lparr> producer = 0, consumer = 0, ring = xs \<rparr>"

lemma fresh_inv:
  assumes "k < 32" "length xs = 2 ^ k"
  shows "prod_inv (fresh_prod k, fresh_mem xs)" "cons_inv (fresh_cons k, fresh_mem xs)"
proof -
  have shape: "ring_shape (fresh_prod k) (fresh_mem xs) k" "ring_shape (fresh_cons k) (fresh_mem xs) k"
    using assms by (simp_all add: ring_shape_def fresh_prod_def fresh_cons_def fresh_mem_def)
  show "prod_inv (fresh_prod k, fresh_mem xs)"
    unfolding prod_inv.simps using shape
    by (intro exI [of _ k] exI [of _ 0]) (simp add: fresh_prod_def fresh_mem_def)
  show "cons_inv (fresh_cons k, fresh_mem xs)"
    unfolding cons_inv.simps using shape
    by (intro exI [of _ k] exI [of _ 0]) (simp add: fresh_cons_def fresh_mem_def)
qed

lemma fresh_simps [simp]:
  "in_flight (r, fresh_mem xs) = []"
  "k < 32 \<Longrightarrow> unat (ring_size (fresh_prod k)) = 2 ^ k"
  "k < 32 \<Longrightarrow> unat (ring_size (fresh_cons k)) = 2 ^ k"
  by (simp_all add: in_flight.simps window_def fresh_mem_def fresh_prod_def fresh_cons_def unat_pow)

text \<open>An execution: two entries are reserved, stored and submitted, and the kernel takes one of them.\<close>

definition sample_prod :: "u32 \<Rightarrow> xsk_ring" where
  "sample_prod e = \<lparr> cached_prod = e, cached_cons = 2, ring_mask = 1, ring_size = 2 \<rparr>"

definition sample_cons :: "u32 \<Rightarrow> u32 \<Rightarrow> xsk_ring" where
  "sample_cons p g = \<lparr> cached_prod = p, cached_cons = g, ring_mask = 1, ring_size = 2 \<rparr>"

definition sample_mem :: "u32 \<Rightarrow> u32 \<Rightarrow> nat list \<Rightarrow> nat ring_mem" where
  "sample_mem p c xs = \<lparr> producer = p, consumer = c, ring = xs \<rparr>"

lemmas sample_defs = sample_prod_def sample_cons_def sample_mem_def fresh_prod_def fresh_cons_def fresh_mem_def

lemma sample_prod_steps:
  "prod_step (fresh_prod 1, fresh_mem [0, 0]) Tau (sample_prod 2, sample_mem 0 0 [0, 0])"
  "prod_step (sample_prod 2, sample_mem 0 0 [0, 0]) Tau (sample_prod 2, sample_mem 0 0 [5, 0])"
  "prod_step (sample_prod 2, sample_mem 0 0 [5, 0]) Tau (sample_prod 2, sample_mem 0 0 [5, 6])"
  "prod_step (sample_prod 2, sample_mem 0 0 [5, 6]) (Put [5, 6]) (sample_prod 2, sample_mem 2 0 [5, 6])"
  "prod_step (sample_prod 2, sample_mem 2 0 [5, 6]) (Get [5]) (sample_prod 2, sample_mem 2 1 [5, 6])"
proof -
  have m: "fresh_mem [0, 0] = sample_mem 0 0 [0, 0]" by (simp add: sample_defs)
  show "prod_step (fresh_prod 1, fresh_mem [0, 0]) Tau (sample_prod 2, sample_mem 0 0 [0, 0])"
    unfolding m by (rule prod_step.reserve [of _ _ 2 2 "Some 0"]) code_simp
  show "prod_step (sample_prod 2, sample_mem 0 0 [0, 0]) Tau (sample_prod 2, sample_mem 0 0 [5, 0])"
    using prod_step.store [of 0 "sample_prod 2" "sample_mem 0 0 [0, 0]" 0 5]
    by (simp add: sample_defs xsk_ring_prod__fill_addr_def)
  show "prod_step (sample_prod 2, sample_mem 0 0 [5, 0]) Tau (sample_prod 2, sample_mem 0 0 [5, 6])"
    using prod_step.store [of 1 "sample_prod 2" "sample_mem 0 0 [5, 0]" 1 6]
    by (simp add: sample_defs xsk_ring_prod__fill_addr_def)
  show "prod_step (sample_prod 2, sample_mem 0 0 [5, 6]) (Put [5, 6]) (sample_prod 2, sample_mem 2 0 [5, 6])"
    using prod_step.submit [of 2 "sample_prod 2" "sample_mem 0 0 [5, 6]"]
    by (simp add: sample_defs window_def entry_def xsk_ring_prod__submit_def upt_rec)
  show "prod_step (sample_prod 2, sample_mem 2 0 [5, 6]) (Get [5]) (sample_prod 2, sample_mem 2 1 [5, 6])"
    using prod_step.consumed [of 1 "sample_mem 2 0 [5, 6]" "sample_prod 2"]
    by (simp add: sample_defs window_def entry_def upt_rec)
qed

lemma sample_cons_steps:
  "cons_step (fresh_cons 1, fresh_mem [5, 6]) (Put [5, 6]) (sample_cons 0 0, sample_mem 2 0 [5, 6])"
  "cons_step (sample_cons 0 0, sample_mem 2 0 [5, 6]) Tau (sample_cons 2 1, sample_mem 2 0 [5, 6])"
  "cons_step (sample_cons 2 1, sample_mem 2 0 [5, 6]) (Get [5]) (sample_cons 2 1, sample_mem 2 1 [5, 6])"
proof -
  show "cons_step (fresh_cons 1, fresh_mem [5, 6]) (Put [5, 6]) (sample_cons 0 0, sample_mem 2 0 [5, 6])"
    using cons_step.produced [of 2 "fresh_cons 1" "fresh_mem [5, 6]"]
    by (simp add: sample_defs window_def entry_def upt_rec)
  show "cons_step (sample_cons 0 0, sample_mem 2 0 [5, 6]) Tau (sample_cons 2 1, sample_mem 2 0 [5, 6])"
    by (rule cons_step.peek [of _ _ 1 1 "Some 0"]) code_simp
  show "cons_step (sample_cons 2 1, sample_mem 2 0 [5, 6]) (Get [5]) (sample_cons 2 1, sample_mem 2 1 [5, 6])"
    using cons_step.release [of 1 "sample_cons 2 1" "sample_mem 2 0 [5, 6]"]
    by (simp add: sample_defs window_def entry_def xsk_ring_cons__release_def upt_rec)
qed

lemma sample_prod_run:
  "run prod_step (fresh_prod 1, fresh_mem [0, 0]) ([] @ [Tau] @ [Tau] @ [Tau] @ [Put [5, 6]] @ [Get [5]]) (sample_prod 2, sample_mem 2 1 [5, 6])"
  unfolding append_assoc [symmetric]
  by (rule run.run_step [OF run.run_step [OF run.run_step [OF run.run_step [OF run.run_step [OF run.run_start [of prod_step] sample_prod_steps(1)] sample_prod_steps(2)] sample_prod_steps(3)] sample_prod_steps(4)] sample_prod_steps(5)])

lemma sample_cons_run:
  "run cons_step (fresh_cons 1, fresh_mem [5, 6]) ([] @ [Put [5, 6]] @ [Tau] @ [Get [5]]) (sample_cons 2 1, sample_mem 2 1 [5, 6])"
  unfolding append_assoc [symmetric]
  by (rule run.run_step [OF run.run_step [OF run.run_step [OF run.run_start [of cons_step] sample_cons_steps(1)] sample_cons_steps(2)] sample_cons_steps(3)])

text \<open>
  C10. The rings of an AF_XDP socket are bounded first-in first-out queues, on both sides and however the calls of the
  program are interleaved with the kernel: in every execution, what has been submitted is what has been consumed
  followed by the entries in flight, so that entries leave in the order they were put in, none is lost, repeated or
  overwritten, and never more than the size of the ring are in flight. The counters may wrap any number of times.
\<close>

theorem xsk_rings_refine_queue:
  assumes "k < 32" "length xs = 2 ^ k"
    and "run prod_step (fresh_prod k, fresh_mem xs) tr s" "run cons_step (fresh_cons k, fresh_mem ys) tr' s'" "length ys = 2 ^ k"
  shows "puts tr = gets tr @ in_flight s \<and> length (in_flight s) \<le> 2 ^ k \<and>
         puts tr' = gets tr' @ in_flight s' \<and> length (in_flight s') \<le> 2 ^ k"
  using prod_ring.run_fifo [OF assms(3) fresh_inv(1) [OF assms(1,2)]]
    cons_ring.run_fifo [OF assms(4) fresh_inv(2) [OF assms(1,5)]] assms(1) by simp

theorem xsk_rings_refine_queue_witness:
  "in_flight (sample_prod 2, sample_mem 2 1 [5, 6]) = [6] \<and> in_flight (sample_cons 2 1, sample_mem 2 1 [5, 6]) = [6]"
  using xsk_rings_refine_queue [OF _ _ sample_prod_run sample_cons_run] by simp

text \<open>
  C12. Peeking delivers what was put in: in every execution of the consuming side, the entries that
  \<open>xsk_ring_cons__peek\<close> hands out are the next ones of everything that has been produced, after those released and
  those already held; it hands out at most as many as asked for, and none only if no entry is left or none is asked for.
\<close>

theorem peek_delivers_next:
  assumes "k < 32" "length xs = 2 ^ k" and "run cons_step (fresh_cons k, fresh_mem xs) tr (r, m)"
    and "xsk_ring_cons__peek r m nb = (n, idx, r')"
  shows "n \<le> nb \<and> (n = 0 \<longleftrightarrow> (ucast nb :: u32) = 0 \<or> length (puts tr) = length (gets tr) + held (r, m)) \<and>
     (n \<noteq> 0 \<longrightarrow> idx = Some (cached_cons r) \<and>
        window r m (cached_cons r) (unat n) = take (unat n) (drop (length (gets tr) + held (r, m)) (puts tr)))"
proof -
  have inv: "cons_inv (r, m)" using cons_ring.run_inv [OF assms(3)] fresh_inv [OF assms(1,2)] by simp
  have "puts tr = gets tr @ in_flight (r, m)" using cons_ring.run_fifo [OF assms(3) fresh_inv(2) [OF assms(1,2)]] by simp
  then show ?thesis
    using peek_counters [OF inv assms(4)] peek_amount [OF inv assms(4)] by (auto simp del: held.simps)
qed

theorem peek_delivers_next_witness:
  "window (sample_cons 2 1) (sample_mem 2 1 [5, 6]) 1 1 = [6]"
  using peek_delivers_next [OF _ _ sample_cons_run, of 4 1 "Some 1" "sample_cons 2 2"]
  by (simp add: xsk_ring_cons__peek_def xsk_cons_nb_avail_def sample_defs)

text \<open>
  C15. Reserving is exact: in every execution of the producing side, \<open>xsk_ring_prod__reserve\<close> reserves the whole batch if
  the entries in flight, those reserved before and the batch fit into the ring, and nothing otherwise, whatever
  the private copy of the consumer's counter was.
\<close>

theorem reserve_succeeds_iff_room:
  assumes "k < 32" "length xs = 2 ^ k" and "run prod_step (fresh_prod k, fresh_mem xs) tr (r, m)"
    and "xsk_ring_prod__reserve r m nb = (n, idx, r')"
  shows "if length (in_flight (r, m)) + reserved (r, m) + unat nb \<le> 2 ^ k
         then n = nb \<and> idx = Some (cached_prod r) \<and> reserved (r', m) = reserved (r, m) + unat nb
         else n = 0 \<and> idx = None \<and> reserved (r', m) = reserved (r, m)"
proof -
  have inv: "prod_inv (r, m)" "capacity (r, m) = 2 ^ k"
    using prod_ring.run_inv [OF assms(3)] fresh_inv [OF assms(1,2)] assms(1) by auto
  note res = reserve_counters [OF inv(1) assms(4)]
  show ?thesis
  proof (cases "idx = None")
    case True
    then have "reserved (r', m) = reserved (r, m)" using res by simp
    then show ?thesis using True res reserve_iff_room [OF inv(1) assms(4)] inv(2) by (simp del: reserved.simps capacity.simps)
  next
    case False
    then show ?thesis using res reserve_iff_room [OF inv(1) assms(4)] inv(2) by (simp del: reserved.simps capacity.simps)
  qed
qed

theorem reserve_succeeds_iff_room_witness:
  "\<exists>r'. xsk_ring_prod__reserve (sample_prod 2) (sample_mem 2 1 [5, 6]) 1 = (1, Some 2, r') \<and>
     reserved (r', sample_mem 2 1 [5, 6]) = 1"
proof -
  obtain n idx r' where r: "xsk_ring_prod__reserve (sample_prod 2) (sample_mem 2 1 [5, 6]) 1 = (n, idx, r')"
    by (cases "xsk_ring_prod__reserve (sample_prod 2) (sample_mem 2 1 [5, 6]) 1")
  have "in_flight (sample_prod 2, sample_mem 2 1 [5, 6]) = [6]" by code_simp
  then show ?thesis
    using reserve_succeeds_iff_room [OF _ _ sample_prod_run r] r by (simp add: sample_defs)
qed

end
