(* ===== verification/Xsk_Prog.thy ===== *)
theory Xsk_Prog
  imports Prelude Uapi
begin

text \<open>
  The XDP program that \<open>xsk_load_xdp_prog\<close> of \<open>src/libbpf/src/xsk.c\<close> loads for an AF_XDP socket. The source has it as
  an array of instructions, written with macros, and as the C program of the comment above it. The datatype \<open>bpf_asm\<close> has the
  macros that are used, \<open>xsk_prog_insns\<close> is the array, and \<open>exec\<close> runs it as the instruction set prescribes: eleven registers of 64 bits,
  a stack below the register 10, jumps relative to the next instruction, a load of a map that takes two places, and calls that
  leave their result in the register 0 and make the registers 1 to 5 unreadable. A value that is no number is a pointer to the context, into the stack, to a
  map or to a value in a map. The two helpers are the kernel's: \<open>lookup\<close> is what the map with a descriptor holds
  under a key, and \<open>redirect\<close> what redirecting gives. An execution that does anything else, or does not end, is \<open>None\<close>.

  The program has only forward jumps, so that as many steps as it has instructions are enough.
\<close>

section \<open>The instructions\<close>

datatype bpf_func = BPF_FUNC_map_lookup_elem | BPF_FUNC_redirect_map

datatype bpf_asm =
    BPF_LDX_MEM_W (a_dst: nat) (a_src: nat) (a_off: int)
  | BPF_STX_MEM_W nat nat int
  | BPF_MOV64_REG nat nat
  | BPF_ALU64_IMM_ADD nat int
  | BPF_LD_MAP_FD nat int
  | BPF_EMIT_CALL bpf_func
  | BPF_MOV32_IMM nat u32
  | BPF_JMP_IMM_JEQ nat int nat
  | BPF_EXIT_INSN

definition xsk_prog_insns :: "int \<Rightarrow> int \<Rightarrow> bpf_asm list" where
  "xsk_prog_insns qidconf_map_fd xsks_map_fd =
     [ BPF_LDX_MEM_W 1 1 16,
       BPF_STX_MEM_W 10 1 (-4),
       BPF_MOV64_REG 2 10,
       BPF_ALU64_IMM_ADD 2 (-4),
       BPF_LD_MAP_FD 1 qidconf_map_fd,
       BPF_EMIT_CALL BPF_FUNC_map_lookup_elem,
       BPF_MOV64_REG 1 0,
       BPF_MOV32_IMM 0 0,
       BPF_JMP_IMM_JEQ 1 0 8,
       BPF_MOV32_IMM 0 2,
       BPF_LDX_MEM_W 1 1 0,
       BPF_JMP_IMM_JEQ 1 0 5,
       BPF_LD_MAP_FD 1 xsks_map_fd,
       BPF_LDX_MEM_W 2 10 (-4),
       BPF_MOV32_IMM 3 0,
       BPF_EMIT_CALL BPF_FUNC_redirect_map,
       BPF_EXIT_INSN ]"

text \<open>The places of the instructions: loading a map takes two.\<close>

fun insn_slots :: "bpf_asm list \<Rightarrow> bpf_asm option list" where
  "insn_slots [] = []"
| "insn_slots (BPF_LD_MAP_FD r fd # l) = Some (BPF_LD_MAP_FD r fd) # None # insn_slots l"
| "insn_slots (i # l) = Some i # insn_slots l"

section \<open>Execution\<close>

datatype bpf_val = Num u64 | Ctx_Ptr | Stack_Ptr int | Map_Ptr int | Value_Ptr int u32

record bpf_state =
  pc :: nat
  regs :: "nat \<Rightarrow> bpf_val option"
  stack :: "int \<Rightarrow> u32 option"

record bpf_env =
  rx_queue :: u32
  lookup :: "int \<Rightarrow> u32 \<Rightarrow> u32 option"
  redirect :: "int \<Rightarrow> u32 \<Rightarrow> u64 \<Rightarrow> u64"

definition set_reg :: "nat \<Rightarrow> bpf_val \<Rightarrow> bpf_state \<Rightarrow> bpf_state" where
  "set_reg r v s = s\<lparr>regs := (regs s)(r := Some v), pc := Suc (pc s)\<rparr>"

text \<open>A 32 bit load; \<open>rx_queue_index\<close> is at the offset 16 of \<open>struct xdp_md\<close>.\<close>

fun load32 :: "bpf_env \<Rightarrow> bpf_state \<Rightarrow> bpf_val \<Rightarrow> int \<Rightarrow> u32 option" where
  "load32 env s Ctx_Ptr i = (if i = 16 then Some (rx_queue env) else None)"
| "load32 env s (Stack_Ptr p) i = stack s (p + i)"
| "load32 env s (Value_Ptr fd key) i = (if i = 0 then lookup env fd key else None)"
| "load32 env s v i = None"

fun helper :: "bpf_env \<Rightarrow> bpf_func \<Rightarrow> bpf_state \<Rightarrow> bpf_val option" where
  "helper env BPF_FUNC_map_lookup_elem s =
     (case (regs s 1, regs s 2) of
        (Some (Map_Ptr fd), Some (Stack_Ptr p)) \<Rightarrow>
          do { key \<leftarrow> stack s p;
               Some (case lookup env fd key of None \<Rightarrow> Num 0 | Some _ \<Rightarrow> Value_Ptr fd key) }
      | _ \<Rightarrow> None)"
| "helper env BPF_FUNC_redirect_map s =
     (case (regs s 1, regs s 2, regs s 3) of
        (Some (Map_Ptr fd), Some (Num key), Some (Num flags)) \<Rightarrow> Some (Num (redirect env fd (ucast key) flags))
      | _ \<Rightarrow> None)"

definition is_zero :: "int \<Rightarrow> bpf_val \<Rightarrow> bool" where
  "is_zero k v \<longleftrightarrow> (case v of Num n \<Rightarrow> n = of_int k | _ \<Rightarrow> False)"

fun exec_insn :: "bpf_env \<Rightarrow> bpf_asm \<Rightarrow> bpf_state \<Rightarrow> bpf_state option" where
  "exec_insn env (BPF_LDX_MEM_W d r off) s =
     do { p \<leftarrow> regs s r; v \<leftarrow> load32 env s p off; Some (set_reg d (Num (ucast v)) s) }"
| "exec_insn env (BPF_STX_MEM_W d r off) s =
     (case (regs s d, regs s r) of
        (Some (Stack_Ptr p), Some (Num v)) \<Rightarrow> Some (s\<lparr>stack := (stack s)(p + off := Some (ucast v)), pc := Suc (pc s)\<rparr>)
      | _ \<Rightarrow> None)"
| "exec_insn env (BPF_MOV64_REG d r) s = do { v \<leftarrow> regs s r; Some (set_reg d v s) }"
| "exec_insn env (BPF_ALU64_IMM_ADD d k) s =
     (case regs s d of
        Some (Num n) \<Rightarrow> Some (set_reg d (Num (n + of_int k)) s)
      | Some (Stack_Ptr p) \<Rightarrow> Some (set_reg d (Stack_Ptr (p + k)) s)
      | _ \<Rightarrow> None)"
| "exec_insn env (BPF_LD_MAP_FD d fd) s = Some ((set_reg d (Map_Ptr fd) s)\<lparr>pc := pc s + 2\<rparr>)"
| "exec_insn env (BPF_EMIT_CALL f) s =
     do { v \<leftarrow> helper env f s;
          Some (s\<lparr>regs := (\<lambda>r. if r = 0 then Some v else if r \<le> 5 then None else regs s r), pc := Suc (pc s)\<rparr>) }"
| "exec_insn env (BPF_MOV32_IMM d k) s = Some (set_reg d (Num (ucast k)) s)"
| "exec_insn env (BPF_JMP_IMM_JEQ d k off) s =
     do { v \<leftarrow> regs s d; Some (s\<lparr>pc := Suc (pc s) + (if is_zero k v then off else 0)\<rparr>) }"
| "exec_insn env BPF_EXIT_INSN s = None"

fun exec :: "nat \<Rightarrow> bpf_env \<Rightarrow> bpf_asm option list \<Rightarrow> bpf_state \<Rightarrow> u64 option" where
  "exec 0 env p s = None"
| "exec (Suc fuel) env p s =
     (if pc s < length p
      then case p ! pc s of
        None \<Rightarrow> None
      | Some BPF_EXIT_INSN \<Rightarrow> (case regs s 0 of Some (Num n) \<Rightarrow> Some n | _ \<Rightarrow> None)
      | Some i \<Rightarrow> (case exec_insn env i s of None \<Rightarrow> None | Some s' \<Rightarrow> exec fuel env p s')
      else None)"

definition prog_start :: bpf_state where
  "prog_start = \<lparr> pc = 0, regs = (\<lambda>r. if r = 1 then Some Ctx_Ptr else if r = 10 then Some (Stack_Ptr 0) else None), stack = \<lambda>_. None \<rparr>"

definition run_prog :: "bpf_env \<Rightarrow> bpf_asm list \<Rightarrow> u64 option" where
  "run_prog env p = exec (length p) env (insn_slots p) prog_start"

section \<open>The program of the comment\<close>

definition xdp_sock_prog :: "int \<Rightarrow> int \<Rightarrow> bpf_env \<Rightarrow> u64" where
  "xdp_sock_prog qidconf_map xsks_map env =
     (let index = rx_queue env in
      case lookup env qidconf_map index of
        None \<Rightarrow> ucast (action_code XDP_ABORTED)
      | Some qidconf \<Rightarrow> if qidconf \<noteq> 0 then redirect env xsks_map index 0 else ucast (action_code XDP_PASS))"

section \<open>The instructions implement it\<close>

lemma ucast_there_and_back [simp]: "(ucast (ucast (v :: u32) :: u64) :: u32) = v"
  by (rule bit_word_eqI) (simp add: bit_ucast_iff)

lemma ucast_eq_zero [simp]: "(ucast (v :: u32) :: u64) = 0 \<longleftrightarrow> v = 0"
  using ucast_there_and_back [of v] by (metis unsigned_0)

text \<open>
  C29. The instructions that \<open>xsk_load_xdp_prog\<close> loads do what the C program in its comment does: for every receive queue
  they give \<open>XDP_ABORTED\<close> if the queue is not in the first map, redirect into the second map if the entry
  is set, and give \<open>XDP_PASS\<close> otherwise. They never read a register or a memory cell that has no value, and end.
\<close>

theorem xsk_prog_implements_comment:
  "run_prog env (xsk_prog_insns q x) = Some (xdp_sock_prog q x env)"
  by (cases "lookup env q (rx_queue env)")
    (simp_all add: run_prog_def xsk_prog_insns_def prog_start_def xdp_sock_prog_def is_zero_def set_reg_def Let_def)

end
