(* ===== verification/Bpf_Cmds.thy ===== *)
theory Bpf_Cmds
  imports Bpf_Sys
begin

text \<open>
  The remaining wrappers of \<open>src/libbpf/src/bpf.c\<close>: pinning, queries, test runs, enumeration of identifiers, descriptors
  for identifiers and information about objects. As in theory \<open>Bpf_Sys\<close> the argument of a command is a record and the
  kernel is a parameter; \<open>cmd_os\<close> has one function per command, and \<open>bpf_core\<close> the commands of that theory. Where the
  kernel writes into the argument or into a buffer of the caller, its answer has the new values. A result parameter
  that the wrapper leaves alone is \<open>None\<close>.
\<close>

section \<open>Structures of the kernel interface\<close>

record bpf_prog_info =
  pi_type :: u32
  pi_id :: u32
  pi_tag :: bytes
  jited_prog_len :: u32
  xlated_prog_len :: u32
  jited_prog_insns :: bytes
  xlated_prog_insns :: bytes
  load_time :: u64
  created_by_uid :: u32
  nr_map_ids :: u32
  map_ids :: "u32 list"
  pi_name :: string
  pi_ifindex :: u32
  gpl_compatible :: bool
  pi_netns_dev :: u64
  pi_netns_ino :: u64
  nr_jited_ksyms :: u32
  nr_jited_func_lens :: u32
  jited_ksyms :: "u64 list option"
  jited_func_lens :: "u32 list option"
  pi_btf_id :: u32
  pi_func_info_rec_size :: u32
  pi_func_info :: "bytes option"
  nr_func_info :: u32
  nr_line_info :: u32
  pi_line_info :: "bytes option"
  jited_line_info :: "bytes option"
  nr_jited_line_info :: u32
  pi_line_info_rec_size :: u32
  jited_line_info_rec_size :: u32
  nr_prog_tags :: u32
  prog_tags :: bytes
  run_time_ns :: u64
  run_cnt :: u64

definition zero_prog_info :: bpf_prog_info where
  "zero_prog_info = \<lparr> pi_type = 0, pi_id = 0, pi_tag = replicate 8 0, jited_prog_len = 0, xlated_prog_len = 0,
     jited_prog_insns = [], xlated_prog_insns = [], load_time = 0, created_by_uid = 0, nr_map_ids = 0, map_ids = [],
     pi_name = [], pi_ifindex = 0, gpl_compatible = False, pi_netns_dev = 0, pi_netns_ino = 0, nr_jited_ksyms = 0,
     nr_jited_func_lens = 0, jited_ksyms = None, jited_func_lens = None, pi_btf_id = 0, pi_func_info_rec_size = 0,
     pi_func_info = None, nr_func_info = 0, nr_line_info = 0, pi_line_info = None, jited_line_info = None,
     nr_jited_line_info = 0, pi_line_info_rec_size = 0, jited_line_info_rec_size = 0, nr_prog_tags = 0, prog_tags = [],
     run_time_ns = 0, run_cnt = 0 \<rparr>"

record bpf_map_info =
  mi_type :: u32
  mi_id :: u32
  mi_key_size :: u32
  mi_value_size :: u32
  mi_max_entries :: u32
  mi_map_flags :: u32
  mi_name :: string
  mi_ifindex :: u32
  mi_netns_dev :: u64
  mi_netns_ino :: u64
  mi_btf_id :: u32
  mi_btf_key_type_id :: u32
  mi_btf_value_type_id :: u32

record bpf_btf_info =
  bi_btf :: bytes
  bi_btf_size :: u32
  bi_id :: u32

text \<open>What \<open>void *info\<close> points to.\<close>

datatype info = Prog_Info bpf_prog_info | Map_Info bpf_map_info | Btf_Info bpf_btf_info

datatype obj_kind = Prog_Kind | Map_Kind | Btf_Kind

record query_attr =
  qa_target_fd :: int
  qa_attach_type :: bpf_attach_type
  qa_query_flags :: u32
  qa_attach_flags :: u32
  qa_prog_ids :: "u32 list"
  qa_prog_cnt :: u32

record test_attr =
  ta_prog_fd :: int
  ta_retval :: u32
  ta_data_size_in :: u32
  ta_data_size_out :: u32
  ta_data_in :: bytes
  ta_data_out :: "bytes option"
  ta_repeat :: int
  ta_duration :: u32

record task_query_attr =
  tq_pid :: int
  tq_fd :: int
  tq_flags :: u32
  tq_buf_len :: u32
  tq_buf :: string
  tq_prog_id :: u32
  tq_fd_type :: u32
  tq_probe_offset :: u64
  tq_probe_addr :: u64

record 'w cmd_os =
  bpf_core :: "'w bpf_os"
  sys_obj_pin :: "'w \<Rightarrow> string \<Rightarrow> int \<Rightarrow> int \<times> 'w"
  sys_obj_get :: "'w \<Rightarrow> string \<Rightarrow> int \<times> 'w"
  sys_prog_query :: "'w \<Rightarrow> query_attr \<Rightarrow> (int \<times> query_attr) \<times> 'w"
  sys_test_run :: "'w \<Rightarrow> test_attr \<Rightarrow> (int \<times> test_attr) \<times> 'w"
  sys_next_id :: "'w \<Rightarrow> obj_kind \<Rightarrow> u32 \<Rightarrow> (int \<times> u32) \<times> 'w"
  sys_fd_by_id :: "'w \<Rightarrow> obj_kind \<Rightarrow> u32 \<Rightarrow> int \<times> 'w"
  sys_info :: "'w \<Rightarrow> int \<Rightarrow> info \<Rightarrow> u32 \<Rightarrow> (int \<times> info \<times> u32) \<times> 'w"
  sys_raw_tracepoint :: "'w \<Rightarrow> string option \<Rightarrow> int \<Rightarrow> int \<times> 'w"
  sys_task_query :: "'w \<Rightarrow> task_query_attr \<Rightarrow> (int \<times> task_query_attr) \<times> 'w"

section \<open>The wrappers\<close>

definition bpf_obj_pin :: "'w cmd_os \<Rightarrow> int \<Rightarrow> string \<Rightarrow> 'w \<Rightarrow> int \<times> 'w" where
  "bpf_obj_pin os fd pathname w = sys_obj_pin os w pathname fd"

definition bpf_obj_get :: "'w cmd_os \<Rightarrow> string \<Rightarrow> 'w \<Rightarrow> int \<times> 'w" where
  "bpf_obj_get os pathname w = sys_obj_get os w pathname"

text \<open>The results: \<open>*attach_flags\<close> if the pointer is given, the identifiers in the buffer and \<open>*prog_cnt\<close>.\<close>

definition bpf_prog_query ::
  "'w cmd_os \<Rightarrow> int \<Rightarrow> bpf_attach_type \<Rightarrow> u32 \<Rightarrow> bool \<Rightarrow> u32 list \<Rightarrow> u32 \<Rightarrow> 'w \<Rightarrow> (int \<times> u32 option \<times> u32 list \<times> u32) \<times> 'w" where
  "bpf_prog_query os target_fd t query_flags attach_flags prog_ids prog_cnt w =
     (case sys_prog_query os w \<lparr> qa_target_fd = target_fd, qa_attach_type = t, qa_query_flags = query_flags,
             qa_attach_flags = 0, qa_prog_ids = prog_ids, qa_prog_cnt = prog_cnt \<rparr> of ((r, a), w) \<Rightarrow>
      ((r, if attach_flags then Some (qa_attach_flags a) else None, qa_prog_ids a, qa_prog_cnt a), w))"

text \<open>\<open>bpf_prog_test_run\<close> gives the kernel a buffer without its size.\<close>

definition bpf_prog_test_run ::
  "'w cmd_os \<Rightarrow> int \<Rightarrow> int \<Rightarrow> bytes \<Rightarrow> u32 \<Rightarrow> bytes option \<Rightarrow> bool \<Rightarrow> bool \<Rightarrow> bool \<Rightarrow> 'w \<Rightarrow>
    (int \<times> bytes option \<times> u32 option \<times> u32 option \<times> u32 option) \<times> 'w" where
  "bpf_prog_test_run os prog_fd rep d sz data_out size_out retval duration w =
     (case sys_test_run os w \<lparr> ta_prog_fd = prog_fd, ta_retval = 0, ta_data_size_in = sz, ta_data_size_out = 0,
             ta_data_in = d, ta_data_out = data_out, ta_repeat = rep, ta_duration = 0 \<rparr> of ((r, a), w) \<Rightarrow>
      ((r, ta_data_out a, if size_out then Some (ta_data_size_out a) else None,
        if retval then Some (ta_retval a) else None, if duration then Some (ta_duration a) else None), w))"

definition bpf_prog_test_run_xattr :: "'w cmd_os \<Rightarrow> test_attr \<Rightarrow> 'w \<Rightarrow> (int \<times> test_attr) \<times> 'w" where
  "bpf_prog_test_run_xattr os t w =
     (if ta_data_out t = None \<and> ta_data_size_out t > 0 then ((- EINVAL, t), w)
      else case sys_test_run os w (t\<lparr>ta_retval := 0, ta_duration := 0\<rparr>) of ((r, a), w) \<Rightarrow>
        ((r, t\<lparr>ta_data_out := ta_data_out a, ta_data_size_out := ta_data_size_out a, ta_retval := ta_retval a,
               ta_duration := ta_duration a\<rparr>), w))"

definition get_next_id :: "'w cmd_os \<Rightarrow> obj_kind \<Rightarrow> u32 \<Rightarrow> 'w \<Rightarrow> (int \<times> u32 option) \<times> 'w" where
  "get_next_id os kind start_id w =
     (case sys_next_id os w kind start_id of ((err, i), w) \<Rightarrow> ((err, if err = 0 then Some i else None), w))"

definition bpf_prog_get_next_id :: "'w cmd_os \<Rightarrow> u32 \<Rightarrow> 'w \<Rightarrow> (int \<times> u32 option) \<times> 'w" where
  "bpf_prog_get_next_id os = get_next_id os Prog_Kind"

definition bpf_map_get_next_id :: "'w cmd_os \<Rightarrow> u32 \<Rightarrow> 'w \<Rightarrow> (int \<times> u32 option) \<times> 'w" where
  "bpf_map_get_next_id os = get_next_id os Map_Kind"

definition bpf_prog_get_fd_by_id :: "'w cmd_os \<Rightarrow> u32 \<Rightarrow> 'w \<Rightarrow> int \<times> 'w" where
  "bpf_prog_get_fd_by_id os i w = sys_fd_by_id os w Prog_Kind i"

definition bpf_map_get_fd_by_id :: "'w cmd_os \<Rightarrow> u32 \<Rightarrow> 'w \<Rightarrow> int \<times> 'w" where
  "bpf_map_get_fd_by_id os i w = sys_fd_by_id os w Map_Kind i"

definition bpf_btf_get_fd_by_id :: "'w cmd_os \<Rightarrow> u32 \<Rightarrow> 'w \<Rightarrow> int \<times> 'w" where
  "bpf_btf_get_fd_by_id os i w = sys_fd_by_id os w Btf_Kind i"

text \<open>The results: the error, what \<open>info\<close> points to now and \<open>*info_len\<close>.\<close>

definition bpf_obj_get_info_by_fd :: "'w cmd_os \<Rightarrow> int \<Rightarrow> info \<Rightarrow> u32 \<Rightarrow> 'w \<Rightarrow> (int \<times> info \<times> u32) \<times> 'w" where
  "bpf_obj_get_info_by_fd os fd info info_len w =
     (case sys_info os w fd info info_len of ((err, info, l), w) \<Rightarrow> ((err, info, if err = 0 then l else info_len), w))"

definition bpf_raw_tracepoint_open :: "'w cmd_os \<Rightarrow> string option \<Rightarrow> int \<Rightarrow> 'w \<Rightarrow> int \<times> 'w" where
  "bpf_raw_tracepoint_open os name prog_fd w = sys_raw_tracepoint os w name prog_fd"

definition bpf_task_fd_query ::
  "'w cmd_os \<Rightarrow> int \<Rightarrow> int \<Rightarrow> u32 \<Rightarrow> string \<Rightarrow> u32 \<Rightarrow> 'w \<Rightarrow> (int \<times> string \<times> u32 \<times> u32 \<times> u32 \<times> u64 \<times> u64) \<times> 'w" where
  "bpf_task_fd_query os pid fd flags buf buf_len w =
     (case sys_task_query os w \<lparr> tq_pid = pid, tq_fd = fd, tq_flags = flags, tq_buf_len = buf_len, tq_buf = buf,
             tq_prog_id = 0, tq_fd_type = 0, tq_probe_offset = 0, tq_probe_addr = 0 \<rparr> of ((err, a), w) \<Rightarrow>
      ((err, tq_buf a, tq_buf_len a, tq_prog_id a, tq_fd_type a, tq_probe_offset a, tq_probe_addr a), w))"

end
