(* ===== verification/Xsk.thy ===== *)
theory Xsk
  imports Xsk_Ring Xsk_Prog Bpf_Cmds Xdp_Link
begin

text \<open>
  AF_XDP sockets, \<open>src/libbpf/src/xsk.c\<close>: registering user memory, creating a socket on a queue of an interface with
  its XDP program and maps, and deleting both. The calls of the operating system are the fields of the record \<open>xsk_os\<close>;
  they change its state. An error number is read with \<open>get_errno\<close> after a call. An object that the code reaches through
  a pointer is an argument and a result: the rings of the caller are pairs of their address and their content, the user memory
  that a socket points to is given to \<open>xsk_socket__delete\<close>, and a null pointer is \<open>None\<close>. The content of a ring is the private part
  of theory \<open>Xsk_Ring\<close> with the addresses of the shared parts. Printing is left out.

  The macros of the instructions and the numbers of the socket options are not in the repository: the function \<open>assemble\<close> is the macros, and
  the options are a datatype. A variable without an initial value has the value that a field of \<open>xsk_os\<close> gives.
\<close>

section \<open>Structures\<close>

definition EFAULT :: int where "EFAULT = 14"

definition XSK_RING_CONS__DEFAULT_NUM_DESCS :: u32 where "XSK_RING_CONS__DEFAULT_NUM_DESCS = 2048"
definition XSK_RING_PROD__DEFAULT_NUM_DESCS :: u32 where "XSK_RING_PROD__DEFAULT_NUM_DESCS = 2048"
definition XSK_UMEM__DEFAULT_FRAME_SHIFT :: nat where "XSK_UMEM__DEFAULT_FRAME_SHIFT = 11"
definition XSK_UMEM__DEFAULT_FRAME_SIZE :: u32 where "XSK_UMEM__DEFAULT_FRAME_SIZE = push_bit XSK_UMEM__DEFAULT_FRAME_SHIFT 1"
definition XSK_UMEM__DEFAULT_FRAME_HEADROOM :: u32 where "XSK_UMEM__DEFAULT_FRAME_HEADROOM = 0"
definition XSK_LIBBPF_FLAGS__INHIBIT_PROG_LOAD :: u32 where "XSK_LIBBPF_FLAGS__INHIBIT_PROG_LOAD = 1"
definition sizeof_xdp_desc :: u64 where "sizeof_xdp_desc = 16"
definition IFNAMSIZ :: nat where "IFNAMSIZ = 16"

record xsk_umem_config =
  fill_size :: u32
  comp_size :: u32
  frame_size :: u32
  frame_headroom :: u32

record xsk_socket_config =
  rx_size :: u32
  tx_size :: u32
  libbpf_flags :: u32
  sk_xdp_flags :: u32
  bind_flags :: u16

text \<open>\<open>struct xsk_ring_prod\<close> and \<open>struct xsk_ring_cons\<close> with their pointers.\<close>

record ring_struct = xsk_ring +
  producer_ptr :: u64
  consumer_ptr :: u64
  ring_ptr :: u64

record xsk_umem =
  um_fill :: u64
  um_comp :: u64
  umem_area :: u64
  um_config :: xsk_umem_config
  um_fd :: int
  refcount :: int

record xsk_socket =
  sk_rx :: u64
  sk_tx :: u64
  outstanding_tx :: u64
  sk_config :: xsk_socket_config
  sk_fd :: int
  sk_ifindex :: int
  sk_prog_fd :: int
  qidconf_map_fd :: int
  xsks_map_fd :: int
  queue_id :: u32
  sk_ifname :: string

record xdp_ring_offset =
  off_producer :: u64
  off_consumer :: u64
  off_desc :: u64

record xdp_mmap_offsets =
  off_rx :: xdp_ring_offset
  off_tx :: xdp_ring_offset
  off_fr :: xdp_ring_offset
  off_cr :: xdp_ring_offset

record xdp_umem_reg =
  mr_addr :: u64
  mr_len :: u64
  mr_chunk_size :: u32
  mr_headroom :: u32

datatype sockopt =
    XDP_UMEM_REG xdp_umem_reg
  | XDP_UMEM_FILL_RING u32
  | XDP_UMEM_COMPLETION_RING u32
  | XDP_RX_RING u32
  | XDP_TX_RING u32

datatype pgoff = XDP_UMEM_PGOFF_FILL_RING | XDP_UMEM_PGOFF_COMPLETION_RING | XDP_PGOFF_RX_RING | XDP_PGOFF_TX_RING

datatype socket_kind = AF_XDP_SOCK_RAW | AF_INET_SOCK_DGRAM

record sockaddr_xdp =
  sxdp_ifindex :: u32
  sxdp_queue_id :: u32
  sxdp_flags :: u16

text \<open>The operating system. \<open>NR_mmap2\<close> says whether the system has that call, \<open>pgoff_num\<close> gives the numbers of the
  offsets, and \<open>gchannels\<close> is the \<open>ioctl\<close> for \<open>ETHTOOL_GCHANNELS\<close>: its result and what \<open>channels.max_combined\<close> is afterwards.\<close>

record 'w xsk_os =
  xcmd :: "'w cmd_os"
  xlink :: "'w xdp_link_ops"
  assemble :: "bpf_asm \<Rightarrow> bpf_insn list"
  getpagesize :: u32
  NR_mmap2 :: bool
  pgoff_num :: "pgoff \<Rightarrow> u64"
  xsocket :: "'w \<Rightarrow> socket_kind \<Rightarrow> int \<times> 'w"
  setsockopt :: "'w \<Rightarrow> int \<Rightarrow> sockopt \<Rightarrow> int \<times> 'w"
  getsockopt :: "'w \<Rightarrow> int \<Rightarrow> (int \<times> xdp_mmap_offsets) \<times> 'w"
  sys_mmap :: "'w \<Rightarrow> u64 \<Rightarrow> int \<Rightarrow> u64 \<Rightarrow> u64 option \<times> 'w"
  sys_mmap2 :: "'w \<Rightarrow> u64 \<Rightarrow> int \<Rightarrow> u64 \<Rightarrow> u64 option \<times> 'w"
  sys_munmap :: "'w \<Rightarrow> u64 \<Rightarrow> u64 \<Rightarrow> int \<times> 'w"
  xbind :: "'w \<Rightarrow> int \<Rightarrow> sockaddr_xdp \<Rightarrow> int \<times> 'w"
  gchannels :: "'w \<Rightarrow> int \<Rightarrow> string \<Rightarrow> (int \<times> u32) \<times> 'w"
  nametoindex :: "'w \<Rightarrow> string \<Rightarrow> int"
  stack_map_info :: bpf_map_info

abbreviation xbpf :: "'w xsk_os \<Rightarrow> 'w bpf_os" where
  "xbpf os \<equiv> bpf_core (xcmd os)"

section \<open>Helpers\<close>

definition page_shift :: "u32 \<Rightarrow> nat" where
  "page_shift sz = length (takeWhile (\<lambda>i. \<not> bit sz i) [0..<32])"

definition xsk_mmap :: "'w xsk_os \<Rightarrow> u64 \<Rightarrow> int \<Rightarrow> pgoff \<Rightarrow> ('w, u64 option) prog" where
  "xsk_mmap os len fd offset =
     (if NR_mmap2 os then call (\<lambda>w. sys_mmap2 os w len fd (drop_bit (page_shift (getpagesize os)) (pgoff_num os offset)))
      else call (\<lambda>w. sys_mmap os w len fd (pgoff_num os offset)))"

definition munmap :: "'w xsk_os \<Rightarrow> u64 \<Rightarrow> u64 \<Rightarrow> ('w, int) prog" where
  "munmap os addr len = call (\<lambda>w. sys_munmap os w addr len)"

definition xsk_umem__fd :: "xsk_umem option \<Rightarrow> int" where
  "xsk_umem__fd umem = (case umem of Some u \<Rightarrow> um_fd u | None \<Rightarrow> - EINVAL)"

definition xsk_socket__fd :: "xsk_socket option \<Rightarrow> int" where
  "xsk_socket__fd xsk = (case xsk of Some x \<Rightarrow> sk_fd x | None \<Rightarrow> - EINVAL)"

definition xsk_page_aligned :: "u32 \<Rightarrow> u64 \<Rightarrow> bool" where
  "xsk_page_aligned pagesize addr \<longleftrightarrow> addr AND ucast (pagesize - 1) = 0"

definition xsk_set_umem_config :: "xsk_umem_config option \<Rightarrow> xsk_umem_config" where
  "xsk_set_umem_config usr_cfg =
     (case usr_cfg of
        None \<Rightarrow> \<lparr> fill_size = XSK_RING_PROD__DEFAULT_NUM_DESCS, comp_size = XSK_RING_CONS__DEFAULT_NUM_DESCS,
                  frame_size = XSK_UMEM__DEFAULT_FRAME_SIZE, frame_headroom = XSK_UMEM__DEFAULT_FRAME_HEADROOM \<rparr>
      | Some c \<Rightarrow> \<lparr> fill_size = fill_size c, comp_size = comp_size c, frame_size = frame_size c, frame_headroom = frame_headroom c \<rparr>)"

definition xsk_set_xdp_socket_config :: "xsk_socket_config option \<Rightarrow> xsk_socket_config" where
  "xsk_set_xdp_socket_config usr_cfg =
     (case usr_cfg of
        None \<Rightarrow> \<lparr> rx_size = XSK_RING_CONS__DEFAULT_NUM_DESCS, tx_size = XSK_RING_PROD__DEFAULT_NUM_DESCS,
                  libbpf_flags = 0, sk_xdp_flags = 0, bind_flags = 0 \<rparr>
      | Some c \<Rightarrow> \<lparr> rx_size = rx_size c, tx_size = tx_size c, libbpf_flags = libbpf_flags c,
                    sk_xdp_flags = sk_xdp_flags c, bind_flags = bind_flags c \<rparr>)"

text \<open>What all four rings get from a mapping.\<close>

definition map_ring :: "u32 \<Rightarrow> u64 \<Rightarrow> xdp_ring_offset \<Rightarrow> ring_struct \<Rightarrow> ring_struct" where
  "map_ring sz addr off r =
     r\<lparr>ring_mask := sz - 1, ring_size := sz, producer_ptr := addr + off_producer off, consumer_ptr := addr + off_consumer off,
       ring_ptr := addr + off_desc off\<rparr>"

definition addr_ring_len :: "xdp_ring_offset \<Rightarrow> u32 \<Rightarrow> u64" where
  "addr_ring_len off sz = off_desc off + ucast sz * 8"

definition desc_ring_len :: "xdp_ring_offset \<Rightarrow> u32 \<Rightarrow> u64" where
  "desc_ring_len off sz = off_desc off + ucast sz * sizeof_xdp_desc"

section \<open>User memory\<close>

text \<open>A system call that answers with a number other than 0 has failed: the rest is left out and the error is \<open>-errno\<close>.\<close>

definition checked :: "'w bpf_os \<Rightarrow> ('w, int) prog \<Rightarrow> (int \<Rightarrow> ('w, 'a) prog) \<Rightarrow> ('w, 'a) prog \<Rightarrow> ('w, 'a) prog" where
  "checked os m on_error rest =
     andthen m (\<lambda>err. if err \<noteq> 0 then andthen (get_errno os) (\<lambda>e. on_error (- e)) else rest)"

text \<open>The result of \<open>xsk_umem__create\<close>: the error, the new object and the two rings as they are now.\<close>

type_synonym umem_result = "int \<times> xsk_umem option \<times> ring_struct \<times> ring_struct"

definition umem_rings ::
  "'w xsk_os \<Rightarrow> xsk_umem \<Rightarrow> u64 \<Rightarrow> ring_struct \<Rightarrow> u64 \<Rightarrow> ring_struct \<Rightarrow> ('w, umem_result) prog" where
  "umem_rings os umem fill_addr fill comp_addr compl =
     (let c = um_config umem; fd = um_fd umem;
          out_socket = (\<lambda>fill err. andthen (close_fd (xbpf os) fd) (\<lambda>_. ret (err, None, fill, compl))) in
      andthen (call (\<lambda>w. getsockopt os w fd)) (\<lambda>(err, off).
      if err \<noteq> 0 then andthen (get_errno (xbpf os)) (\<lambda>e. out_socket fill (- e))
      else
      andthen (xsk_mmap os (addr_ring_len (off_fr off) (fill_size c)) fd XDP_UMEM_PGOFF_FILL_RING) (\<lambda>m.
      case m of
        None \<Rightarrow> andthen (get_errno (xbpf os)) (\<lambda>e. out_socket fill (- e))
      | Some addr \<Rightarrow>
        let fill = (map_ring (fill_size c) addr (off_fr off) fill)\<lparr>cached_cons := fill_size c\<rparr>;
            umem = umem\<lparr>um_fill := fill_addr\<rparr> in
        andthen (xsk_mmap os (addr_ring_len (off_cr off) (comp_size c)) fd XDP_UMEM_PGOFF_COMPLETION_RING) (\<lambda>m.
        case m of
          None \<Rightarrow> andthen (get_errno (xbpf os)) (\<lambda>e.
                   andthen (munmap os (um_fill umem) (addr_ring_len (off_fr off) (fill_size c))) (\<lambda>_. out_socket fill (- e)))
        | Some addr \<Rightarrow>
          ret (0, Some (umem\<lparr>um_comp := comp_addr\<rparr>), fill, map_ring (comp_size c) addr (off_cr off) compl)))))"

definition xsk_umem__create ::
  "'w xsk_os \<Rightarrow> bool \<Rightarrow> u64 \<Rightarrow> u64 \<Rightarrow> (u64 \<times> ring_struct) option \<Rightarrow> (u64 \<times> ring_struct) option \<Rightarrow>
    xsk_umem_config option \<Rightarrow> ('w, int \<times> (xsk_umem option \<times> ring_struct \<times> ring_struct) option) prog" where
  "xsk_umem__create os umem_ptr area sz fill compl usr_config =
     (case (fill, compl) of
        (Some (fill_addr, fill), Some (comp_addr, compl)) \<Rightarrow>
          if area = 0 \<or> \<not> umem_ptr then ret (- EFAULT, Some (None, fill, compl))
          else if sz = 0 \<and> \<not> xsk_page_aligned (getpagesize os) area then ret (- EINVAL, Some (None, fill, compl))
          else
          andthen (malloc (xbpf os) 56) (\<lambda>ok.
          if \<not> ok then ret (- ENOMEM, Some (None, fill, compl))
          else
          andthen (call (\<lambda>w. xsocket os w AF_XDP_SOCK_RAW)) (\<lambda>fd.
          if fd < 0 then andthen (get_errno (xbpf os)) (\<lambda>e. ret (- e, Some (None, fill, compl)))
          else
          let c = xsk_set_umem_config usr_config;
              umem = \<lparr> um_fill = 0, um_comp = 0, umem_area = area, um_config = c, um_fd = fd, refcount = 0 \<rparr>;
              out_socket = (\<lambda>err. andthen (close_fd (xbpf os) fd) (\<lambda>_. ret (err, Some (None, fill, compl)))) in
          checked (xbpf os) (call (\<lambda>w. setsockopt os w fd (XDP_UMEM_REG
              \<lparr> mr_addr = area, mr_len = sz, mr_chunk_size = frame_size c, mr_headroom = frame_headroom c \<rparr>))) out_socket (
          checked (xbpf os) (call (\<lambda>w. setsockopt os w fd (XDP_UMEM_FILL_RING (fill_size c)))) out_socket (
          checked (xbpf os) (call (\<lambda>w. setsockopt os w fd (XDP_UMEM_COMPLETION_RING (comp_size c)))) out_socket (
          andthen (umem_rings os umem fill_addr fill comp_addr compl) (\<lambda>(err, r). ret (err, Some r)))))))
      | _ \<Rightarrow> ret (- EFAULT, None))"

section \<open>The XDP program and its maps\<close>

text \<open>These functions give the result and the socket as it is now.\<close>

definition xsk_load_xdp_prog :: "'w xsk_os \<Rightarrow> xsk_socket \<Rightarrow> ('w, int \<times> xsk_socket) prog" where
  "xsk_load_xdp_prog os xsk =
     andthen (bpf_load_program (xbpf os) BPF_PROG_TYPE_XDP
        (concat (map (assemble os) (xsk_prog_insns (qidconf_map_fd xsk) (xsks_map_fd xsk))))
        ''LGPL-2.1 or BSD-2-Clause'' 0 True BPF_LOG_BUF_SIZE) (\<lambda>(prog_fd, log).
     if prog_fd < 0 then ret (prog_fd, xsk)
     else andthen (set_link_xdp_fd (xlink os) (sk_ifindex xsk) prog_fd (sk_xdp_flags (sk_config xsk))) (\<lambda>err.
     if err \<noteq> 0 then andthen (close_fd (xbpf os) prog_fd) (\<lambda>_. ret (err, xsk))
     else ret (0, xsk\<lparr>sk_prog_fd := prog_fd\<rparr>)))"

definition xsk_get_max_queues :: "'w xsk_os \<Rightarrow> xsk_socket \<Rightarrow> ('w, int) prog" where
  "xsk_get_max_queues os xsk =
     andthen (call (\<lambda>w. xsocket os w AF_INET_SOCK_DGRAM)) (\<lambda>fd.
     if fd < 0 then andthen (get_errno (xbpf os)) (\<lambda>e. ret (- e))
     else andthen (call (\<lambda>w. gchannels os w fd (strncpy (sk_ifname xsk) IFNAMSIZ))) (\<lambda>(err, max_combined).
     andthen (get_errno (xbpf os)) (\<lambda>errno.
     let r = (if err \<noteq> 0 \<and> errno \<noteq> EOPNOTSUPP then - errno
              else if max_combined = 0 \<or> errno = EOPNOTSUPP then 1 else sint max_combined) in
     andthen (close_fd (xbpf os) fd) (\<lambda>_. ret r))))"

definition xsk_create_bpf_maps :: "'w xsk_os \<Rightarrow> xsk_socket \<Rightarrow> ('w, int \<times> xsk_socket) prog" where
  "xsk_create_bpf_maps os xsk =
     andthen (xsk_get_max_queues os xsk) (\<lambda>max_queues.
     if max_queues < 0 then ret (max_queues, xsk)
     else andthen (call (bpf_create_map_name (xbpf os) (map_type_code BPF_MAP_TYPE_ARRAY) (Some ''qidconf_map'') 4 4 (of_int max_queues) 0)) (\<lambda>fd.
     if fd < 0 then ret (fd, xsk)
     else let xsk = xsk\<lparr>qidconf_map_fd := fd\<rparr> in
     andthen (call (bpf_create_map_name (xbpf os) (map_type_code BPF_MAP_TYPE_XSKMAP) (Some ''xsks_map'') 4 4 (of_int max_queues) 0)) (\<lambda>fd.
     if fd < 0 then andthen (close_fd (xbpf os) (qidconf_map_fd xsk)) (\<lambda>_. ret (fd, xsk))
     else ret (0, xsk\<lparr>xsks_map_fd := fd\<rparr>))))"

definition xsk_delete_bpf_maps :: "'w xsk_os \<Rightarrow> xsk_socket \<Rightarrow> ('w, unit) prog" where
  "xsk_delete_bpf_maps os xsk =
     andthen (close_fd (xbpf os) (qidconf_map_fd xsk)) (\<lambda>_. andthen (close_fd (xbpf os) (xsks_map_fd xsk)) (\<lambda>_. ret ()))"

fun prog_info_of :: "info \<Rightarrow> bpf_prog_info option" where
  "prog_info_of (Prog_Info i) = Some i"
| "prog_info_of _ = None"

fun map_info_of :: "info \<Rightarrow> bpf_map_info option" where
  "map_info_of (Map_Info i) = Some i"
| "map_info_of _ = None"

definition sizeof_bpf_prog_info :: u32 where "sizeof_bpf_prog_info = 208"
definition sizeof_bpf_map_info :: u32 where "sizeof_bpf_map_info = 80"

text \<open>An entry of the socket's queue in a map.\<close>

definition set_queue_entry :: "'w xsk_os \<Rightarrow> xsk_socket \<Rightarrow> int \<Rightarrow> int \<Rightarrow> ('w, int) prog" where
  "set_queue_entry os xsk fd v =
     call (bpf_map_update_elem (xbpf os) fd (encode_word (host_bo (xbpf os)) 4 (queue_id xsk))
             (encode_word (host_bo (xbpf os)) 4 (of_int v :: u32)) 0)"

text \<open>The loop over the identifiers; \<open>None\<close> is an identifier behind the end of the buffer. The state is the socket and whether
  the maps have been updated. The result has \<open>Some err\<close> for \<open>goto out_maps\<close>.\<close>

type_synonym update_state = "xsk_socket \<times> bool \<times> bool"

fun update_loop ::
  "'w xsk_os \<Rightarrow> int \<Rightarrow> int \<Rightarrow> info \<Rightarrow> u32 \<Rightarrow> u32 option list \<Rightarrow> update_state \<Rightarrow> ('w, int option \<times> update_state) prog" where
  "update_loop os qidconf_value xsks_value map_info map_len [] st = ret (None, st)"
| "update_loop os qidconf_value xsks_value map_info map_len (i # is) st =
     (case st of (xsk, q, x) \<Rightarrow>
      andthen (from_option i) (\<lambda>i.
      andthen (call (bpf_map_get_fd_by_id (xcmd os) i)) (\<lambda>fd.
      if fd < 0 then andthen (get_errno (xbpf os)) (\<lambda>e. ret (Some (- e), st))
      else andthen (call (bpf_obj_get_info_by_fd (xcmd os) fd map_info map_len)) (\<lambda>(err, map_info, map_len).
      if err \<noteq> 0 then ret (Some err, st)
      else andthen (from_option (map_info_of map_info)) (\<lambda>mi.
      let next = (\<lambda>st. if fst (snd st) \<and> snd (snd st) then ret (None, st)
                       else update_loop os qidconf_value xsks_value map_info map_len is st) in
      if mi_name mi = ''qidconf_map''
      then andthen (set_queue_entry os xsk fd qidconf_value) (\<lambda>err.
           if err \<noteq> 0 then ret (Some err, st) else next (xsk\<lparr>qidconf_map_fd := fd\<rparr>, True, x))
      else if mi_name mi = ''xsks_map''
      then andthen (set_queue_entry os xsk fd xsks_value) (\<lambda>err.
           if err \<noteq> 0 then ret (Some err, st) else next (xsk\<lparr>xsks_map_fd := fd\<rparr>, q, True))
      else next st)))))"

text \<open>The labels \<open>out_maps\<close> and \<open>out_success\<close>.\<close>

definition close_updated :: "'w xsk_os \<Rightarrow> update_state \<Rightarrow> ('w, unit) prog" where
  "close_updated os st = (case st of (xsk, q, x) \<Rightarrow>
     andthen (if q then close_fd (xbpf os) (qidconf_map_fd xsk) else ret 0) (\<lambda>_.
     andthen (if x then close_fd (xbpf os) (xsks_map_fd xsk) else ret 0) (\<lambda>_. ret ())))"

definition reset_updated :: "'w xsk_os \<Rightarrow> update_state \<Rightarrow> ('w, unit) prog" where
  "reset_updated os st = (case st of (xsk, q, x) \<Rightarrow>
     andthen (if q then set_queue_entry os xsk (qidconf_map_fd xsk) 0 else ret 0) (\<lambda>_.
     andthen (if x then set_queue_entry os xsk (xsks_map_fd xsk) 0 else ret 0) (\<lambda>_. ret ())))"

definition xsk_update_bpf_maps :: "'w xsk_os \<Rightarrow> xsk_socket \<Rightarrow> int \<Rightarrow> int \<Rightarrow> ('w, int \<times> xsk_socket) prog" where
  "xsk_update_bpf_maps os xsk qidconf_value xsks_value =
     andthen (call (bpf_obj_get_info_by_fd (xcmd os) (sk_prog_fd xsk) (Prog_Info zero_prog_info) sizeof_bpf_prog_info)) (\<lambda>(err, pi, prog_len).
     if err \<noteq> 0 then ret (err, xsk)
     else andthen (from_option (prog_info_of pi)) (\<lambda>pi.
     let num_maps = nr_map_ids pi in
     andthen (malloc (xbpf os) (unat num_maps * 4)) (\<lambda>ok.
     if \<not> ok then ret (- ENOMEM, xsk)
     else andthen (call (bpf_obj_get_info_by_fd (xcmd os) (sk_prog_fd xsk)
        (Prog_Info (zero_prog_info\<lparr>nr_map_ids := num_maps, map_ids := replicate (unat num_maps) 0\<rparr>)) prog_len)) (\<lambda>(err, pi, prog_len).
     if err \<noteq> 0 then ret (err, xsk)
     else andthen (from_option (prog_info_of pi)) (\<lambda>pi.
     let buf = map_ids pi;
         ids = map (\<lambda>i. if i < unat num_maps \<and> i < length buf then Some (buf ! i) else None) [0..<unat (nr_map_ids pi)] in
     andthen (update_loop os qidconf_value xsks_value (Map_Info (stack_map_info os)) sizeof_bpf_map_info ids (xsk, False, False)) (\<lambda>(left, st).
     let err = (case left of Some e \<Rightarrow> e | None \<Rightarrow> if fst (snd st) \<and> snd (snd st) then 0 else - ENOENT) in
     andthen (if left = None \<and> fst (snd st) \<and> snd (snd st) then ret () else reset_updated os st) (\<lambda>_.
     andthen (close_updated os st) (\<lambda>_. ret (err, fst st)))))))))"

definition xsk_setup_xdp_prog :: "'w xsk_os \<Rightarrow> xsk_socket \<Rightarrow> ('w, int \<times> xsk_socket) prog" where
  "xsk_setup_xdp_prog os xsk =
     andthen (get_link_xdp_id (xlink os) (sk_ifindex xsk) (sk_xdp_flags (sk_config xsk))) (\<lambda>(err, id).
     if err \<noteq> 0 then ret (err, xsk)
     else let prog_id = (case id of Some i \<Rightarrow> i | None \<Rightarrow> 0) in
     if prog_id = 0
     then andthen (xsk_create_bpf_maps os xsk) (\<lambda>(err, xsk).
          if err \<noteq> 0 then ret (err, xsk)
          else andthen (xsk_load_xdp_prog os xsk) (\<lambda>(err, xsk).
          if err \<noteq> 0 then andthen (xsk_delete_bpf_maps os xsk) (\<lambda>_. ret (err, xsk))
          else andthen (xsk_update_bpf_maps os xsk 1 (sk_fd xsk)) (\<lambda>(err, xsk).
          if err \<noteq> 0 then andthen (close_fd (xbpf os) (sk_prog_fd xsk)) (\<lambda>_. andthen (xsk_delete_bpf_maps os xsk) (\<lambda>_. ret (err, xsk)))
          else ret (0, xsk))))
     else andthen (call (bpf_prog_get_fd_by_id (xcmd os) prog_id)) (\<lambda>fd.
          andthen (xsk_update_bpf_maps os (xsk\<lparr>sk_prog_fd := fd\<rparr>) 1 (sk_fd xsk)) (\<lambda>(err, xsk). ret (err, xsk))))"

section \<open>Sockets\<close>

definition zero_socket :: xsk_socket where
  "zero_socket = \<lparr> sk_rx = 0, sk_tx = 0, outstanding_tx = 0,
     sk_config = \<lparr> rx_size = 0, tx_size = 0, libbpf_flags = 0, sk_xdp_flags = 0, bind_flags = 0 \<rparr>,
     sk_fd = 0, sk_ifindex = 0, sk_prog_fd = 0, qidconf_map_fd = 0, xsks_map_fd = 0, queue_id = 0, sk_ifname = replicate IFNAMSIZ NUL \<rparr>"

text \<open>From the bind on. The result: the error, the socket unless it failed, and the error path that is taken.\<close>

datatype sock_exit = Done | Out_mmap_tx | Out_mmap_rx | Out_socket

definition socket_bind :: "'w xsk_os \<Rightarrow> xsk_socket \<Rightarrow> ('w, int \<times> xsk_socket \<times> sock_exit) prog" where
  "socket_bind os xsk =
     checked (xbpf os) (call (\<lambda>w. xbind os w (sk_fd xsk)
         \<lparr> sxdp_ifindex = of_int (sk_ifindex xsk), sxdp_queue_id = queue_id xsk, sxdp_flags = bind_flags (sk_config xsk) \<rparr>))
       (\<lambda>err. ret (err, xsk, Out_mmap_tx))
       (if libbpf_flags (sk_config xsk) AND XSK_LIBBPF_FLAGS__INHIBIT_PROG_LOAD = 0
        then andthen (xsk_setup_xdp_prog os xsk) (\<lambda>(err, xsk). ret (err, xsk, if err \<noteq> 0 then Out_mmap_tx else Done))
        else ret (0, xsk, Done))"

text \<open>From the options on: the error, the socket, the exit, the offsets the error paths use, and the two rings.\<close>

definition socket_rings ::
  "'w xsk_os \<Rightarrow> xsk_socket \<Rightarrow> u64 \<times> ring_struct \<Rightarrow> u64 \<times> ring_struct \<Rightarrow>
    ('w, int \<times> xsk_socket \<times> sock_exit \<times> xdp_mmap_offsets option \<times> ring_struct \<times> ring_struct) prog" where
  "socket_rings os xsk rxp txp =
     (case (rxp, txp) of ((rx_addr, rx), (tx_addr, tx)) \<Rightarrow>
      let c = sk_config xsk; fd = sk_fd xsk; out_socket = (\<lambda>err. ret (err, xsk, Out_socket, None, rx, tx)) in
      checked (xbpf os) (call (\<lambda>w. setsockopt os w fd (XDP_RX_RING (rx_size c)))) out_socket (
      checked (xbpf os) (call (\<lambda>w. setsockopt os w fd (XDP_TX_RING (tx_size c)))) out_socket (
      andthen (call (\<lambda>w. getsockopt os w fd)) (\<lambda>(err, off).
      if err \<noteq> 0 then andthen (get_errno (xbpf os)) (\<lambda>e. out_socket (- e))
      else
      andthen (xsk_mmap os (desc_ring_len (off_rx off) (rx_size c)) fd XDP_PGOFF_RX_RING) (\<lambda>m.
      case m of
        None \<Rightarrow> andthen (get_errno (xbpf os)) (\<lambda>e. out_socket (- e))
      | Some addr \<Rightarrow>
        let rx = map_ring (rx_size c) addr (off_rx off) rx; xsk = xsk\<lparr>sk_rx := rx_addr\<rparr> in
        andthen (xsk_mmap os (desc_ring_len (off_tx off) (tx_size c)) fd XDP_PGOFF_TX_RING) (\<lambda>m.
        case m of
          None \<Rightarrow> andthen (get_errno (xbpf os)) (\<lambda>e. ret (- e, xsk, Out_mmap_rx, Some off, rx, tx))
        | Some addr \<Rightarrow>
          let tx = (map_ring (tx_size c) addr (off_tx off) tx)\<lparr>cached_cons := tx_size c\<rparr>; xsk = xsk\<lparr>sk_tx := tx_addr\<rparr> in
          andthen (socket_bind os xsk) (\<lambda>(err, xsk, ex). ret (err, xsk, ex, Some off, rx, tx))))))))"

text \<open>The error paths.\<close>

definition socket_unmap :: "'w xsk_os \<Rightarrow> xsk_socket \<Rightarrow> sock_exit \<Rightarrow> xdp_mmap_offsets option \<Rightarrow> ('w, unit) prog" where
  "socket_unmap os xsk ex offs =
     (case offs of
        None \<Rightarrow> ret ()
      | Some off \<Rightarrow>
        andthen (if ex = Out_mmap_tx then munmap os (sk_tx xsk) (desc_ring_len (off_tx off) (tx_size (sk_config xsk))) else ret 0) (\<lambda>_.
        andthen (if ex = Out_mmap_tx \<or> ex = Out_mmap_rx
                 then munmap os (sk_rx xsk) (desc_ring_len (off_rx off) (rx_size (sk_config xsk))) else ret 0) (\<lambda>_. ret ())))"

text \<open>The label \<open>out_socket\<close>: the user memory is given back, and a socket of its own is closed.\<close>

definition release_socket :: "'w xsk_os \<Rightarrow> xsk_socket \<Rightarrow> xsk_umem \<Rightarrow> ('w, xsk_umem) prog" where
  "release_socket os xsk umem =
     (let umem = umem\<lparr>refcount := refcount umem - 1\<rparr> in
      andthen (if refcount umem \<noteq> 0 then close_fd (xbpf os) (sk_fd xsk) else ret 0) (\<lambda>_. ret umem))"

text \<open>The result: the error, the new socket, and the user memory and rings as they are now.\<close>

definition xsk_socket__create ::
  "'w xsk_os \<Rightarrow> bool \<Rightarrow> string \<Rightarrow> u32 \<Rightarrow> xsk_umem option \<Rightarrow> (u64 \<times> ring_struct) option \<Rightarrow> (u64 \<times> ring_struct) option \<Rightarrow>
    xsk_socket_config option \<Rightarrow> ('w, int \<times> xsk_socket option \<times> xsk_umem option \<times> (ring_struct \<times> ring_struct) option) prog" where
  "xsk_socket__create os xsk_ptr dev qid umem rxp txp usr_config =
     (case (umem, rxp, txp) of
        (Some umem, Some rxp, Some txp) \<Rightarrow>
          let rings = Some (snd rxp, snd txp) in
          if \<not> xsk_ptr then ret (- EFAULT, None, Some umem, rings)
          else if refcount umem \<noteq> 0 then ret (- EBUSY, None, Some umem, rings)
          else andthen (malloc (xbpf os) 112) (\<lambda>ok.
          if \<not> ok then ret (- ENOMEM, None, Some umem, rings)
          else
          andthen (if refcount umem > 0 then call (\<lambda>w. xsocket os w AF_XDP_SOCK_RAW) else ret (um_fd umem)) (\<lambda>fd.
          let umem = umem\<lparr>refcount := refcount umem + 1\<rparr> in
          if fd < 0 \<and> refcount umem > 1 then andthen (get_errno (xbpf os)) (\<lambda>e. ret (- e, None, Some umem, rings))
          else
          andthen (\<lambda>w. (Return (nametoindex os w dev), w)) (\<lambda>ifindex.
          let xsk = zero_socket\<lparr>sk_fd := fd, queue_id := qid, sk_ifindex := ifindex\<rparr> in
          if ifindex = 0
          then andthen (get_errno (xbpf os)) (\<lambda>e. andthen (release_socket os xsk umem) (\<lambda>umem. ret (- e, None, Some umem, rings)))
          else
          andthen (socket_rings os (xsk\<lparr>sk_ifname := strncpy dev IFNAMSIZ, sk_config := xsk_set_xdp_socket_config usr_config\<rparr>) rxp txp)
            (\<lambda>(err, xsk, ex, off, rx, tx).
          if ex = Done then ret (0, Some xsk, Some umem, Some (rx, tx))
          else andthen (socket_unmap os xsk ex off) (\<lambda>_.
          andthen (release_socket os xsk umem) (\<lambda>umem. ret (err, None, Some umem, Some (rx, tx))))))))
      | _ \<Rightarrow> ret (- EFAULT, None, umem, None))"

section \<open>Deleting\<close>

definition xsk_umem__delete :: "'w xsk_os \<Rightarrow> (xsk_umem \<times> ring_struct \<times> ring_struct) option \<Rightarrow> ('w, int) prog" where
  "xsk_umem__delete os umem =
     (case umem of
        None \<Rightarrow> ret 0
      | Some (umem, fill, compl) \<Rightarrow>
        if refcount umem \<noteq> 0 then ret (- EBUSY)
        else andthen (call (\<lambda>w. getsockopt os w (um_fd umem))) (\<lambda>(err, off).
        andthen (if err = 0
          then andthen (munmap os (ring_ptr fill) (addr_ring_len (off_fr off) (fill_size (um_config umem)))) (\<lambda>_.
               munmap os (ring_ptr compl) (addr_ring_len (off_cr off) (comp_size (um_config umem))))
          else ret 0) (\<lambda>_.
        andthen (close_fd (xbpf os) (um_fd umem)) (\<lambda>_. ret 0))))"

text \<open>The result is the user memory as it is now.\<close>

definition xsk_socket__delete ::
  "'w xsk_os \<Rightarrow> (xsk_socket \<times> ring_struct option \<times> ring_struct option) option \<Rightarrow> xsk_umem \<Rightarrow> ('w, xsk_umem) prog" where
  "xsk_socket__delete os xsk umem =
     (case xsk of
        None \<Rightarrow> ret umem
      | Some (xsk, rx, tx) \<Rightarrow>
        andthen (xsk_update_bpf_maps os xsk 0 0) (\<lambda>(_, xsk).
        andthen (call (\<lambda>w. getsockopt os w (sk_fd xsk))) (\<lambda>(err, off).
        let c = sk_config xsk in
        andthen (if err = 0
          then andthen (case rx of None \<Rightarrow> ret 0 | Some r \<Rightarrow> munmap os (ring_ptr r) (desc_ring_len (off_rx off) (rx_size c))) (\<lambda>_.
               case tx of None \<Rightarrow> ret 0 | Some t \<Rightarrow> munmap os (ring_ptr t) (desc_ring_len (off_tx off) (tx_size c)))
          else ret 0) (\<lambda>_.
        let umem = umem\<lparr>refcount := refcount umem - 1\<rparr> in
        andthen (if sk_fd xsk \<noteq> um_fd umem then close_fd (xbpf os) (sk_fd xsk) else ret 0) (\<lambda>_. ret umem)))))"

end
