(* ===== verification/Xsk_Life.thy ===== *)
theory Xsk_Life
  imports Xsk Load_Fds
begin

text \<open>
  The life of user memory and of the sockets on it. The locale \<open>xsk_kernel\<close> is what the operating system promises about
  descriptors; with it, creating user memory opens one descriptor or none, and leaves its rings ready for
  use as theory \<open>Xsk_Ring\<close> expects them. The relation \<open>umem_step\<close> has the creations and deletions of sockets on a piece of
  user memory: the reference count is the number of the live sockets, at most one, and none of them ever closes the descriptor they share.
\<close>

section \<open>Descriptors\<close>

locale xsk_kernel =
  fixes os :: "'w xsk_os" and fds :: "'w \<Rightarrow> int set"
  assumes xsocket: "xsocket os w k = (fd, w') \<Longrightarrow>
      if fd \<ge> 0 then fd \<notin> fds w \<and> fds w' = insert fd (fds w) else fds w' = fds w"
    and setsockopt: "setsockopt os w fd opt = (r, w') \<Longrightarrow> fds w' = fds w"
    and getsockopt: "getsockopt os w fd = (a, w') \<Longrightarrow> fds w' = fds w"
    and mmap: "sys_mmap os w len fd off = (m, w') \<Longrightarrow> fds w' = fds w"
    and mmap2: "sys_mmap2 os w len fd off = (m, w') \<Longrightarrow> fds w' = fds w"
    and munmap: "sys_munmap os w addr len = (r, w') \<Longrightarrow> fds w' = fds w"
    and close: "sys_close (xbpf os) w fd = (r, w') \<Longrightarrow> fds w' = fds w - {fd}"
begin

lemma setsockopt_spec: "wlp (call (\<lambda>w. setsockopt os w fd opt)) (\<lambda>_ w'. fds w' = fds w) w"
  using setsockopt by (auto split: prod.split)

lemma getsockopt_spec: "wlp (call (\<lambda>w. getsockopt os w fd)) (\<lambda>_ w'. fds w' = fds w) w"
  using getsockopt by (auto split: prod.split)

lemma mmap_spec: "wlp (xsk_mmap os len fd off) (\<lambda>_ w'. fds w' = fds w) w"
  using mmap mmap2 by (auto simp: xsk_mmap_def split: prod.split)

lemma munmap_spec: "wlp (munmap os addr len) (\<lambda>_ w'. fds w' = fds w) w"
  using munmap by (auto simp: munmap_def split: prod.split)

lemma close_spec: "wlp (close_fd (xbpf os) fd) (\<lambda>_ w'. fds w' = fds w - {fd}) w"
  using close by (auto simp: close_fd_def split: prod.split)

lemma checked_spec:
  assumes "wlp m (\<lambda>_ w'. fds w' = fds w) w"
    and "\<And>e w'. fds w' = fds w \<Longrightarrow> wlp (on_error e) Q w'" "\<And>w'. fds w' = fds w \<Longrightarrow> wlp rest Q w'"
  shows "wlp (checked b m on_error rest) Q w"
  unfolding checked_def
  by (intro wlp_bind [OF assms(1)] wlp_if wlp_bind [OF errno_spec]) (auto intro: assms(2,3))

text \<open>The rings and the descriptor as \<open>xsk_umem__create\<close> leaves them.\<close>

definition umem_made :: "int set \<Rightarrow> xsk_umem_config \<Rightarrow> ring_struct \<Rightarrow> ring_struct \<Rightarrow> int \<Rightarrow>
    xsk_umem option \<times> ring_struct \<times> ring_struct \<Rightarrow> 'w \<Rightarrow> bool" where
  "umem_made S c fill compl err r w \<longleftrightarrow>
     (case r of
        (None, _) \<Rightarrow> fds w = S
      | (Some u, f, p) \<Rightarrow> err = 0 \<and> refcount u = 0 \<and> um_config u = c \<and> um_fd u \<ge> 0 \<and> um_fd u \<notin> S \<and> fds w = insert (um_fd u) S \<and>
          xsk_ring.truncate f = xsk_ring.truncate (fill\<lparr>cached_cons := fill_size c, ring_mask := fill_size c - 1, ring_size := fill_size c\<rparr>) \<and>
          xsk_ring.truncate p = xsk_ring.truncate (compl\<lparr>ring_mask := comp_size c - 1, ring_size := comp_size c\<rparr>))"

lemma umem_rings_spec:
  assumes "fds w = insert (um_fd u) S" "um_fd u \<notin> S" "um_fd u \<ge> 0" "refcount u = 0" "um_config u = c"
  shows "wlp (umem_rings os u fa fill ca compl) (\<lambda>(err, r) w'. umem_made S c fill compl err r w') w"
  using assms unfolding umem_rings_def Let_def
  by (intro wlp_bind [OF getsockopt_spec] wlp_case_prod wlp_if wlp_bind [OF errno_spec] wlp_bind [OF close_spec] wlp_bind [OF mmap_spec]
      wlp_case_option wlp_bind [OF munmap_spec])
    (auto simp: umem_made_def xsk_ring.truncate_def map_ring_def)

text \<open>Creating user memory, with the checks before it.\<close>

lemma umem_create_spec:
  "wlp (xsk_umem__create os umem_ptr area sz fill compl usr) (\<lambda>(err, r) w'.
     case (fill, compl, r) of
       (Some (_, f), Some (_, p), Some r) \<Rightarrow> umem_made (fds w) (xsk_set_umem_config usr) f p err r w'
     | (_, _, r) \<Rightarrow> r = None \<and> fds w' = fds w) w"
proof (cases "fill = None \<or> compl = None")
  case True
  then show ?thesis by (auto simp: xsk_umem__create_def split: option.split)
next
  case False
  then obtain fa f ca p where args: "fill = Some (fa, f)" "compl = Some (ca, p)" by auto
  have open_spec: "wlp (call (\<lambda>w. xsocket os w k)) (\<lambda>fd w'.
      if fd \<ge> 0 then fd \<notin> fds w \<and> fds w' = insert fd (fds w) else fds w' = fds w) w" for k w
    using xsocket by (auto split: prod.split)
  show ?thesis
    unfolding args xsk_umem__create_def Let_def prod.case option.case
    by (intro wlp_if wlp_bind [OF malloc_spec] wlp_bind [OF open_spec] wlp_bind [OF errno_spec] checked_spec setsockopt_spec
        wlp_bind [OF close_spec] wlp_bind [OF umem_rings_spec [where S = "fds w" and c = "xsk_set_umem_config usr"]])
      (auto simp: umem_made_def)
qed

end

section \<open>The sockets on user memory\<close>

text \<open>No function of the library changes the descriptor, the queue or the configuration of a socket.\<close>

definition same_sock :: "xsk_socket \<Rightarrow> xsk_socket \<Rightarrow> bool" where
  "same_sock s t \<longleftrightarrow> sk_fd t = sk_fd s \<and> queue_id t = queue_id s \<and> sk_config t = sk_config s \<and> sk_ifindex t = sk_ifindex s"

lemma same_sock_refl [simp]: "same_sock s s"
  by (simp add: same_sock_def)

lemma same_sock_trans: "same_sock s t \<Longrightarrow> same_sock t u \<Longrightarrow> same_sock s u"
  by (simp add: same_sock_def)

lemma any_spec: "wlp m (\<lambda>_ _. True) w"
  by (simp add: wlp_def)

lemma checked_any:
  assumes "\<And>e w'. wlp (on_error e) Q w'" "\<And>w'. wlp rest Q w'"
  shows "wlp (checked b m on_error rest) Q w"
  unfolding checked_def by (intro wlp_bind [OF any_spec] wlp_if) (use assms in auto)

lemma update_loop_same: "wlp (update_loop os qv xv mi ml ids st) (\<lambda>(_, st') _. same_sock (fst st) (fst st')) w"
proof (induction ids arbitrary: st mi ml w)
  case (Cons i ids)
  obtain xsk q x where st: "st = (xsk, q, x)" by (cases st)
  have rest: "wlp (update_loop os qv xv mi ml ids st') (\<lambda>(_, st'') _. same_sock xsk (fst st'')) w'"
    if "same_sock xsk (fst st')" for st' mi ml w'
    using that by (auto intro!: wlp_mono [OF Cons.IH] intro: same_sock_trans)
  show ?case
    unfolding st update_loop.simps prod.case Let_def fst_conv snd_conv
    by (intro wlp_bind [OF any_spec] wlp_if wlp_case_prod rest) (auto simp: same_sock_def)
qed simp

lemma update_maps_same: "wlp (xsk_update_bpf_maps os xsk qv xv) (\<lambda>(_, xsk') _. same_sock xsk xsk') w"
  unfolding xsk_update_bpf_maps_def Let_def
  by (intro wlp_bind [OF any_spec] wlp_if wlp_case_prod wlp_bind [OF update_loop_same]) auto

lemma create_maps_same: "wlp (xsk_create_bpf_maps os xsk) (\<lambda>(_, xsk') _. same_sock xsk xsk') w"
  unfolding xsk_create_bpf_maps_def Let_def
  by (intro wlp_bind [OF any_spec] wlp_if) (auto simp: same_sock_def)

lemma load_prog_same: "wlp (xsk_load_xdp_prog os xsk) (\<lambda>(_, xsk') _. same_sock xsk xsk') w"
  unfolding xsk_load_xdp_prog_def
  by (intro wlp_bind [OF any_spec] wlp_if wlp_case_prod) (auto simp: same_sock_def)

lemma setup_same: "wlp (xsk_setup_xdp_prog os xsk) (\<lambda>(_, xsk') _. same_sock xsk xsk') w"
  unfolding xsk_setup_xdp_prog_def Let_def
  by (intro wlp_bind [OF create_maps_same] wlp_bind [OF load_prog_same] wlp_bind [OF update_maps_same] wlp_bind [OF any_spec] wlp_if wlp_case_prod)
    (auto simp: same_sock_def)

lemma bind_same: "wlp (socket_bind os xsk) (\<lambda>(_, xsk', _) _. same_sock xsk xsk') w"
  unfolding socket_bind_def by (intro checked_any wlp_if wlp_bind [OF setup_same] wlp_case_prod) auto

lemma rings_same: "wlp (socket_rings os xsk rxp txp) (\<lambda>(_, xsk', _) _. same_sock xsk xsk') w"
  unfolding socket_rings_def Let_def
  by (intro checked_any wlp_if wlp_case_prod wlp_bind [OF bind_same] wlp_bind [OF any_spec] wlp_case_option) (auto simp: same_sock_def)

lemma release_spec: "wlp (release_socket os xsk u) (\<lambda>v _. v = u\<lparr>refcount := refcount u - 1\<rparr>) w"
  unfolding release_socket_def Let_def by (intro wlp_bind [OF any_spec]) simp

text \<open>The count: a failed creation leaves it, a successful one makes it 1, a deletion takes 1 off.\<close>

lemma socket_create_count:
  "wlp (xsk_socket__create os xsk_ptr dev qid (Some u) rxp txp usr) (\<lambda>(err, x, v, _) _.
     \<exists>u'. v = Some u' \<and> um_fd u' = um_fd u \<and>
       (case x of None \<Rightarrow> refcount u' = refcount u | Some s \<Rightarrow> refcount u = 0 \<and> refcount u' = 1 \<and> sk_fd s = um_fd u)) w"
proof (cases "rxp = None \<or> txp = None \<or> refcount u \<noteq> 0")
  case True
  then show ?thesis by (auto simp: xsk_socket__create_def Let_def split: option.split)
next
  case False
  then obtain rx tx where args: "rxp = Some rx" "txp = Some tx" "refcount u = 0" by auto
  have own: "wlp (if refcount u > 0 then call (\<lambda>w. xsocket os w k) else ret (um_fd u)) (\<lambda>fd _. fd = um_fd u) w" for k w
    using args by simp
  show ?thesis
    unfolding args(1,2) xsk_socket__create_def Let_def prod.case option.case
    by (intro wlp_bind [OF own] wlp_bind [OF rings_same] wlp_bind [OF release_spec] wlp_bind [OF any_spec] wlp_if wlp_case_prod)
      (auto simp: same_sock_def args)
qed

lemma socket_delete_count:
  "wlp (xsk_socket__delete os (Some (s, rx, tx)) u) (\<lambda>v _. refcount v = refcount u - 1 \<and> um_fd v = um_fd u) w"
  unfolding xsk_socket__delete_def option.case prod.case Let_def
  by (intro wlp_bind [OF any_spec] wlp_case_prod) auto

section \<open>What the calls keep open\<close>

text \<open>More promises of the operating system: new descriptors for identifiers, and that the other calls close nothing.\<close>

locale xsk_system = xsk_kernel os fds + core: fd_table "bpf_core (xcmd os)" fds for os :: "'w xsk_os" and fds +
  assumes fd_by_id: "sys_fd_by_id (xcmd os) w k i = (fd, w') \<Longrightarrow>
      if fd \<ge> 0 then fd \<notin> fds w \<and> fds w' = insert fd (fds w) else fds w' = fds w"
    and info: "sys_info (xcmd os) w fd buf l = (ans, w') \<Longrightarrow> fds w' = fds w"
    and elem: "sys_elem (bpf_core (xcmd os)) w c e = (res, w') \<Longrightarrow> fds w' = fds w"
    and bind: "xbind os w fd sa = (r, w') \<Longrightarrow> fds w' = fds w"
    and gchannels: "gchannels os w fd n = (ch, w') \<Longrightarrow> fds w' = fds w"
    and set_link: "wlp (set_link_xdp_fd (xlink os) ix p f) (\<lambda>_ w'. fds w' = fds w) w"
    and get_link: "wlp (get_link_xdp_id (xlink os) ix f) (\<lambda>_ w'. fds w' = fds w) w"
begin

text \<open>A set \<open>S\<close> of descriptors stays open, and the maps of a socket are none of them.\<close>

definition keeps :: "int set \<Rightarrow> 'w \<Rightarrow> bool" where
  "keeps S w \<longleftrightarrow> S \<subseteq> fds w"

lemma fd_by_id_spec: "keeps S w \<Longrightarrow> wlp (call (bpf_map_get_fd_by_id (xcmd os) i)) (\<lambda>fd w'. keeps S w' \<and> (fd \<ge> 0 \<longrightarrow> fd \<notin> S)) w"
  "keeps S w \<Longrightarrow> wlp (call (bpf_prog_get_fd_by_id (xcmd os) i)) (\<lambda>fd w'. keeps S w') w"
  using fd_by_id by (fastforce simp: bpf_map_get_fd_by_id_def bpf_prog_get_fd_by_id_def keeps_def split: prod.split if_splits)+

lemma info_spec: "keeps S w \<Longrightarrow> wlp (call (bpf_obj_get_info_by_fd (xcmd os) fd b l)) (\<lambda>_ w'. keeps S w') w"
  using info by (fastforce simp: bpf_obj_get_info_by_fd_def keeps_def split: prod.split)

lemma elem_spec: "keeps S w \<Longrightarrow> wlp (set_queue_entry os xsk fd v) (\<lambda>_ w'. keeps S w') w"
  using elem by (fastforce simp: set_queue_entry_def bpf_map_update_elem_def keeps_def split: prod.split)

lemma keep_close: "keeps S w \<Longrightarrow> fd \<notin> S \<Longrightarrow> wlp (close_fd (xbpf os) fd) (\<lambda>_ w'. keeps S w') w"
  by (rule wlp_mono [OF close_spec]) (auto simp: keeps_def)

lemma keep_errno: "keeps S w \<Longrightarrow> wlp (get_errno (xbpf os)) (\<lambda>_ w'. keeps S w') w"
  by simp

lemma keep_malloc: "keeps S w \<Longrightarrow> wlp (malloc (xbpf os) n) (\<lambda>_ w'. keeps S w') w"
  by simp

lemma keep_option: "keeps S w \<Longrightarrow> wlp (from_option x) (\<lambda>_ w'. keeps S w') w"
  by (simp split: option.split)

lemma keep_getsockopt: "keeps S w \<Longrightarrow> wlp (call (\<lambda>w. getsockopt os w fd)) (\<lambda>_ w'. keeps S w') w"
  by (rule wlp_mono [OF getsockopt_spec]) (simp add: keeps_def)

lemma keep_setsockopt: "keeps S w \<Longrightarrow> wlp (call (\<lambda>w. setsockopt os w fd opt)) (\<lambda>_ w'. keeps S w') w"
  by (rule wlp_mono [OF setsockopt_spec]) (simp add: keeps_def)

lemma keep_mmap: "keeps S w \<Longrightarrow> wlp (xsk_mmap os len fd off) (\<lambda>_ w'. keeps S w') w"
  by (rule wlp_mono [OF mmap_spec]) (simp add: keeps_def)

lemma keep_munmap: "keeps S w \<Longrightarrow> wlp (munmap os addr len) (\<lambda>_ w'. keeps S w') w"
  by (rule wlp_mono [OF munmap_spec]) (simp add: keeps_def)

lemma keep_bind: "keeps S w \<Longrightarrow> wlp (call (\<lambda>w. xbind os w fd sa)) (\<lambda>_ w'. keeps S w') w"
  using bind by (fastforce simp: keeps_def split: prod.split)

lemma keep_channels: "keeps S w \<Longrightarrow> wlp (call (\<lambda>w. gchannels os w fd n)) (\<lambda>_ w'. keeps S w') w"
  using gchannels by (fastforce simp: keeps_def split: prod.split)

lemma keep_socket: "keeps S w \<Longrightarrow> wlp (call (\<lambda>w. xsocket os w k)) (\<lambda>fd w'. keeps S w' \<and> (fd \<ge> 0 \<longrightarrow> fd \<notin> S)) w"
  using xsocket by (fastforce simp: keeps_def split: prod.split if_splits)

lemma keep_map_create: "keeps S w \<Longrightarrow> wlp (call (bpf_create_map_name (xbpf os) t n ks vs me fl)) (\<lambda>fd w'. keeps S w' \<and> (fd \<ge> 0 \<longrightarrow> fd \<notin> S)) w"
  unfolding bpf_create_map_name_def
  by (rule wlp_mono [OF core.create_call_fds]) (auto simp: keeps_def core.may_open_def split: if_splits)

lemma keep_prog_load: "keeps S w \<Longrightarrow> wlp (bpf_load_program (xbpf os) t ins lic kv b n) (\<lambda>(fd, _) w'. keeps S w' \<and> (fd \<ge> 0 \<longrightarrow> fd \<notin> S)) w"
  unfolding bpf_load_program_def
  by (rule wlp_mono [OF core.load_xattr_fds]) (auto simp: keeps_def core.may_open_def split: if_splits)

lemma keep_set_link: "keeps S w \<Longrightarrow> wlp (set_link_xdp_fd (xlink os) ix p f) (\<lambda>_ w'. keeps S w') w"
  by (rule wlp_mono [OF set_link]) (simp add: keeps_def)

lemma keep_get_link: "keeps S w \<Longrightarrow> wlp (get_link_xdp_id (xlink os) ix f) (\<lambda>_ w'. keeps S w') w"
  by (rule wlp_mono [OF get_link]) (simp add: keeps_def)

lemma keep_if:
  "keeps S w \<Longrightarrow> (b \<Longrightarrow> wlp m (\<lambda>_ w'. keeps S w') w) \<Longrightarrow> (\<not> b \<Longrightarrow> wlp n (\<lambda>_ w'. keeps S w') w) \<Longrightarrow>
   wlp (if b then m else n) (\<lambda>_ w'. keeps S w') w"
  by simp

lemma keep_ret: "keeps S w \<Longrightarrow> wlp (ret c) (\<lambda>_ w'. keeps S w') w"
  by simp

lemmas keep_rules = wlp_bind [OF keep_if] wlp_bind [OF keep_option] wlp_bind [OF fd_by_id_spec(1)] wlp_bind [OF fd_by_id_spec(2)] wlp_bind [OF info_spec]
  wlp_bind [OF elem_spec] wlp_bind [OF keep_errno] wlp_bind [OF keep_malloc] wlp_bind [OF keep_getsockopt]
  wlp_bind [OF keep_setsockopt] wlp_bind [OF keep_mmap] wlp_bind [OF keep_munmap] wlp_bind [OF keep_bind]
  wlp_bind [OF keep_channels] wlp_bind [OF keep_socket] wlp_bind [OF keep_map_create] wlp_bind [OF keep_prog_load]
  wlp_bind [OF keep_set_link] wlp_bind [OF keep_get_link] wlp_bind [OF keep_close] wlp_if wlp_case_prod wlp_case_option

text \<open>The maps of a socket are those it had, or new ones.\<close>

definition own_maps :: "int set \<Rightarrow> xsk_socket \<Rightarrow> xsk_socket \<Rightarrow> bool" where
  "own_maps S xsk xsk' \<longleftrightarrow> sk_prog_fd xsk' = sk_prog_fd xsk \<and>
     (qidconf_map_fd xsk' = qidconf_map_fd xsk \<or> qidconf_map_fd xsk' \<notin> S) \<and>
     (xsks_map_fd xsk' = xsks_map_fd xsk \<or> xsks_map_fd xsk' \<notin> S)"

definition own_updates :: "int set \<Rightarrow> update_state \<Rightarrow> bool" where
  "own_updates S st = (case st of (xsk, q, x) \<Rightarrow> (q \<longrightarrow> qidconf_map_fd xsk \<notin> S) \<and> (x \<longrightarrow> xsks_map_fd xsk \<notin> S))"

lemma update_loop_keeps:
  assumes "keeps S w" "own_updates S st" "own_maps S orig (fst st)"
  shows "wlp (update_loop os qv xv mi ml ids st) (\<lambda>(_, st') w'. keeps S w' \<and> own_updates S st' \<and> own_maps S orig (fst st')) w"
  using assms
proof (induction ids arbitrary: st mi ml w)
  case (Cons i ids)
  obtain xsk q x where st: "st = (xsk, q, x)" by (cases st)
  show ?case
    using Cons.prems unfolding st update_loop.simps prod.case Let_def fst_conv snd_conv
    by (intro keep_rules Cons.IH) (auto simp: own_updates_def own_maps_def)
qed simp

lemma reset_keeps: "keeps S w \<Longrightarrow> wlp (reset_updated os st) (\<lambda>_ w'. keeps S w') w"
  unfolding reset_updated_def by (intro keep_rules elem_spec keep_ret) auto

lemma close_keeps: "keeps S w \<Longrightarrow> own_updates S st \<Longrightarrow> wlp (close_updated os st) (\<lambda>_ w'. keeps S w') w"
  unfolding close_updated_def by (intro keep_rules keep_close keep_ret) (auto simp: own_updates_def)

lemma update_maps_keeps:
  assumes "keeps S w"
  shows "wlp (xsk_update_bpf_maps os xsk qv xv) (\<lambda>(_, xsk') w'. keeps S w' \<and> own_maps S xsk xsk') w"
  using assms unfolding xsk_update_bpf_maps_def Let_def
  by (intro keep_rules wlp_bind [OF update_loop_keeps [where orig = xsk]] wlp_bind [OF close_keeps] reset_keeps keep_ret)
    (auto simp: own_updates_def own_maps_def)

lemma max_queues_keeps: "keeps S w \<Longrightarrow> wlp (xsk_get_max_queues os xsk) (\<lambda>_ w'. keeps S w') w"
  unfolding xsk_get_max_queues_def Let_def by (intro keep_rules) auto

lemma create_maps_keeps:
  assumes "keeps S w"
  shows "wlp (xsk_create_bpf_maps os xsk) (\<lambda>(err, xsk') w'. keeps S w' \<and>
     (err = 0 \<longrightarrow> qidconf_map_fd xsk' \<notin> S \<and> xsks_map_fd xsk' \<notin> S)) w"
  using assms unfolding xsk_create_bpf_maps_def Let_def
  by (intro keep_rules wlp_bind [OF max_queues_keeps]) auto

lemma delete_maps_keeps:
  "keeps S w \<Longrightarrow> qidconf_map_fd xsk \<notin> S \<Longrightarrow> xsks_map_fd xsk \<notin> S \<Longrightarrow> wlp (xsk_delete_bpf_maps os xsk) (\<lambda>_ w'. keeps S w') w"
  unfolding xsk_delete_bpf_maps_def by (intro keep_rules) auto

lemma load_prog_keeps:
  assumes "keeps S w"
  shows "wlp (xsk_load_xdp_prog os xsk) (\<lambda>(err, xsk') w'. keeps S w' \<and> (err = 0 \<longrightarrow> sk_prog_fd xsk' \<notin> S) \<and>
     qidconf_map_fd xsk' = qidconf_map_fd xsk \<and> xsks_map_fd xsk' = xsks_map_fd xsk) w"
  using assms unfolding xsk_load_xdp_prog_def by (intro keep_rules) auto

lemma setup_keeps:
  assumes "keeps S w"
  shows "wlp (xsk_setup_xdp_prog os xsk) (\<lambda>_ w'. keeps S w') w"
  using assms unfolding xsk_setup_xdp_prog_def Let_def
  by (intro wlp_bind [OF create_maps_keeps] wlp_bind [OF load_prog_keeps] wlp_bind [OF update_maps_keeps] wlp_bind [OF delete_maps_keeps] keep_rules)
    (auto simp: own_maps_def)

lemma bind_keeps:
  assumes "keeps S w"
  shows "wlp (socket_bind os xsk) (\<lambda>_ w'. keeps S w') w"
  using assms unfolding socket_bind_def checked_def
  by (intro keep_rules wlp_bind [OF setup_keeps]) auto

lemma rings_keeps:
  assumes "keeps S w"
  shows "wlp (socket_rings os xsk rxp txp) (\<lambda>_ w'. keeps S w') w"
  using assms unfolding socket_rings_def checked_def Let_def
  by (intro keep_rules wlp_bind [OF bind_keeps]) auto

lemma unmap_keeps: "keeps S w \<Longrightarrow> wlp (socket_unmap os xsk ex off) (\<lambda>_ w'. keeps S w') w"
  unfolding socket_unmap_def by (intro keep_rules keep_munmap keep_ret) auto

lemma release_keeps: "keeps S w \<Longrightarrow> refcount u = 1 \<Longrightarrow> wlp (release_socket os xsk u) (\<lambda>_ w'. keeps S w') w"
  unfolding release_socket_def Let_def by simp

lemma keep_name: "keeps S w \<Longrightarrow> wlp (\<lambda>w. (Return (nametoindex os w dev), w)) (\<lambda>_ w'. keeps S w') w"
  by (simp add: wlp_def)

text \<open>Creating a socket closes no descriptor that was open before, whether it succeeds or not, and deleting a socket on
  the descriptor of its user memory does not either.\<close>

lemma socket_create_keeps:
  assumes "keeps S w"
  shows "wlp (xsk_socket__create os xsk_ptr dev qid (Some u) rxp txp usr) (\<lambda>_ w'. keeps S w') w"
proof (cases "rxp = None \<or> txp = None \<or> refcount u \<noteq> 0")
  case True
  then show ?thesis using assms by (auto simp: xsk_socket__create_def Let_def split: option.split)
next
  case False
  then obtain rx tx where args: "rxp = Some rx" "txp = Some tx" "refcount u = 0" by auto
  have own: "wlp (if refcount u > 0 then call (\<lambda>w. xsocket os w k) else ret (um_fd u)) (\<lambda>_ w'. keeps S w') w" if "keeps S w" for k w
    using args that by simp
  show ?thesis
    using assms unfolding args(1,2) xsk_socket__create_def Let_def prod.case option.case
    by (intro wlp_bind [OF own] wlp_bind [OF keep_name] wlp_bind [OF rings_keeps] wlp_bind [OF unmap_keeps] wlp_bind [OF release_keeps] keep_rules)
      (auto simp: args)
qed

lemma socket_delete_keeps:
  assumes "keeps S w" "sk_fd s = um_fd u"
  shows "wlp (xsk_socket__delete os (Some (s, rx, tx)) u) (\<lambda>_ w'. keeps S w') w"
proof -
  have upd: "wlp (xsk_update_bpf_maps os s 0 0) (\<lambda>(_, s') w'. keeps S w' \<and> sk_fd s' = um_fd u) w"
    using update_maps_keeps [OF assms(1), of s 0 0] update_maps_same [of os s 0 0 w] assms(2)
    by (fastforce simp: wlp_def same_sock_def)
  have unmap: "wlp (case r of None \<Rightarrow> ret 0 | Some r \<Rightarrow> munmap os (ring_ptr r) len) (\<lambda>_ w'. keeps S w') w"
    if "keeps S w" for r len w
    using that by (intro wlp_case_option keep_munmap keep_ret)
  show ?thesis
    unfolding xsk_socket__delete_def option.case prod.case Let_def
    by (intro wlp_bind [OF upd] wlp_bind [OF unmap] keep_rules unmap keep_munmap keep_ret) auto
qed

end

section \<open>All sequences of creations and deletions\<close>

text \<open>A state is the user memory, its live sockets and the state of the system.\<close>

inductive umem_step :: "'w xsk_os \<Rightarrow> xsk_umem \<times> xsk_socket list \<times> 'w \<Rightarrow> xsk_umem \<times> xsk_socket list \<times> 'w \<Rightarrow> bool" for os where
  create: "xsk_socket__create os xsk_ptr dev qid (Some u) rxp txp usr w = (Return (err, x, Some u', r), w') \<Longrightarrow>
    umem_step os (u, live, w) (u', (case x of None \<Rightarrow> live | Some s \<Rightarrow> s # live), w')"
| delete: "xsk_socket__delete os (Some (s, rx, tx)) u w = (Return u', w') \<Longrightarrow>
    umem_step os (u, a @ s # b, w) (u', a @ b, w')"

inductive umem_reach :: "'w xsk_os \<Rightarrow> xsk_umem \<times> xsk_socket list \<times> 'w \<Rightarrow> xsk_umem \<times> xsk_socket list \<times> 'w \<Rightarrow> bool" for os st where
  start: "umem_reach os st st"
| step: "umem_reach os st st' \<Longrightarrow> umem_step os st' st'' \<Longrightarrow> umem_reach os st st''"

context xsk_system
begin

fun life_inv :: "int \<Rightarrow> xsk_umem \<times> xsk_socket list \<times> 'w \<Rightarrow> bool" where
  "life_inv fd (u, live, w) \<longleftrightarrow> um_fd u = fd \<and> fd \<in> fds w \<and> refcount u = int (length live) \<and> length live \<le> 1 \<and> (\<forall>s \<in> set live. sk_fd s = fd)"

lemma life_step: "umem_step os st st' \<Longrightarrow> life_inv fd st \<Longrightarrow> life_inv fd st'"
proof (induction rule: umem_step.induct)
  case (create xsk_ptr dev qid u rxp txp usr w err x u' r w' live)
  have "keeps {fd} w" using create.prems by (simp add: keeps_def)
  then have "fd \<in> fds w'" using wlpD [OF socket_create_keeps [of "{fd}"] create.hyps] by (simp add: keeps_def)
  then show ?case using wlpD [OF socket_create_count create.hyps] create.prems by (auto split: option.splits)
next
  case (delete s rx tx u w u' w' a b)
  then have s: "keeps {fd} w" "sk_fd s = um_fd u" by (auto simp: keeps_def)
  then have "fd \<in> fds w'" using wlpD [OF socket_delete_keeps [OF s] delete.hyps] by (simp add: keeps_def)
  then show ?case using wlpD [OF socket_delete_count delete.hyps] delete.prems by auto
qed

lemma life_reach: "umem_reach os st st' \<Longrightarrow> life_inv fd st \<Longrightarrow> life_inv fd st'"
  by (induction rule: umem_reach.induct) (auto intro: life_step)

end

section \<open>A system\<close>

text \<open>The descriptors in use and the mappings with their lengths, at most \<open>n\<close> of them.\<close>

type_synonym table = "int list \<times> (u64 \<times> u64) list"

definition table_open :: "table \<Rightarrow> int \<times> table" where
  "table_open w = (fresh_fd (fst w), (fresh_fd (fst w) # fst w, snd w))"

definition table_bpf :: "table bpf_os" where
  "table_bpf = \<lparr> host_bo = LittleEndian, sys_errno = (\<lambda>w. EINVAL), sys_malloc = (\<lambda>w n. True),
     sys_map_create = (\<lambda>w a. table_open w),
     sys_prog_load = (\<lambda>w a. case table_open w of (fd, w) \<Rightarrow> (load_ok fd [], w)),
     sys_btf_load = (\<lambda>w d l. (-1, w)), sys_elem = (\<lambda>w c a. ((0, []), w)), sys_attach = (\<lambda>w f a. (-1, w)),
     sys_close = (\<lambda>w fd. (0, (removeAll fd (fst w), snd w))) \<rparr>"

definition table_cmd :: "table cmd_os" where
  "table_cmd = \<lparr> bpf_core = table_bpf, sys_obj_pin = (\<lambda>w p fd. (-1, w)), sys_obj_get = (\<lambda>w p. (-1, w)),
     sys_prog_query = (\<lambda>w a. ((-1, a), w)), sys_test_run = (\<lambda>w a. ((-1, a), w)), sys_next_id = (\<lambda>w k i. ((-1, 0), w)),
     sys_fd_by_id = (\<lambda>w k i. table_open w), sys_info = (\<lambda>w fd b l. ((-1, b, l), w)),
     sys_raw_tracepoint = (\<lambda>w n fd. (-1, w)), sys_task_query = (\<lambda>w a. ((-1, a), w)) \<rparr>"

definition no_offset :: xdp_ring_offset where
  "no_offset = \<lparr> off_producer = 0, off_consumer = 64, off_desc = 128 \<rparr>"

definition table_xsk :: "nat \<Rightarrow> table xsk_os" where
  "table_xsk n = \<lparr> xcmd = table_cmd, xlink = \<lparr> set_link_xdp_fd = (\<lambda>i fd f. ret 0), get_link_xdp_id = (\<lambda>i f. ret (0, Some 0)) \<rparr>,
     assemble = (\<lambda>i. []), getpagesize = 4096, NR_mmap2 = False, pgoff_num = (\<lambda>p. 0),
     xsocket = (\<lambda>w k. table_open w), setsockopt = (\<lambda>w fd opt. (0, w)),
     getsockopt = (\<lambda>w fd. ((0, \<lparr> off_rx = no_offset, off_tx = no_offset, off_fr = no_offset, off_cr = no_offset \<rparr>), w)),
     sys_mmap = (\<lambda>w len fd off. if length (snd w) < n then (Some (0x10000 * of_nat (Suc (length (snd w)))),
         (fst w, (0x10000 * of_nat (Suc (length (snd w))), len) # snd w)) else (None, w)),
     sys_mmap2 = (\<lambda>w len fd off. (None, w)), sys_munmap = (\<lambda>w addr len. (0, (fst w, removeAll (addr, len) (snd w)))),
     xbind = (\<lambda>w fd sa. (0, w)), gchannels = (\<lambda>w fd s. ((0, 4), w)), nametoindex = (\<lambda>w s. 3),
     stack_map_info = \<lparr> mi_type = 0, mi_id = 0, mi_key_size = 0, mi_value_size = 0, mi_max_entries = 0, mi_map_flags = 0, mi_name = [],
       mi_ifindex = 0, mi_netns_dev = 0, mi_netns_ino = 0, mi_btf_id = 0, mi_btf_key_type_id = 0, mi_btf_value_type_id = 0 \<rparr> \<rparr>"

lemma table_open_new: "table_open w = (fd, w') \<Longrightarrow> fd \<ge> 0 \<and> fd \<notin> set (fst w) \<and> set (fst w') = insert fd (set (fst w))"
  using fresh_fd_new [of "fst w"] by (auto simp: table_open_def)

interpretation table: xsk_system "table_xsk n" "\<lambda>w. set (fst w)"
  by unfold_locales (auto simp: table_xsk_def table_cmd_def table_bpf_def load_ok_def split: prod.splits if_splits dest: table_open_new)

section \<open>Creating user memory\<close>

definition zero_ring :: ring_struct where
  "zero_ring = \<lparr> cached_prod = 0, cached_cons = 0, ring_mask = 0, ring_size = 0, producer_ptr = 0, consumer_ptr = 0, ring_ptr = 0 \<rparr>"

lemma fresh_rings:
  assumes "xsk_ring.truncate f = xsk_ring.truncate (zero_ring\<lparr>cached_cons := 2 ^ k, ring_mask := 2 ^ k - 1, ring_size := 2 ^ k\<rparr>)"
    and "xsk_ring.truncate p = xsk_ring.truncate (zero_ring\<lparr>ring_mask := 2 ^ l - 1, ring_size := 2 ^ l\<rparr>)"
  shows "xsk_ring.truncate f = fresh_prod k" "xsk_ring.truncate p = fresh_cons l"
  using assms by (simp_all add: xsk_ring.truncate_def zero_ring_def fresh_prod_def fresh_cons_def)


lemmas table_simps = table_xsk_def table_cmd_def table_bpf_def table_open_def no_offset_def fresh_fd_def load_ok_def
  andthen_def prog_simps get_errno_def malloc_def close_fd_def checked_def xsk_mmap_def munmap_def Let_def


text \<open>The path that fails after the first mapping does not give it back: it asks to unmap the address of the caller's
  structure instead of the address of the mapping.\<close>

theorem umem_create_leaks_mapping:
  "\<exists>f p. xsk_umem__create (table_xsk 1) True 0x1000 0x2000 (Some (8, zero_ring)) (Some (16, zero_ring)) None ([2, 1, 0], []) =
     (Return (- EINVAL, Some (None, f, p)), ([2, 1, 0], [(0x10000, 128 + 2048 * 8)]))"
  by (simp add: xsk_umem__create_def umem_rings_def table_simps addr_ring_len_def xsk_set_umem_config_def XSK_RING_PROD__DEFAULT_NUM_DESCS_def)

text \<open>
  C24. Whatever sockets are created and deleted on a piece of user memory, in any order and with any failures, its reference count
  is the number of its live sockets and at most 1, its descriptor stays the same and stays open, and while a socket lives
  neither another socket nor the deletion of the memory gets through: both answer \<open>-EBUSY\<close> and change nothing.
\<close>

theorem umem_in_use:
  assumes "xsk_system os fds" "um_fd u \<in> fds w" "refcount u = 0" and "umem_reach os (u, [], w) (u', live, w')"
  shows "um_fd u' = um_fd u \<and> um_fd u \<in> fds w' \<and> refcount u' = int (length live) \<and> length live \<le> 1 \<and>
     (live \<noteq> [] \<longrightarrow> xsk_umem__delete os (Some (u', fill, compl)) w' = (Return (- EBUSY), w') \<and>
       xsk_socket__create os True dev qid (Some u') (Some rx) (Some tx) usr w' = (Return (- EBUSY, None, Some u', Some (snd rx, snd tx)), w'))"
proof -
  have "xsk_system.life_inv fds (um_fd u) (u', live, w')"
    using xsk_system.life_reach [OF assms(1,4)] assms(2,3) by (simp add: xsk_system.life_inv.simps [OF assms(1)])
  then show ?thesis
    by (auto simp: xsk_system.life_inv.simps [OF assms(1)] xsk_umem__delete_def xsk_socket__create_def Let_def prog_simps)
qed

definition sample_umem :: xsk_umem where
  "sample_umem = \<lparr> um_fill = 8, um_comp = 16, umem_area = 0x1000, um_config = xsk_set_umem_config None, um_fd = 3, refcount = 0 \<rparr>"

definition bare_config :: xsk_socket_config where
  "bare_config = \<lparr> rx_size = 64, tx_size = 64, libbpf_flags = 1, sk_xdp_flags = 0, bind_flags = 0 \<rparr>"

theorem umem_in_use_witness:
  "\<exists>s u' w'. umem_reach (table_xsk 4) (sample_umem, [], ([3, 2, 1, 0], [])) (u', [s], w') \<and> refcount u' = 1 \<and> 3 \<in> set (fst w') \<and>
     xsk_umem__delete (table_xsk 4) (Some (u', zero_ring, zero_ring)) w' = (Return (- EBUSY), w')"
proof -
  let ?w = "([3, 2, 1, 0], []) :: table"
  obtain s u' r w' where c: "xsk_socket__create (table_xsk 4) True ''eth0'' 0 (Some sample_umem) (Some (24, zero_ring)) (Some (32, zero_ring))
      (Some bare_config) ?w = (Return (0, Some s, Some u', r), w')"
    by (simp add: xsk_socket__create_def sample_umem_def socket_rings_def socket_bind_def bare_config_def table_simps
        xsk_set_xdp_socket_config_def XSK_LIBBPF_FLAGS__INHIBIT_PROG_LOAD_def)
  then have "umem_reach (table_xsk 4) (sample_umem, [], ?w) (u', [s], w')"
    using umem_reach.step [OF umem_reach.start umem_step.create [OF c, of "[]"]] by simp
  then show ?thesis
    using umem_in_use [OF table.xsk_system_axioms, of sample_umem ?w 4 u' "[s]" w' zero_ring zero_ring]
    by (intro exI [of _ s] exI [of _ u'] exI [of _ w']) (simp add: sample_umem_def)
qed

text \<open>A stale error number decides the number of queues: the call succeeds and says 4, but an earlier failure with
  \<open>EOPNOTSUPP\<close> makes it 1.\<close>

theorem max_queues_reads_stale_errno:
  assumes "xsocket os w AF_INET_SOCK_DGRAM = (fd, w1)" "fd \<ge> 0" "gchannels os w1 fd (strncpy (sk_ifname xsk) IFNAMSIZ) = ((0, n), w2)"
    and "sys_errno (xbpf os) w2 = EOPNOTSUPP"
  shows "\<exists>w'. xsk_get_max_queues os xsk w = (Return 1, w')"
  using assms by (auto simp: xsk_get_max_queues_def andthen_def prog_simps get_errno_def close_fd_def Let_def split: prod.split)

end
