(* ===== verification/Linfo.thy ===== *)
theory Linfo
  imports Bpf_Cmds
begin

text \<open>
  The line information of a loaded program, \<open>src/libbpf/src/bpf_prog_linfo.c\<close>: a copy of what the kernel gives for the
  program, cut into the functions of the compiled code, and the search for the line of an instruction or of an address.

  The copies are byte strings and the records in them are read with their offsets; a pointer into a copy is an offset.
  The sizes of the copies are computed with 32 bits, as in the code. A read outside of a copy or of an array of the
  kernel's answer is \<open>None\<close>, a null pointer as a result is \<open>Some None\<close>. The two arrays over the functions are filled in order; the lists hold the
  part that has been written.

  The specification is \<open>last_le\<close>: the last of a list of increasing keys that is not above the one looked for.
\<close>

section \<open>The structure\<close>

record bpf_prog_linfo =
  raw_linfo :: bytes
  raw_jited_linfo :: bytes
  nr_jited_linfo_per_func :: "u32 list"
  jited_linfo_func_idx :: "u32 list"
  nr_linfo :: u32
  nr_jited_func :: u32
  rec_size :: u32
  jited_rec_size :: u32

definition offsetof_file_name_off :: u32 where "offsetof_file_name_off = 4"

text \<open>The address in the record \<open>i\<close> of the compiled code, and the instruction in the record at an offset.\<close>

definition jited_addr :: "byte_order \<Rightarrow> bpf_prog_linfo \<Rightarrow> nat \<Rightarrow> u64 option" where
  "jited_addr bo l off = load_word bo 8 (raw_jited_linfo l) off"

definition insn_off_at :: "byte_order \<Rightarrow> bpf_prog_linfo \<Rightarrow> nat \<Rightarrow> u32 option" where
  "insn_off_at bo l off = load_word bo 4 (raw_linfo l) off"

section \<open>Cutting into functions\<close>

text \<open>The loop of \<open>dissect_jited_func\<close>; \<open>Some None\<close> is \<open>goto errout\<close>. The results are \<open>f\<close>, \<open>prev_i\<close> and the two arrays.\<close>

function dissect_loop ::
  "byte_order \<Rightarrow> bpf_prog_linfo \<Rightarrow> u64 list \<Rightarrow> u32 list \<Rightarrow> nat \<Rightarrow> nat \<Rightarrow> nat \<Rightarrow> nat \<Rightarrow> u32 list \<Rightarrow> u32 list \<Rightarrow>
    (nat \<times> nat \<times> u32 list \<times> u32 list) option option" where
  "dissect_loop bo l ksym_func ksym_len off i f prev_i ixs cnt =
     (if i < unat (nr_linfo l) \<and> f < unat (nr_jited_func l)
      then do {
        last_jited_linfo \<leftarrow> jited_addr bo l off;
        let off = off + unat (jited_rec_size l);
        jited_linfo \<leftarrow> jited_addr bo l off;
        kf \<leftarrow> nth_option ksym_func f;
        if kf = jited_linfo
        then do {
          kp \<leftarrow> nth_option ksym_func (f - 1);
          len \<leftarrow> nth_option ksym_len (f - 1);
          if last_jited_linfo - kp + 1 > ucast len then Some None
          else dissect_loop bo l ksym_func ksym_len off (i + 1) (f + 1) i (ixs @ [of_nat i]) (cnt @ [of_nat (i - prev_i)]) }
        else if jited_linfo \<le> last_jited_linfo then Some None
        else dissect_loop bo l ksym_func ksym_len off (i + 1) f prev_i ixs cnt }
      else Some (Some (f, prev_i, ixs, cnt)))"
  by pat_completeness auto

termination dissect_loop
  by (relation "measure (\<lambda>(bo, l, kf, kl, off, i, f, p, x, c). unat (nr_linfo l) - i)") auto

declare dissect_loop.simps [simp del]

text \<open>The result is \<open>None\<close> inside for the error \<open>-EINVAL\<close>.\<close>

definition dissect_jited_func :: "byte_order \<Rightarrow> bpf_prog_linfo \<Rightarrow> u64 list \<Rightarrow> u32 list \<Rightarrow> bpf_prog_linfo option option" where
  "dissect_jited_func bo l ksym_func ksym_len =
     do { k \<leftarrow> nth_option ksym_func 0;
          a \<leftarrow> jited_addr bo l 0;
          if k \<noteq> a then Some None
          else do {
            r \<leftarrow> dissect_loop bo l ksym_func ksym_len 0 1 1 0 [0] [];
            case r of
              None \<Rightarrow> Some None
            | Some (f, prev_i, ixs, cnt) \<Rightarrow>
              if f \<noteq> unat (nr_jited_func l) then Some None
              else Some (Some (l\<lparr>jited_linfo_func_idx := ixs,
                                nr_jited_linfo_per_func := cnt @ [nr_linfo l - of_nat prev_i]\<rparr>)) } }"

section \<open>Making the structure\<close>

text \<open>\<open>memcpy\<close> out of a buffer of the caller.\<close>

definition copy_from :: "bytes option \<Rightarrow> nat \<Rightarrow> bytes option" where
  "copy_from src n = (case src of None \<Rightarrow> if n = 0 then Some [] else None | Some d \<Rightarrow> read_bytes n d 0)"

definition sizeof_bpf_prog_linfo :: nat where "sizeof_bpf_prog_linfo = 48"

definition bpf_prog_linfo__new :: "'w bpf_os \<Rightarrow> bpf_prog_info \<Rightarrow> ('w, bpf_prog_linfo option) prog" where
  "bpf_prog_linfo__new os info =
     (let n = nr_line_info info; bo = host_bo os in
      if n = 0 then ret None
      else if pi_line_info_rec_size info < offsetof_file_name_off then ret None
      else andthen (malloc os sizeof_bpf_prog_linfo) (\<lambda>ok.
      if \<not> ok then ret None
      else andthen (malloc os (unat (n * pi_line_info_rec_size info))) (\<lambda>ok.
      if \<not> ok then ret None
      else andthen (from_option (copy_from (pi_line_info info) (unat (n * pi_line_info_rec_size info)))) (\<lambda>raw.
      let l = \<lparr> raw_linfo = raw, raw_jited_linfo = [], nr_jited_linfo_per_func = [], jited_linfo_func_idx = [], nr_linfo = n,
                nr_jited_func = 0, rec_size = pi_line_info_rec_size info, jited_rec_size = 0 \<rparr>;
          nf = nr_jited_ksyms info in
      if nf = 0 \<or> jited_line_info info = None \<or> nr_jited_line_info info \<noteq> n \<or> jited_line_info_rec_size info < 8 \<or>
         nr_jited_func_lens info \<noteq> nf \<or> jited_ksyms info = None \<or> jited_func_lens info = None
      then ret (Some l)
      else andthen (malloc os (unat (n * jited_line_info_rec_size info))) (\<lambda>ok.
      if \<not> ok then ret None
      else andthen (from_option (copy_from (jited_line_info info) (unat (n * jited_line_info_rec_size info)))) (\<lambda>jraw.
      let l = l\<lparr>nr_jited_func := nf, jited_rec_size := jited_line_info_rec_size info, raw_jited_linfo := jraw\<rparr> in
      andthen (malloc os (unat nf * 4)) (\<lambda>ok.
      if \<not> ok then ret None
      else andthen (malloc os (unat nf * 4)) (\<lambda>ok.
      if \<not> ok then ret None
      else from_option (dissect_jited_func bo l (the (jited_ksyms info)) (the (jited_func_lens info)))))))))))"

section \<open>Searching\<close>

fun lfind_loop :: "byte_order \<Rightarrow> bpf_prog_linfo \<Rightarrow> u32 \<Rightarrow> nat \<Rightarrow> nat \<Rightarrow> nat option" where
  "lfind_loop bo l key off 0 = Some off"
| "lfind_loop bo l key off (Suc n) =
     do { v \<leftarrow> insn_off_at bo l off;
          if key < v then Some off else lfind_loop bo l key (off + unat (rec_size l)) n }"

definition bpf_prog_linfo__lfind :: "byte_order \<Rightarrow> bpf_prog_linfo \<Rightarrow> u32 \<Rightarrow> u32 \<Rightarrow> nat option option" where
  "bpf_prog_linfo__lfind bo l key nr_skip =
     (if nr_skip \<ge> nr_linfo l then Some None
      else let off = unat (nr_skip * rec_size l) in
      do { v \<leftarrow> insn_off_at bo l off;
           if key < v then Some None
           else do { off \<leftarrow> lfind_loop bo l key off (unat (nr_linfo l - nr_skip));
                     Some (Some (off - unat (rec_size l))) } })"

text \<open>The loop over both tables.\<close>

fun lfind_addr_loop :: "byte_order \<Rightarrow> bpf_prog_linfo \<Rightarrow> u64 \<Rightarrow> nat \<Rightarrow> nat \<Rightarrow> nat \<Rightarrow> nat option" where
  "lfind_addr_loop bo l addr joff off 0 = Some off"
| "lfind_addr_loop bo l addr joff off (Suc n) =
     do { v \<leftarrow> jited_addr bo l joff;
          if addr < v then Some off
          else lfind_addr_loop bo l addr (joff + unat (jited_rec_size l)) (off + unat (rec_size l)) n }"

definition bpf_prog_linfo__lfind_addr_func :: "byte_order \<Rightarrow> bpf_prog_linfo \<Rightarrow> u64 \<Rightarrow> u32 \<Rightarrow> u32 \<Rightarrow> nat option option" where
  "bpf_prog_linfo__lfind_addr_func bo l addr func_idx nr_skip =
     (if func_idx \<ge> nr_jited_func l then Some None
      else do {
        n \<leftarrow> nth_option (nr_jited_linfo_per_func l) (unat func_idx);
        if nr_skip \<ge> n then Some None
        else do {
          ixs \<leftarrow> nth_option (jited_linfo_func_idx l) (unat func_idx);
          let start = ixs + nr_skip;
          let joff = unat (start * jited_rec_size l);
          v \<leftarrow> jited_addr bo l joff;
          if addr < v then Some None
          else do {
            off \<leftarrow> lfind_addr_loop bo l addr joff (unat (start * rec_size l)) (unat (n - nr_skip));
            Some (Some (off - unat (rec_size l))) } } })"

section \<open>The specification of a search\<close>

definition last_le :: "'k::linorder list \<Rightarrow> 'k \<Rightarrow> nat option" where
  "last_le ks key = (case length (takeWhile (\<lambda>k. k \<le> key) ks) of 0 \<Rightarrow> None | Suc i \<Rightarrow> Some i)"

lemma sorted_takeWhile_le:
  assumes "sorted ks" "i < length ks"
  shows "ks ! i \<le> key \<longleftrightarrow> i < length (takeWhile (\<lambda>k. k \<le> key) ks)"
proof
  assume le: "ks ! i \<le> key"
  show "i < length (takeWhile (\<lambda>k. k \<le> key) ks)"
  proof (rule ccontr)
    assume "\<not> i < length (takeWhile (\<lambda>k. k \<le> key) ks)"
    then have n: "length (takeWhile (\<lambda>k. k \<le> key) ks) \<le> i" by simp
    then have "\<not> ks ! length (takeWhile (\<lambda>k. k \<le> key) ks) \<le> key"
      using assms(2) nth_length_takeWhile [of "\<lambda>k. k \<le> key" ks] by simp
    moreover have "ks ! length (takeWhile (\<lambda>k. k \<le> key) ks) \<le> ks ! i"
      using sorted_nth_mono [OF assms(1) n assms(2)] .
    ultimately show False using le by (meson order_trans)
  qed
next
  assume "i < length (takeWhile (\<lambda>k. k \<le> key) ks)"
  then show "ks ! i \<le> key" by (metis nth_mem set_takeWhileD takeWhile_nth)
qed

lemma last_le_sorted:
  assumes "sorted ks"
  shows "last_le ks key = Some i \<longleftrightarrow> i < length ks \<and> ks ! i \<le> key \<and> (\<forall>j. i < j \<longrightarrow> j < length ks \<longrightarrow> key < ks ! j)"
    and "last_le ks key = None \<longleftrightarrow> (\<forall>k \<in> set ks. key < k)"
proof -
  let ?n = "length (takeWhile (\<lambda>k. k \<le> key) ks)"
  have n: "?n \<le> length ks" by (rule length_takeWhile_le)
  have le: "ks ! j \<le> key \<longleftrightarrow> j < ?n" if "j < length ks" for j using sorted_takeWhile_le [OF assms that] .
  have "last_le ks key = Some i \<longleftrightarrow> ?n = Suc i" by (auto simp: last_le_def split: nat.split)
  also have "\<dots> \<longleftrightarrow> i < length ks \<and> i < ?n \<and> (\<forall>j. i < j \<longrightarrow> j < length ks \<longrightarrow> \<not> j < ?n)"
    using n by (auto simp: not_less)
  finally show "last_le ks key = Some i \<longleftrightarrow> i < length ks \<and> ks ! i \<le> key \<and> (\<forall>j. i < j \<longrightarrow> j < length ks \<longrightarrow> key < ks ! j)"
    using le by (metis not_le)
  have "last_le ks key = None \<longleftrightarrow> ?n = 0" by (auto simp: last_le_def split: nat.split)
  also have "\<dots> \<longleftrightarrow> (\<forall>j < length ks. \<not> ks ! j \<le> key)" using le n by (metis gr_zeroI not_less0 order_less_le_trans)
  finally show "last_le ks key = None \<longleftrightarrow> (\<forall>k \<in> set ks. key < k)" by (metis in_set_conv_nth not_le)
qed

section \<open>The loops\<close>

lemma lfind_loop_prefix:
  assumes "\<And>i. i < length ks \<Longrightarrow> insn_off_at bo l (off + i * unat (rec_size l)) = Some (ks ! i)"
  shows "lfind_loop bo l key off (length ks) = Some (off + length (takeWhile (\<lambda>k. k \<le> key) ks) * unat (rec_size l))"
  using assms
proof (induction ks arbitrary: off)
  case (Cons k ks)
  have k: "insn_off_at bo l off = Some k" using Cons.prems [of 0] by simp
  have "lfind_loop bo l key (off + unat (rec_size l)) (length ks) =
      Some (off + unat (rec_size l) + length (takeWhile (\<lambda>k. k \<le> key) ks) * unat (rec_size l))"
    using Cons.prems [of "Suc i" for i] by (intro Cons.IH) (simp add: add.assoc)
  then show ?case using k by (auto simp: algebra_simps)
qed simp

lemma lfind_addr_loop_prefix:
  assumes "\<And>i. i < length ks \<Longrightarrow> jited_addr bo l (joff + i * unat (jited_rec_size l)) = Some (ks ! i)"
  shows "lfind_addr_loop bo l addr joff off (length ks) = Some (off + length (takeWhile (\<lambda>k. k \<le> addr) ks) * unat (rec_size l))"
  using assms
proof (induction ks arbitrary: joff off)
  case (Cons k ks)
  have k: "jited_addr bo l joff = Some k" using Cons.prems [of 0] by simp
  have "lfind_addr_loop bo l addr (joff + unat (jited_rec_size l)) (off + unat (rec_size l)) (length ks) =
      Some (off + unat (rec_size l) + length (takeWhile (\<lambda>k. k \<le> addr) ks) * unat (rec_size l))"
    using Cons.prems [of "Suc i" for i] by (intro Cons.IH) (simp add: add.assoc)
  then show ?case using k by (auto simp: algebra_simps)
qed simp

section \<open>The copies\<close>

definition insn_offs :: "byte_order \<Rightarrow> bpf_prog_linfo \<Rightarrow> u32 list" where
  "insn_offs bo l = map (\<lambda>i. the (insn_off_at bo l (i * unat (rec_size l)))) [0..<unat (nr_linfo l)]"

definition jited_addrs :: "byte_order \<Rightarrow> bpf_prog_linfo \<Rightarrow> u64 list" where
  "jited_addrs bo l = map (\<lambda>i. the (jited_addr bo l (i * unat (jited_rec_size l)))) [0..<unat (nr_linfo l)]"

text \<open>The tables are there: the products of their numbers and sizes fit into 32 bits, and the copies have these lengths.\<close>

definition lines_copied :: "bpf_prog_linfo \<Rightarrow> bool" where
  "lines_copied l \<longleftrightarrow> length (raw_linfo l) = unat (nr_linfo l) * unat (rec_size l) \<and> 4 \<le> unat (rec_size l) \<and>
     unat (nr_linfo l) * unat (rec_size l) < 2 ^ 32"

definition addrs_copied :: "bpf_prog_linfo \<Rightarrow> bool" where
  "addrs_copied l \<longleftrightarrow> length (raw_jited_linfo l) = unat (nr_linfo l) * unat (jited_rec_size l) \<and> 8 \<le> unat (jited_rec_size l) \<and>
     unat (nr_linfo l) * unat (jited_rec_size l) < 2 ^ 32"

lemma record_inside:
  assumes "i < n" "k \<le> (r :: nat)"
  shows "i * r + k \<le> n * r"
proof -
  have "i * r + k \<le> Suc i * r" using assms(2) by simp
  also have "\<dots> \<le> n * r" using assms(1) by (intro mult_le_mono1) simp
  finally show ?thesis .
qed

lemma insn_off_at_copied:
  assumes "lines_copied l" "i < unat (nr_linfo l)"
  shows "insn_off_at bo l (i * unat (rec_size l)) = Some (insn_offs bo l ! i)"
proof -
  have "\<exists>v. insn_off_at bo l (i * unat (rec_size l)) = Some v"
    unfolding insn_off_at_def using assms record_inside [of i _ 4] by (intro load_word_defined) (simp add: lines_copied_def)
  then show ?thesis using assms(2) by (auto simp: insn_offs_def)
qed

lemma jited_addr_copied:
  assumes "addrs_copied l" "i < unat (nr_linfo l)"
  shows "jited_addr bo l (i * unat (jited_rec_size l)) = Some (jited_addrs bo l ! i)"
proof -
  have "\<exists>v. jited_addr bo l (i * unat (jited_rec_size l)) = Some v"
    unfolding jited_addr_def using assms record_inside [of i _ 8] by (intro load_word_defined) (simp add: addrs_copied_def)
  then show ?thesis using assms(2) by (auto simp: jited_addrs_def)
qed

lemma length_tables [simp]: "length (insn_offs bo l) = unat (nr_linfo l)" "length (jited_addrs bo l) = unat (nr_linfo l)"
  by (simp_all add: insn_offs_def jited_addrs_def)

lemma unat_offset:
  assumes "unat i < n" "n * unat r < 2 ^ 32"
  shows "unat (i * r :: u32) = unat i * unat r"
proof -
  have "unat i * unat r \<le> n * unat r" using assms(1) by (intro mult_le_mono1) simp
  then have "unat i * unat r < 2 ^ 32" using assms(2) by (rule order_le_less_trans)
  then have "unat i * unat r < 2 ^ LENGTH(32)" by simp
  then show ?thesis by (simp only: unat_mult_lem)
qed

text \<open>What the prefix found by a loop is as a result.\<close>

lemma prefix_result:
  assumes "ks \<noteq> []" "\<not> key < ks ! 0"
  shows "Some (off + length (takeWhile (\<lambda>k. k \<le> key) ks) * r - r) = map_option (\<lambda>i. off + i * r) (last_le ks key)"
  using assms by (cases ks) (auto simp: last_le_def)

lemma last_le_none: "ks \<noteq> [] \<Longrightarrow> key < ks ! 0 \<Longrightarrow> last_le ks key = None"
  by (cases ks) (auto simp: last_le_def)

lemma lfind_last_le:
  assumes "lines_copied l"
  shows "bpf_prog_linfo__lfind bo l key nr_skip =
     Some (if nr_skip \<ge> nr_linfo l then None
           else map_option (\<lambda>i. (unat nr_skip + i) * unat (rec_size l)) (last_le (drop (unat nr_skip) (insn_offs bo l)) key))"
proof (cases "nr_skip \<ge> nr_linfo l")
  case False
  let ?ks = "drop (unat nr_skip) (insn_offs bo l)" and ?r = "unat (rec_size l)"
  have skip: "unat nr_skip < unat (nr_linfo l)" using False by (simp add: not_le word_less_nat_alt)
  have off: "unat (nr_skip * rec_size l) = unat nr_skip * ?r"
    using unat_offset [OF skip] assms by (simp add: lines_copied_def)
  have ks: "insn_off_at bo l (unat nr_skip * ?r + i * ?r) = Some (?ks ! i)" if "i < length ?ks" for i
    using insn_off_at_copied [OF assms, of "unat nr_skip + i" bo] that skip by (simp add: add_mult_distrib)
  have "?ks \<noteq> []" using skip by simp
  moreover have "unat (nr_linfo l - nr_skip) = length ?ks" using skip by (simp add: unat_sub_if')
  ultimately show ?thesis
    using False skip off ks [of 0] lfind_loop_prefix [of ?ks bo l "unat nr_skip * ?r" key, OF ks]
      prefix_result [of ?ks key "unat nr_skip * ?r" ?r] last_le_none [of ?ks key]
    by (simp add: bpf_prog_linfo__lfind_def Let_def add_mult_distrib)
qed (simp add: bpf_prog_linfo__lfind_def)

section \<open>The functions\<close>

text \<open>The records of a function.\<close>

definition segment :: "byte_order \<Rightarrow> bpf_prog_linfo \<Rightarrow> nat \<Rightarrow> nat \<Rightarrow> u64 list" where
  "segment bo l start n = take n (drop start (jited_addrs bo l))"

lemma segment_tables [simp]:
  "segment bo (l\<lparr>jited_linfo_func_idx := x, nr_jited_linfo_per_func := c\<rparr>) = segment bo l"
  "jited_addrs bo (l\<lparr>jited_linfo_func_idx := x, nr_jited_linfo_per_func := c\<rparr>) = jited_addrs bo l"
  by (simp_all add: segment_def [abs_def] jited_addrs_def jited_addr_def)

lemma segment_snoc:
  assumes "prev < i" "i < unat (nr_linfo l)"
  shows "segment bo l prev (Suc i - prev) = segment bo l prev (i - prev) @ [jited_addrs bo l ! i]"
  using assms by (simp add: segment_def Suc_diff_le take_Suc_conv_app_nth)

lemma segment_increasing:
  assumes "prev < i" "i < unat (nr_linfo l)" "sorted_wrt (<) (segment bo l prev (i - prev))"
    and "jited_addrs bo l ! (i - 1) < jited_addrs bo l ! i"
  shows "sorted_wrt (<) (segment bo l prev (Suc i - prev))"
proof -
  have len: "length (segment bo l prev (i - prev)) = i - prev" using assms by (simp add: segment_def)
  have "x \<le> jited_addrs bo l ! (i - 1)" if "x \<in> set (segment bo l prev (i - prev))" for x
  proof -
    obtain j where j: "j < i - prev" "x = segment bo l prev (i - prev) ! j" using \<open>x \<in> _\<close> len by (metis in_set_conv_nth)
    have "segment bo l prev (i - prev) ! (i - prev - 1) = jited_addrs bo l ! (i - 1)"
      using assms(1,2) by (simp add: segment_def)
    moreover have "x \<le> segment bo l prev (i - prev) ! (i - prev - 1)"
      using j len assms(1,3) sorted_wrt_nth_less [OF assms(3), of j "i - prev - 1"]
      by (cases "j = i - prev - 1") (auto simp: less_imp_le)
    ultimately show ?thesis by simp
  qed
  then show ?thesis using assms by (fastforce simp: segment_snoc sorted_wrt_append)
qed

text \<open>What the loop has found when it is at the record \<open>i\<close> and looks for the function \<open>f\<close>.\<close>

definition cut_inv :: "byte_order \<Rightarrow> bpf_prog_linfo \<Rightarrow> u64 list \<Rightarrow> nat \<Rightarrow> nat \<Rightarrow> nat \<Rightarrow> u32 list \<Rightarrow> u32 list \<Rightarrow> bool" where
  "cut_inv bo l ksyms i f prev ixs cnt \<longleftrightarrow>
     1 \<le> f \<and> f \<le> unat (nr_jited_func l) \<and> length ixs = f \<and> length cnt = f - 1 \<and> prev < i \<and> i \<le> unat (nr_linfo l) \<and>
     unat (ixs ! (f - 1)) = prev \<and> unat (ixs ! 0) = 0 \<and>
     (\<forall>g < f. unat (ixs ! g) < i \<and> nth_option ksyms g = Some (jited_addrs bo l ! unat (ixs ! g))) \<and>
     (\<forall>g < f - 1. 0 < unat (cnt ! g) \<and> unat (ixs ! Suc g) = unat (ixs ! g) + unat (cnt ! g) \<and>
        sorted_wrt (<) (segment bo l (unat (ixs ! g)) (unat (cnt ! g)))) \<and>
     sorted_wrt (<) (segment bo l prev (i - prev))"

lemma cut_inv_next:
  assumes "cut_inv bo l ksyms i f prev ixs cnt" "i < unat (nr_linfo l)" "jited_addrs bo l ! (i - 1) < jited_addrs bo l ! i"
  shows "cut_inv bo l ksyms (i + 1) f prev ixs cnt"
  using assms segment_increasing [of prev i l bo] by (auto simp: cut_inv_def less_Suc_eq)

lemma cut_inv_found:
  assumes inv: "cut_inv bo l ksyms i f prev ixs cnt" and i: "i < unat (nr_linfo l)" and f: "f < unat (nr_jited_func l)"
    and k: "nth_option ksyms f = Some (jited_addrs bo l ! i)"
  shows "cut_inv bo l ksyms (i + 1) (f + 1) i (ixs @ [of_nat i]) (cnt @ [of_nat (i - prev)])"
proof -
  have "unat (nr_linfo l) < 2 ^ 32" using unsigned_less [of "nr_linfo l", where 'a = nat] by simp
  then have n: "unat (of_nat i :: u32) = i" "unat (of_nat (i - prev) :: u32) = i - prev"
    using i by (simp_all add: unat_of_nat take_bit_nat_eq_self)
  have one: "sorted_wrt (<) (segment bo l i (Suc i - i))" using i by (simp add: segment_def take_Suc_conv_app_nth)
  have "\<forall>g < f. 0 < unat ((cnt @ [of_nat (i - prev)]) ! g) \<and>
       unat ((ixs @ [of_nat i]) ! Suc g) = unat ((ixs @ [of_nat i]) ! g) + unat ((cnt @ [of_nat (i - prev)]) ! g) \<and>
       sorted_wrt (<) (segment bo l (unat ((ixs @ [of_nat i]) ! g)) (unat ((cnt @ [of_nat (i - prev)]) ! g)))"
  proof (intro allI impI)
    fix g assume g: "g < f"
    show "0 < unat ((cnt @ [of_nat (i - prev)]) ! g) \<and>
       unat ((ixs @ [of_nat i]) ! Suc g) = unat ((ixs @ [of_nat i]) ! g) + unat ((cnt @ [of_nat (i - prev)]) ! g) \<and>
       sorted_wrt (<) (segment bo l (unat ((ixs @ [of_nat i]) ! g)) (unat ((cnt @ [of_nat (i - prev)]) ! g)))"
    proof (cases "g = f - 1")
      case True
      then show ?thesis using inv n g by (auto simp: cut_inv_def nth_append)
    next
      case False
      then have "g < f - 1" using g by simp
      then show ?thesis using inv by (auto simp: cut_inv_def nth_append)
    qed
  qed
  moreover have "unat ((ixs @ [of_nat i]) ! g) < i + 1 \<and> nth_option ksyms g = Some (jited_addrs bo l ! unat ((ixs @ [of_nat i]) ! g))"
    if "g < f + 1" for g
    using that inv k n by (cases "g = f") (auto simp: cut_inv_def nth_append less_Suc_eq)
  moreover have "1 \<le> f" "length ixs = f" "length cnt = f - 1" "unat (ixs ! 0) = 0" using inv by (auto simp: cut_inv_def)
  ultimately show ?thesis using i f n one unfolding cut_inv_def by (intro conjI) (simp_all add: nth_append)
qed

lemma dissect_loop_inv:
  assumes "dissect_loop bo l ksyms lens off i f prev ixs cnt = Some (Some (f', prev', ixs', cnt'))"
    and "cut_inv bo l ksyms i f prev ixs cnt" "addrs_copied l" "off = (i - 1) * unat (jited_rec_size l)"
  shows "\<exists>i'. cut_inv bo l ksyms i' f' prev' ixs' cnt'"
  using assms
proof (induction bo l ksyms lens off i f prev ixs cnt rule: dissect_loop.induct)
  case (1 bo l ksyms lens off i f prev ixs cnt)
  show ?case
  proof (cases "i < unat (nr_linfo l) \<and> f < unat (nr_jited_func l)")
    case False
    then show ?thesis using 1(3,4) by (auto simp: dissect_loop.simps)
  next
    case True
    have i1: "1 \<le> i" using 1(4) by (simp add: cut_inv_def)
    let ?off = "off + unat (jited_rec_size l)"
    have off: "?off = i * unat (jited_rec_size l)" using 1(6) i1 by (simp add: mult_eq_if)
    have last: "jited_addr bo l off = Some (jited_addrs bo l ! (i - 1))"
      using jited_addr_copied [OF 1(5), of "i - 1" bo] True 1(6) by (simp add: less_imp_diff_less)
    have cur: "jited_addr bo l ?off = Some (jited_addrs bo l ! i)" using jited_addr_copied [OF 1(5), of i bo] True off by simp
    have step: "?off = (i + 1 - 1) * unat (jited_rec_size l)" using off by simp
    note eq = 1(3) [unfolded dissect_loop.simps [of bo l ksyms lens off i f prev ixs cnt]]
    from eq obtain kf where kf: "nth_option ksyms f = Some kf" using True last cur by (auto simp: Let_def split: bind_splits)
    show ?thesis
    proof (cases "kf = jited_addrs bo l ! i")
      case found: True
      then obtain kp len where "nth_option ksyms (f - 1) = Some kp" "nth_option lens (f - 1) = Some len"
          "\<not> jited_addrs bo l ! (i - 1) - kp + 1 > ucast len"
          "dissect_loop bo l ksyms lens ?off (i + 1) (f + 1) i (ixs @ [of_nat i]) (cnt @ [of_nat (i - prev)]) = Some (Some (f', prev', ixs', cnt'))"
        using eq True last cur kf by (auto simp: Let_def split: bind_splits if_splits)
      then show ?thesis
        using 1(1) [OF True last refl cur kf found] cut_inv_found [OF 1(4)] True kf found 1(5) step by blast
    next
      case False
      then have "\<not> jited_addrs bo l ! i \<le> jited_addrs bo l ! (i - 1)"
          "dissect_loop bo l ksyms lens ?off (i + 1) f prev ixs cnt = Some (Some (f', prev', ixs', cnt'))"
        using eq True last cur kf by (auto simp: Let_def split: bind_splits if_splits)
      then show ?thesis
        using 1(2) [OF True last refl cur kf False] cut_inv_next [OF 1(4)] True 1(5) step by (simp add: not_le)
    qed
  qed
qed

text \<open>The records are cut into consecutive pieces, one for each function, and each piece begins with the address of its function.
  Within each piece but the last one the addresses increase.\<close>

definition dissected :: "byte_order \<Rightarrow> bpf_prog_linfo \<Rightarrow> u64 list \<Rightarrow> bool" where
  "dissected bo l ksyms \<longleftrightarrow>
     (let n = unat (nr_jited_func l); start = (\<lambda>g. unat (jited_linfo_func_idx l ! g)); cnt = (\<lambda>g. unat (nr_jited_linfo_per_func l ! g)) in
      length (jited_linfo_func_idx l) = n \<and> length (nr_jited_linfo_per_func l) = n \<and> start 0 = 0 \<and> start (n - 1) + cnt (n - 1) = unat (nr_linfo l) \<and>
      (\<forall>g < n. 0 < cnt g \<and> start g + cnt g \<le> unat (nr_linfo l) \<and> nth_option ksyms g = Some (jited_addrs bo l ! start g)) \<and>
      (\<forall>g. g + 1 < n \<longrightarrow> start (g + 1) = start g + cnt g \<and> sorted_wrt (<) (segment bo l (start g) (cnt g))))"

lemma cut_inv_dissected:
  assumes inv: "cut_inv bo l ksyms i (unat (nr_jited_func l)) prev ixs cnt"
  shows "dissected bo (l\<lparr>jited_linfo_func_idx := ixs, nr_jited_linfo_per_func := cnt @ [nr_linfo l - of_nat prev]\<rparr>) ksyms"
proof -
  let ?n = "unat (nr_jited_func l)" and ?cnt = "cnt @ [nr_linfo l - of_nat prev]"
  have n: "1 \<le> ?n" "length ixs = ?n" "length cnt = ?n - 1" "unat (ixs ! (?n - 1)) = prev" "prev < i" "i \<le> unat (nr_linfo l)"
    using inv by (auto simp: cut_inv_def)
  have "unat (nr_linfo l) < 2 ^ 32" using unsigned_less [of "nr_linfo l", where 'a = nat] by simp
  then have "unat (of_nat prev :: u32) = prev" using n by (simp add: unat_of_nat take_bit_nat_eq_self)
  then have last: "unat (?cnt ! (?n - 1)) = unat (nr_linfo l) - prev"
    using n by (simp add: nth_append unat_sub_if')
  have front: "?cnt ! g = cnt ! g" if "g < ?n - 1" for g using that n by (simp add: nth_append)
  have ub: "unat (ixs ! h) < i" if "h < ?n" for h using that inv by (auto simp: cut_inv_def)
  have piece: "0 < unat (?cnt ! g) \<and> unat (ixs ! g) + unat (?cnt ! g) \<le> unat (nr_linfo l)" if "g < ?n" for g
  proof (cases "g = ?n - 1")
    case True
    then show ?thesis using last n by simp
  next
    case False
    then have g: "g < ?n - 1" using that by simp
    then have "unat (ixs ! Suc g) = unat (ixs ! g) + unat (cnt ! g)" "0 < unat (cnt ! g)"
      using inv by (auto simp: cut_inv_def)
    moreover have "Suc g < ?n" using g by linarith
    ultimately show ?thesis using front [OF g] n ub [of "Suc g"] by simp
  qed
  have "unat (ixs ! (g + 1)) = unat (ixs ! g) + unat (?cnt ! g) \<and> sorted_wrt (<) (segment bo l (unat (ixs ! g)) (unat (?cnt ! g)))"
    if "g + 1 < ?n" for g
    using that inv front [of g] by (auto simp: cut_inv_def)
  moreover have "nth_option ksyms g = Some (jited_addrs bo l ! unat (ixs ! g))" if "g < ?n" for g
    using that inv by (auto simp: cut_inv_def)
  moreover have "unat (ixs ! 0) = 0" using inv by (auto simp: cut_inv_def)
  ultimately show ?thesis using n last piece by (auto simp: dissected_def Let_def)
qed

lemma dissect_sound:
  assumes "dissect_jited_func bo l ksyms lens = Some (Some l')" "addrs_copied l" "nr_linfo l \<noteq> 0" "nr_jited_func l \<noteq> 0"
  shows "\<exists>ixs cnt. l' = l\<lparr>jited_linfo_func_idx := ixs, nr_jited_linfo_per_func := cnt\<rparr> \<and> dissected bo l' ksyms"
proof -
  have nz: "0 < unat (nr_linfo l)" "0 < unat (nr_jited_func l)" using assms(3,4) by (simp_all add: unat_gt_0)
  have a: "jited_addr bo l 0 = Some (jited_addrs bo l ! 0)" using jited_addr_copied [OF assms(2) nz(1)] by simp
  obtain k f prev ixs cnt where k: "nth_option ksyms 0 = Some k" "k = jited_addrs bo l ! 0"
      and loop: "dissect_loop bo l ksyms lens 0 1 1 0 [0] [] = Some (Some (f, prev, ixs, cnt))"
      and f: "f = unat (nr_jited_func l)"
      and l': "l' = l\<lparr>jited_linfo_func_idx := ixs, nr_jited_linfo_per_func := cnt @ [nr_linfo l - of_nat prev]\<rparr>"
    using assms(1) a by (auto simp: dissect_jited_func_def split: bind_splits option.splits if_splits)
  have "sorted_wrt (<) (segment bo l 0 (1 - 0))" using nz by (simp add: segment_def take_Suc_conv_app_nth)
  then have "cut_inv bo l ksyms 1 1 0 [0] []" using nz k by (simp add: cut_inv_def)
  then obtain i where "cut_inv bo l ksyms i f prev ixs cnt" using dissect_loop_inv [OF loop _ assms(2)] by auto
  then show ?thesis using cut_inv_dissected [of bo l ksyms i prev ixs cnt] f l' by blast
qed

section \<open>The search by address\<close>

lemma lfind_addr_last_le:
  assumes lines: "lines_copied l" and addrs: "addrs_copied l" and cut: "dissected bo l ksyms"
    and f: "unat func_idx < unat (nr_jited_func l)" and skip: "unat nr_skip < unat (nr_jited_linfo_per_func l ! unat func_idx)"
  defines "start \<equiv> unat (jited_linfo_func_idx l ! unat func_idx)"
    and "n \<equiv> unat (nr_jited_linfo_per_func l ! unat func_idx)"
  shows "bpf_prog_linfo__lfind_addr_func bo l addr func_idx nr_skip =
     Some (map_option (\<lambda>i. (start + unat nr_skip + i) * unat (rec_size l)) (last_le (drop (unat nr_skip) (segment bo l start n)) addr))"
proof -
  let ?ks = "drop (unat nr_skip) (segment bo l start n)" and ?s = "jited_linfo_func_idx l ! unat func_idx + nr_skip"
    and ?r = "unat (rec_size l)" and ?j = "unat (jited_rec_size l)"
  have range: "start + n \<le> unat (nr_linfo l)" and nth: "nth_option (jited_linfo_func_idx l) (unat func_idx) = Some (jited_linfo_func_idx l ! unat func_idx)"
      "nth_option (nr_jited_linfo_per_func l) (unat func_idx) = Some (nr_jited_linfo_per_func l ! unat func_idx)"
    using cut f by (auto simp: dissected_def Let_def start_def n_def nth_option_def)
  have len: "length ?ks = n - unat nr_skip" using range by (simp add: segment_def)
  have "start + unat nr_skip < unat (nr_linfo l)" using range skip by (simp add: n_def)
  moreover have "unat (nr_linfo l) < 2 ^ 32" using unsigned_less [of "nr_linfo l", where 'a = nat] by simp
  ultimately have s: "unat ?s = start + unat nr_skip" "unat ?s < unat (nr_linfo l)"
    by (simp_all add: start_def unat_plus_if' not_less)
  have off: "unat (?s * jited_rec_size l) = (start + unat nr_skip) * ?j" "unat (?s * rec_size l) = (start + unat nr_skip) * ?r"
    using unat_offset [OF s(2)] lines addrs s(1) by (simp_all add: lines_copied_def addrs_copied_def)
  have ks: "jited_addr bo l ((start + unat nr_skip) * ?j + i * ?j) = Some (?ks ! i)" if "i < length ?ks" for i
  proof -
    have "start + unat nr_skip + i < unat (nr_linfo l)" using that len range by simp
    then show ?thesis
      using jited_addr_copied [OF addrs, of "start + unat nr_skip + i" bo] that len
      by (simp add: add_mult_distrib segment_def add.assoc)
  qed
  have ne: "?ks \<noteq> []" "0 < length ?ks" using skip len by (auto simp: n_def)
  have "unat (nr_jited_linfo_per_func l ! unat func_idx - nr_skip) = length ?ks" using skip len by (simp add: n_def unat_sub_if')
  then show ?thesis
    using f skip nth off ne ks [of 0] lfind_addr_loop_prefix [of ?ks bo l "(start + unat nr_skip) * ?j" addr "(start + unat nr_skip) * ?r", OF ks]
      prefix_result [OF ne(1), of addr "(start + unat nr_skip) * ?r" ?r] last_le_none [OF ne(1), of addr]
    by (simp add: bpf_prog_linfo__lfind_addr_func_def Let_def add_mult_distrib word_le_nat_alt not_le)
qed

section \<open>What the constructor gives\<close>

lemma copy_from_length: "copy_from src n = Some d \<Longrightarrow> length d = n"
  by (auto simp: copy_from_def dest: read_bytes_length split: option.splits if_splits)

lemma copied_bytes:
  assumes "unat a * unat b < 2 ^ 32"
  shows "unat (a * b :: u32) = unat a * unat b"
proof -
  have "unat a * unat b < 2 ^ LENGTH(32)" using assms by simp
  then show ?thesis by (simp only: unat_mult_lem)
qed

definition made_from :: "byte_order \<Rightarrow> bpf_prog_info \<Rightarrow> bpf_prog_linfo \<Rightarrow> bool" where
  "made_from bo info l \<longleftrightarrow> lines_copied l \<and> nr_linfo l = nr_line_info info \<and> rec_size l = pi_line_info_rec_size info \<and>
     (nr_jited_func l \<noteq> 0 \<longrightarrow> addrs_copied l \<and> (\<exists>ksyms. jited_ksyms info = Some ksyms \<and> dissected bo l ksyms))"

lemma made_from_dissect:
  assumes "lines_copied l" "addrs_copied l" "nr_linfo l = nr_line_info info" "rec_size l = pi_line_info_rec_size info"
    and "nr_linfo l \<noteq> 0" "nr_jited_func l \<noteq> 0" "jited_ksyms info = Some ksyms" "dissect_jited_func bo l ksyms lens = Some (Some l')"
  shows "made_from bo info l'"
proof -
  obtain ixs cnt where l': "l' = l\<lparr>jited_linfo_func_idx := ixs, nr_jited_linfo_per_func := cnt\<rparr>" and d: "dissected bo l' ksyms"
    using dissect_sound [OF assms(8,2,5,6)] by blast
  then show ?thesis using assms by (simp add: made_from_def lines_copied_def addrs_copied_def)
qed

lemma new_spec:
  assumes "unat (nr_line_info info) * unat (pi_line_info_rec_size info) < 2 ^ 32"
    and "unat (nr_line_info info) * unat (jited_line_info_rec_size info) < 2 ^ 32"
  shows "wlp (bpf_prog_linfo__new os info) (\<lambda>r _. \<forall>l. r = Some l \<longrightarrow> made_from (host_bo os) info l) w"
proof -
  note sizes = copied_bytes [OF assms(1)] copied_bytes [OF assms(2)]
  have copy: "wlp (from_option (copy_from src n)) (\<lambda>d _. length d = n) w" for src n w
    using copy_from_length by (auto split: option.split)
  have cut: "wlp (from_option (dissect_jited_func bo l ksyms lens)) (\<lambda>r _. \<forall>l. r = Some l \<longrightarrow> made_from bo info l) w"
    if "lines_copied l" "addrs_copied l" "nr_linfo l = nr_line_info info" "rec_size l = pi_line_info_rec_size info"
      "nr_linfo l \<noteq> 0" "nr_jited_func l \<noteq> 0" "jited_ksyms info = Some ksyms" for bo l ksyms lens w
    using made_from_dissect [OF that] by (auto split: option.split)
  show ?thesis
    unfolding bpf_prog_linfo__new_def Let_def
    by (intro wlp_if wlp_bind [OF malloc_spec] wlp_bind [OF copy] cut)
      (use assms in \<open>auto simp: made_from_def lines_copied_def addrs_copied_def sizes offsetof_file_name_off_def word_less_nat_alt not_less\<close>)
qed

section \<open>Finding lines\<close>

text \<open>The record that a search from \<open>lo\<close> up to \<open>hi\<close> has to give: the last whose key is not above the one looked for.\<close>

definition is_line :: "'k::linorder list \<Rightarrow> 'k \<Rightarrow> nat \<Rightarrow> nat \<Rightarrow> nat \<Rightarrow> nat option \<Rightarrow> bool" where
  "is_line ks key lo hi r off \<longleftrightarrow>
     (case off of
        None \<Rightarrow> \<forall>i. lo \<le> i \<longrightarrow> i < hi \<longrightarrow> key < ks ! i
      | Some off \<Rightarrow> \<exists>i. off = i * r \<and> lo \<le> i \<and> i < hi \<and> ks ! i \<le> key \<and> (\<forall>j. i < j \<longrightarrow> j < hi \<longrightarrow> key < ks ! j))"

lemma is_line_last_le:
  assumes "sorted (drop lo (take hi ks))" "hi \<le> length ks"
  shows "is_line ks key lo hi r (map_option (\<lambda>i. (lo + i) * r) (last_le (drop lo (take hi ks)) key))"
proof (cases "last_le (drop lo (take hi ks)) key")
  case None
  then have "\<forall>k \<in> set (drop lo (take hi ks)). key < k" using last_le_sorted(2) [OF assms(1)] by blast
  moreover have "ks ! i \<in> set (drop lo (take hi ks))" if "lo \<le> i" "i < hi" for i
    using that assms(2) by (intro nth_mem [of "i - lo" "drop lo (take hi ks)", simplified nth_drop] in_set_conv_nth [THEN iffD2] exI [of _ "i - lo"]) simp
  ultimately show ?thesis using None by (simp add: is_line_def)
next
  case (Some i)
  then have i: "i < length (drop lo (take hi ks))" "drop lo (take hi ks) ! i \<le> key"
      "\<forall>j. i < j \<longrightarrow> j < length (drop lo (take hi ks)) \<longrightarrow> key < drop lo (take hi ks) ! j"
    using last_le_sorted(1) [OF assms(1), of key i] by auto
  have "key < ks ! j" if "lo + i < j" "j < hi" for j
    using i(3) [rule_format, of "j - lo"] that assms(2) by simp
  then show ?thesis using Some i(1,2) assms(2) by (auto simp: is_line_def intro!: exI [of _ "lo + i"])
qed

text \<open>The line of an instruction, for records in the order of their instructions.\<close>

theorem line_of_instruction:
  assumes "bpf_prog_linfo__new os info w = (Return (Some l), w')"
    and "unat (nr_line_info info) * unat (pi_line_info_rec_size info) < 2 ^ 32"
    and "unat (nr_line_info info) * unat (jited_line_info_rec_size info) < 2 ^ 32"
    and "sorted (drop (unat nr_skip) (insn_offs (host_bo os) l))"
  shows "\<exists>r. bpf_prog_linfo__lfind (host_bo os) l key nr_skip = Some r \<and>
     is_line (insn_offs (host_bo os) l) key (unat nr_skip) (unat (nr_linfo l)) (unat (rec_size l)) r"
proof -
  have l: "lines_copied l" using wlpD [OF new_spec [OF assms(2,3)] assms(1)] by (simp add: made_from_def)
  then show ?thesis
    using lfind_last_le [OF l, of "host_bo os" key nr_skip]
      is_line_last_le [of "unat nr_skip" "unat (nr_linfo l)" "insn_offs (host_bo os) l" key "unat (rec_size l)"] assms(4)
    by (auto simp: word_le_nat_alt is_line_def split: option.splits)
qed

text \<open>
  C14. The lines of compiled code are found: if \<open>bpf_prog_linfo__new\<close> accepts what the kernel says of a program (with tables whose
  sizes fit into 32 bits), then for every function \<open>bpf_prog_linfo__lfind_addr_func\<close> reads nothing outside of its copies, and among the records of that
  function from \<open>nr_skip\<close> on, which begin with the address of the function, it gives the last one that is not above the address, or none if there is none. For the last function this needs
  addresses in increasing order, which only the other functions are checked for.
\<close>

theorem line_of_address:
  assumes new: "bpf_prog_linfo__new os info w = (Return (Some l), w')"
    and "unat (nr_line_info info) * unat (pi_line_info_rec_size info) < 2 ^ 32"
    and "unat (nr_line_info info) * unat (jited_line_info_rec_size info) < 2 ^ 32"
    and f: "func_idx < nr_jited_func l"
  defines "start \<equiv> unat (jited_linfo_func_idx l ! unat func_idx)"
    and "n \<equiv> unat (nr_jited_linfo_per_func l ! unat func_idx)"
    and "addrs \<equiv> jited_addrs (host_bo os) l"
  assumes last: "unat func_idx + 1 = unat (nr_jited_func l) \<longrightarrow> sorted (segment (host_bo os) l start n)"
  shows "0 < n \<and> start + n \<le> unat (nr_linfo l) \<and> (\<exists>ksyms. jited_ksyms info = Some ksyms \<and> nth_option ksyms (unat func_idx) = Some (addrs ! start)) \<and>
     (\<exists>r. bpf_prog_linfo__lfind_addr_func (host_bo os) l addr func_idx nr_skip = Some r \<and>
       is_line addrs addr (start + unat nr_skip) (start + n) (unat (rec_size l)) r)"
proof -
  have f': "unat func_idx < unat (nr_jited_func l)" using f by (simp add: word_less_nat_alt)
  then have nz: "nr_jited_func l \<noteq> 0" by auto
  obtain ksyms where l: "lines_copied l" "addrs_copied l" "jited_ksyms info = Some ksyms" "dissected (host_bo os) l ksyms"
    using wlpD [OF new_spec [OF assms(2,3)] new] nz by (auto simp: made_from_def)
  have piece: "0 < n" "start + n \<le> unat (nr_linfo l)" "nth_option ksyms (unat func_idx) = Some (addrs ! start)"
      "length (nr_jited_linfo_per_func l) = unat (nr_jited_func l)"
    using l(4) f' by (auto simp: dissected_def Let_def start_def n_def addrs_def)
  have "sorted_wrt (<) (segment (host_bo os) l start n)" if "unat func_idx + 1 \<noteq> unat (nr_jited_func l)"
    using l(4) f' that by (auto simp: dissected_def Let_def start_def n_def)
  then have sorted: "sorted (segment (host_bo os) l start n)" using last by (metis strict_sorted_imp_sorted)
  have seg: "drop (unat nr_skip) (segment (host_bo os) l start n) = drop (start + unat nr_skip) (take (start + n) addrs)"
    unfolding segment_def addrs_def take_drop drop_drop by (simp only: add.commute)
  have "\<exists>r. bpf_prog_linfo__lfind_addr_func (host_bo os) l addr func_idx nr_skip = Some r \<and>
       is_line addrs addr (start + unat nr_skip) (start + n) (unat (rec_size l)) r"
  proof (cases "unat nr_skip < n")
    case True
    have "sorted (drop (start + unat nr_skip) (take (start + n) addrs))" using sorted sorted_wrt_drop seg by metis
    then show ?thesis
      using lfind_addr_last_le [OF l(1,2,4) f', of nr_skip addr] True piece(2)
        is_line_last_le [of "start + unat nr_skip" "start + n" addrs addr "unat (rec_size l)"]
      by (auto simp: start_def n_def seg [unfolded start_def n_def] addrs_def)
  next
    case False
    then have "bpf_prog_linfo__lfind_addr_func (host_bo os) l addr func_idx nr_skip = Some None"
      using f f' piece(4) by (auto simp: bpf_prog_linfo__lfind_addr_func_def nth_option_def n_def word_le_nat_alt)
    then show ?thesis using False by (simp add: is_line_def)
  qed
  then show ?thesis using piece l(3) by blast
qed

text \<open>Two functions, at 100 with two records and at 200 with one.\<close>

definition plain_bpf :: "unit bpf_os" where
  "plain_bpf = \<lparr> host_bo = LittleEndian, sys_errno = (\<lambda>w. 0), sys_malloc = (\<lambda>w n. True), sys_map_create = (\<lambda>w a. (-1, w)),
     sys_prog_load = (\<lambda>w a. (\<lparr> la_fd = -1, la_func_info_rec_size = 0, la_line_info_rec_size = 0, la_log = [] \<rparr>, w)),
     sys_btf_load = (\<lambda>w d l. (-1, w)), sys_elem = (\<lambda>w c a. ((-1, []), w)), sys_attach = (\<lambda>w f a. (-1, w)), sys_close = (\<lambda>w fd. (-1, w)) \<rparr>"

definition sample_info :: bpf_prog_info where
  "sample_info = zero_prog_info\<lparr> nr_line_info := 3, pi_line_info_rec_size := 4,
     pi_line_info := Some [0, 0, 0, 0,  2, 0, 0, 0,  5, 0, 0, 0],
     nr_jited_ksyms := 2, jited_ksyms := Some [100, 200], nr_jited_func_lens := 2, jited_func_lens := Some [16, 8],
     nr_jited_line_info := 3, jited_line_info_rec_size := 8,
     jited_line_info := Some [100, 0, 0, 0, 0, 0, 0, 0,  104, 0, 0, 0, 0, 0, 0, 0,  200, 0, 0, 0, 0, 0, 0, 0] \<rparr>"

definition sample_linfo :: bpf_prog_linfo where
  "sample_linfo = \<lparr> raw_linfo = [0, 0, 0, 0,  2, 0, 0, 0,  5, 0, 0, 0],
     raw_jited_linfo = [100, 0, 0, 0, 0, 0, 0, 0,  104, 0, 0, 0, 0, 0, 0, 0,  200, 0, 0, 0, 0, 0, 0, 0],
     nr_jited_linfo_per_func = [2, 1], jited_linfo_func_idx = [0, 2], nr_linfo = 3, nr_jited_func = 2, rec_size = 4, jited_rec_size = 8 \<rparr>"

lemma sample_new: "bpf_prog_linfo__new plain_bpf sample_info () = (Return (Some sample_linfo), ())"
proof -
  let ?l = "sample_linfo\<lparr>nr_jited_linfo_per_func := [], jited_linfo_func_idx := []\<rparr>"
  have "dissect_jited_func LittleEndian ?l [100, 200] [16, 8] = Some (Some sample_linfo)" by code_simp
  then show ?thesis
    by (simp add: bpf_prog_linfo__new_def plain_bpf_def sample_info_def zero_prog_info_def offsetof_file_name_off_def malloc_def andthen_def
        prog_simps Let_def copy_from_def read_bytes_def sample_linfo_def)
qed

theorem line_of_address_witness:
  "\<exists>r. bpf_prog_linfo__lfind_addr_func LittleEndian sample_linfo 107 0 0 = Some r \<and> is_line [100, 104, 200 :: u64] 107 0 2 4 r"
proof -
  have "jited_addrs LittleEndian sample_linfo = [100, 104, 200]" by code_simp
  moreover have "host_bo plain_bpf = LittleEndian" by (simp add: plain_bpf_def)
  moreover have "nr_line_info sample_info = 3" "pi_line_info_rec_size sample_info = 4" "jited_line_info_rec_size sample_info = 8"
    by (simp_all add: sample_info_def)
  moreover have "nr_jited_func sample_linfo = 2" "jited_linfo_func_idx sample_linfo = [0, 2]" "nr_jited_linfo_per_func sample_linfo = [2, 1]"
    "rec_size sample_linfo = 4" by (simp_all add: sample_linfo_def)
  ultimately show ?thesis using line_of_address [OF sample_new, of 0 107 0] by (simp flip: numeral_2_eq_2)
qed

end
