(* ===== verification/Probes.thy ===== *)
theory Probes
  imports Load_Fds
begin

text \<open>
  The probes of \<open>src/libbpf/src/libbpf_probes.c\<close>: whether the kernel, or the device of an interface, knows a type of programs, a type
  of maps or a helper. A probe loads a program of two instructions or creates a map, and looks at the error number, at the descriptor or
  at the text of the verifier.

  The record \<open>probe_os\<close> has the calls that theory \<open>Bpf_Sys\<close> has not: setting \<open>errno\<close> to 0, the release of the kernel, the name of an
  interface and reading a file. \<open>strstr\<close>, \<open>sscanf\<close> with three numbers and \<open>strtol\<close> with base 0 are those of the C library.
\<close>

section \<open>The C library\<close>

fun strstr :: "string \<Rightarrow> string \<Rightarrow> bool" where
  "strstr s pat = (take (length pat) s = pat \<or> (case s of [] \<Rightarrow> False | _ # s \<Rightarrow> strstr s pat))"

declare strstr.simps [simp del]

definition digit_of :: "nat \<Rightarrow> char \<Rightarrow> nat option" where
  "digit_of base c =
     (let n = of_char c :: nat;
          d = (if 48 \<le> n \<and> n \<le> 57 then n - 48 else if 97 \<le> n \<and> n \<le> 122 then n - 87 else if 65 \<le> n \<and> n \<le> 90 then n - 55 else base) in
      if d < base then Some d else None)"

fun digits :: "nat \<Rightarrow> nat \<Rightarrow> string \<Rightarrow> nat \<times> string" where
  "digits base acc [] = (acc, [])"
| "digits base acc (c # s) = (case digit_of base c of None \<Rightarrow> (acc, c # s) | Some d \<Rightarrow> digits base (base * acc + d) s)"

definition is_space :: "char \<Rightarrow> bool" where
  "is_space c \<longleftrightarrow> c = CHR '' '' \<or> (9 \<le> (of_char c :: nat) \<and> (of_char c :: nat) \<le> 13)"

text \<open>White space and a sign: whether it is negative, and the rest.\<close>

definition sign_of :: "string \<Rightarrow> bool \<times> string" where
  "sign_of s =
     (case dropWhile is_space s of
        [] \<Rightarrow> (False, [])
      | c # t \<Rightarrow> if c = CHR ''-'' then (True, t) else if c = CHR ''+'' then (False, t) else (False, c # t))"

definition scan_int :: "string \<Rightarrow> (int \<times> string) option" where
  "scan_int s =
     (case sign_of s of (neg, t) \<Rightarrow>
      case t of
        [] \<Rightarrow> None
      | c # _ \<Rightarrow> if digit_of 10 c = None then None
                 else case digits 10 0 t of (n, rest) \<Rightarrow> Some (if neg then - int n else int n, rest))"

definition strtol_0 :: "string \<Rightarrow> int" where
  "strtol_0 s =
     (case sign_of s of (neg, t) \<Rightarrow>
      let hex = (case t of z # x # c # r \<Rightarrow> z = CHR ''0'' \<and> (x = CHR ''x'' \<or> x = CHR ''X'') \<and> digit_of 16 c \<noteq> None | _ \<Rightarrow> False);
          n = (if hex then fst (digits 16 0 (drop 2 t)) else if take 1 t = ''0'' then fst (digits 8 0 t) else fst (digits 10 0 t)) in
      if neg then - int n else int n)"

section \<open>The probes\<close>

record 'w probe_os =
  pr_bpf :: "'w bpf_os"
  clear_errno :: "'w \<Rightarrow> 'w"
  uname_release :: "'w \<Rightarrow> string option"
  indextoname :: "'w \<Rightarrow> u32 \<Rightarrow> string option"
  open_read :: "'w \<Rightarrow> string \<Rightarrow> int \<times> 'w"
  read_8 :: "'w \<Rightarrow> int \<Rightarrow> string option \<times> 'w"

definition get_vendor_id :: "'w probe_os \<Rightarrow> u32 \<Rightarrow> ('w, int) prog" where
  "get_vendor_id os ifindex =
     (\<lambda>w. (case indextoname os w ifindex of
        None \<Rightarrow> ret (-1)
      | Some name \<Rightarrow>
        andthen (call (\<lambda>w. open_read os w (take 63 (''/sys/class/net/'' @ name @ ''/device/vendor'')))) (\<lambda>fd.
        if fd < 0 then ret (-1)
        else andthen (call (\<lambda>w. read_8 os w fd)) (\<lambda>buf.
        andthen (close_fd (pr_bpf os) fd) (\<lambda>_.
        case buf of
          None \<Rightarrow> ret (-1)
        | Some b \<Rightarrow> if length b \<ge> 8 then ret (-1) else ret (strtol_0 b))))) w)"

definition get_kernel_version :: "'w probe_os \<Rightarrow> 'w \<Rightarrow> int" where
  "get_kernel_version os w =
     (case uname_release os w of
        None \<Rightarrow> 0
      | Some rel \<Rightarrow>
        (case do { (version, r) \<leftarrow> scan_int rel;
                   r \<leftarrow> (if take 1 r = ''.'' then Some (drop 1 r) else None);
                   (subversion, r) \<leftarrow> scan_int r;
                   r \<leftarrow> (if take 1 r = ''.'' then Some (drop 1 r) else None);
                   (patchlevel, r) \<leftarrow> scan_int r;
                   Some (version * 2 ^ 16 + subversion * 2 ^ 8 + patchlevel) } of
           None \<Rightarrow> 0
         | Some v \<Rightarrow> v))"

text \<open>The text in the caller's buffer; \<open>None\<close> if nothing was stored in it.\<close>

definition probe_load :: "'w probe_os \<Rightarrow> bpf_prog_type \<Rightarrow> bpf_insn list \<Rightarrow> bool \<Rightarrow> nat \<Rightarrow> u32 \<Rightarrow> ('w, string option) prog" where
  "probe_load os ptype instrs buf buf_len ifindex =
     (\<lambda>w. let a = zero_load_attr\<lparr>lp_prog_type := ptype, lp_insns := instrs, lp_license := ''GPL'', lp_prog_ifindex := ifindex\<rparr>;
              a = (case ptype of
                     BPF_PROG_TYPE_CGROUP_SOCK_ADDR \<Rightarrow> a\<lparr>lp_expected_attach_type := BPF_CGROUP_INET4_CONNECT\<rparr>
                   | BPF_PROG_TYPE_KPROBE \<Rightarrow> a\<lparr>lp_kern_version := of_int (get_kernel_version os w)\<rparr>
                   | _ \<Rightarrow> a) in
      andthen (bpf_load_program_xattr (pr_bpf os) (Some a) buf buf_len) (\<lambda>(fd, log).
      andthen (if fd \<ge> 0 then close_fd (pr_bpf os) fd else ret 0) (\<lambda>_. ret log)) w)"

definition probe_mov_exit :: "u32 \<Rightarrow> bpf_insn list" where
  "probe_mov_exit k =
     [\<lparr> code = 0xb7, dst_reg = 0, src_reg = 0, insn_off = 0, imm = k \<rparr>,
      \<lparr> code = 0x95, dst_reg = 0, src_reg = 0, insn_off = 0, imm = 0 \<rparr>]"

definition probe_call_exit :: "u32 \<Rightarrow> bpf_insn list" where
  "probe_call_exit f =
     [\<lparr> code = 0x85, dst_reg = 0, src_reg = 0, insn_off = 0, imm = f \<rparr>,
      \<lparr> code = 0x95, dst_reg = 0, src_reg = 0, insn_off = 0, imm = 0 \<rparr>]"

definition bpf_probe_prog_type :: "'w probe_os \<Rightarrow> bpf_prog_type \<Rightarrow> u32 \<Rightarrow> ('w, bool) prog" where
  "bpf_probe_prog_type os ptype ifindex =
     (let k = (if ifindex \<noteq> 0 \<and> ptype = BPF_PROG_TYPE_SCHED_CLS then 2 else 0) in
      andthen (\<lambda>w. (Return (), clear_errno os w)) (\<lambda>_.
      andthen (probe_load os ptype (probe_mov_exit k) False 0 ifindex) (\<lambda>_.
      andthen (get_errno (pr_bpf os)) (\<lambda>errno. ret (errno \<noteq> EINVAL \<and> errno \<noteq> EOPNOTSUPP)))))"

definition BPF_F_NO_PREALLOC :: u32 where "BPF_F_NO_PREALLOC = 1"
definition sizeof_bpf_cgroup_storage_key :: u32 where "sizeof_bpf_cgroup_storage_key = 16"

text \<open>Key size, value size, number of entries and flags for a type.\<close>

definition probe_map_params :: "bpf_map_type \<Rightarrow> u32 \<times> u32 \<times> u32 \<times> u32" where
  "probe_map_params t =
     (case t of
        BPF_MAP_TYPE_STACK_TRACE \<Rightarrow> (4, 8, 1, 0)
      | BPF_MAP_TYPE_LPM_TRIE \<Rightarrow> (8, 8, 1, BPF_F_NO_PREALLOC)
      | BPF_MAP_TYPE_CGROUP_STORAGE \<Rightarrow> (sizeof_bpf_cgroup_storage_key, 8, 0, 0)
      | BPF_MAP_TYPE_PERCPU_CGROUP_STORAGE \<Rightarrow> (sizeof_bpf_cgroup_storage_key, 8, 0, 0)
      | BPF_MAP_TYPE_QUEUE \<Rightarrow> (0, 4, 1, 0)
      | BPF_MAP_TYPE_STACK \<Rightarrow> (0, 4, 1, 0)
      | _ \<Rightarrow> (4, 4, 1, 0))"

definition bpf_probe_map_type :: "'w probe_os \<Rightarrow> bpf_map_type \<Rightarrow> u32 \<Rightarrow> ('w, bool) prog" where
  "bpf_probe_map_type os map_type ifindex =
     (case probe_map_params map_type of (key_size, value_size, max_entries, map_flags) \<Rightarrow>
      let finish = (\<lambda>fd. andthen (if fd \<ge> 0 then close_fd (pr_bpf os) fd else ret 0) (\<lambda>_. ret (fd \<ge> (0::int)))) in
      if map_type = BPF_MAP_TYPE_ARRAY_OF_MAPS \<or> map_type = BPF_MAP_TYPE_HASH_OF_MAPS
      then if ifindex \<noteq> 0 then ret False
           else andthen (call (bpf_create_map (pr_bpf os) (map_type_code BPF_MAP_TYPE_HASH) 4 4 1 0)) (\<lambda>fd_inner.
           if fd_inner < 0 then ret False
           else andthen (call (bpf_create_map_in_map (pr_bpf os) (map_type_code map_type) None 4 (of_int fd_inner) 1 0)) (\<lambda>fd.
           andthen (close_fd (pr_bpf os) fd_inner) (\<lambda>_. finish fd)))
      else andthen (call (bpf_create_map_xattr (pr_bpf os) (zero_create_attr\<lparr>cm_map_type := map_type_code map_type,
             cm_key_size := key_size, cm_value_size := value_size, cm_max_entries := max_entries, cm_map_flags := map_flags,
             cm_map_ifindex := ifindex\<rparr>))) finish)"

definition bpf_probe_helper :: "'w probe_os \<Rightarrow> u32 \<Rightarrow> bpf_prog_type \<Rightarrow> u32 \<Rightarrow> ('w, bool) prog" where
  "bpf_probe_helper os i ptype ifindex =
     andthen (probe_load os ptype (probe_call_exit i) True 4096 ifindex) (\<lambda>log.
     let buf = (case log of None \<Rightarrow> [] | Some t \<Rightarrow> t);
         res = (\<not> strstr buf ''invalid func '' \<and> \<not> strstr buf ''unknown func '') in
     if ifindex \<noteq> 0
     then andthen (get_vendor_id os ifindex) (\<lambda>v.
          ret (if v = 0x19ee then res \<and> \<not> strstr buf ''not supported by FW'' \<and> \<not> strstr buf ''unsupported function id'' else res))
     else ret res)"

section \<open>What the probes leave behind\<close>

lemma kernel_version_numbers:
  "get_kernel_version (os\<lparr>uname_release := \<lambda>w. Some ''5.4.17-generic''\<rparr>) w = 0x50411"
  "get_kernel_version (os\<lparr>uname_release := \<lambda>w. Some ''5.4-rc1''\<rparr>) w = 0"
proof -
  have v: "scan_int ''5.4.17-generic'' = Some (5, ''.4.17-generic'')" "scan_int ''4.17-generic'' = Some (4, ''.17-generic'')"
      "scan_int ''17-generic'' = Some (17, ''-generic'')" "scan_int ''5.4-rc1'' = Some (5, ''.4-rc1'')"
      "scan_int ''4-rc1'' = Some (4, ''-rc1'')" by code_simp+
  show "get_kernel_version (os\<lparr>uname_release := \<lambda>w. Some ''5.4.17-generic''\<rparr>) w = 0x50411"
    "get_kernel_version (os\<lparr>uname_release := \<lambda>w. Some ''5.4-rc1''\<rparr>) w = 0"
    by (simp_all add: get_kernel_version_def v)
qed

text \<open>The vendor of a device as the kernel prints it.\<close>

lemma netronome_vendor: "strtol_0 ''0x19ee'' = 0x19ee" "strtol_0 (''0x19ee'' @ [CHR 0x0A]) = 0x19ee"
  by code_simp+

locale probe_kernel = core: fd_table "pr_bpf os" fds for os :: "'w probe_os" and fds +
  assumes open_read: "open_read os w p = (fd, w') \<Longrightarrow> if fd \<ge> 0 then fd \<notin> fds w \<and> fds w' = insert fd (fds w) else fds w' = fds w"
    and read_8: "read_8 os w fd = (b, w') \<Longrightarrow> fds w' = fds w"
    and clear_errno: "fds (clear_errno os w) = fds w"
begin

lemma close_new: "fd \<notin> S \<Longrightarrow> fds w = insert fd S \<Longrightarrow> wlp (close_fd (pr_bpf os) fd) (\<lambda>_ w'. fds w' = S) w"
  by (rule wlp_mono [OF core.close_spec]) auto

lemma close_may_open:
  "core.may_open S fd w \<Longrightarrow> wlp (if fd \<ge> 0 then close_fd (pr_bpf os) fd else ret 0) (\<lambda>_ w'. fds w' = S) w"
  by (intro wlp_if close_new) (auto simp: core.may_open_def)

lemma probe_load_fds: "wlp (probe_load os pt instrs buf n ix) (\<lambda>_ w'. fds w' = fds w) w"
proof -
  have "wlp (andthen (bpf_load_program_xattr (pr_bpf os) (Some a) buf n) (\<lambda>(fd, log).
      andthen (if fd \<ge> 0 then close_fd (pr_bpf os) fd else ret 0) (\<lambda>_. ret log))) (\<lambda>_ w'. fds w' = fds w) w" for a
    by (intro wlp_bind [OF core.load_xattr_fds] wlp_case_prod wlp_bind [OF close_may_open]) auto
  then show ?thesis by (simp add: probe_load_def Let_def wlp_def)
qed

lemma vendor_fds: "wlp (get_vendor_id os ix) (\<lambda>_ w'. fds w' = fds w) w"
proof (cases "indextoname os w ix")
  case None
  then show ?thesis by (simp add: get_vendor_id_def wlp_def prog_simps)
next
  case (Some name)
  have opened: "wlp (call (\<lambda>w. open_read os w p)) (\<lambda>fd w'. core.may_open (fds w) fd w') w" for p
    using open_read by (auto simp: core.may_open_def split: prod.split)
  have read: "wlp (call (\<lambda>w. read_8 os w fd)) (\<lambda>_ w'. fds w' = fds w) w" for fd w
    using read_8 by (auto split: prod.split)
  have "wlp (andthen (call (\<lambda>w. open_read os w (take 63 (''/sys/class/net/'' @ name @ ''/device/vendor'')))) (\<lambda>fd.
        if fd < 0 then ret (-1)
        else andthen (call (\<lambda>w. read_8 os w fd)) (\<lambda>buf.
        andthen (close_fd (pr_bpf os) fd) (\<lambda>_.
        case buf of None \<Rightarrow> ret (-1) | Some b \<Rightarrow> if length b \<ge> 8 then ret (-1) else ret (strtol_0 b))))) (\<lambda>_ w'. fds w' = fds w) w"
    by (intro wlp_bind [OF opened] wlp_if wlp_bind [OF read] wlp_bind [OF core.close_spec] wlp_case_option) (auto simp: core.may_open_def split: if_splits)
  then show ?thesis using Some by (simp add: get_vendor_id_def wlp_def)
qed

lemma probe_prog_fds: "wlp (bpf_probe_prog_type os pt ix) (\<lambda>_ w'. fds w' = fds w) w"
proof -
  have clear: "wlp (\<lambda>w. (Return (), clear_errno os w)) (\<lambda>_ w'. fds w' = fds w) w" using clear_errno by (simp add: wlp_def)
  show ?thesis unfolding bpf_probe_prog_type_def Let_def
    by (intro wlp_bind [OF clear] wlp_bind [OF probe_load_fds] wlp_bind [OF errno_spec]) auto
qed

lemma probe_helper_fds: "wlp (bpf_probe_helper os i pt ix) (\<lambda>_ w'. fds w' = fds w) w"
  unfolding bpf_probe_helper_def Let_def by (intro wlp_bind [OF probe_load_fds] wlp_if wlp_bind [OF vendor_fds]) auto

lemma probe_map_fds: "wlp (bpf_probe_map_type os t ix) (\<lambda>_ w'. fds w' = fds w) w"
proof -
  have made: "core.may_open (fds w) fd w'" if "sys_map_create (pr_bpf os) w a = (fd, w')" for w fd w' a
    using core.map_create [OF that] by (simp add: core.may_open_def)
  have inner: "wlp (call (bpf_create_map (pr_bpf os) mt ks vs me fl)) (\<lambda>fd w'. core.may_open (fds w) fd w') w" for mt ks vs me fl w
    using made by (auto simp: bpf_create_map_def bpf_create_map_xattr_def split: prod.split)
  have outer: "wlp (call (bpf_create_map_in_map (pr_bpf os) mt nm ks fd me fl)) (\<lambda>fd w'. core.may_open (fds w) fd w') w" for mt nm ks fd me fl w
    using made by (auto simp: bpf_create_map_in_map_def bpf_create_map_in_map_node_def Let_def split: prod.split)
  have finish: "wlp (andthen (if fd \<ge> 0 then close_fd (pr_bpf os) fd else ret 0) (\<lambda>_. ret c)) (\<lambda>_ w'. fds w' = S) w"
    if "core.may_open S fd w" for fd S w c
    using that by (intro wlp_bind [OF close_may_open]) auto
  show ?thesis unfolding bpf_probe_map_type_def Let_def
    by (intro wlp_case_prod wlp_if wlp_bind [OF inner] wlp_bind [OF outer] wlp_bind [OF core.create_call_fds] wlp_bind [OF core.close_spec] finish)
      (auto simp: core.may_open_def split: if_splits)
qed

end

text \<open>A kernel that accepts every map with entries and programs under the GPL, and a Netronome card as interface 2.\<close>

definition list_probe :: "int list probe_os" where
  "list_probe = \<lparr> pr_bpf = list_bpf, clear_errno = (\<lambda>w. w), uname_release = (\<lambda>w. Some ''5.4.17''),
     indextoname = (\<lambda>w i. if i = 2 then Some ''eth2'' else None), open_read = (\<lambda>w p. (fresh_fd w, fresh_fd w # w)),
     read_8 = (\<lambda>w fd. (Some (''0x19ee'' @ [CHR 0x0A]), w)) \<rparr>"

interpretation list_probe: probe_kernel list_probe set
  by unfold_locales (use fresh_fd_new list_fds.map_create list_fds.prog_load list_fds.close in \<open>auto simp: list_probe_def split: if_splits\<close>)

text \<open>No probe leaves a descriptor behind, whatever the kernel answers.\<close>

theorem probes_close_descriptors:
  assumes "probe_kernel os fds"
    and "bpf_probe_map_type os t i w = (Return b, w') \<or> bpf_probe_prog_type os p i w = (Return b, w') \<or> bpf_probe_helper os h p i w = (Return b, w')"
  shows "fds w' = fds w"
  using assms wlpD [OF probe_kernel.probe_map_fds] wlpD [OF probe_kernel.probe_prog_fds] wlpD [OF probe_kernel.probe_helper_fds] by metis

theorem probes_close_descriptors_witness:
  "\<exists>b w'. bpf_probe_map_type list_probe BPF_MAP_TYPE_HASH_OF_MAPS 0 [2, 1, 0] = (Return b, w') \<and> set w' = {0, 1, 2} \<and> b"
proof -
  obtain w' where p: "bpf_probe_map_type list_probe BPF_MAP_TYPE_HASH_OF_MAPS 0 [2, 1, 0] = (Return True, w')"
    by (simp add: bpf_probe_map_type_def probe_map_params_def list_probe_def list_bpf_simps andthen_def prog_simps bpf_create_map_def
        bpf_create_map_xattr_def bpf_create_map_in_map_def bpf_create_map_in_map_node_def list_bpf_def fresh_fd_def zero_create_attr_def Let_def close_fd_def)
  then show ?thesis using probes_close_descriptors [OF list_probe.probe_kernel_axioms, of BPF_MAP_TYPE_HASH_OF_MAPS 0 "[2, 1, 0]" True w'] by auto
qed

text \<open>The answer for a type of maps is whether the kernel makes a map of that type with the parameters of the table.\<close>

theorem probe_map_type_asks_kernel:
  assumes "t \<noteq> BPF_MAP_TYPE_ARRAY_OF_MAPS" "t \<noteq> BPF_MAP_TYPE_HASH_OF_MAPS" "probe_map_params t = (ks, vs, me, fl)"
    and "bpf_create_map_xattr (pr_bpf os) (zero_create_attr\<lparr>cm_map_type := map_type_code t, cm_key_size := ks, cm_value_size := vs,
      cm_max_entries := me, cm_map_flags := fl, cm_map_ifindex := i\<rparr>) w = (fd, w1)"
  shows "\<exists>w'. bpf_probe_map_type os t i w = (Return (fd \<ge> 0), w')"
  using assms by (auto simp: bpf_probe_map_type_def andthen_def prog_simps close_fd_def Let_def split: prod.split)

end
