(* ===== verification/Elf_Open.thy ===== *)
theory Elf_Open
  imports Obj_Load
begin

text \<open>
  Opening an object file: \<open>bpf_object__open\<close> and what it calls in \<open>src/libbpf/src/libbpf.c\<close>. The file is read with libelf,
  which is not part of the repository. The record \<open>elf\<close> has the answers of libelf about one file: the sections in
  the order of \<open>elf_nextscn\<close>, and its other functions by their names. The record \<open>elf_os\<close> has the calls that open and end a
  descriptor of libelf, with \<open>ebpf\<close> for the system, and the sort of the C library.

  What is only known while the file is read is the record \<open>efile\<close>; \<open>maps_shndx\<close> and \<open>text_shndx\<close>, which later functions use,
  are members of \<open>bpf_object\<close>. The license is an array of 64 characters; the object has the text in it. A result is an
  object or, as \<open>Inl\<close>, the number that \<open>ERR_PTR\<close> makes a pointer of, 0 for a null pointer. The list of all objects and the messages are left out.
\<close>

section \<open>Data\<close>

record gelf_shdr =
  sh_name :: u32
  sh_type :: u32
  sh_flags :: u64
  sh_size :: u64
  sh_link :: u32
  sh_info :: u32
  sh_entsize :: u64

text \<open>A section without bits in the file has a size and no buffer.\<close>

record elf_data =
  d_buf :: "bytes option"
  d_size :: nat

record elf_scn =
  gelf_getshdr :: "gelf_shdr option"
  elf_getdata :: "elf_data option"

record gelf_ehdr =
  e_ident_data :: u8
  e_type :: u16
  e_machine :: u16
  e_shstrndx :: u16

record elf =
  gelf_getehdr :: "gelf_ehdr option"
  elf_scns :: "elf_scn list"
  elf_getscn :: "int \<Rightarrow> elf_scn option"
  elf_rawdata :: "elf_scn option \<Rightarrow> bool"
  elf_strptr :: "nat \<Rightarrow> u32 \<Rightarrow> string option"
  gelf_getsym :: "elf_data \<Rightarrow> nat \<Rightarrow> gelf_sym option"
  gelf_getrel :: "elf_data \<Rightarrow> nat \<Rightarrow> gelf_rel option"

record 'w elf_os =
  ebpf :: "'w bpf_os"
  elf_version :: bool
  open_file :: "'w \<Rightarrow> string \<Rightarrow> int \<times> 'w"
  elf_begin :: "'w \<Rightarrow> int \<Rightarrow> elf option \<times> 'w"
  elf_memory :: "'w \<Rightarrow> bytes \<Rightarrow> elf option \<times> 'w"
  elf_end :: "'w \<Rightarrow> elf \<Rightarrow> 'w"
  qsort :: "(bpf_map \<Rightarrow> bpf_map \<Rightarrow> int) \<Rightarrow> bpf_map list \<Rightarrow> bpf_map list"

record efile =
  ef_fd :: int
  obj_buf :: bytes
  ef_elf :: "elf option"
  ehdr :: gelf_ehdr
  symbols :: "elf_data option"
  strtabidx :: nat
  reloc_secs :: "(gelf_shdr \<times> elf_data) list"
  license_buf :: bytes

definition SHT_PROGBITS :: u32 where "SHT_PROGBITS = 1"
definition SHT_SYMTAB :: u32 where "SHT_SYMTAB = 2"
definition SHT_REL :: u32 where "SHT_REL = 9"
definition SHF_EXECINSTR :: u64 where "SHF_EXECINSTR = 4"
definition ET_REL :: u16 where "ET_REL = 1"
definition EM_BPF :: u16 where "EM_BPF = 247"
definition STB_GLOBAL :: u8 where "STB_GLOBAL = 1"
definition ELFDATA2LSB :: u8 where "ELFDATA2LSB = 1"
definition ELFDATA2MSB :: u8 where "ELFDATA2MSB = 2"
definition sizeof_gelf_sym :: nat where "sizeof_gelf_sym = 24"
definition MAPS_RELAX_COMPAT :: u32 where "MAPS_RELAX_COMPAT = 1"

text \<open>The sizes of the structures on a target with pointers of eight bytes.\<close>

definition sizeof_bpf_program :: nat where "sizeof_bpf_program = 184"
definition sizeof_bpf_map :: nat where "sizeof_bpf_map = 80"
definition sizeof_bpf_object :: nat where "sizeof_bpf_object = 304"
definition sizeof_reloc_sec :: nat where "sizeof_reloc_sec = 72"
definition sizeof_reloc_desc :: u64 where "sizeof_reloc_desc = 12"
definition sizeof_btf :: nat where "sizeof_btf = 48"
definition sizeof_btf_ext :: nat where "sizeof_btf_ext = 48"
definition sizeof_libbpf_map_def :: nat where "sizeof_libbpf_map_def = 20"

text \<open>\<open>memcpy\<close> of some bytes of a section.\<close>

definition data_bytes :: "elf_data \<Rightarrow> nat \<Rightarrow> nat \<Rightarrow> bytes option" where
  "data_bytes d off n =
     (if n = 0 then Some [] else do { b \<leftarrow> d_buf d; read_bytes n b off })"

definition strdup :: "'w bpf_os \<Rightarrow> string \<Rightarrow> ('w, string option) prog" where
  "strdup os s = andthen (malloc os (length s + 1)) (\<lambda>ok. ret (if ok then Some s else None))"

section \<open>Programs\<close>

text \<open>An instruction in memory. The bit-field of the destination comes first: it is the low half of the byte on a little-endian
  target and the high half on a big-endian one.\<close>

definition insn_at :: "byte_order \<Rightarrow> bytes \<Rightarrow> nat \<Rightarrow> bpf_insn option" where
  "insn_at bo b off =
     do { c \<leftarrow> (load_word bo 1 b off :: u8 option);
          regs \<leftarrow> (load_word bo 1 b (off + 1) :: u8 option);
          o16 \<leftarrow> load_word bo 2 b (off + 2);
          i32 \<leftarrow> load_word bo 4 b (off + 4);
          let lo = regs AND 15; let hi = drop_bit 4 regs;
          Some \<lparr> code = c, dst_reg = (if bo = LittleEndian then lo else hi),
                 src_reg = (if bo = LittleEndian then hi else lo), insn_off = o16, imm = i32 \<rparr> }"

fun insns_at :: "byte_order \<Rightarrow> bytes \<Rightarrow> nat \<Rightarrow> nat \<Rightarrow> bpf_insn list option" where
  "insns_at bo b off 0 = Some []"
| "insns_at bo b off (Suc n) =
     do { i \<leftarrow> insn_at bo b off; ins \<leftarrow> insns_at bo b (off + 8) n; Some (i # ins) }"

text \<open>A program after \<open>memset\<close>: its descriptors are 0.\<close>

definition zero_program :: bpf_program where
  "zero_program = \<lparr> idx = 0, section_name = [], pin_name = [], prog_ifindex = 0, prog_type = BPF_PROG_TYPE_UNSPEC,
     expected_attach_type = no_attach_type, insns = [], inst_nr = 0, inst_fds = [], relocs = [], prog_name = None,
     main_prog_cnt = 0, preprocessor = None, prog_btf_fd = 0, func_info = None, func_info_cnt = 0, func_info_rec_size = 0,
     line_info = None, line_info_cnt = 0, line_info_rec_size = 0, insns_dangling = False \<rparr>"

text \<open>\<open>bpf_program__exit\<close> as far as the system sees it.\<close>

definition bpf_program__exit :: "'w bpf_os \<Rightarrow> bpf_program \<Rightarrow> ('w, unit) prog" where
  "bpf_program__exit os prog = andthen (bpf_program__unload os prog) (\<lambda>_. ret ())"

text \<open>The error is found before the members of the program that hold descriptors have been set. \<open>strchr\<close> of
  \<open>__bpf_program__pin_name\<close> gets the result of \<open>strdup\<close> without a test.\<close>

definition bpf_program__init :: "'w bpf_os \<Rightarrow> elf_data \<Rightarrow> string \<Rightarrow> int \<Rightarrow> ('w, int + bpf_program) prog" where
  "bpf_program__init os d section i =
     (let errout = (\<lambda>prog. andthen (bpf_program__exit os prog) (\<lambda>_. ret (Inl (- ENOMEM)))) in
      if d_size d < 8 then ret (Inl (- EINVAL))
      else andthen (strdup os section) (\<lambda>s.
      case s of
        None \<Rightarrow> errout zero_program
      | Some s \<Rightarrow>
      andthen (strdup os s) (\<lambda>p.
      case p of
        None \<Rightarrow> fault
      | Some p \<Rightarrow>
      let prog = zero_program\<lparr>section_name := s, pin_name := bpf_program__pin_name p\<rparr> in
      andthen (malloc os (d_size d)) (\<lambda>ok.
      if \<not> ok then errout prog
      else andthen (from_option (do { b \<leftarrow> data_bytes d 0 (d_size d div 8 * 8); insns_at (host_bo os) b 0 (d_size d div 8) })) (\<lambda>ins.
      ret (Inr (prog\<lparr>insns := ins, idx := i, inst_nr := -1, prog_btf_fd := -1\<rparr>)))))))"

definition bpf_object__add_program ::
  "'w bpf_os \<Rightarrow> bpf_object \<Rightarrow> elf_data \<Rightarrow> string \<Rightarrow> int \<Rightarrow> ('w, int \<times> bpf_object) prog" where
  "bpf_object__add_program os obj d section i =
     andthen (bpf_program__init os d section i) (\<lambda>r.
     case r of
       Inl err \<Rightarrow> ret (err, obj)
     | Inr prog \<Rightarrow>
         andthen (malloc os ((length (programs obj) + 1) * sizeof_bpf_program)) (\<lambda>ok.
         if \<not> ok then andthen (bpf_program__exit os prog) (\<lambda>_. ret (- ENOMEM, obj))
         else ret (0, obj\<lparr>programs := programs obj @ [prog]\<rparr>)))"

text \<open>The inner loop of \<open>bpf_object__init_prog_names\<close> over the symbols that are left: an error, or the name if one is found.\<close>

fun find_prog_name :: "(u32 \<Rightarrow> string option) \<Rightarrow> int \<Rightarrow> gelf_sym option list \<Rightarrow> int + string option" where
  "find_prog_name strptr i [] = Inr None"
| "find_prog_name strptr i (s # ss) =
     (case s of
        None \<Rightarrow> find_prog_name strptr i ss
      | Some sy \<Rightarrow>
          if st_shndx sy \<noteq> i then find_prog_name strptr i ss
          else if drop_bit 4 (st_info sy) \<noteq> STB_GLOBAL then find_prog_name strptr i ss
          else case strptr (st_name sy) of
            None \<Rightarrow> Inl (- errno_code LIBBPF_ERRNO__LIBELF)
          | Some name \<Rightarrow> Inr (Some name))"

text \<open>The outer loop: the programs that are left, with the names of those before them set.\<close>

fun prog_names_loop ::
  "'w bpf_os \<Rightarrow> (int \<Rightarrow> int + string option) \<Rightarrow> int \<Rightarrow> bpf_program list \<Rightarrow> ('w, int \<times> bpf_program list) prog" where
  "prog_names_loop os name_of text_idx [] = ret (0, [])"
| "prog_names_loop os name_of text_idx (p # ps) =
     (case name_of (idx p) of
        Inl err \<Rightarrow> ret (err, p # ps)
      | Inr found \<Rightarrow>
     (case (if found = None \<and> idx p = text_idx then Some ''.text'' else found) of
        None \<Rightarrow> ret (- EINVAL, p # ps)
      | Some name \<Rightarrow>
     andthen (strdup os name) (\<lambda>n.
     if n = None then ret (- ENOMEM, p # ps)
     else andthen (prog_names_loop os name_of text_idx ps) (\<lambda>(err, ps). ret (err, p\<lparr>prog_name := n\<rparr> # ps)))))"

text \<open>The symbols that the loops look at.\<close>

definition file_symbols :: "elf \<Rightarrow> elf_data \<Rightarrow> gelf_sym option list" where
  "file_symbols e d = map (gelf_getsym e d) [0..<d_size d div sizeof_gelf_sym]"

definition bpf_object__init_prog_names :: "'w bpf_os \<Rightarrow> elf \<Rightarrow> efile \<Rightarrow> bpf_object \<Rightarrow> ('w, int \<times> bpf_object) prog" where
  "bpf_object__init_prog_names os e ef obj =
     (if programs obj = [] then ret (0, obj)
      else andthen (from_option (symbols ef)) (\<lambda>syms.
      andthen (prog_names_loop os (\<lambda>i. find_prog_name (elf_strptr e (strtabidx ef)) i (file_symbols e syms)) (text_shndx obj) (programs obj))
        (\<lambda>(err, ps). ret (err, obj\<lparr>programs := ps\<rparr>))))"

section \<open>Maps\<close>

text \<open>The subtraction is unsigned, its result becomes an \<open>int\<close>.\<close>

definition compare_bpf_map :: "bpf_map \<Rightarrow> bpf_map \<Rightarrow> int" where
  "compare_bpf_map a b = sint (ucast (map_offset a - map_offset b) :: 32 word)"

text \<open>A map after \<open>calloc\<close> with its descriptors set to -1; the empty text stands for the null pointer.\<close>

definition blank_map :: bpf_map where
  "blank_map = \<lparr> map_fd = -1, map_name = [], map_offset = 0, map_ifindex = 0, inner_map_fd = -1,
     map_def = \<lparr> def_type = 0, def_key_size = 0, def_value_size = 0, def_max_entries = 0, def_map_flags = 0,
       def_inner_map_idx = 0, def_numa_node = 0 \<rparr>, btf_key_type_id = 0, btf_value_type_id = 0 \<rparr>"

text \<open>The structure of \<open>libbpf.h\<close> ends with the flags.\<close>

definition decode_map_def :: "byte_order \<Rightarrow> bytes \<Rightarrow> bpf_map_def option" where
  "decode_map_def bo b =
     do { t \<leftarrow> load_word bo 4 b 0; k \<leftarrow> load_word bo 4 b 4; v \<leftarrow> load_word bo 4 b 8; m \<leftarrow> load_word bo 4 b 12;
          f \<leftarrow> load_word bo 4 b 16;
          Some \<lparr> def_type = t, def_key_size = k, def_value_size = v, def_max_entries = m, def_map_flags = f,
                 def_inner_map_idx = 0, def_numa_node = 0 \<rparr> }"

text \<open>The definition at an offset of the section: \<open>Some None\<close> when it has options that are not understood. A shorter definition is
  filled with zeros. The offset of the bytes behind the structure wraps as the pointer does, and the loop over
  them compares pointers.\<close>

definition read_map_def :: "byte_order \<Rightarrow> bool \<Rightarrow> elf_data \<Rightarrow> u64 \<Rightarrow> u64 \<Rightarrow> bpf_map_def option option" where
  "read_map_def bo strict d off def_sz =
     (if unat def_sz \<le> sizeof_libbpf_map_def
      then do { b \<leftarrow> data_bytes d (unat off) (unat def_sz);
                m \<leftarrow> decode_map_def bo (b @ replicate (sizeof_libbpf_map_def - unat def_sz) 0);
                Some (Some m) }
      else do { rest \<leftarrow> data_bytes d (unat (off + of_nat sizeof_libbpf_map_def)) (nat (sint def_sz - int sizeof_libbpf_map_def));
                if strict \<and> list_ex (\<lambda>x. x \<noteq> 0) rest then Some None
                else do { b \<leftarrow> data_bytes d (unat off) sizeof_libbpf_map_def;
                          m \<leftarrow> decode_map_def bo b;
                          Some (Some m) } })"

text \<open>The loop that fills the maps, over the symbols of the section; on an error the maps that are left stay as they are.\<close>

fun fill_maps ::
  "'w bpf_os \<Rightarrow> bool \<Rightarrow> (u32 \<Rightarrow> string option) \<Rightarrow> elf_data \<Rightarrow> u64 \<Rightarrow> gelf_sym list \<Rightarrow> ('w, int \<times> bpf_map list) prog" where
  "fill_maps os strict strptr d def_sz [] = ret (0, [])"
| "fill_maps os strict strptr d def_sz (s # ss) =
     (let m = blank_map\<lparr>map_offset := st_value s\<rparr>; left = replicate (length ss) blank_map in
      if st_value s + def_sz > of_nat (d_size d) then ret (- EINVAL, m # left)
      else andthen (from_option (strptr (st_name s))) (\<lambda>name.
      andthen (strdup os name) (\<lambda>n.
      case n of
        None \<Rightarrow> ret (- ENOMEM, m # left)
      | Some n \<Rightarrow>
      let m = m\<lparr>map_name := n\<rparr> in
      andthen (from_option (read_map_def (host_bo os) strict d (st_value s) def_sz)) (\<lambda>def.
      case def of
        None \<Rightarrow> ret (- EINVAL, m # left)
      | Some def \<Rightarrow>
          andthen (fill_maps os strict strptr d def_sz ss) (\<lambda>(err, ms). ret (err, m\<lparr>map_def := def\<rparr> # ms))))))"

definition symbols_of :: "int \<Rightarrow> gelf_sym option list \<Rightarrow> gelf_sym list" where
  "symbols_of shndx syms = filter (\<lambda>s. st_shndx s = shndx) (List.map_filter id syms)"

definition bpf_object__init_maps :: "'w elf_os \<Rightarrow> elf \<Rightarrow> efile \<Rightarrow> bpf_object \<Rightarrow> u32 \<Rightarrow> ('w, int \<times> bpf_object) prog" where
  "bpf_object__init_maps os e ef obj flags =
     (if maps_shndx obj < 0 then ret (- EINVAL, obj)
      else case symbols ef of
        None \<Rightarrow> ret (- EINVAL, obj)
      | Some syms \<Rightarrow>
     (case (do { scn \<leftarrow> elf_getscn e (maps_shndx obj); elf_getdata scn }) of
        None \<Rightarrow> ret (- EINVAL, obj)
      | Some d \<Rightarrow>
          let ss = symbols_of (maps_shndx obj) (file_symbols e syms); nr_maps = length ss in
          if nr_maps = 0 then ret (0, obj)
          else if d_size d = 0 \<or> d_size d mod nr_maps \<noteq> 0 then ret (- EINVAL, obj)
          else andthen (malloc (ebpf os) (nr_maps * sizeof_bpf_map)) (\<lambda>ok.
          if \<not> ok then ret (- ENOMEM, obj)
          else andthen (fill_maps (ebpf os) (flags AND MAPS_RELAX_COMPAT = 0) (elf_strptr e (strtabidx ef)) d
                          (scast (of_nat (d_size d div nr_maps) :: 32 word)) ss) (\<lambda>(err, ms).
          if err \<noteq> 0 then ret (err, obj\<lparr>maps := ms\<rparr>)
          else ret (0, obj\<lparr>maps := qsort os compare_bpf_map ms\<rparr>)))))"

section \<open>Sections\<close>

definition license_text :: "bytes \<Rightarrow> string" where
  "license_text b = map (\<lambda>x. char_of (unat x)) (takeWhile (\<lambda>x. x \<noteq> 0) b)"

definition bpf_object__init_license :: "efile \<Rightarrow> bpf_object \<Rightarrow> elf_data \<Rightarrow> (efile \<times> bpf_object) option" where
  "bpf_object__init_license ef obj d =
     do { let n = min (d_size d) 63;
          b \<leftarrow> data_bytes d 0 n;
          let buf = b @ drop n (license_buf ef);
          Some (ef\<lparr>license_buf := buf\<rparr>, obj\<lparr>license := license_text buf\<rparr>) }"

definition bpf_object__init_kversion :: "byte_order \<Rightarrow> bpf_object \<Rightarrow> elf_data \<Rightarrow> (int \<times> bpf_object) option" where
  "bpf_object__init_kversion bo obj d =
     (if d_size d \<noteq> 4 then Some (- errno_code LIBBPF_ERRNO__FORMAT, obj)
      else do { b \<leftarrow> data_bytes d 0 4; v \<leftarrow> load_word bo 4 b 0; Some (0, obj\<lparr>kern_version := v\<rparr>) })"

definition section_have_execinstr :: "elf \<Rightarrow> int \<Rightarrow> bool" where
  "section_have_execinstr e i =
     (case (do { scn \<leftarrow> elf_getscn e i; gelf_getshdr scn }) of
        None \<Rightarrow> False
      | Some sh \<Rightarrow> sh_flags sh AND SHF_EXECINSTR \<noteq> 0)"

text \<open>\<open>btf__new\<close> on a section; its length is a \<open>u32\<close>.\<close>

definition new_btf :: "'w bpf_os \<Rightarrow> elf_data \<Rightarrow> ('w, int + btf) prog" where
  "new_btf os d =
     (let n = d_size d mod 2 ^ 32 in
      andthen (malloc os sizeof_btf) (\<lambda>ok.
      if \<not> ok then ret (Inl (- ENOMEM))
      else andthen (malloc os n) (\<lambda>ok.
      if \<not> ok then ret (Inl (- ENOMEM))
      else andthen (from_option (data_bytes d 0 n)) (\<lambda>b.
      (\<lambda>w. from_option (btf__new (host_bo os) True (\<lambda>k. sys_malloc os w (k * 8)) b) w)))))"

text \<open>The branch for \<open>.BTF\<close>: an error of either call is not one of the object.\<close>

definition collect_btf :: "'w bpf_os \<Rightarrow> bpf_object \<Rightarrow> elf_data \<Rightarrow> ('w, bpf_object) prog" where
  "collect_btf os obj d =
     andthen (new_btf os d) (\<lambda>r.
     case r of
       Inl _ \<Rightarrow> ret (obj\<lparr>obj_btf := None\<rparr>)
     | Inr b \<Rightarrow> andthen (btf__load os b) (\<lambda>(err, b). ret (obj\<lparr>obj_btf := (if err \<noteq> 0 then None else Some b)\<rparr>)))"

text \<open>The chain of conditions in the loop of \<open>bpf_object__elf_collect\<close> for the section with the number \<open>i\<close>. The state is
  the object, what is known of the file and the data of \<open>.BTF.ext\<close>.\<close>

type_synonym collected = "bpf_object \<times> efile \<times> elf_data option"

definition collect_section :: "'w elf_os \<Rightarrow> elf \<Rightarrow> int \<Rightarrow> gelf_shdr \<Rightarrow> string \<Rightarrow> elf_data \<Rightarrow> collected \<Rightarrow> ('w, int \<times> collected) prog" where
  "collect_section os e i sh name d st =
     (case st of (obj, ef, ext) \<Rightarrow>
      if name = ''license'' then
        andthen (from_option (bpf_object__init_license ef obj d)) (\<lambda>(ef, obj). ret (0, obj, ef, ext))
      else if name = ''version'' then
        andthen (from_option (bpf_object__init_kversion (host_bo (ebpf os)) obj d)) (\<lambda>(err, obj). ret (err, obj, ef, ext))
      else if name = ''maps'' then ret (0, obj\<lparr>maps_shndx := i\<rparr>, ef, ext)
      else if name = ''.BTF'' then andthen (collect_btf (ebpf os) obj d) (\<lambda>obj. ret (0, obj, ef, ext))
      else if name = ''.BTF.ext'' then ret (0, obj, ef, Some d)
      else if sh_type sh = SHT_SYMTAB then
        (if symbols ef \<noteq> None then ret (- errno_code LIBBPF_ERRNO__FORMAT, obj, ef, ext)
         else ret (0, obj, ef\<lparr>symbols := Some d, strtabidx := unat (sh_link sh)\<rparr>, ext))
      else if sh_type sh = SHT_PROGBITS \<and> sh_flags sh AND SHF_EXECINSTR \<noteq> 0 \<and> d_size d > 0 then
        andthen (bpf_object__add_program (ebpf os) (if name = ''.text'' then obj\<lparr>text_shndx := i\<rparr> else obj) d name i) (\<lambda>(err, obj).
        ret (err, obj, ef, ext))
      else if sh_type sh = SHT_REL then
        (if \<not> section_have_execinstr e (sint (sh_info sh)) then ret (0, obj, ef, ext)
         else andthen (malloc (ebpf os) ((length (reloc_secs ef) + 1) * sizeof_reloc_sec)) (\<lambda>ok.
         if \<not> ok then ret (- ENOMEM, obj, ef, ext)
         else ret (0, obj, ef\<lparr>reloc_secs := reloc_secs ef @ [(sh, d)]\<rparr>, ext)))
      else ret (0, obj, ef, ext))"

fun collect_sections :: "'w elf_os \<Rightarrow> elf \<Rightarrow> int \<Rightarrow> elf_scn list \<Rightarrow> collected \<Rightarrow> ('w, int \<times> collected) prog" where
  "collect_sections os e i [] st = ret (0, st)"
| "collect_sections os e i (scn # scns) st =
     (let i = i + 1 in
      case (do { sh \<leftarrow> gelf_getshdr scn;
                 name \<leftarrow> elf_strptr e (unat (e_shstrndx (ehdr (fst (snd st))))) (sh_name sh);
                 d \<leftarrow> elf_getdata scn;
                 Some (sh, name, d) }) of
        None \<Rightarrow> ret (- errno_code LIBBPF_ERRNO__FORMAT, st)
      | Some (sh, name, d) \<Rightarrow>
          andthen (collect_section os e i sh name d st) (\<lambda>(err, st).
          if err \<noteq> 0 then ret (err, st) else collect_sections os e i scns st))"

text \<open>The branch for \<open>.BTF.ext\<close> after the loop.\<close>

definition collect_btf_ext :: "'w bpf_os \<Rightarrow> bpf_object \<Rightarrow> elf_data option \<Rightarrow> ('w, bpf_object) prog" where
  "collect_btf_ext os obj ext =
     (case ext of
        None \<Rightarrow> ret obj
      | Some d \<Rightarrow>
          if obj_btf obj = None then ret obj
          else
          let n = d_size d mod 2 ^ 32 in
          if d_buf d = None \<and> n < 8 then ret (obj\<lparr>obj_btf_ext := None\<rparr>)
          else andthen (from_option (data_bytes d 0 n)) (\<lambda>b.
          andthen (malloc os sizeof_btf_ext) (\<lambda>ok1.
          andthen (malloc os n) (\<lambda>ok2.
          andthen (from_option (btf_ext__new (host_bo os) (ok1 \<and> ok2) b)) (\<lambda>r.
          ret (obj\<lparr>obj_btf_ext := (case r of Inl _ \<Rightarrow> None | Inr x \<Rightarrow> Some x)\<rparr>))))))"

text \<open>A wrong index of the string table is reported with a positive number.\<close>

definition bpf_object__elf_collect :: "'w elf_os \<Rightarrow> elf \<Rightarrow> efile \<Rightarrow> bpf_object \<Rightarrow> u32 \<Rightarrow> ('w, int \<times> efile \<times> bpf_object) prog" where
  "bpf_object__elf_collect os e ef obj flags =
     (if \<not> elf_rawdata e (elf_getscn e (uint (e_shstrndx (ehdr ef)))) then ret (- errno_code LIBBPF_ERRNO__FORMAT, ef, obj)
      else andthen (collect_sections os e 0 (elf_scns e) (obj, ef, None)) (\<lambda>(err, obj, ef, ext).
      if err \<noteq> 0 then ret (err, ef, obj)
      else if strtabidx ef = 0 \<or> strtabidx ef \<ge> length (elf_scns e) then ret (errno_code LIBBPF_ERRNO__FORMAT, ef, obj)
      else andthen (collect_btf_ext (ebpf os) obj ext) (\<lambda>obj.
      andthen (if maps_shndx obj \<ge> 0 then bpf_object__init_maps os e ef obj flags else ret (0, obj)) (\<lambda>(err, obj).
      if err \<noteq> 0 then ret (err, ef, obj)
      else andthen (bpf_object__init_prog_names (ebpf os) e ef obj) (\<lambda>(err, obj). ret (err, ef, obj))))))"

section \<open>Relocations\<close>

text \<open>The number of entries is a quotient of two members of the section header, stored in an \<open>int\<close>.\<close>

definition collect_program_reloc ::
  "'w bpf_os \<Rightarrow> elf \<Rightarrow> elf_data \<Rightarrow> gelf_shdr \<Rightarrow> elf_data \<Rightarrow> bpf_program \<Rightarrow> bpf_object \<Rightarrow> ('w, int \<times> bpf_program \<times> bpf_object) prog" where
  "collect_program_reloc os e syms sh d prog obj =
     (if sh_entsize sh = 0 then fault
      else
      let nrels = (ucast (sh_size sh div sh_entsize sh) :: 32 word) in
      andthen (malloc os (unat (sizeof_reloc_desc * scast nrels))) (\<lambda>ok.
      from_option (bpf_program__collect_reloc ok (gelf_getsym e syms) (map (gelf_getrel e d) [0..<nat (sint nrels)]) prog obj)))"

text \<open>The program with an index is replaced by what has been made of it.\<close>

fun update_prog :: "int \<Rightarrow> bpf_program \<Rightarrow> bpf_program list \<Rightarrow> bpf_program list" where
  "update_prog i q [] = []"
| "update_prog i q (p # ps) = (if idx p = i then q # ps else p # update_prog i q ps)"

fun collect_reloc_secs ::
  "'w bpf_os \<Rightarrow> elf \<Rightarrow> elf_data option \<Rightarrow> (gelf_shdr \<times> elf_data) list \<Rightarrow> bpf_object \<Rightarrow> ('w, int \<times> bpf_object) prog" where
  "collect_reloc_secs os e syms [] obj = ret (0, obj)"
| "collect_reloc_secs os e syms ((sh, d) # secs) obj =
     (let i = sint (sh_info sh) in
      if sh_type sh \<noteq> SHT_REL then ret (- errno_code LIBBPF_ERRNO__INTERNAL, obj)
      else case bpf_object__find_prog_by_idx obj i of
        None \<Rightarrow> ret (- errno_code LIBBPF_ERRNO__RELOC, obj)
      | Some prog \<Rightarrow>
          andthen (from_option syms) (\<lambda>sy.
          andthen (collect_program_reloc os e sy sh d prog obj) (\<lambda>(err, prog, obj).
          let obj = obj\<lparr>programs := update_prog i prog (programs obj)\<rparr> in
          if err \<noteq> 0 then ret (err, obj) else collect_reloc_secs os e syms secs obj)))"

definition bpf_object__collect_reloc :: "'w bpf_os \<Rightarrow> efile \<Rightarrow> bpf_object \<Rightarrow> ('w, int \<times> bpf_object) prog" where
  "bpf_object__collect_reloc os ef obj =
     (case ef_elf ef of
        None \<Rightarrow> ret (- errno_code LIBBPF_ERRNO__INTERNAL, obj)
      | Some e \<Rightarrow> collect_reloc_secs os e (symbols ef) (reloc_secs ef) obj)"

section \<open>Opening\<close>

definition bpf_object__new :: "'w bpf_os \<Rightarrow> string \<Rightarrow> bytes \<Rightarrow> ('w, int + bpf_object \<times> efile) prog" where
  "bpf_object__new os path buf =
     andthen (malloc os (sizeof_bpf_object + length path + 1)) (\<lambda>ok.
     if \<not> ok then ret (Inl (- ENOMEM))
     else ret (Inr (
       \<lparr> loaded = False, programs = [], maps = [], has_pseudo_calls = False, maps_shndx = -1, text_shndx = 0, license = [],
         kern_version = 0, caps_name = False, obj_btf = None, obj_btf_ext = None \<rparr>,
       \<lparr> ef_fd = -1, obj_buf = buf, ef_elf = None, ehdr = \<lparr> e_ident_data = 0, e_type = 0, e_machine = 0, e_shstrndx = 0 \<rparr>,
         symbols = None, strtabidx = 0, reloc_secs = [], license_buf = replicate 64 0 \<rparr>)))"

text \<open>Without a descriptor of libelf nothing is done, the file is not closed either.\<close>

definition bpf_object__elf_finish :: "'w elf_os \<Rightarrow> efile \<Rightarrow> ('w, efile) prog" where
  "bpf_object__elf_finish os ef =
     (case ef_elf ef of
        None \<Rightarrow> ret ef
      | Some e \<Rightarrow>
          andthen (call (\<lambda>w. ((), elf_end os w e))) (\<lambda>_.
          andthen (zclose (ebpf os) (ef_fd ef)) (\<lambda>_.
          ret (ef\<lparr>ef_elf := None, symbols := None, reloc_secs := [], ef_fd := -1, obj_buf := []\<rparr>))))"

text \<open>The checks behind opening, at whose failure the file is given back.\<close>

definition check_ehdr :: "elf option \<Rightarrow> int + gelf_ehdr" where
  "check_ehdr el =
     (case el of
        None \<Rightarrow> Inl (- errno_code LIBBPF_ERRNO__LIBELF)
      | Some e \<Rightarrow>
     (case gelf_getehdr e of
        None \<Rightarrow> Inl (- errno_code LIBBPF_ERRNO__FORMAT)
      | Some ep \<Rightarrow>
          if e_type ep \<noteq> ET_REL \<or> (e_machine ep \<noteq> 0 \<and> e_machine ep \<noteq> EM_BPF) then Inl (- errno_code LIBBPF_ERRNO__FORMAT)
          else Inr ep))"

text \<open>The error with which the function returns at once, if any, and the file.\<close>

definition open_elf :: "'w elf_os \<Rightarrow> string \<Rightarrow> efile \<Rightarrow> ('w, int option \<times> efile) prog" where
  "open_elf os path ef =
     (if obj_buf ef \<noteq> []
      then andthen (call (\<lambda>w. elf_memory os w (obj_buf ef))) (\<lambda>el. ret (None, ef\<lparr>ef_elf := el\<rparr>))
      else andthen (call (\<lambda>w. open_file os w path)) (\<lambda>fd.
      if fd < 0 then andthen (get_errno (ebpf os)) (\<lambda>errno. ret (Some (- errno), ef\<lparr>ef_fd := fd\<rparr>))
      else andthen (call (\<lambda>w. elf_begin os w fd)) (\<lambda>el. ret (None, ef\<lparr>ef_fd := fd, ef_elf := el\<rparr>))))"

definition bpf_object__elf_init :: "'w elf_os \<Rightarrow> string \<Rightarrow> efile \<Rightarrow> ('w, int \<times> efile) prog" where
  "bpf_object__elf_init os path ef =
     (if ef_elf ef \<noteq> None then ret (- errno_code LIBBPF_ERRNO__LIBELF, ef)
      else andthen (open_elf os path ef) (\<lambda>(failed, ef).
      case failed of
        Some err \<Rightarrow> ret (err, ef)
      | None \<Rightarrow>
     (case check_ehdr (ef_elf ef) of
        Inl err \<Rightarrow> andthen (bpf_object__elf_finish os ef) (\<lambda>ef. ret (err, ef))
      | Inr ep \<Rightarrow> ret (0, ef\<lparr>ehdr := ep\<rparr>))))"

definition bpf_object__check_endianness :: "byte_order \<Rightarrow> efile \<Rightarrow> int" where
  "bpf_object__check_endianness bo ef =
     (let d = e_ident_data (ehdr ef) in
      if d = ELFDATA2LSB then (if bo \<noteq> LittleEndian then - errno_code LIBBPF_ERRNO__ENDIAN else 0)
      else if d = ELFDATA2MSB then (if bo \<noteq> BigEndian then - errno_code LIBBPF_ERRNO__ENDIAN else 0)
      else - errno_code LIBBPF_ERRNO__ENDIAN)"

text \<open>The three stages that look at the file.\<close>

definition collect_stages :: "'w elf_os \<Rightarrow> efile \<Rightarrow> bpf_object \<Rightarrow> bool \<Rightarrow> u32 \<Rightarrow> ('w, int \<times> efile \<times> bpf_object) prog" where
  "collect_stages os ef obj needs_kver flags =
     andthen (from_option (ef_elf ef)) (\<lambda>e.
     andthen (bpf_object__elf_collect os e ef obj flags) (\<lambda>(err, ef, obj).
     if err \<noteq> 0 then ret (err, ef, obj)
     else andthen (bpf_object__collect_reloc (ebpf os) ef obj) (\<lambda>(err, obj).
     if err \<noteq> 0 then ret (err, ef, obj)
     else ret (bpf_object__validate obj needs_kver, ef, obj))))"

definition open_object :: "'w elf_os \<Rightarrow> string \<Rightarrow> bytes \<Rightarrow> bool \<Rightarrow> u32 \<Rightarrow> ('w, int + bpf_object) prog" where
  "open_object os path buf needs_kver flags =
     (let out = (\<lambda>err ef obj. andthen (bpf_object__elf_finish os ef) (\<lambda>_.
                   andthen (bpf_object__close (ebpf os) obj) (\<lambda>_. ret (Inl err)))) in
      if \<not> elf_version os then ret (Inl (- errno_code LIBBPF_ERRNO__LIBELF))
      else andthen (bpf_object__new (ebpf os) path buf) (\<lambda>r.
      case r of
        Inl err \<Rightarrow> ret (Inl err)
      | Inr (obj, ef) \<Rightarrow>
      andthen (bpf_object__elf_init os path ef) (\<lambda>(err, ef).
      if err \<noteq> 0 then out err ef obj
      else
      let err = bpf_object__check_endianness (host_bo (ebpf os)) ef in
      if err \<noteq> 0 then out err ef obj
      else andthen (collect_stages os ef obj needs_kver flags) (\<lambda>(err, ef, obj).
      if err \<noteq> 0 then out err ef obj
      else andthen (bpf_object__elf_finish os ef) (\<lambda>_. ret (Inr obj))))))"

record bpf_object_open_attr =
  oa_file :: "string option"
  oa_prog_type :: bpf_prog_type

definition open_xattr_flags :: "'w elf_os \<Rightarrow> bpf_object_open_attr \<Rightarrow> u32 \<Rightarrow> ('w, int + bpf_object) prog" where
  "open_xattr_flags os attr flags =
     (case oa_file attr of
        None \<Rightarrow> ret (Inl 0)
      | Some path \<Rightarrow> open_object os path [] (bpf_prog_type__needs_kver (oa_prog_type attr)) flags)"

definition bpf_object__open_xattr :: "'w elf_os \<Rightarrow> bpf_object_open_attr \<Rightarrow> ('w, int + bpf_object) prog" where
  "bpf_object__open_xattr os attr = open_xattr_flags os attr 0"

definition bpf_object__open :: "'w elf_os \<Rightarrow> string option \<Rightarrow> ('w, int + bpf_object) prog" where
  "bpf_object__open os path = bpf_object__open_xattr os \<lparr> oa_file = path, oa_prog_type = BPF_PROG_TYPE_UNSPEC \<rparr>"

text \<open>The name made of the address and the size of a buffer, in hexadecimal.\<close>

fun hex_digits :: "nat \<Rightarrow> string" where
  "hex_digits n = (if n < 16 then [''0123456789abcdef'' ! n] else hex_digits (n div 16) @ [''0123456789abcdef'' ! (n mod 16)])"

declare hex_digits.simps [simp del]

text \<open>The constant \<open>true\<close> is passed for the flags.\<close>

definition bpf_object__open_buffer :: "'w elf_os \<Rightarrow> nat \<Rightarrow> bytes \<Rightarrow> string option \<Rightarrow> ('w, int + bpf_object) prog" where
  "bpf_object__open_buffer os addr buf name =
     (if addr = 0 \<or> buf = [] then ret (Inl 0)
      else open_object os (case name of None \<Rightarrow> take 63 (hex_digits addr @ ''-'' @ hex_digits (length buf)) | Some n \<Rightarrow> n) buf True 1)"

text \<open>What a caller takes for an error: a null pointer and the last 4095 addresses.\<close>

definition IS_ERR_OR_NULL :: "int + bpf_object \<Rightarrow> bool" where
  "IS_ERR_OR_NULL r = (case r of Inl n \<Rightarrow> -4095 \<le> n \<and> n \<le> 0 | Inr _ \<Rightarrow> False)"

end
