(* ===== verification/Qsort.thy ===== *)
theory Qsort
  imports Main "HOL-Library.Multiset"
begin

text \<open>
  The sort of the C library, as \<open>libbpf.c\<close> and \<open>btf.c\<close> use it: the locale \<open>sorting\<close> has what the standard says of \<open>qsort\<close>, which
  leaves the order of equal elements open, and insertion sort is an instance.
\<close>

definition consistent :: "('a \<Rightarrow> 'a \<Rightarrow> int) \<Rightarrow> 'a set \<Rightarrow> bool" where
  "consistent cmp A \<longleftrightarrow>
     (\<forall>a \<in> A. \<forall>b \<in> A. cmp a b \<le> 0 \<or> cmp b a \<le> 0) \<and>
     (\<forall>a \<in> A. \<forall>b \<in> A. \<forall>c \<in> A. cmp a b \<le> 0 \<longrightarrow> cmp b c \<le> 0 \<longrightarrow> cmp a c \<le> 0)"

locale sorting =
  fixes qs :: "('a \<Rightarrow> 'a \<Rightarrow> int) \<Rightarrow> 'a list \<Rightarrow> 'a list"
  assumes permutes: "mset (qs cmp xs) = mset xs"
    and sorts: "consistent cmp (set xs) \<Longrightarrow> sorted_wrt (\<lambda>a b. cmp a b \<le> 0) (qs cmp xs)"
begin

lemma qs_set: "set (qs cmp xs) = set xs"
  by (metis permutes set_mset_mset)

lemma qs_key:
  fixes key :: "'a \<Rightarrow> 'k::linorder"
  assumes "\<And>a b. a \<in> set xs \<Longrightarrow> b \<in> set xs \<Longrightarrow> cmp a b \<le> 0 \<longleftrightarrow> key a \<le> key b"
  shows "sorted (map key (qs cmp xs))"
proof -
  have "consistent cmp (set xs)" using assms by (auto simp: consistent_def)
  from sorts [OF this] have "sorted_wrt (\<lambda>a b. key a \<le> key b) (qs cmp xs)"
    by (rule sorted_wrt_mono_rel [rotated]) (use assms in \<open>auto simp: qs_set\<close>)
  then show ?thesis by (simp add: sorted_wrt_map)
qed

end

text \<open>Insertion sort with a comparison function.\<close>

fun cmp_insert :: "('a \<Rightarrow> 'a \<Rightarrow> int) \<Rightarrow> 'a \<Rightarrow> 'a list \<Rightarrow> 'a list" where
  "cmp_insert cmp x [] = [x]"
| "cmp_insert cmp x (y # ys) = (if cmp x y \<le> 0 then x # y # ys else y # cmp_insert cmp x ys)"

definition cmp_sort :: "('a \<Rightarrow> 'a \<Rightarrow> int) \<Rightarrow> 'a list \<Rightarrow> 'a list" where
  "cmp_sort cmp xs = foldr (cmp_insert cmp) xs []"

lemma mset_cmp_insert: "mset (cmp_insert cmp x xs) = add_mset x (mset xs)"
  by (induction xs) auto

lemma mset_cmp_sort: "mset (cmp_sort cmp xs) = mset xs"
  by (induction xs) (simp_all add: cmp_sort_def mset_cmp_insert)

lemma set_cmp_insert: "set (cmp_insert cmp x xs) = insert x (set xs)"
  by (induction xs) auto

lemma consistent_subset: "consistent cmp B \<Longrightarrow> A \<subseteq> B \<Longrightarrow> consistent cmp A"
  unfolding consistent_def by (meson subsetD)

lemma sorted_cmp_insert:
  "consistent cmp (insert x (set xs)) \<Longrightarrow> sorted_wrt (\<lambda>a b. cmp a b \<le> 0) xs \<Longrightarrow> sorted_wrt (\<lambda>a b. cmp a b \<le> 0) (cmp_insert cmp x xs)"
proof (induction xs)
  case (Cons y ys)
  have c: "consistent cmp (insert x (set ys))" by (rule consistent_subset [OF Cons.prems(1)]) auto
  show ?case
  proof (cases "cmp x y \<le> 0")
    case True
    have "cmp x z \<le> 0" if "z \<in> set ys" for z
    proof -
      have "cmp y z \<le> 0" using Cons.prems(2) that by simp
      then show ?thesis using Cons.prems(1) [unfolded consistent_def, THEN conjunct2, rule_format, of x y z] True that by simp
    qed
    then show ?thesis using True Cons.prems(2) by simp
  next
    case False
    then have "cmp y x \<le> 0" using Cons.prems(1) [unfolded consistent_def, THEN conjunct1, rule_format, of x y] by simp
    then show ?thesis using False Cons.IH [OF c] Cons.prems(2) by (simp add: set_cmp_insert)
  qed
qed simp

interpretation insertion: sorting cmp_sort
proof
  show "mset (cmp_sort cmp xs) = mset xs" for cmp :: "'a \<Rightarrow> 'a \<Rightarrow> int" and xs by (rule mset_cmp_sort)
  show "sorted_wrt (\<lambda>a b. cmp a b \<le> 0) (cmp_sort cmp xs)" if "consistent cmp (set xs)" for cmp :: "'a \<Rightarrow> 'a \<Rightarrow> int" and xs
    using that
  proof (induction xs)
    case (Cons x xs)
    have "set (cmp_sort cmp xs) = set xs" by (metis mset_cmp_sort set_mset_mset)
    moreover have "consistent cmp (set xs)" by (rule consistent_subset [OF Cons.prems]) auto
    ultimately show ?case using Cons by (simp add: cmp_sort_def sorted_cmp_insert)
  qed (simp add: cmp_sort_def)
qed

end
