(* ===== verification/Elf_Wf.thy ===== *)
theory Elf_Wf
  imports Elf_Open Load_Fds Relocate Qsort
begin

text \<open>
  What \<open>bpf_object__open\<close> gives: an object in which every descriptor is marked as not open, every program has its instructions
  and its name, and every entry for a relocation points into them and into the maps.
\<close>

section \<open>The order of the maps\<close>

text \<open>The difference of two offsets is exact when both fit in 31 bits.\<close>

lemma compare_bpf_map_le:
  assumes "map_offset a < 2 ^ 31" "map_offset b < 2 ^ 31"
  shows "compare_bpf_map a b \<le> 0 \<longleftrightarrow> map_offset a \<le> map_offset b"
proof -
  have u: "uint (map_offset a) < 2 ^ 31" "uint (map_offset b) < 2 ^ 31"
    using assms by (simp_all add: word_less_def)
  have "uint (map_offset a - map_offset b) = (uint (map_offset a) - uint (map_offset b)) mod 2 ^ 64"
    by (simp add: uint_word_ariths)
  then have "uint (ucast (map_offset a - map_offset b) :: 32 word) = (uint (map_offset a) - uint (map_offset b)) mod 2 ^ 32"
    by (simp add: unsigned_ucast_eq take_bit_eq_mod mod_mod_cancel)
  then have "compare_bpf_map a b = signed_take_bit 31 ((uint (map_offset a) - uint (map_offset b)) mod 2 ^ 32)"
    by (simp add: compare_bpf_map_def sint_uint)
  also have "\<dots> = signed_take_bit 31 (uint (map_offset a) - uint (map_offset b))"
    unfolding take_bit_eq_mod [symmetric] by (simp add: signed_take_bit_take_bit)
  also have "\<dots> = uint (map_offset a) - uint (map_offset b)"
    using u uint_ge_0 [of "map_offset a"] uint_ge_0 [of "map_offset b"] by (intro signed_take_bit_int_eq_self) linarith+
  finally show ?thesis by (simp add: word_le_def)
qed

section \<open>Objects that have been opened\<close>

text \<open>A program as \<open>bpf_program__init\<close> makes it, whatever is collected for it later.\<close>

definition fresh_program :: "bpf_program \<Rightarrow> bool" where
  "fresh_program p \<longleftrightarrow> inst_nr p = -1 \<and> inst_fds p = [] \<and> prog_btf_fd p = -1 \<and> insns p \<noteq> [] \<and> main_prog_cnt p = 0 \<and>
     \<not> insns_dangling p \<and> preprocessor p = None \<and> pin_name p = bpf_program__pin_name (section_name p)"

definition fresh_map :: "bpf_map \<Rightarrow> bool" where
  "fresh_map m \<longleftrightarrow> map_fd m = -1 \<and> inner_map_fd m = -1"

text \<open>An object at any time while it is opened.\<close>

definition in_progress :: "bpf_object \<Rightarrow> bool" where
  "in_progress obj \<longleftrightarrow> \<not> loaded obj \<and> list_all fresh_program (programs obj) \<and> list_all fresh_map (maps obj) \<and>
     length (license obj) < 64 \<and> (obj_btf_ext obj \<noteq> None \<longrightarrow> obj_btf obj \<noteq> None)"

text \<open>An entry for a relocation that loading can use.\<close>

fun reloc_valid :: "bpf_object \<Rightarrow> bpf_program \<Rightarrow> reloc_desc \<Rightarrow> bool" where
  "reloc_valid obj p (RELO_LD64 i k) \<longleftrightarrow> i < length (insns p) \<and> code (insns p ! i) = BPF_LD_IMM_DW \<and> k < length (maps obj)"
| "reloc_valid obj p (RELO_CALL i off) \<longleftrightarrow>
     i < length (insns p) \<and> code (insns p ! i) = BPF_JMP_CALL \<and> src_reg (insns p ! i) = BPF_PSEUDO_CALL \<and> has_pseudo_calls obj"

definition opened :: "bpf_object \<Rightarrow> bool" where
  "opened obj \<longleftrightarrow> in_progress obj \<and>
     (\<forall>p \<in> set (programs obj). prog_name p \<noteq> None \<and> list_all (reloc_valid obj p) (relocs p)) \<and>
     ((\<forall>m \<in> set (maps obj). map_offset m < 2 ^ 31) \<longrightarrow> sorted (map map_offset (maps obj)))"

named_theorems stage_specs \<open>what the stages of opening an object keep\<close>

lemma strdup_spec: "wlp (strdup os s) (\<lambda>r w'. w' = w \<and> (r = None \<or> r = Some s)) w"
  by (simp add: strdup_def)

lemma insns_at_length: "insns_at bo b off n = Some l \<Longrightarrow> length l = n"
  by (induction n arbitrary: off l) (auto split: Option.bind_splits)

lemma program_init_spec [stage_specs]:
  "wlp (bpf_program__init os d s i) (\<lambda>r _. \<forall>p. r = Inr p \<longrightarrow> fresh_program p \<and> relocs p = [] \<and> prog_name p = None) w"
proof -
  have errout: "wlp (andthen (bpf_program__exit os p) (\<lambda>_. ret (Inl e))) (\<lambda>r _. \<forall>p. r = Inr p \<longrightarrow> Q p) v" for p e Q v
    by (rule wlp_bind [OF wlp_any]) simp
  have "0 < d_size d div 8" if "\<not> d_size d < 8" using that by (simp add: div_greater_zero_iff)
  then show ?thesis
    unfolding bpf_program__init_def Let_def
    by (intro wlp_if wlp_bind [OF strdup_spec] wlp_case_option errout wlp_bind [OF malloc_spec] wlp_bind [OF from_option_spec])
       (auto simp: fresh_program_def zero_program_def split: Option.bind_splits dest!: insns_at_length)
qed

lemma add_program_spec [stage_specs]:
  "wlp (bpf_object__add_program os obj d s i) (\<lambda>(err, obj') _. obj' = obj \<or>
     (\<exists>p. fresh_program p \<and> relocs p = [] \<and> prog_name p = None \<and> obj' = obj\<lparr>programs := programs obj @ [p]\<rparr>)) w"
  unfolding bpf_object__add_program_def
  by (intro wlp_bind [OF program_init_spec] wlp_case_sum wlp_bind [OF malloc_spec] wlp_if wlp_bind [OF wlp_any]) auto

section \<open>Collecting the sections\<close>

text \<open>The last character of the license is never written.\<close>

definition collecting :: "collected \<Rightarrow> bool" where
  "collecting st = (case st of (obj, ef, ext) \<Rightarrow>
     in_progress obj \<and> maps obj = [] \<and> obj_btf_ext obj = None \<and> list_all (\<lambda>p. relocs p = []) (programs obj) \<and>
     length (license_buf ef) = 64 \<and> license_buf ef ! 63 = 0 \<and> (strtabidx ef \<noteq> 0 \<longrightarrow> symbols ef \<noteq> None))"

lemma data_bytes_length: "data_bytes d off n = Some b \<Longrightarrow> length b = n"
  by (auto simp: data_bytes_def read_bytes_def split: if_splits Option.bind_splits)

lemma license_text_length:
  assumes "length b = 64" "b ! 63 = 0"
  shows "length (license_text b) < 64"
proof -
  have "length (takeWhile (\<lambda>x. x \<noteq> 0) b) \<noteq> 64"
    using assms nth_mem [of 63 "takeWhile (\<lambda>x. x \<noteq> 0) b"] takeWhile_nth [of 63 "\<lambda>x. x \<noteq> 0" b]
    by (auto dest: set_takeWhileD)
  then show ?thesis using length_takeWhile_le [of "\<lambda>x. x \<noteq> 0" b] assms(1) by (simp add: license_text_def)
qed

lemma license_collecting:
  assumes "collecting (obj, ef, ext)" "bpf_object__init_license ef obj d = Some (ef', obj')"
  shows "collecting (obj', ef', ext)"
proof -
  let ?n = "min (d_size d) 63"
  obtain b where b: "data_bytes d 0 ?n = Some b"
    and e: "ef' = ef\<lparr>license_buf := b @ drop ?n (license_buf ef)\<rparr>" "obj' = obj\<lparr>license := license_text (b @ drop ?n (license_buf ef))\<rparr>"
    using assms(2) by (auto simp: bpf_object__init_license_def Let_def split: Option.bind_splits)
  have l: "length (b @ drop ?n (license_buf ef)) = 64" "(b @ drop ?n (license_buf ef)) ! 63 = 0"
    using assms(1) data_bytes_length [OF b] by (auto simp: collecting_def nth_append)
  show ?thesis
    using assms(1) license_text_length [OF l] l by (simp add: e collecting_def in_progress_def)
qed

lemma kversion_collecting:
  "collecting (obj, ef, ext) \<Longrightarrow> bpf_object__init_kversion bo obj d = Some (err, obj') \<Longrightarrow> collecting (obj', ef, ext)"
  by (auto simp: bpf_object__init_kversion_def collecting_def in_progress_def split: if_splits Option.bind_splits)

lemma collecting_updates [simp]:
  "collecting (obj, ef, Some d) = collecting (obj, ef, None)"
  "collecting (obj\<lparr>maps_shndx := i\<rparr>, ef, x) = collecting (obj, ef, x)"
  "collecting (obj\<lparr>text_shndx := i\<rparr>, ef, x) = collecting (obj, ef, x)"
  "collecting (obj, ef, x) \<Longrightarrow> collecting (obj\<lparr>obj_btf := b\<rparr>, ef, x)"
  "collecting (obj, ef\<lparr>reloc_secs := l\<rparr>, x) = collecting (obj, ef, x)"
  "collecting (obj, ef, x) \<Longrightarrow> collecting (obj, ef\<lparr>symbols := Some d, strtabidx := n\<rparr>, x)"
  "collecting (obj, ef, x) \<Longrightarrow> fresh_program p \<Longrightarrow> relocs p = [] \<Longrightarrow> collecting (obj\<lparr>programs := programs obj @ [p]\<rparr>, ef, x)"
  by (simp_all add: collecting_def in_progress_def)

lemma collect_btf_spec [stage_specs]: "wlp (collect_btf os obj d) (\<lambda>obj' _. \<exists>b. obj' = obj\<lparr>obj_btf := b\<rparr>) w"
  unfolding collect_btf_def
  by (intro wlp_bind [OF wlp_any] wlp_case_sum wlp_case_prod) (simp only: wlp_simps, rule exI, rule refl)+

lemma add_program_collecting:
  assumes "collecting (obj, ef, ext)"
  shows "wlp (bpf_object__add_program os obj d s i) (\<lambda>(err, obj') _. collecting (obj', ef, ext)) w"
  by (rule wlp_mono [OF add_program_spec]) (use assms in auto)

lemma collect_section_spec [stage_specs]:
  assumes "collecting st"
  shows "wlp (collect_section os e i sh name d st) (\<lambda>(err, st') _. collecting st') w"
proof -
  obtain obj ef ext where st: "st = (obj, ef, ext)" by (metis prod_cases3)
  note c = assms [unfolded st]
  then have n: "collecting (obj, ef, None)" by (cases ext) simp_all
  have c': "collecting (if b then obj\<lparr>text_shndx := i\<rparr> else obj, ef, ext)" for b using c by simp
  show ?thesis
    unfolding collect_section_def st prod.case
    by (intro wlp_if wlp_bind [OF from_option_spec] wlp_bind [OF collect_btf_spec] wlp_bind [OF add_program_collecting [OF c']]
        wlp_bind [OF malloc_spec] wlp_case_prod) (use c in \<open>auto dest: license_collecting [OF c] kversion_collecting [OF c] simp: n\<close>)
qed

lemma collect_sections_spec [stage_specs]:
  "collecting st \<Longrightarrow> wlp (collect_sections os e i scns st) (\<lambda>(err, st') _. collecting st') w"
proof (induction scns arbitrary: i st w)
  case (Cons scn scns)
  show ?case
    unfolding collect_sections.simps Let_def
    by (intro wlp_case_option wlp_case_prod wlp_bind [OF collect_section_spec [OF Cons.prems]] wlp_if Cons.IH) (auto simp: Cons.prems)
qed simp

lemma collect_btf_ext_spec [stage_specs]:
  "in_progress obj \<Longrightarrow> wlp (collect_btf_ext os obj ext) (\<lambda>obj' w'. w' = w \<and> in_progress obj' \<and> (\<exists>x. obj' = obj\<lparr>obj_btf_ext := x\<rparr>)) w"
  unfolding collect_btf_ext_def Let_def
  by (intro wlp_case_option wlp_if wlp_bind [OF from_option_spec] wlp_bind [OF malloc_spec]) (auto simp: in_progress_def intro: exI [of _ "obj_btf_ext obj"])

section \<open>Maps and names\<close>

lemma fill_maps_spec:
  "wlp (fill_maps os strict strptr d n ss) (\<lambda>(err, ms) w'. w' = w \<and> list_all fresh_map ms) w"
proof (induction ss arbitrary: w)
  case (Cons s ss)
  show ?case
    unfolding fill_maps.simps Let_def
    by (intro wlp_if wlp_bind [OF from_option_spec] wlp_bind [OF strdup_spec] wlp_case_option wlp_bind [OF Cons.IH] wlp_case_prod)
       (auto simp: fresh_map_def blank_map_def list_all_iff)
qed simp

definition maps_sorted :: "bpf_object \<Rightarrow> bool" where
  "maps_sorted obj \<longleftrightarrow> ((\<forall>m \<in> set (maps obj). map_offset m < 2 ^ 31) \<longrightarrow> sorted (map map_offset (maps obj)))"

lemma init_maps_spec:
  assumes "sorting (qsort os)" "maps obj = []"
  shows "wlp (bpf_object__init_maps os e ef obj flags)
    (\<lambda>(err, obj') w'. w' = w \<and> (\<exists>ms. obj' = obj\<lparr>maps := ms\<rparr> \<and> list_all fresh_map ms \<and> (err = 0 \<longrightarrow> maps_sorted obj'))) w"
proof -
  have sorted: "maps_sorted (obj\<lparr>maps := qsort os compare_bpf_map ms\<rparr>)" for ms
    unfolding maps_sorted_def
    by (auto simp: sorting.qs_set [OF assms(1)] intro!: sorting.qs_key [OF assms(1)] compare_bpf_map_le)
  have kept: "list_all fresh_map ms \<Longrightarrow> list_all fresh_map (qsort os compare_bpf_map ms)" for ms
    by (simp add: list_all_iff sorting.qs_set [OF assms(1)])
  have none: "\<exists>ms. obj = obj\<lparr>maps := ms\<rparr> \<and> list_all fresh_map ms" "maps_sorted obj"
    using assms(2) by (auto intro: exI [of _ "[]"] simp: maps_sorted_def)
  show ?thesis
    unfolding bpf_object__init_maps_def Let_def
    by (intro wlp_if wlp_case_option wlp_bind [OF malloc_spec] wlp_bind [OF fill_maps_spec] wlp_case_prod)
       (use none in \<open>auto intro: sorted kept\<close>)
qed

lemma find_prog_name_error: "find_prog_name strptr i ss \<noteq> Inl 0"
  by (induction ss) (auto simp: LIBBPF_ERRNO__START_def split: option.split)

lemma prog_names_spec:
  "(\<And>i. name_of i \<noteq> Inl 0) \<Longrightarrow> list_all (\<lambda>p. fresh_program p \<and> relocs p = []) ps \<Longrightarrow>
   wlp (prog_names_loop os name_of t ps)
     (\<lambda>(err, ps') w'. w' = w \<and> list_all (\<lambda>p. fresh_program p \<and> relocs p = []) ps' \<and>
       (err = 0 \<longrightarrow> list_all (\<lambda>p. prog_name p \<noteq> None) ps')) w"
proof (induction ps arbitrary: w)
  case (Cons p ps)
  then have ps: "list_all (\<lambda>p. fresh_program p \<and> relocs p = []) ps" by simp
  show ?case
    unfolding prog_names_loop.simps
    by (intro wlp_case_sum wlp_case_option wlp_bind [OF strdup_spec] wlp_if wlp_bind [OF Cons.IH [OF Cons.prems(1) ps]] wlp_case_prod)
       (use Cons.prems in \<open>auto simp: fresh_program_def ENOMEM_def EINVAL_def\<close>)
qed simp

lemma init_prog_names_spec:
  assumes "list_all (\<lambda>p. fresh_program p \<and> relocs p = []) (programs obj)"
  shows "wlp (bpf_object__init_prog_names os e ef obj) (\<lambda>(err, obj') w'. w' = w \<and> (\<exists>ps. obj' = obj\<lparr>programs := ps\<rparr> \<and>
    list_all (\<lambda>p. fresh_program p \<and> relocs p = []) ps \<and> (err = 0 \<longrightarrow> list_all (\<lambda>p. prog_name p \<noteq> None) ps))) w"
proof -
  have "\<exists>ps. obj = obj\<lparr>programs := ps\<rparr> \<and> list_all (\<lambda>p. fresh_program p \<and> relocs p = []) ps \<and> list_all (\<lambda>p. prog_name p \<noteq> None) ps"
    if "programs obj = []" using that by (intro exI [of _ "[]"]) simp
  then show ?thesis
    unfolding bpf_object__init_prog_names_def
    by (intro wlp_if wlp_bind [OF from_option_spec] wlp_bind [OF prog_names_spec [OF find_prog_name_error assms]] wlp_case_prod) auto
qed

text \<open>An object after its sections have been collected.\<close>

definition collected_ok :: "int \<Rightarrow> bpf_object \<Rightarrow> bool" where
  "collected_ok err obj \<longleftrightarrow> in_progress obj \<and> list_all (\<lambda>p. relocs p = []) (programs obj) \<and>
     (err = 0 \<longrightarrow> list_all (\<lambda>p. prog_name p \<noteq> None) (programs obj) \<and> maps_sorted obj)"

lemma elf_collect_spec:
  assumes "sorting (qsort os)" "collecting (obj, ef, None)"
  shows "wlp (bpf_object__elf_collect os e ef obj flags) (\<lambda>(err, ef', obj') _. collected_ok err obj') w"
proof -
  have start: "collected_ok err obj'" if "collecting (obj', ef', x)" "err \<noteq> 0" for err obj' ef' x
    using that by (simp add: collecting_def collected_ok_def)
  have maps: "wlp (if maps_shndx obj' \<ge> 0 then bpf_object__init_maps os e ef' obj' flags else ret (0, obj'))
      (\<lambda>(err, obj'') _. in_progress obj'' \<and> list_all (\<lambda>p. relocs p = []) (programs obj'') \<and> (err = 0 \<longrightarrow> maps_sorted obj'')) w"
    if "in_progress obj'" "list_all (\<lambda>p. relocs p = []) (programs obj')" "maps obj' = []" for obj' ef' w
    by (intro wlp_if wlp_mono [OF init_maps_spec [OF assms(1) that(3)]]) (use that in \<open>auto simp: in_progress_def maps_sorted_def\<close>)
  have names: "wlp (bpf_object__init_prog_names os' e ef' obj') (\<lambda>(err, obj'') _. collected_ok err obj'') w"
    if "in_progress obj'" "list_all (\<lambda>p. relocs p = []) (programs obj')" "maps_sorted obj'" for os' obj' ef' w
    by (rule wlp_mono [OF init_prog_names_spec])
       (use that in \<open>auto simp: in_progress_def collected_ok_def maps_sorted_def list_all_iff\<close>)
  have ext: "wlp (collect_btf_ext os' obj' x)
      (\<lambda>obj'' _. in_progress obj'' \<and> list_all (\<lambda>p. relocs p = []) (programs obj'') \<and> maps obj'' = []) w"
    if "in_progress obj'" "list_all (\<lambda>p. relocs p = []) (programs obj')" "maps obj' = []" for os' obj' x w
    by (rule wlp_mono [OF collect_btf_ext_spec]) (use that in auto)
  show ?thesis
    unfolding bpf_object__elf_collect_def
    apply (intro wlp_if wlp_bind [OF collect_sections_spec [OF assms(2)]] wlp_case_prod)
    subgoal using start [OF assms(2)] by (simp add: LIBBPF_ERRNO__START_def)
    subgoal by (auto dest: start)
    subgoal by (auto dest: start [where err = "errno_code LIBBPF_ERRNO__FORMAT"] simp: LIBBPF_ERRNO__START_def)
    subgoal
      by (intro wlp_bind [OF ext] wlp_bind [OF maps] wlp_bind [OF names] wlp_if wlp_case_prod)
         (auto simp: collected_ok_def collecting_def)
    done
qed

section \<open>Relocations\<close>

lemma reloc_valid_mono: "reloc_valid obj p d \<Longrightarrow> (has_pseudo_calls obj \<Longrightarrow> h) \<Longrightarrow> reloc_valid (obj\<lparr>has_pseudo_calls := h\<rparr>) p d"
  by (cases d) auto

lemma reloc_valid_programs [simp]:
  "reloc_valid (obj\<lparr>programs := ps\<rparr>) = reloc_valid obj" "reloc_valid obj (p\<lparr>relocs := l\<rparr>) = reloc_valid obj p"
proof -
  have "reloc_valid (obj\<lparr>programs := ps\<rparr>) q d = reloc_valid obj q d" "reloc_valid obj (p\<lparr>relocs := l\<rparr>) d = reloc_valid obj p d" for q d
    by (cases d; simp)+
  then show "reloc_valid (obj\<lparr>programs := ps\<rparr>) = reloc_valid obj" "reloc_valid obj (p\<lparr>relocs := l\<rparr>) = reloc_valid obj p"
    by (simp_all add: fun_eq_iff)
qed

lemma collect_reloc_valid:
  assumes "collect_reloc p obj rel sy = Some (Inr d)"
  shows "reloc_valid (if is_call d then obj\<lparr>has_pseudo_calls := True\<rparr> else obj) p d"
  using assms by (auto simp: collect_reloc_def Let_def not_le split: option.splits if_splits)

lemma collect_relocs_valid:
  "collect_relocs syms rels p obj = Some (err, p', obj') \<Longrightarrow> list_all (reloc_valid obj p) (relocs p) \<Longrightarrow>
     list_all (reloc_valid obj' p') (relocs p') \<and>
     (\<exists>rs h. p' = p\<lparr>relocs := rs\<rparr> \<and> obj' = obj\<lparr>has_pseudo_calls := h\<rparr> \<and> (has_pseudo_calls obj \<longrightarrow> h))"
proof (induction rels arbitrary: p obj)
  case Nil
  then show ?case by (auto intro: exI [of _ "relocs p"] exI [of _ "has_pseudo_calls obj"])
next
  case (Cons rel rels)
  obtain d where d: "collect_reloc p obj rel (rel_sym syms rel) = Some d" using Cons.prems(1) by (auto split: Option.bind_splits)
  show ?case
  proof (cases d)
    case (Inl e)
    then show ?thesis using Cons.prems d by (auto intro: exI [of _ "relocs p"] exI [of _ "has_pseudo_calls obj"])
  next
    case (Inr x)
    let ?obj = "if is_call x then obj\<lparr>has_pseudo_calls := True\<rparr> else obj"
    have v: "list_all (reloc_valid ?obj (p\<lparr>relocs := relocs p @ [x]\<rparr>)) (relocs p @ [x])"
      using Cons.prems(2) collect_reloc_valid [of p obj rel "rel_sym syms rel" x] d Inr
      by (auto simp: list_all_iff intro: reloc_valid_mono)
    have "collect_relocs syms rels (p\<lparr>relocs := relocs p @ [x]\<rparr>) ?obj = Some (err, p', obj')" using Cons.prems(1) d Inr by simp
    from Cons.IH [OF this] v show ?thesis by (cases "is_call x") auto
  qed
qed

lemma collect_program_reloc_spec:
  assumes "list_all (reloc_valid obj p) (relocs p)"
  shows "wlp (collect_program_reloc os e sy sh d p obj) (\<lambda>(err, p', obj') w'. w' = w \<and> list_all (reloc_valid obj' p') (relocs p') \<and>
    (\<exists>rs h. p' = p\<lparr>relocs := rs\<rparr> \<and> obj' = obj\<lparr>has_pseudo_calls := h\<rparr> \<and> (has_pseudo_calls obj \<longrightarrow> h))) w"
proof -
  have "\<exists>rs h. p = p\<lparr>relocs := rs\<rparr> \<and> obj = obj\<lparr>has_pseudo_calls := h\<rparr> \<and> (has_pseudo_calls obj \<longrightarrow> h)"
    by (rule exI [of _ "relocs p"], rule exI [of _ "has_pseudo_calls obj"]) simp
  moreover have "list_all (reloc_valid obj' p') (relocs p') \<and>
      (\<exists>rs h. p' = p\<lparr>relocs := rs\<rparr> \<and> obj' = obj\<lparr>has_pseudo_calls := h\<rparr> \<and> (has_pseudo_calls obj \<longrightarrow> h))"
    if "collect_relocs syms rels (p\<lparr>relocs := []\<rparr>) obj = Some (err, p', obj')" for syms rels err p' obj'
    using collect_relocs_valid [OF that] by auto
  ultimately show ?thesis
    unfolding collect_program_reloc_def Let_def bpf_program__collect_reloc_def
    by (intro wlp_if wlp_bind [OF malloc_spec]) (use assms in \<open>auto split: option.split if_splits\<close>)
qed

definition ready_to_load :: "bpf_object \<Rightarrow> bool" where
  "ready_to_load obj \<longleftrightarrow> in_progress obj \<and> maps_sorted obj \<and>
     (\<forall>p \<in> set (programs obj). prog_name p \<noteq> None \<and> list_all (reloc_valid obj p) (relocs p))"

lemma opened_iff: "opened obj \<longleftrightarrow> ready_to_load obj"
  by (auto simp: opened_def ready_to_load_def maps_sorted_def)

lemma set_update_prog: "set (update_prog i q ps) \<subseteq> insert q (set ps)"
  by (induction ps) auto

lemma find_prog_by_idx_mem: "bpf_object__find_prog_by_idx obj i = Some p \<Longrightarrow> p \<in> set (programs obj)"
  by (auto simp: bpf_object__find_prog_by_idx_def find_Some_iff)

lemma reloc_keeps_ready:
  assumes "ready_to_load obj" "p \<in> set (programs obj)" "list_all (reloc_valid obj' p') (relocs p')"
    "p' = p\<lparr>relocs := rs\<rparr>" "obj' = obj\<lparr>has_pseudo_calls := h\<rparr>" "has_pseudo_calls obj \<longrightarrow> h"
  shows "ready_to_load (obj'\<lparr>programs := update_prog i p' (programs obj')\<rparr>)"
proof -
  have sub: "set (update_prog i p' (programs obj')) \<subseteq> insert p' (set (programs obj))"
    using set_update_prog [of i p' "programs obj'"] by (simp add: assms(5))
  have p: "fresh_program p" "prog_name p \<noteq> None" using assms(1,2) by (auto simp: ready_to_load_def in_progress_def list_all_iff)
  have "fresh_program q \<and> prog_name q \<noteq> None \<and> list_all (reloc_valid obj' q) (relocs q)" if "q \<in> insert p' (set (programs obj))" for q
  proof (cases "q = p'")
    case True
    then show ?thesis using p assms(3,4) by (simp add: fresh_program_def)
  next
    case False
    then have "q \<in> set (programs obj)" using that by simp
    then show ?thesis
      using assms(1,5,6) reloc_valid_mono [of obj q _ h] by (fastforce simp: ready_to_load_def in_progress_def list_all_iff)
  qed
  then show ?thesis
    using assms(1,5) sub by (auto simp: ready_to_load_def in_progress_def maps_sorted_def list_all_iff)
qed

lemma collect_reloc_secs_spec:
  "ready_to_load obj \<Longrightarrow> wlp (collect_reloc_secs os e syms secs obj) (\<lambda>(err, obj') w'. w' = w \<and> ready_to_load obj' \<and> obj_btf obj' = obj_btf obj) w"
proof (induction secs arbitrary: obj w)
  case (Cons sec secs)
  obtain sh d where sec: "sec = (sh, d)" by fastforce
  have valid: "list_all (reloc_valid obj p) (relocs p)" if "bpf_object__find_prog_by_idx obj i = Some p" for i p
    using find_prog_by_idx_mem [OF that] Cons.prems by (simp add: ready_to_load_def)
  have keep: "ready_to_load (obj\<lparr>has_pseudo_calls := h, programs := update_prog j (p\<lparr>relocs := rs\<rparr>) (programs obj)\<rparr>)"
    if "bpf_object__find_prog_by_idx obj i = Some p" "list_all (reloc_valid (obj\<lparr>has_pseudo_calls := h\<rparr>) p) rs"
      "has_pseudo_calls obj \<longrightarrow> h" for i p rs h j
    using reloc_keeps_ready [OF Cons.prems find_prog_by_idx_mem [OF that(1)], of "obj\<lparr>has_pseudo_calls := h\<rparr>" "p\<lparr>relocs := rs\<rparr>" rs h j] that(2,3)
    by simp
  have step: "wlp (collect_program_reloc os e sy sh d p obj) (\<lambda>(err, p', obj') w'. w' = w \<and>
      ready_to_load (obj'\<lparr>programs := update_prog i p' (programs obj')\<rparr>) \<and> obj_btf obj' = obj_btf obj) w"
    if "bpf_object__find_prog_by_idx obj i = Some p" for i p sy w
    by (rule wlp_mono [OF collect_program_reloc_spec [OF valid [OF that]]]) (auto intro: keep [OF that])
  show ?case
    unfolding sec collect_reloc_secs.simps Let_def
    by (intro wlp_if wlp_case_option wlp_bind [OF from_option_spec] wlp_bind [OF step] wlp_case_prod wlp_mono [OF Cons.IH])
       (use Cons.prems in auto)
qed simp

lemma collect_stages_spec:
  assumes "sorting (qsort os)" "collecting (obj, ef, None)"
  shows "wlp (collect_stages os ef obj k flags)
    (\<lambda>(err, ef', obj') _. in_progress obj' \<and> (err = 0 \<longrightarrow> opened obj' \<and> (k \<longrightarrow> kern_version obj' \<noteq> 0))) w"
proof -
  have ready: "ready_to_load obj'" if "collected_ok 0 obj'" for obj'
    using that by (auto simp: collected_ok_def ready_to_load_def list_all_iff)
  have reloc: "wlp (bpf_object__collect_reloc os' ef' obj') (\<lambda>(err, obj'') _. in_progress obj'' \<and> (err = 0 \<longrightarrow> opened obj'')) w"
    if "collected_ok 0 obj'" for os' ef' obj' w
    unfolding bpf_object__collect_reloc_def
    by (intro wlp_case_option wlp_mono [OF collect_reloc_secs_spec [OF ready [OF that]]])
       (use that in \<open>auto simp: collected_ok_def opened_iff ready_to_load_def LIBBPF_ERRNO__START_def\<close>)
  have "collected_ok err obj' \<Longrightarrow> in_progress obj'" for err obj' by (simp add: collected_ok_def)
  then show ?thesis
    unfolding collect_stages_def
    by (intro wlp_bind [OF from_option_spec] wlp_bind [OF elf_collect_spec [OF assms]] wlp_bind [OF reloc] wlp_case_prod wlp_if)
       (auto simp: bpf_object__validate_def LIBBPF_ERRNO__START_def)
qed

section \<open>The object that is given to the caller\<close>

lemma new_collecting:
  "wlp (bpf_object__new os path buf) (\<lambda>r w'. w' = w \<and> (\<forall>obj ef. r = Inr (obj, ef) \<longrightarrow>
     collecting (obj, ef, None) \<and> ef_elf ef = None \<and> ef_fd ef = -1 \<and> obj_btf obj = None \<and> programs obj = [])) w"
  unfolding bpf_object__new_def
  by (intro wlp_bind [OF malloc_spec] wlp_if) (auto simp: collecting_def in_progress_def)

text \<open>\<open>bpf_object__elf_init\<close> changes what is known of the file only.\<close>

lemma elf_init_collecting:
  assumes "collecting (obj, ef, None)"
  shows "wlp (bpf_object__elf_init os path ef) (\<lambda>(err, ef') _. err = 0 \<longrightarrow> collecting (obj, ef', None)) w"
proof -
  have "check_ehdr el \<noteq> Inl 0" for el by (auto simp: check_ehdr_def LIBBPF_ERRNO__START_def split: option.split)
  then have err: "err \<noteq> 0" if "check_ehdr el = Inl err" for el err using that by metis
  have o: "wlp (open_elf os path ef) (\<lambda>(failed, ef') _. \<forall>ep. collecting (obj, ef'\<lparr>ehdr := ep\<rparr>, None) \<and> collecting (obj, ef', None)) v" for v
    using assms by (auto simp: open_elf_def collecting_def split: prod.split)
  show ?thesis
    unfolding bpf_object__elf_init_def
    by (intro wlp_if wlp_bind [OF o] wlp_case_prod wlp_case_option wlp_case_sum wlp_bind [OF wlp_any])
       (auto dest: err simp: assms)
qed

lemma open_object_opened:
  assumes "sorting (qsort os)"
  shows "wlp (open_object os path buf k flags) (\<lambda>r _. \<forall>obj. r = Inr obj \<longrightarrow> opened obj \<and> (k \<longrightarrow> kern_version obj \<noteq> 0)) w"
proof -
  have out: "wlp (andthen m (\<lambda>_. andthen m' (\<lambda>_. ret (Inl err)))) (\<lambda>r _. \<forall>obj. r = Inr obj \<longrightarrow> Q obj) v" for m m' err Q v
    by (intro wlp_bind [OF wlp_any]) simp
  show ?thesis
    unfolding open_object_def Let_def
    apply (intro wlp_if wlp_bind [OF new_collecting] wlp_case_sum wlp_case_prod)
    subgoal by simp
    subgoal by simp
    subgoal for r v x obj ef
      apply (rule wlp_bind [OF elf_init_collecting [of obj]], simp)
      apply (intro wlp_case_prod wlp_if out)
      apply (rule wlp_bind [OF collect_stages_spec [OF assms, of obj]], simp)
      apply (intro wlp_case_prod wlp_if out wlp_bind [OF wlp_any])
      apply simp
      done
    done
qed

end
