(* ===== verification/Elf_Fds.thy ===== *)
theory Elf_Fds
  imports Elf_Wf
begin

text \<open>
  The descriptors of opening an object, on top of \<open>Load_Fds\<close>: the locale \<open>elf_system\<close> adds the laws of the calls that opening makes,
  and opening followed by loading accounts for every descriptor. The exceptions are those of the code: a file that libelf does not
  accept stays open, a second section of type information loses the descriptor of the first, and a program that cannot be stored closes the
  descriptor 0.
\<close>

section \<open>Sections of type information\<close>

definition is_btf_section :: "elf \<Rightarrow> nat \<Rightarrow> elf_scn \<Rightarrow> bool" where
  "is_btf_section e shstrndx scn =
     (case gelf_getshdr scn of None \<Rightarrow> False | Some sh \<Rightarrow> elf_strptr e shstrndx (sh_name sh) = Some ''.BTF'')"

definition one_btf :: "elf \<Rightarrow> bool" where
  "one_btf e =
     (case gelf_getehdr e of
        None \<Rightarrow> True
      | Some ep \<Rightarrow> length (filter (is_btf_section e (unat (e_shstrndx ep))) (elf_scns e)) \<le> 1)"

lemma new_btf_same: "wlp (new_btf (os :: 'a bpf_os) d) (\<lambda>_ w'. w' = w) w"
proof -
  have "wlp (\<lambda>w. from_option (f w) w) (\<lambda>_ w'. w' = v) v" for f :: "'a \<Rightarrow> (int + btf) option" and v
    by (auto simp: wlp_def from_option_def prog_simps split: option.splits)
  then show ?thesis
    unfolding new_btf_def Let_def by (intro wlp_bind [OF malloc_spec] wlp_if wlp_bind [OF from_option_spec]) auto
qed

text \<open>Every file is accepted by libelf, and none has two sections of type information.\<close>

definition files_fit :: "'w elf_os \<Rightarrow> bool" where
  "files_fit os \<longleftrightarrow>
     (\<forall>w fd. case fst (elf_begin os w fd) of None \<Rightarrow> False | Some e \<Rightarrow> one_btf e) \<and>
     (\<forall>w b. case fst (elf_memory os w b) of None \<Rightarrow> True | Some e \<Rightarrow> one_btf e)"

definition file_fds :: "efile \<Rightarrow> int set" where
  "file_fds ef = (if ef_fd ef \<ge> 0 then {ef_fd ef} else {})"

locale elf_system = fd_table "ebpf os" fds for os :: "'w elf_os" and fds :: "'w \<Rightarrow> int set" +
  assumes open_file: "open_file os w p = (fd, w') \<Longrightarrow>
      if fd \<ge> 0 then fd \<notin> fds w \<and> fds w' = insert fd (fds w) else fds w' = fds w \<and> 0 < sys_errno (ebpf os) w'"
    and btf_load: "sys_btf_load (ebpf os) w d l = (fd, w') \<Longrightarrow>
      if fd \<ge> 0 then fd \<notin> fds w \<and> fds w' = insert fd (fds w) else fds w' = fds w \<and> 0 < sys_errno (ebpf os) w'"
    and elf_begin: "elf_begin os w fd = (el, w') \<Longrightarrow> fds w' = fds w"
    and elf_memory: "elf_memory os w b = (el, w') \<Longrightarrow> fds w' = fds w"
    and elf_end: "fds (elf_end os w e) = fds w"
begin

text \<open>What is open besides \<open>S\<close>: the type information. After an error the descriptor 0 may be missing.\<close>

definition besides :: "int set \<Rightarrow> bpf_object \<Rightarrow> 'w \<Rightarrow> bool" where
  "besides S obj w \<longleftrightarrow> fds w = S \<union> btf_number obj \<and> S \<inter> btf_number obj = {} \<and> (\<forall>n \<in> btf_number obj. n \<ge> 0)"

definition maybe_besides :: "int set \<Rightarrow> bpf_object \<Rightarrow> 'w \<Rightarrow> bool" where
  "maybe_besides S obj w \<longleftrightarrow> S - {0} \<subseteq> fds w \<and> fds w \<subseteq> S \<union> btf_number obj \<and> S \<inter> btf_number obj = {} \<and> (\<forall>n \<in> btf_number obj. n \<ge> 0)"

lemma besides_maybe: "besides S obj w \<Longrightarrow> maybe_besides S obj w"
  by (auto simp: besides_def maybe_besides_def)

lemma besides_cong: "obj_btf obj' = obj_btf obj \<Longrightarrow> besides S obj' w = besides S obj w"
  "obj_btf obj' = obj_btf obj \<Longrightarrow> maybe_besides S obj' w = maybe_besides S obj w"
  by (simp_all add: besides_def maybe_besides_def btf_number_def)

lemma exit_zero_fds:
  "inst_nr p = 0 \<Longrightarrow> prog_btf_fd p = 0 \<Longrightarrow> wlp (bpf_program__exit (ebpf os) p) (\<lambda>_ w'. fds w' = fds w - {0}) w"
  unfolding bpf_program__exit_def bpf_program__unload_def
  by (auto simp: zclose_def split: prod.split dest: close)

lemma exit_fresh_fds:
  "fresh_program p \<Longrightarrow> wlp (bpf_program__exit (ebpf os) p) (\<lambda>_ w'. fds w' = fds w) w"
  unfolding bpf_program__exit_def
  by (rule wlp_bind [OF program_unload_fds]) (auto simp: prog_sized_def fresh_program_def)

lemma program_init_fds:
  "wlp (bpf_program__init (ebpf os) d s i) (\<lambda>r w'. case r of Inr p \<Rightarrow> fresh_program p \<and> fds w' = fds w
     | Inl e \<Rightarrow> e \<noteq> 0 \<and> fds w - {0} \<subseteq> fds w' \<and> fds w' \<subseteq> fds w) w"
proof -
  let ?Q = "\<lambda>r w'. case r of Inr (p :: bpf_program) \<Rightarrow> fds w' = fds w | Inl e \<Rightarrow> (e :: int) \<noteq> 0 \<and> fds w - {0} \<subseteq> fds w' \<and> fds w' \<subseteq> fds w"
  have errout: "wlp (andthen (bpf_program__exit (ebpf os) p) (\<lambda>_. ret (Inl (- ENOMEM)))) ?Q w"
    if "inst_nr p = 0" "prog_btf_fd p = 0" for p
    by (rule wlp_bind [OF exit_zero_fds [OF that]]) (auto simp: ENOMEM_def)
  have "wlp (bpf_program__init (ebpf os) d s i) ?Q w"
    unfolding bpf_program__init_def Let_def
    by (intro wlp_if wlp_bind [OF strdup_spec] wlp_case_option wlp_bind [OF malloc_spec] wlp_bind [OF from_option_spec])
       (auto simp: EINVAL_def zero_program_def simp del: wlp_andthen intro!: errout)
  then show ?thesis
    using program_init_spec [of "ebpf os" d s i w] by (auto simp: wlp_def split: sum.splits)
qed

lemma add_program_fds:
  "wlp (bpf_object__add_program (ebpf os) obj d s i) (\<lambda>(err, obj') w'. obj_btf obj' = obj_btf obj \<and> (err = 0 \<longrightarrow> fds w' = fds w) \<and>
     fds w - {0} \<subseteq> fds w' \<and> fds w' \<subseteq> fds w) w"
  unfolding bpf_object__add_program_def
  by (intro wlp_bind [OF program_init_fds] wlp_case_sum wlp_bind [OF malloc_spec] wlp_if wlp_bind [OF exit_fresh_fds])
     (auto simp: ENOMEM_def)

lemma bpf_load_btf_fds:
  "wlp (bpf_load_btf (ebpf os) d n l) (\<lambda>fd w'. may_open (fds w) fd w' \<and> (fd < 0 \<longrightarrow> 0 < sys_errno (ebpf os) w')) w"
proof -
  have c: "wlp (call (\<lambda>w. sys_btf_load (ebpf os) w d l')) (\<lambda>fd w'. may_open (fds v) fd w' \<and> (fd < 0 \<longrightarrow> 0 < sys_errno (ebpf os) w')) v"
    for l' v
  proof (cases "sys_btf_load (ebpf os) v d l'")
    case (Pair fd w')
    from btf_load [OF this] show ?thesis by (auto simp: may_open_def Pair split: if_splits)
  qed
  have "wlp (call (\<lambda>w. sys_btf_load (ebpf os) w d True)) (\<lambda>fd w'. may_open (fds w) fd w' \<and> (fd < 0 \<longrightarrow> 0 < sys_errno (ebpf os) w')) v"
    if "may_open (fds w) (-1) v" for v
    using c [of True v] that by (auto simp: may_open_def split: prod.splits)
  then show ?thesis
    unfolding bpf_load_btf_def by (intro wlp_bind [OF c] wlp_if) (auto simp del: wlp_simps(4))
qed

lemma btf__load_fds:
  "wlp (btf__load (ebpf os) b) (\<lambda>(err, b') w'. if err = 0 then btf_fd b' \<ge> 0 \<and> btf_fd b' \<notin> fds w \<and> fds w' = insert (btf_fd b') (fds w)
     else fds w' = fds w) w"
  unfolding btf__load_def Let_def
  by (intro wlp_if wlp_bind [OF malloc_spec] wlp_bind [OF bpf_load_btf_fds])
     (auto simp: may_open_def EEXIST_def ENOMEM_def)

lemma collect_btf_fds:
  assumes "obj_btf obj = None"
  shows "wlp (collect_btf (ebpf os) obj d) (\<lambda>obj' w'. besides (fds w) obj' w') w"
  unfolding collect_btf_def
  by (intro wlp_bind [OF new_btf_same] wlp_case_sum wlp_bind [OF btf__load_fds] wlp_case_prod) (auto simp: besides_def btf_number_def)

section \<open>Collecting\<close>

text \<open>One section: the file stays, and a section of type information is only met while there is none.\<close>

definition same_file :: "efile \<Rightarrow> efile \<Rightarrow> bool" where
  "same_file ef ef' \<longleftrightarrow> ef_fd ef' = ef_fd ef \<and> ef_elf ef' = ef_elf ef \<and> ehdr ef' = ehdr ef"

definition section_post :: "int set \<Rightarrow> efile \<Rightarrow> int \<times> collected \<Rightarrow> 'w \<Rightarrow> bool" where
  "section_post S ef r w' = (case r of (err, obj', ef', ext') \<Rightarrow>
     maybe_besides S obj' w' \<and> (err = 0 \<longrightarrow> besides S obj' w') \<and> same_file ef ef')"

lemma license_keeps: "bpf_object__init_license ef obj d = Some (ef', obj') \<Longrightarrow> same_file ef ef' \<and> obj_btf obj' = obj_btf obj"
  by (auto simp: bpf_object__init_license_def same_file_def Let_def split: Option.bind_splits)

lemma kversion_keeps: "bpf_object__init_kversion bo obj d = Some (err, obj') \<Longrightarrow> obj_btf obj' = obj_btf obj"
  by (auto simp: bpf_object__init_kversion_def split: if_splits Option.bind_splits)

lemma besides_fds: "besides S obj w \<Longrightarrow> obj_btf obj = None \<Longrightarrow> fds w = S"
  by (simp add: besides_def btf_number_def)

lemma add_program_besides:
  assumes "besides S obj w" "obj_btf obj' = obj_btf obj"
  shows "wlp (bpf_object__add_program (ebpf os) obj' d s i) (\<lambda>(err, obj'') w'. maybe_besides S obj'' w' \<and> (err = 0 \<longrightarrow> besides S obj'' w')) w"
  by (rule wlp_mono [OF add_program_fds])
     (use assms in \<open>auto simp: besides_def maybe_besides_def btf_number_def split: option.splits\<close>)

lemma collect_section_fds:
  assumes "besides S obj w" "name = ''.BTF'' \<longrightarrow> obj_btf obj = None"
  shows "wlp (collect_section os e i sh name d (obj, ef, ext)) (\<lambda>r w'. section_post S ef r w' \<and>
    (name \<noteq> ''.BTF'' \<longrightarrow> obj_btf (fst (snd r)) = obj_btf obj)) w"
proof -
  have post: "section_post S ef (err, obj', ef', ext') w" if "obj_btf obj' = obj_btf obj" "same_file ef ef'" for err obj' ef' ext'
    using assms(1) besides_maybe that besides_cong [of obj' obj] by (simp add: section_post_def)
  have refl: "same_file ef ef" "same_file ef (ef\<lparr>symbols := y, strtabidx := n\<rparr>)" "same_file ef (ef\<lparr>reloc_secs := l\<rparr>)" for y n l
    by (simp_all add: same_file_def)
  have post': "section_post S ef (0, obj', ef, ext') w'" if "besides S obj' w'" for obj' ext' w'
    using that by (simp add: section_post_def refl(1) besides_maybe)
  have btf: "wlp (collect_btf (ebpf os) obj d) (\<lambda>obj' w'. besides S obj' w') w" if "name = ''.BTF''"
    using collect_btf_fds [of obj d w] besides_fds [OF assms(1)] assms(2) that by simp
  have add: "wlp (bpf_object__add_program (ebpf os) obj' d name i) (\<lambda>(err, obj'') w'.
      section_post S ef (err, obj'', ef, ext) w' \<and> obj_btf obj'' = obj_btf obj) w" if "obj_btf obj' = obj_btf obj" for obj'
    using add_program_besides [OF assms(1) that, of d name i] add_program_fds [of obj' d name i w] that refl
    by (fastforce simp: wlp_def section_post_def)
  have add': "wlp (bpf_object__add_program (ebpf os) (if b then obj\<lparr>text_shndx := i\<rparr> else obj) d name i) (\<lambda>(err, obj'') w'.
      section_post S ef (err, obj'', ef, ext) w' \<and> obj_btf obj'' = obj_btf obj) w" for b
    by (rule add) simp
  show ?thesis
    unfolding collect_section_def prod.case
    by (intro wlp_if wlp_bind [OF from_option_spec] wlp_bind [OF malloc_spec] wlp_bind [OF add'] wlp_bind [OF btf] wlp_case_prod)
       (auto intro: post post' refl dest: license_keeps kversion_keeps)
qed

lemma collect_sections_fds:
  assumes "besides S obj w" "shstr = unat (e_shstrndx (ehdr ef))"
    "length (filter (is_btf_section e shstr) scns) \<le> (if obj_btf obj = None then 1 else 0)"
  shows "wlp (collect_sections os e i scns (obj, ef, ext)) (section_post S ef) w"
  using assms
proof (induction scns arbitrary: i obj ef ext w)
  case Nil
  then show ?case by (simp add: section_post_def besides_maybe same_file_def)
next
  case (Cons scn scns)
  let ?found = "do { sh \<leftarrow> gelf_getshdr scn; name \<leftarrow> elf_strptr e shstr (sh_name sh); d \<leftarrow> elf_getdata scn; Some (sh, name, d) }"
  show ?case
  proof (cases ?found)
    case None
    then show ?thesis
      using Cons.prems by (simp add: section_post_def besides_maybe same_file_def LIBBPF_ERRNO__START_def)
  next
    case (Some r)
    then obtain sh name d where r: "r = (sh, name, d)" and sh: "gelf_getshdr scn = Some sh" "elf_strptr e shstr (sh_name sh) = Some name"
      by (auto split: Option.bind_splits)
    have is_btf: "is_btf_section e shstr scn \<longleftrightarrow> name = ''.BTF''" by (simp add: is_btf_section_def sh)
    have sec: "name = ''.BTF'' \<longrightarrow> obj_btf obj = None" using Cons.prems(3) is_btf by (auto split: if_splits)
    have next_section: "wlp (collect_sections os e (i + 1) scns (obj', ef', ext')) (section_post S ef) w'"
      if "section_post S ef (0, obj', ef', ext') w'" "name \<noteq> ''.BTF'' \<longrightarrow> obj_btf obj' = obj_btf obj" for obj' ef' ext' w'
    proof -
      have f: "same_file ef ef'" "besides S obj' w'" using that(1) by (auto simp: section_post_def)
      have "wlp (collect_sections os e (i + 1) scns (obj', ef', ext')) (section_post S ef') w'"
        using f Cons.prems(2,3) that(2) is_btf by (intro Cons.IH) (auto simp: same_file_def split: if_splits)
      then show ?thesis
        by (rule wlp_mono) (use f(1) in \<open>auto simp: section_post_def same_file_def\<close>)
    qed
    show ?thesis
      using Some r Cons.prems(2)
      by (auto simp: Let_def simp del: wlp_andthen intro!: wlp_bind [OF collect_section_fds [OF Cons.prems(1) sec]] wlp_if next_section)
  qed
qed

text \<open>The stages after the sections only allocate memory.\<close>

definition stage_post :: "int set \<Rightarrow> efile \<Rightarrow> int \<times> efile \<times> bpf_object \<Rightarrow> 'w \<Rightarrow> bool" where
  "stage_post S ef r w' = (case r of (err, ef', obj') \<Rightarrow>
     maybe_besides S obj' w' \<and> (err = 0 \<longrightarrow> besides S obj' w') \<and> same_file ef ef')"

lemma stage_post_section: "section_post S ef (err, obj', ef', ext) w' \<Longrightarrow> stage_post S ef (err, ef', obj') w'"
  by (simp add: section_post_def stage_post_def)

lemma stage_post_cong: "stage_post S ef (0, ef', obj') w' \<Longrightarrow> obj_btf obj'' = obj_btf obj' \<Longrightarrow> stage_post S ef (err, ef', obj'') w'"
  using besides_cong [of obj'' obj' S w'] besides_maybe [of S obj' w'] by (simp add: stage_post_def)

lemma elf_collect_fds:
  assumes "sorting (qsort os)" "collecting (obj, ef, None)" "besides S obj w" "obj_btf obj = None"
    and "length (filter (is_btf_section e (unat (e_shstrndx (ehdr ef)))) (elf_scns e)) \<le> 1"
  shows "wlp (bpf_object__elf_collect os e ef obj flags) (stage_post S ef) w"
proof -
  have secs: "wlp (collect_sections os e 0 (elf_scns e) (obj, ef, None)) (\<lambda>(err, obj', ef', ext) w'.
      collecting (obj', ef', ext) \<and> stage_post S ef (err, ef', obj') w') w"
    using assms(4,5)
    by (intro wlp_mono [OF wlp_conj [OF collect_sections_spec [OF assms(2)] collect_sections_fds [OF assms(3) refl]]])
       (auto dest: stage_post_section)
  have here: "stage_post S ef (err, ef, obj) w" for err
    using assms(3) by (simp add: stage_post_def same_file_def besides_maybe)
  have ext: "wlp (collect_btf_ext (ebpf os) obj' x) (\<lambda>obj'' w'. w' = v \<and> obj_btf obj'' = obj_btf obj' \<and> in_progress obj'' \<and>
      maps obj'' = [] \<and> list_all (\<lambda>p. relocs p = []) (programs obj'')) v" if "collecting (obj', ef', y)" for obj' ef' x y v
    by (rule wlp_mono [OF collect_btf_ext_spec]) (use that in \<open>auto simp: collecting_def\<close>)
  have maps: "wlp (if maps_shndx obj' \<ge> 0 then bpf_object__init_maps os e ef' obj' flags else ret (0, obj'))
      (\<lambda>(err, obj'') w'. w' = v \<and> obj_btf obj'' = obj_btf obj' \<and> programs obj'' = programs obj') v"
    if "maps obj' = []" for obj' ef' v
    by (intro wlp_if wlp_mono [OF init_maps_spec [OF assms(1) that]]) auto
  have names: "wlp (bpf_object__init_prog_names (ebpf os) e ef' obj') (\<lambda>(err, obj'') w'. w' = v \<and> obj_btf obj'' = obj_btf obj') v"
    if "list_all (\<lambda>p. fresh_program p \<and> relocs p = []) (programs obj')" for obj' ef' v
    by (rule wlp_mono [OF init_prog_names_spec [OF that]]) auto
  have fresh: "list_all (\<lambda>p. fresh_program p \<and> relocs p = []) (programs obj')"
    if "in_progress obj'" "list_all (\<lambda>p. relocs p = []) (programs obj')" for obj'
    using that by (simp add: in_progress_def list_all_iff)
  show ?thesis
    unfolding bpf_object__elf_collect_def
    apply (intro wlp_if wlp_bind [OF secs] wlp_case_prod)
    subgoal by (simp add: here)
    subgoal by auto
    subgoal by (auto intro: stage_post_cong)
    subgoal for r v err y obj' z ef' x
      apply (rule wlp_bind [OF ext [of obj' ef' x]], simp)
      apply (rule wlp_bind [OF maps], simp)
      apply (intro wlp_case_prod wlp_if wlp_bind [OF names])
      apply (auto intro: stage_post_cong fresh)
      done
    done
qed

lemma collect_stages_fds:
  assumes "sorting (qsort os)" "collecting (obj, ef, None)" "besides S obj w" "obj_btf obj = None"
    and "\<And>e. ef_elf ef = Some e \<Longrightarrow> length (filter (is_btf_section e (unat (e_shstrndx (ehdr ef)))) (elf_scns e)) \<le> 1"
  shows "wlp (collect_stages os ef obj k flags) (stage_post S ef) w"
proof -
  have collect: "wlp (bpf_object__elf_collect os e ef obj flags) (\<lambda>(err, ef', obj') w'.
      collected_ok err obj' \<and> stage_post S ef (err, ef', obj') w') w" if "ef_elf ef = Some e" for e
    by (rule wlp_mono [OF wlp_conj [OF elf_collect_spec [OF assms(1,2)] elf_collect_fds [OF assms(1-4) assms(5) [OF that]]]]) auto
  have reloc: "wlp (bpf_object__collect_reloc (ebpf os) ef' obj') (\<lambda>(err, obj'') w'. w' = v \<and> obj_btf obj'' = obj_btf obj') v"
    if "collected_ok 0 obj'" for ef' obj' v
  proof -
    have "ready_to_load obj'" using that by (auto simp: collected_ok_def ready_to_load_def list_all_iff)
    then show ?thesis
      unfolding bpf_object__collect_reloc_def by (intro wlp_case_option wlp_mono [OF collect_reloc_secs_spec]) auto
  qed
  show ?thesis
  proof (cases "ef_elf ef")
    case (Some e)
    show ?thesis
      unfolding collect_stages_def Some prog_eval(6) andthen_simps
      by (intro wlp_bind [OF collect [OF Some]] wlp_bind [OF reloc] wlp_case_prod wlp_if) (auto intro: stage_post_cong)
  qed (simp add: collect_stages_def prog_eval)
qed

section \<open>Opening\<close>

lemma elf_finish_fds:
  "wlp (bpf_object__elf_finish os ef) (\<lambda>ef' w'. ef_elf ef' = None \<and> fds w' = (if ef_elf ef = None then fds w else fds w - file_fds ef)) w"
proof (cases "ef_elf ef")
  case (Some e)
  have close: "wlp (zclose (ebpf os) (ef_fd ef)) (\<lambda>_ w'. fds w' = fds v - file_fds ef) v" for v
    by (rule wlp_mono [OF zclose_spec]) (auto simp: file_fds_def)
  have "wlp (call (\<lambda>w. ((), elf_end os w e))) (\<lambda>_ w'. fds w' = fds w) w" by (simp add: elf_end)
  then show ?thesis
    unfolding bpf_object__elf_finish_def Some option.case by (intro wlp_bind [where m = "call _"] wlp_bind [OF close]) auto
qed (simp add: bpf_object__elf_finish_def)

lemma object_close_fds:
  assumes "in_progress obj" "\<forall>n \<in> btf_number obj. n \<ge> 0"
  shows "wlp (bpf_object__close (ebpf os) obj) (\<lambda>_ w'. fds w' = fds w - btf_number obj) w"
proof -
  have none: "obj_fds obj = {}" "open_fds (map prog_btf_fd (programs obj)) = {}" "list_all prog_sized (programs obj)"
    using assms(1) by (auto simp: in_progress_def fresh_program_def fresh_map_def obj_fds_def open_fds_def prog_sized_def list_all_iff)
  have u: "wlp (bpf_object__unload (ebpf os) obj) (\<lambda>obj' w'. fds w' = fds w \<and> obj_btf obj' = obj_btf obj) w"
    by (rule wlp_mono [OF wlp_conj [OF unload_fds [OF none(3)], where Q = "\<lambda>obj' _. obj_btf obj' = obj_btf obj"]])
       (auto simp: none bpf_object__unload_def wlp_def andthen_eq_Return prog_simps)
  show ?thesis
  proof (cases "obj_btf obj")
    case None
    then show ?thesis
      unfolding bpf_object__close_def by (intro wlp_bind [OF u]) (auto simp: btf_number_def)
  next
    case (Some b)
    then have "btf_fd b \<noteq> -1" using assms(2) by (auto simp: btf_number_def)
    then show ?thesis
      unfolding bpf_object__close_def
      by (intro wlp_bind [OF u]) (auto simp: btf_number_def Some split: prod.split dest: close)
  qed
qed

lemma open_elf_fds:
  assumes "files_fit os" "ef_fd ef = -1" "ef_elf ef = None"
  shows "wlp (open_elf os path ef) (\<lambda>(failed, ef') w'. case failed of
      Some err \<Rightarrow> err \<noteq> 0 \<and> ef_elf ef' = None \<and> fds w' = fds w
    | None \<Rightarrow> fds w' = fds w \<union> file_fds ef' \<and> fds w \<inter> file_fds ef' = {} \<and>
        (case ef_elf ef' of None \<Rightarrow> file_fds ef' = {} | Some e \<Rightarrow> one_btf e)) w"
proof -
  have o: "wlp (call (\<lambda>w. open_file os w path)) (\<lambda>fd w'. if fd \<ge> 0 then fd \<notin> fds w \<and> fds w' = insert fd (fds w)
      else fds w' = fds w \<and> 0 < sys_errno (ebpf os) w') w"
    by (cases "open_file os w path") (use open_file in auto)
  have b: "wlp (call (\<lambda>w. elf_begin os w fd)) (\<lambda>el w'. fds w' = fds v \<and> (\<exists>e. el = Some e \<and> one_btf e)) v" for fd v
    using assms(1) [unfolded files_fit_def, THEN conjunct1, rule_format, of v fd] elf_begin [of v fd]
    by (auto split: prod.split option.splits)
  have m: "wlp (call (\<lambda>w. elf_memory os w buf)) (\<lambda>el w'. fds w' = fds w \<and> (\<forall>e. el = Some e \<longrightarrow> one_btf e)) w" for buf
    using assms(1) [unfolded files_fit_def, THEN conjunct2, rule_format, of w buf] elf_memory [of w buf]
    by (auto split: prod.split option.splits)
  show ?thesis
    unfolding open_elf_def
    by (intro wlp_if wlp_bind [OF o] wlp_bind [OF b] wlp_bind [OF m])
       (auto simp: assms(2,3) file_fds_def split: option.split)
qed

text \<open>After \<open>bpf_object__elf_init\<close> the file is open, or everything is closed.\<close>

definition init_post :: "int set \<Rightarrow> int \<times> efile \<Rightarrow> 'w \<Rightarrow> bool" where
  "init_post B r w' = (case r of (err, ef) \<Rightarrow>
     if err = 0 then fds w' = B \<union> file_fds ef \<and> B \<inter> file_fds ef = {} \<and>
       (\<exists>e. ef_elf ef = Some e \<and> length (filter (is_btf_section e (unat (e_shstrndx (ehdr ef)))) (elf_scns e)) \<le> 1)
     else ef_elf ef = None \<and> fds w' = B)"

lemma elf_init_fds:
  assumes "files_fit os" "ef_fd ef = -1" "ef_elf ef = None"
  shows "wlp (bpf_object__elf_init os path ef) (init_post (fds w)) w"
proof -
  have e1: "err \<noteq> 0" if "check_ehdr el = Inl err" for el err
    using that by (auto simp: check_ehdr_def LIBBPF_ERRNO__START_def split: option.splits if_splits)
  have e2: "\<exists>e. el = Some e \<and> gelf_getehdr e = Some ep" if "check_ehdr el = Inr ep" for el ep
    using that by (auto simp: check_ehdr_def split: option.splits if_splits)
  have [simp]: "file_fds (ef'\<lparr>ehdr := ep\<rparr>) = file_fds ef'" for ef' ep by (simp add: file_fds_def)
  show ?thesis
    unfolding bpf_object__elf_init_def assms(3)
    apply (intro wlp_if wlp_bind [OF open_elf_fds [OF assms]] wlp_case_prod wlp_case_option wlp_case_sum wlp_bind [OF elf_finish_fds])
    apply (auto simp: init_post_def one_btf_def dest: e1 dest!: e2 split: option.splits if_splits)
    done
qed

definition open_post :: "int set \<Rightarrow> int + bpf_object \<Rightarrow> 'w \<Rightarrow> bool" where
  "open_post B r w' = (case r of Inl _ \<Rightarrow> B - {0} \<subseteq> fds w' \<and> fds w' \<subseteq> B | Inr obj \<Rightarrow> besides B obj w')"

lemma open_out_fds:
  assumes "in_progress obj" "maybe_besides (B \<union> file_fds ef) obj w" "B \<inter> file_fds ef = {}" "ef_elf ef = None \<longrightarrow> file_fds ef = {}"
  shows "wlp (andthen (bpf_object__elf_finish os ef) (\<lambda>_. andthen (bpf_object__close (ebpf os) obj) (\<lambda>_. ret (Inl err)))) (open_post B) w"
proof -
  have n: "\<forall>n \<in> btf_number obj. n \<ge> 0" using assms(2) by (simp add: maybe_besides_def)
  show ?thesis
    by (intro wlp_bind [OF elf_finish_fds] wlp_bind [OF object_close_fds [OF assms(1) n]])
       (use assms(2-4) in \<open>auto simp: open_post_def maybe_besides_def split: if_splits\<close>)
qed

lemma open_object_fds:
  assumes "sorting (qsort os)" "files_fit os"
  shows "wlp (open_object os path buf k flags) (open_post (fds w)) w"
proof -
  have same: "open_post (fds w) (Inl err) w" for err by (auto simp: open_post_def)
  have stages: "wlp (collect_stages os ef obj k flags) (\<lambda>(err, ef', obj') w'. in_progress obj' \<and> stage_post S ef (err, ef', obj') w') v"
    if "collecting (obj, ef, None)" "obj_btf obj = None" "fds v = S"
      "\<exists>e. ef_elf ef = Some e \<and> length (filter (is_btf_section e (unat (e_shstrndx (ehdr ef)))) (elf_scns e)) \<le> 1" for S obj ef v
  proof -
    have b: "besides S obj v" using that(2,3) by (simp add: besides_def btf_number_def)
    show ?thesis
      by (rule wlp_mono [OF wlp_conj [OF collect_stages_spec [OF assms(1) that(1)] collect_stages_fds [OF assms(1) that(1) b that(2)]]])
         (use that(4) in auto)
  qed
  have init: "wlp (bpf_object__elf_init os path ef) (\<lambda>(err, ef') w'.
      (err = 0 \<longrightarrow> collecting (obj, ef', None)) \<and> init_post (fds v) (err, ef') w') v"
    if "collecting (obj, ef, None)" "ef_elf ef = None" "ef_fd ef = -1" for obj ef v
    by (rule wlp_mono [OF wlp_conj [OF elf_init_collecting [OF that(1)] elf_init_fds [OF assms(2) that(3,2)]]]) auto
  have finish: "wlp (andthen (bpf_object__elf_finish os ef) (\<lambda>_. ret (Inr obj))) (open_post B) v"
    if "besides (B \<union> file_fds ef) obj v" "ef_elf ef \<noteq> None" "B \<inter> file_fds ef = {}" for ef obj B v
    by (rule wlp_bind [OF elf_finish_fds]) (use that in \<open>auto simp: open_post_def besides_def\<close>)
  have failed: "wlp (andthen (bpf_object__elf_finish os ef) (\<lambda>_. andthen (bpf_object__close (ebpf os) obj) (\<lambda>_. ret (Inl err)))) (open_post B) v"
    if "in_progress obj" "obj_btf obj = None" "ef_elf ef = None" "fds v = B" for obj ef err B v
    by (intro wlp_bind [OF elf_finish_fds] wlp_bind [OF object_close_fds [OF that(1)]])
       (use that in \<open>auto simp: open_post_def btf_number_def\<close>)
  have unread: "wlp (andthen (bpf_object__elf_finish os ef) (\<lambda>_. andthen (bpf_object__close (ebpf os) obj) (\<lambda>_. ret (Inl err)))) (open_post B) v"
    if "in_progress obj" "obj_btf obj = None" "init_post B (0, ef) v" for obj ef err B v
    by (rule open_out_fds) (use that in \<open>auto simp: init_post_def maybe_besides_def btf_number_def\<close>)
  show ?thesis
    unfolding open_object_def Let_def
    apply (intro wlp_if wlp_bind [OF new_collecting] wlp_case_sum wlp_case_prod)
    subgoal by (simp add: same)
    subgoal by (simp add: same)
    subgoal for r v x obj ef
      apply (rule wlp_bind [OF init [of obj]], simp, simp, simp)
      apply (intro wlp_case_prod wlp_if)
      subgoal by (rule failed) (auto simp: init_post_def collecting_def)
      subgoal by (rule unread) (auto simp: collecting_def)
      subgoal for r2 v2 err ef2
        apply (rule wlp_bind [OF stages [where S = "fds w \<union> file_fds ef2"]])
        apply (simp_all add: init_post_def)
        apply (intro wlp_case_prod wlp_if)
        subgoal by (rule open_out_fds) (auto simp: stage_post_def same_file_def file_fds_def split: if_splits)
        subgoal by (rule finish) (auto simp: stage_post_def same_file_def file_fds_def split: if_splits)
        done
      done
    done
qed

end

section \<open>A file\<close>

text \<open>A file with a program of two instructions that loads the address of a map, the relocation for it, the map with a definition of
  the 28 bytes that \<open>bpf_helpers.h\<close> has, a license and the symbols. The names are offsets into a string table.\<close>

definition sample_strings :: "(u32 \<times> string) list" where
  "sample_strings = [(1, ''.strtab''), (2, ''xdp_syncookie''), (3, ''.relxdp_syncookie''), (4, ''maps''), (5, ''license''), (6, ''.symtab''),
     (7, ''connections''), (8, ''xdp_prog'')]"

definition sample_shdr :: "u32 \<Rightarrow> u32 \<Rightarrow> u64 \<Rightarrow> u32 \<Rightarrow> u32 \<Rightarrow> gelf_shdr" where
  "sample_shdr name t flags link info =
     \<lparr> sh_name = name, sh_type = t, sh_flags = flags, sh_size = 16, sh_link = link, sh_info = info, sh_entsize = 16 \<rparr>"

definition sample_scn :: "gelf_shdr \<Rightarrow> bytes \<Rightarrow> elf_scn" where
  "sample_scn sh b = \<lparr> gelf_getshdr = Some sh, elf_getdata = Some \<lparr> d_buf = Some b, d_size = length b \<rparr> \<rparr>"

definition sample_code :: bytes where
  "sample_code = [0x18, 0x01, 0, 0, 0, 0, 0, 0, 0, 0, 0, 0, 0, 0, 0, 0]"

definition sample_map_bytes :: bytes where
  "sample_map_bytes = [1, 0, 0, 0, 12, 0, 0, 0, 4, 0, 0, 0, 64, 0, 0, 0, 0, 0, 0, 0, 0, 0, 0, 0, 0, 0, 0, 0]"

definition sample_scns :: "elf_scn list" where
  "sample_scns =
     [ sample_scn (sample_shdr 1 3 0 0 0) [0],
       sample_scn (sample_shdr 2 SHT_PROGBITS SHF_EXECINSTR 0 0) sample_code,
       sample_scn (sample_shdr 3 SHT_REL 0 6 2) (replicate 16 0),
       sample_scn (sample_shdr 4 SHT_PROGBITS 0 0 0) sample_map_bytes,
       sample_scn (sample_shdr 5 SHT_PROGBITS 0 0 0) [71, 80, 76, 0],
       sample_scn (sample_shdr 6 SHT_SYMTAB 0 1 0) (replicate 72 0) ]"

definition sample_syms :: "gelf_sym list" where
  "sample_syms =
     [ \<lparr> st_name = 0, st_info = 0, st_shndx = 0, st_value = 0 \<rparr>,
       \<lparr> st_name = 7, st_info = 0x11, st_shndx = 4, st_value = 0 \<rparr>,
       \<lparr> st_name = 8, st_info = 0x12, st_shndx = 2, st_value = 0 \<rparr> ]"

definition sample_elf :: elf where
  "sample_elf =
     \<lparr> gelf_getehdr = Some \<lparr> e_ident_data = ELFDATA2LSB, e_type = ET_REL, e_machine = EM_BPF, e_shstrndx = 1 \<rparr>,
       elf_scns = sample_scns,
       elf_getscn = (\<lambda>i. if 1 \<le> i \<and> i \<le> 6 then Some (sample_scns ! nat (i - 1)) else None),
       elf_rawdata = (\<lambda>s. s \<noteq> None),
       elf_strptr = (\<lambda>sec off. map_of sample_strings off),
       gelf_getsym = (\<lambda>d i. if i < 3 then Some (sample_syms ! i) else None),
       gelf_getrel = (\<lambda>d i. if i = 0 then Some \<lparr> r_offset = 0, r_sym = 1 \<rparr> else None) \<rparr>"

definition sample_os :: "int list elf_os" where
  "sample_os = \<lparr> ebpf = list_bpf, elf_version = True, open_file = (\<lambda>w p. (fresh_fd w, fresh_fd w # w)),
     elf_begin = (\<lambda>w fd. (Some sample_elf, w)), elf_memory = (\<lambda>w b. (None, w)), elf_end = (\<lambda>w e. w), qsort = cmp_sort \<rparr>"

lemma one_btf_sample: "one_btf sample_elf"
  by (simp add: one_btf_def sample_elf_def sample_scns_def is_btf_section_def sample_scn_def sample_shdr_def sample_strings_def)

interpretation sample: elf_system sample_os set
proof (rule elf_system.intro)
  show "fd_table (ebpf sample_os) set" using list_fds.fd_table_axioms by (simp add: sample_os_def)
  show "elf_system_axioms sample_os set"
    by (rule elf_system_axioms.intro) (auto simp: sample_os_def list_bpf_def EINVAL_def fresh_fd_new)
qed

text \<open>What opening the file gives, and the map and the relocation in it.\<close>

definition opens_sample :: "(int + bpf_object) outcome \<times> int list \<Rightarrow> bool" where
  "opens_sample r = (case r of
     (Return (Inr obj), w) \<Rightarrow> w = [2, 1, 0] \<and> license obj = ''GPL'' \<and>
       map (\<lambda>m. (map_name m, def_key_size (map_def m), def_max_entries (map_def m))) (maps obj) = [(''connections'', 12, 64)] \<and>
       map (\<lambda>p. (prog_name p, section_name p, length (insns p), relocs p)) (programs obj) =
         [(Some ''xdp_prog'', ''xdp_syncookie'', 2, [RELO_LD64 0 0])]
   | _ \<Rightarrow> False)"

lemma opens_sample: "opens_sample (open_object sample_os ''x'' [] False 0 [2, 1, 0])"
  by code_simp

lemma files_fit_sample: "files_fit sample_os"
  using one_btf_sample by (simp add: files_fit_def sample_os_def)

section \<open>Properties\<close>

text \<open>
  C19. An object that \<open>bpf_object__open\<close>, \<open>bpf_object__open_xattr\<close> or \<open>bpf_object__open_buffer\<close> gives to its caller is well formed,
  whatever libelf has answered, if only \<open>qsort\<close> permutes and sorts. It is not loaded. Every map and every program is marked as not
  open, every program has at least one instruction, a name, and as name for pinning its section name with the slashes replaced. Every entry
  for a relocation names an instruction of its program with the right operation code, and a map of the object or a call for which the object is
  marked. The text of the license fits in its array. The maps are sorted by their offsets if these fit in 31 bits. If a
  kernel version was asked for, there is one. So the conditions hold under which \<open>bpf_object__load\<close> accounts for its
  descriptors and the relocations stay within the programs.
\<close>

theorem opened_object_well_formed:
  assumes "sorting (qsort os)" "open_object os path buf needs_kver flags w = (Return (Inr obj), w')"
  shows "opened obj \<and> object_opened obj \<and> obj_fds obj = {} \<and> \<not> loaded obj \<and> (needs_kver \<longrightarrow> kern_version obj \<noteq> 0) \<and>
    (\<forall>p \<in> set (programs obj). \<forall>d \<in> set (relocs p). reloc_insn d < length (insns p))"
proof -
  have o: "opened obj" "needs_kver \<longrightarrow> kern_version obj \<noteq> 0"
    using wlpD [OF open_object_opened [OF assms(1)] assms(2)] by auto
  have r: "reloc_insn d < length (insns p)" if "reloc_valid obj p d" for p d using that by (cases d) auto
  have "list_all (\<lambda>p. prog_unloaded p \<and> prog_btf_fd p = -1) (programs obj)" "obj_fds obj = {}"
    using o(1) by (auto simp: opened_def in_progress_def fresh_program_def fresh_map_def prog_unloaded_def prog_sized_def obj_fds_def open_fds_def list_all_iff)
  then show ?thesis
    using o r by (auto simp: object_opened_def opened_def in_progress_def list_all_iff)
qed

theorem opened_object_well_formed_witness:
  "\<exists>obj. open_object sample_os ''x'' [] False 0 [2, 1, 0] = (Return (Inr obj), [2, 1, 0]) \<and> opened obj \<and>
     relocs (programs obj ! 0) = [RELO_LD64 0 0] \<and> length (maps obj) = 1"
proof -
  obtain obj where o: "open_object sample_os ''x'' [] False 0 [2, 1, 0] = (Return (Inr obj), [2, 1, 0])"
    and p: "map (\<lambda>p. (prog_name p, section_name p, length (insns p), relocs p)) (programs obj) =
         [(Some ''xdp_prog'', ''xdp_syncookie'', 2, [RELO_LD64 0 0])]"
      "map (\<lambda>m. (map_name m, def_key_size (map_def m), def_max_entries (map_def m))) (maps obj) = [(''connections'', 12, 64)]"
    using opens_sample by (auto simp: opens_sample_def split: prod.splits outcome.splits sum.splits)
  have "relocs (programs obj ! 0) = [RELO_LD64 0 0]" "length (maps obj) = 1" using p by auto
  moreover have "sorting (qsort sample_os)" using insertion.sorting_axioms by (simp add: sample_os_def)
  ultimately show ?thesis using opened_object_well_formed [OF _ o] o by auto
qed



section \<open>What the descriptors do not show\<close>

text \<open>A file that libelf does not accept stays open: without its descriptor of libelf \<open>bpf_object__elf_finish\<close> does nothing.\<close>

theorem rejected_file_stays_open:
  assumes "elf_system os fds" "elf_version os" "sys_malloc (ebpf os) w (sizeof_bpf_object + length path + 1)"
    and "open_file os w path = (fd, w1)" "fd \<ge> 0" "elf_begin os w1 fd = (None, w2)"
  shows "open_object os path [] needs_kver flags w = (Return (Inl (- errno_code LIBBPF_ERRNO__LIBELF)), w2)"
    and "fd \<notin> fds w \<and> fds w2 = insert fd (fds w)"
proof -
  show "open_object os path [] needs_kver flags w = (Return (Inl (- errno_code LIBBPF_ERRNO__LIBELF)), w2)"
    using assms(2-6)
    by (simp add: open_object_def bpf_object__new_def malloc_def andthen_def prog_simps bpf_object__elf_init_def open_elf_def check_ehdr_def
        bpf_object__elf_finish_def bpf_object__close_def bpf_object__unload_def LIBBPF_ERRNO__START_def)
  show "fd \<notin> fds w \<and> fds w2 = insert fd (fds w)"
    using elf_system.open_file [OF assms(1,4)] elf_system.elf_begin [OF assms(1,6)] assms(5) by simp
qed

text \<open>A file whose string table is its last section is refused, and with a positive number: the pointer that
  \<open>ERR_PTR\<close> makes of it is no error for the caller.\<close>

definition last_strtab_elf :: elf where
  "last_strtab_elf = sample_elf\<lparr>elf_scns := tl (sample_scns[5 := sample_scn (sample_shdr 6 SHT_SYMTAB 0 6 0) (replicate 72 0)]) @ [hd sample_scns]\<rparr>"

lemma last_strtab_elf_runs:
  "case open_object (sample_os\<lparr>elf_begin := (\<lambda>w fd. (Some last_strtab_elf, w))\<rparr>) ''x'' [] False 0 [2, 1, 0] of
     (Return r, w) \<Rightarrow> (case r of Inl n \<Rightarrow> n = errno_code LIBBPF_ERRNO__FORMAT \<and> \<not> IS_ERR_OR_NULL r | Inr _ \<Rightarrow> False)
   | _ \<Rightarrow> False"
  by code_simp

end
