(* ===== verification/Btf_Dedup.thy ===== *)
theory Btf_Dedup
  imports Btf Qsort
begin

text \<open>
  The deduplication of types, the second half of \<open>src/libbpf/src/btf.c\<close>. A type is its \<open>struct btf_type\<close> with the words
  that follow it, as many as its kind and the number in its info say; the code reads and changes both in place. The type with the number 0 is
  \<open>void\<close>. Line records, when there are any, are sections with a name and records of words. What the code keeps in \<open>struct btf_dedup\<close> is the
  record \<open>btf_dedup\<close>; \<open>mem\<close> is the number of allocations that will still succeed, after which one fails and the
  function ends. An access outside of an array is \<open>None\<close>.

  Three loops of the code need not end for any contents of the arrays: following \<open>map\<close> from a type to its representative, the comparison of two graphs, and the
  way from a reference to the type it refers to. They take a number of steps that is enough whenever they end, and \<open>None\<close> is not returning; \<open>Dedup_Total\<close>
  shows that they return.
\<close>

section \<open>State\<close>

definition ELOOP :: int where "ELOOP = 40"
definition MAX_NR_TYPES :: u32 where "MAX_NR_TYPES = 0x7fffffff"
definition BTF_UNPROCESSED_ID :: u32 where "BTF_UNPROCESSED_ID = - 1"
definition BTF_IN_PROGRESS_ID :: u32 where "BTF_IN_PROGRESS_ID = - 2"
definition BTF_DEDUP_TABLE_DEFAULT_SIZE :: u32 where "BTF_DEDUP_TABLE_DEFAULT_SIZE = 16384"
definition BTF_DEDUP_TABLE_MAX_SIZE_LOG :: nat where "BTF_DEDUP_TABLE_MAX_SIZE_LOG = 31"

record dtype = btf_type +
  extra :: "u32 list"

record line_sec =
  sec_name_off :: u32
  line_recs :: "u32 list list"

record btf_dedup =
  d_types :: "dtype list"
  d_strs :: bytes
  d_lines :: "line_sec list option"
  dedup_table :: "u32 \<Rightarrow> u32 list"
  d_map :: "u32 list"
  hypot_map :: "u32 list"
  hypot_list :: "u32 list"
  hypot_cap :: nat
  dont_resolve_fwds :: bool
  dedup_table_size :: u32
  mem :: nat
  hdr_type_off :: nat
  hdr_type_len :: nat
  hdr_str_off :: nat

definition kind :: "dtype \<Rightarrow> btf_kind" where
  "kind t = BTF_INFO_KIND (type_info t)"

definition vlen :: "dtype \<Rightarrow> nat" where
  "vlen t = BTF_INFO_VLEN (type_info t)"

lemma kind_vlen_updates [simp]:
  "kind (t\<lparr>name_off := v\<rparr>) = kind t" "kind (t\<lparr>size_or_type := v\<rparr>) = kind t" "kind (t\<lparr>extra := ws\<rparr>) = kind t"
  "vlen (t\<lparr>name_off := v\<rparr>) = vlen t" "vlen (t\<lparr>size_or_type := v\<rparr>) = vlen t" "vlen (t\<lparr>extra := ws\<rparr>) = vlen t"
  by (simp_all add: kind_def vlen_def)

definition alloc :: "btf_dedup \<Rightarrow> bool \<times> btf_dedup" where
  "alloc d = (if mem d = 0 then (False, d) else (True, d\<lparr>mem := mem d - 1\<rparr>))"

definition at :: "'a list \<Rightarrow> u32 \<Rightarrow> 'a option" where
  "at l i = nth_option l (unat i)"

definition set_map :: "btf_dedup \<Rightarrow> u32 \<Rightarrow> u32 \<Rightarrow> btf_dedup option" where
  "set_map d i v = (if unat i < length (d_map d) then Some (d\<lparr>d_map := (d_map d)[unat i := v]\<rparr>) else None)"

section \<open>The tables\<close>

definition hash_combine :: "u32 \<Rightarrow> u32 \<Rightarrow> u32" where
  "hash_combine h v = h * 37 + v * 0x9e370001"

definition bucket :: "btf_dedup \<Rightarrow> u32 \<Rightarrow> u32" where
  "bucket d h = h AND (dedup_table_size d - 1)"

text \<open>The candidates in the order of \<open>for_each_dedup_cand\<close>.\<close>

definition dedup_cands :: "btf_dedup \<Rightarrow> u32 \<Rightarrow> u32 list" where
  "dedup_cands d h = dedup_table d (bucket d h)"

definition btf_dedup_table_add :: "btf_dedup \<Rightarrow> u32 \<Rightarrow> u32 \<Rightarrow> int \<times> btf_dedup" where
  "btf_dedup_table_add d h type_id =
     (case alloc d of (ok, d) \<Rightarrow>
      if \<not> ok then (- ENOMEM, d)
      else (0, d\<lparr>dedup_table := (dedup_table d)(bucket d h := type_id # dedup_table d (bucket d h))\<rparr>))"

definition btf_dedup_hypot_map_add :: "btf_dedup \<Rightarrow> u32 \<Rightarrow> u32 \<Rightarrow> (int \<times> btf_dedup) option" where
  "btf_dedup_hypot_map_add d from_id to_id =
     (let grow = (length (hypot_list d) = hypot_cap d);
          d = (if grow then d\<lparr>hypot_cap := hypot_cap d + max 16 (hypot_cap d div 2)\<rparr> else d);
          (ok, d) = (if grow then alloc d else (True, d)) in
      if \<not> ok then Some (- ENOMEM, d)
      else if unat from_id < length (hypot_map d)
      then Some (0, d\<lparr>hypot_list := hypot_list d @ [from_id], hypot_map := (hypot_map d)[unat from_id := to_id]\<rparr>)
      else None)"

definition btf_dedup_clear_hypot_map :: "btf_dedup \<Rightarrow> btf_dedup" where
  "btf_dedup_clear_hypot_map d =
     d\<lparr>hypot_map := fold (\<lambda>i m. m[unat i := BTF_UNPROCESSED_ID]) (hypot_list d) (hypot_map d), hypot_list := []\<rparr>"

text \<open>The loop of \<open>roundup_pow2_max\<close> with \<open>n\<close> turns left.\<close>

fun roundup_from :: "nat \<Rightarrow> nat \<Rightarrow> u32 \<Rightarrow> u32" where
  "roundup_from i 0 sz = push_bit i 1"
| "roundup_from i (Suc n) sz = (if push_bit i 1 < sz then roundup_from (Suc i) n sz else push_bit i 1)"

definition roundup_pow2_max :: "u32 \<Rightarrow> nat \<Rightarrow> u32" where
  "roundup_pow2_max sz max_size_log = roundup_from 0 max_size_log sz"

text \<open>\<open>btf_dedup_new\<close>: the error, or the state. Options that are not given are a size of 0 and \<open>False\<close>. Four allocations are made. Without any type the
  array of types is a null pointer; \<open>void\<close> stands for it.\<close>

definition btf_dedup_new ::
  "dtype list \<Rightarrow> bytes \<Rightarrow> line_sec list option \<Rightarrow> nat \<Rightarrow> u32 \<Rightarrow> bool \<Rightarrow> nat \<Rightarrow> int + btf_dedup" where
  "btf_dedup_new types strs lines toff opt_size opt_no_fwds m =
     (if m < 4 then Inl (- ENOMEM)
      else Inr \<lparr> d_types = types, d_strs = strs, d_lines = lines, dedup_table = (\<lambda>_. []),
        d_map = 0 # replicate (length types - 1) BTF_UNPROCESSED_ID, hypot_map = replicate (max 1 (length types)) BTF_UNPROCESSED_ID,
        hypot_list = [], hypot_cap = 0, dont_resolve_fwds = opt_no_fwds,
        dedup_table_size = roundup_pow2_max (if opt_size \<noteq> 0 then opt_size else BTF_DEDUP_TABLE_DEFAULT_SIZE) BTF_DEDUP_TABLE_MAX_SIZE_LOG,
        mem = m - 4, hdr_type_off = toff, hdr_type_len = 0, hdr_str_off = 0 \<rparr>)"

section \<open>Strings\<close>

text \<open>The words of a type that are offsets of strings, besides its name.\<close>

definition str_positions :: "dtype \<Rightarrow> nat list" where
  "str_positions t =
     (case kind t of
        BTF_KIND_STRUCT \<Rightarrow> map (\<lambda>j. 3 * j) [0..<vlen t]
      | BTF_KIND_UNION \<Rightarrow> map (\<lambda>j. 3 * j) [0..<vlen t]
      | BTF_KIND_ENUM \<Rightarrow> map (\<lambda>j. 2 * j) [0..<vlen t]
      | BTF_KIND_FUNC_PROTO \<Rightarrow> map (\<lambda>j. 2 * j) [0..<vlen t]
      | _ \<Rightarrow> [])"

text \<open>\<open>btf_for_each_str_off\<close> for a function on an offset and a context. It gives an error, the new offset and the new context.\<close>

type_synonym 's str_off_fn = "u32 \<Rightarrow> 's \<Rightarrow> (int \<times> u32 \<times> 's) option"

fun visit_words :: "'s str_off_fn \<Rightarrow> nat list \<Rightarrow> u32 list \<Rightarrow> 's \<Rightarrow> (int \<times> u32 list \<times> 's) option" where
  "visit_words fn [] ws s = Some (0, ws, s)"
| "visit_words fn (k # ks) ws s =
     do { v \<leftarrow> nth_option ws k;
          (r, v, s) \<leftarrow> fn v s;
          if r \<noteq> 0 then Some (r, ws[k := v], s) else visit_words fn ks (ws[k := v]) s }"

fun visit_types :: "'s str_off_fn \<Rightarrow> dtype list \<Rightarrow> 's \<Rightarrow> (int \<times> dtype list \<times> 's) option" where
  "visit_types fn [] s = Some (0, [], s)"
| "visit_types fn (t # ts) s =
     do { (r, v, s) \<leftarrow> fn (name_off t) s;
          let t = t\<lparr>name_off := v\<rparr>;
          if r \<noteq> 0 then Some (r, t # ts, s)
          else do {
            (r, ws, s) \<leftarrow> visit_words fn (str_positions t) (extra t) s;
            let t = t\<lparr>extra := ws\<rparr>;
            if r \<noteq> 0 then Some (r, t # ts, s)
            else do { (r, ts, s) \<leftarrow> visit_types fn ts s; Some (r, t # ts, s) } } }"

fun visit_recs :: "'s str_off_fn \<Rightarrow> u32 list list \<Rightarrow> 's \<Rightarrow> (int \<times> u32 list list \<times> 's) option" where
  "visit_recs fn [] s = Some (0, [], s)"
| "visit_recs fn (l # ls) s =
     do { (r, l, s) \<leftarrow> visit_words fn [1, 2] l s;
          if r \<noteq> 0 then Some (r, l # ls, s)
          else do { (r, ls, s) \<leftarrow> visit_recs fn ls s; Some (r, l # ls, s) } }"

fun visit_lines :: "'s str_off_fn \<Rightarrow> line_sec list \<Rightarrow> 's \<Rightarrow> (int \<times> line_sec list \<times> 's) option" where
  "visit_lines fn [] s = Some (0, [], s)"
| "visit_lines fn (sec # secs) s =
     do { (r, v, s) \<leftarrow> fn (sec_name_off sec) s;
          let sec = sec\<lparr>sec_name_off := v\<rparr>;
          if r \<noteq> 0 then Some (r, sec # secs, s)
          else do {
            (r, ls, s) \<leftarrow> visit_recs fn (line_recs sec) s;
            let sec = sec\<lparr>line_recs := ls\<rparr>;
            if r \<noteq> 0 then Some (r, sec # secs, s)
            else do { (r, secs, s) \<leftarrow> visit_lines fn secs s; Some (r, sec # secs, s) } } }"

definition btf_for_each_str_off :: "'s str_off_fn \<Rightarrow> btf_dedup \<Rightarrow> 's \<Rightarrow> (int \<times> btf_dedup \<times> 's) option" where
  "btf_for_each_str_off fn d s =
     do { (r, ts, s) \<leftarrow> visit_types fn (tl (d_types d)) s;
          let d = d\<lparr>d_types := take 1 (d_types d) @ ts\<rparr>;
          if r \<noteq> 0 then Some (r, d, s)
          else case d_lines d of
            None \<Rightarrow> Some (0, d, s)
          | Some secs \<Rightarrow> do { (r, secs, s) \<leftarrow> visit_lines fn secs s; Some (r, d\<lparr>d_lines := Some secs\<rparr>, s) } }"

text \<open>An entry of the index of the strings. \<open>new_off\<close> is not set for strings that are not used.\<close>

record btf_str_ptr =
  str :: nat
  new_off :: "u32 option"
  used :: bool

definition strlen_at :: "bytes \<Rightarrow> nat \<Rightarrow> nat option" where
  "strlen_at s p = (if 0 \<in> set (drop p s) then Some (length (takeWhile (\<lambda>x. x \<noteq> 0) (drop p s))) else None)"

definition str_at :: "bytes \<Rightarrow> nat \<Rightarrow> bytes" where
  "str_at s p = takeWhile (\<lambda>x. x \<noteq> 0) (drop p s)"

text \<open>The index of all strings from \<open>p\<close> on. The array has room for \<open>cap\<close> entries of which \<open>cnt\<close> are used, and \<open>m\<close> allocations succeed.\<close>

function str_index :: "bytes \<Rightarrow> nat \<Rightarrow> nat \<Rightarrow> nat \<Rightarrow> nat \<Rightarrow> (int \<times> btf_str_ptr list \<times> nat) option" where
  "str_index s p cnt cap m =
     (if p < length s
      then if cnt + 1 > cap \<and> m = 0 then Some (- ENOMEM, [], m)
           else do {
             n \<leftarrow> strlen_at s p;
             let (cap, m) = (if cnt + 1 > cap then (cap + max (cnt div 2) 16, m - 1) else (cap, m));
             (err, ps, m) \<leftarrow> str_index s (p + n + 1) (cnt + 1) cap m;
             Some (err, \<lparr> str = p, new_off = None, used = False \<rparr> # ps, m) }
      else Some (0, [], m))"
  by pat_completeness auto
termination
  by (relation "measure (\<lambda>(s, p, _). length s - p)") auto

declare str_index.simps [simp del]

fun strcmp :: "bytes \<Rightarrow> bytes \<Rightarrow> int" where
  "strcmp [] [] = 0"
| "strcmp [] (y # ys) = -1"
| "strcmp (x # xs) [] = 1"
| "strcmp (x # xs) (y # ys) = (if x < y then -1 else if y < x then 1 else strcmp xs ys)"

definition str_sort_by_content :: "bytes \<Rightarrow> btf_str_ptr \<Rightarrow> btf_str_ptr \<Rightarrow> int" where
  "str_sort_by_content s a b = strcmp (str_at s (str a)) (str_at s (str b))"

definition str_sort_by_offset :: "btf_str_ptr \<Rightarrow> btf_str_ptr \<Rightarrow> int" where
  "str_sort_by_offset a b = (if str a \<noteq> str b then (if str a < str b then -1 else 1) else 0)"

text \<open>\<open>bsearch\<close> in the entries sorted by offset, for the entry with the given one: its place, if there is one.\<close>

fun find_str :: "nat \<Rightarrow> btf_str_ptr list \<Rightarrow> nat option" where
  "find_str off [] = None"
| "find_str off (p # ps) = (if str p = off then Some 0 else map_option Suc (find_str off ps))"

definition btf_str_mark_as_used :: "btf_str_ptr list str_off_fn" where
  "btf_str_mark_as_used off ps =
     (if off = 0 then Some (0, off, ps)
      else case find_str (unat off) ps of
        None \<Rightarrow> Some (- EINVAL, off, ps)
      | Some i \<Rightarrow> Some (0, off, ps[i := (ps ! i)\<lparr>used := True\<rparr>]))"

definition btf_str_remap_offset :: "btf_str_ptr list str_off_fn" where
  "btf_str_remap_offset off ps =
     (if off = 0 then Some (0, off, ps)
      else case find_str (unat off) ps of
        None \<Rightarrow> Some (- EINVAL, off, ps)
      | Some i \<Rightarrow> do { v \<leftarrow> new_off (ps ! i); Some (0, v, ps) })"

text \<open>The loop over the groups of equal strings: \<open>grp\<close> is the group that has been begun, \<open>out\<close> what has been stored. A group that is used
  is stored once, and its members get the new offset.\<close>

definition flush_group :: "bytes \<Rightarrow> btf_str_ptr list \<Rightarrow> bool \<Rightarrow> bytes \<Rightarrow> btf_str_ptr list \<times> bytes" where
  "flush_group s grp grp_used out =
     (if grp_used then (map (\<lambda>p. p\<lparr>new_off := Some (of_nat (length out))\<rparr>) grp, out @ str_at s (str (hd grp)) @ [0])
      else (grp, out))"

fun group_loop :: "bytes \<Rightarrow> btf_str_ptr list \<Rightarrow> bool \<Rightarrow> btf_str_ptr list \<Rightarrow> bytes \<Rightarrow> btf_str_ptr list \<times> bytes" where
  "group_loop s grp grp_used [] out = flush_group s grp grp_used out"
| "group_loop s grp grp_used (p # ps) out =
     (if strcmp (str_at s (str p)) (str_at s (str (hd grp))) = 0
      then group_loop s (grp @ [p]) (grp_used \<or> used p) ps out
      else case flush_group s grp grp_used out of (stored, out) \<Rightarrow>
        (case group_loop s [p] (used p) ps out of (rest, out) \<Rightarrow> (stored @ rest, out)))"

text \<open>After the first sort the strings are stored, the section is replaced and the entries are sorted back.\<close>

definition btf_dedup_strings ::
  "((btf_str_ptr \<Rightarrow> btf_str_ptr \<Rightarrow> int) \<Rightarrow> btf_str_ptr list \<Rightarrow> btf_str_ptr list) \<Rightarrow> btf_dedup \<Rightarrow> (int \<times> btf_dedup) option" where
  "btf_dedup_strings qs d =
     do { (err, ps, m) \<leftarrow> str_index (d_strs d) 0 0 0 (mem d);
          let d = d\<lparr>mem := m\<rparr>;
          if err \<noteq> 0 then Some (err, d)
          else case alloc d of (ok, d) \<Rightarrow>
            if \<not> ok then Some (- ENOMEM, d)
            else if ps = [] then None
            else do {
              (err, d, ps) \<leftarrow> btf_for_each_str_off btf_str_mark_as_used d (ps[0 := (ps ! 0)\<lparr>used := True\<rparr>]);
              if err \<noteq> 0 then Some (err, d)
              else
              let ps = qs (str_sort_by_content (d_strs d)) ps;
                  (ps, out) = group_loop (d_strs d) [hd ps] (used (hd ps)) (tl ps) [] in
              do { (err, d, ps) \<leftarrow> btf_for_each_str_off btf_str_remap_offset (d\<lparr>d_strs := out\<rparr>) (qs str_sort_by_offset ps);
                   Some (err, d) } } }"

section \<open>Comparing types\<close>

text \<open>Some of the words behind a type.\<close>

definition words_at :: "nat list \<Rightarrow> dtype \<Rightarrow> u32 list option" where
  "words_at ks t = (if list_all (\<lambda>k. k < length (extra t)) ks then Some (map (\<lambda>k. extra t ! k) ks) else None)"

definition pair_words :: "dtype \<Rightarrow> nat list" where
  "pair_words t = [0..<2 * vlen t]"

definition member_words :: "dtype \<Rightarrow> nat list" where
  "member_words t = concat (map (\<lambda>j. [3 * j, 3 * j + 2]) [0..<vlen t])"

definition param_names :: "dtype \<Rightarrow> nat list" where
  "param_names t = map (\<lambda>j. 2 * j) [0..<vlen t]"

definition btf_hash_common :: "dtype \<Rightarrow> u32" where
  "btf_hash_common t = hash_combine (hash_combine (hash_combine 0 (name_off t)) (type_info t)) (size_or_type t)"

definition btf_equal_common :: "dtype \<Rightarrow> dtype \<Rightarrow> bool" where
  "btf_equal_common t1 t2 \<longleftrightarrow> name_off t1 = name_off t2 \<and> type_info t1 = type_info t2 \<and> size_or_type t1 = size_or_type t2"

text \<open>The hash of a type and some of its words, and the comparison of two types that have the same words there. The number of words is
  that of the first type; the second has the same info when it is read.\<close>

definition hash_words :: "nat list \<Rightarrow> dtype \<Rightarrow> u32 option" where
  "hash_words ks t = do { ws \<leftarrow> words_at ks t; Some (fold (\<lambda>w h. hash_combine h w) ws (btf_hash_common t)) }"

definition equal_words :: "nat list \<Rightarrow> dtype \<Rightarrow> dtype \<Rightarrow> bool option" where
  "equal_words ks t1 t2 =
     (if \<not> btf_equal_common t1 t2 then Some False
      else do { ws1 \<leftarrow> words_at ks t1; ws2 \<leftarrow> words_at ks t2; Some (ws1 = ws2) })"

definition btf_hash_int :: "dtype \<Rightarrow> u32 option" where "btf_hash_int t = hash_words [0] t"
definition btf_equal_int :: "dtype \<Rightarrow> dtype \<Rightarrow> bool option" where "btf_equal_int t1 t2 = equal_words [0] t1 t2"
definition btf_hash_enum :: "dtype \<Rightarrow> u32 option" where "btf_hash_enum t = hash_words (pair_words t) t"
definition btf_equal_enum :: "dtype \<Rightarrow> dtype \<Rightarrow> bool option" where "btf_equal_enum t1 t2 = equal_words (pair_words t1) t1 t2"
definition btf_hash_struct :: "dtype \<Rightarrow> u32 option" where "btf_hash_struct t = hash_words (member_words t) t"
definition btf_shallow_equal_struct :: "dtype \<Rightarrow> dtype \<Rightarrow> bool option" where
  "btf_shallow_equal_struct t1 t2 = equal_words (member_words t1) t1 t2"
definition btf_hash_array :: "dtype \<Rightarrow> u32 option" where "btf_hash_array t = hash_words [0, 1, 2] t"
definition btf_equal_array :: "dtype \<Rightarrow> dtype \<Rightarrow> bool option" where "btf_equal_array t1 t2 = equal_words [0, 1, 2] t1 t2"
definition btf_compat_array :: "dtype \<Rightarrow> dtype \<Rightarrow> bool option" where "btf_compat_array t1 t2 = equal_words [2] t1 t2"
definition btf_hash_fnproto :: "dtype \<Rightarrow> u32 option" where "btf_hash_fnproto t = hash_words (pair_words t) t"
definition btf_equal_fnproto :: "dtype \<Rightarrow> dtype \<Rightarrow> bool option" where "btf_equal_fnproto t1 t2 = equal_words (pair_words t1) t1 t2"

definition btf_compat_fnproto :: "dtype \<Rightarrow> dtype \<Rightarrow> bool option" where
  "btf_compat_fnproto t1 t2 =
     (if name_off t1 \<noteq> name_off t2 \<or> type_info t1 \<noteq> type_info t2 then Some False
      else do { ws1 \<leftarrow> words_at (param_names t1) t1; ws2 \<leftarrow> words_at (param_names t1) t2; Some (ws1 = ws2) })"

text \<open>The first candidate of a list that is equal, or the type itself.\<close>

fun find_cand :: "(dtype \<Rightarrow> bool option) \<Rightarrow> dtype list \<Rightarrow> u32 \<Rightarrow> u32 list \<Rightarrow> u32 option" where
  "find_cand eq ts self [] = Some self"
| "find_cand eq ts self (c # cs) =
     do { cand \<leftarrow> at ts c; e \<leftarrow> eq cand; if e then Some c else find_cand eq ts self cs }"

section \<open>Primitive types\<close>

text \<open>The end of the functions for one type: it is mapped, and entered in the table when it stands for itself.\<close>

definition map_and_add :: "btf_dedup \<Rightarrow> u32 \<Rightarrow> u32 \<Rightarrow> u32 \<Rightarrow> (int \<times> btf_dedup) option" where
  "map_and_add d h type_id new_id =
     do { d \<leftarrow> set_map d type_id new_id;
          Some (if type_id = new_id then btf_dedup_table_add d h type_id else (0, d)) }"

definition dedup_equal :: "btf_dedup \<Rightarrow> u32 \<Rightarrow> u32 option \<Rightarrow> (dtype \<Rightarrow> bool option) \<Rightarrow> (int \<times> u32 \<times> btf_dedup) option" where
  "dedup_equal d type_id hash eq =
     do { h \<leftarrow> hash;
          new_id \<leftarrow> find_cand eq (d_types d) type_id (dedup_cands d h);
          (err, d) \<leftarrow> map_and_add d h type_id new_id;
          Some (err, new_id, d) }"

definition btf_dedup_prim_type :: "btf_dedup \<Rightarrow> u32 \<Rightarrow> (int \<times> btf_dedup) option" where
  "btf_dedup_prim_type d type_id =
     do { t \<leftarrow> at (d_types d) type_id;
          case kind t of
            BTF_KIND_INT \<Rightarrow> do { (err, _, d) \<leftarrow> dedup_equal d type_id (btf_hash_int t) (btf_equal_int t); Some (err, d) }
          | BTF_KIND_ENUM \<Rightarrow> do { (err, _, d) \<leftarrow> dedup_equal d type_id (btf_hash_enum t) (btf_equal_enum t); Some (err, d) }
          | BTF_KIND_FWD \<Rightarrow>
              do { (err, _, d) \<leftarrow> dedup_equal d type_id (Some (btf_hash_common t)) (\<lambda>c. Some (btf_equal_common t c)); Some (err, d) }
          | BTF_KIND_UNKN \<Rightarrow> Some (- EINVAL, d)
          | _ \<Rightarrow> Some (0, d) }"

text \<open>The loop over all types that the passes share.\<close>

fun each_type :: "(btf_dedup \<Rightarrow> u32 \<Rightarrow> (int \<times> btf_dedup) option) \<Rightarrow> nat list \<Rightarrow> btf_dedup \<Rightarrow> (int \<times> btf_dedup) option" where
  "each_type f [] d = Some (0, d)"
| "each_type f (i # is) d =
     do { (err, d) \<leftarrow> f d (of_nat i); if err \<noteq> 0 then Some (err, d) else each_type f is d }"

definition type_ids :: "btf_dedup \<Rightarrow> nat list" where
  "type_ids d = [1..<length (d_types d)]"

definition btf_dedup_prim_types :: "btf_dedup \<Rightarrow> (int \<times> btf_dedup) option" where
  "btf_dedup_prim_types d = each_type btf_dedup_prim_type (type_ids d) d"

section \<open>Representatives\<close>

definition is_type_mapped :: "btf_dedup \<Rightarrow> u32 \<Rightarrow> bool option" where
  "is_type_mapped d type_id = do { m \<leftarrow> at (d_map d) type_id; Some (m \<le> MAX_NR_TYPES) }"

fun resolve_steps :: "nat \<Rightarrow> u32 list \<Rightarrow> u32 \<Rightarrow> u32 option" where
  "resolve_steps 0 m i = None"
| "resolve_steps (Suc n) m i = do { v \<leftarrow> at m i; if v \<le> MAX_NR_TYPES \<and> v \<noteq> i then resolve_steps n m v else Some i }"

definition resolve_type_id :: "btf_dedup \<Rightarrow> u32 \<Rightarrow> u32 option" where
  "resolve_type_id d type_id = resolve_steps (length (d_map d)) (d_map d) type_id"

definition resolve_fwd_id :: "btf_dedup \<Rightarrow> u32 \<Rightarrow> u32 option" where
  "resolve_fwd_id d type_id =
     do { t \<leftarrow> at (d_types d) type_id;
          if kind t \<noteq> BTF_KIND_FWD then Some type_id
          else do { r \<leftarrow> resolve_type_id d type_id;
                    t \<leftarrow> at (d_types d) r;
                    Some (if kind t \<noteq> BTF_KIND_FWD then r else type_id) } }"

definition btf_fwd_kind :: "dtype \<Rightarrow> btf_kind" where
  "btf_fwd_kind t = (if drop_bit 31 (type_info t) \<noteq> 0 then BTF_KIND_UNION else BTF_KIND_STRUCT)"

section \<open>Structures and unions\<close>

definition member_types :: "dtype \<Rightarrow> nat list" where
  "member_types t = map (\<lambda>j. 3 * j + 1) [0..<vlen t]"

definition param_types :: "dtype \<Rightarrow> nat list" where
  "param_types t = map (\<lambda>j. 2 * j + 1) [0..<vlen t]"

text \<open>The comparison of the types that two lists of words refer to, in turn until one differs.\<close>

fun equiv_all :: "(u32 \<Rightarrow> u32 \<Rightarrow> btf_dedup \<Rightarrow> (int \<times> btf_dedup) option) \<Rightarrow> (u32 \<times> u32) list \<Rightarrow> btf_dedup \<Rightarrow> (int \<times> btf_dedup) option" where
  "equiv_all f [] d = Some (1, d)"
| "equiv_all f (p # ps) d =
     do { (eq, d) \<leftarrow> f (fst p) (snd p) d; if eq \<le> 0 then Some (eq, d) else equiv_all f ps d }"

definition bool_result :: "bool option \<Rightarrow> btf_dedup \<Rightarrow> (int \<times> btf_dedup) option" where
  "bool_result b d = do { v \<leftarrow> b; Some (if v then 1 else 0, d) }"

text \<open>The comparison of two types of the same kind, name and info; \<open>f\<close> compares what they refer to.\<close>

definition equiv_kind ::
  "(u32 \<Rightarrow> u32 \<Rightarrow> btf_dedup \<Rightarrow> (int \<times> btf_dedup) option) \<Rightarrow> dtype \<Rightarrow> dtype \<Rightarrow> btf_dedup \<Rightarrow> (int \<times> btf_dedup) option" where
  "equiv_kind f cand canon d =
     (let ref = f (size_or_type cand) (size_or_type canon) d in
      case kind cand of
        BTF_KIND_INT \<Rightarrow> bool_result (btf_equal_int cand canon) d
      | BTF_KIND_ENUM \<Rightarrow> bool_result (btf_equal_enum cand canon) d
      | BTF_KIND_FWD \<Rightarrow> Some (if btf_equal_common cand canon then 1 else 0, d)
      | BTF_KIND_CONST \<Rightarrow> ref | BTF_KIND_VOLATILE \<Rightarrow> ref | BTF_KIND_RESTRICT \<Rightarrow> ref
      | BTF_KIND_PTR \<Rightarrow> ref | BTF_KIND_TYPEDEF \<Rightarrow> ref | BTF_KIND_FUNC \<Rightarrow> ref
      | BTF_KIND_ARRAY \<Rightarrow>
          do { c \<leftarrow> btf_compat_array cand canon;
               if \<not> c then Some (0, d)
               else do { a \<leftarrow> words_at [1, 0] cand; b \<leftarrow> words_at [1, 0] canon; equiv_all f (zip a b) d } }
      | BTF_KIND_FUNC_PROTO \<Rightarrow>
          do { c \<leftarrow> btf_compat_fnproto cand canon;
               if \<not> c then Some (0, d)
               else do { (eq, d) \<leftarrow> ref;
                         if eq \<le> 0 then Some (eq, d)
                         else do { a \<leftarrow> words_at (param_types cand) cand; b \<leftarrow> words_at (param_types cand) canon; equiv_all f (zip a b) d } } }
      | BTF_KIND_UNKN \<Rightarrow> Some (- EINVAL, d)
      | _ \<Rightarrow>
          do { c \<leftarrow> btf_shallow_equal_struct cand canon;
               if \<not> c then Some (0, d)
               else do { a \<leftarrow> words_at (member_types cand) cand; b \<leftarrow> words_at (member_types cand) canon; equiv_all f (zip a b) d } })"

fun is_equiv :: "nat \<Rightarrow> u32 \<Rightarrow> u32 \<Rightarrow> btf_dedup \<Rightarrow> (int \<times> btf_dedup) option" where
  "is_equiv 0 cand_id canon_id d = None"
| "is_equiv (Suc n) cand_id canon_id d =
     do { r1 \<leftarrow> resolve_type_id d cand_id;
          r2 \<leftarrow> resolve_type_id d canon_id;
          if r1 = r2 then Some (1, d)
          else do {
            canon_id \<leftarrow> resolve_fwd_id d canon_id;
            hyp \<leftarrow> at (hypot_map d) canon_id;
            if hyp \<le> MAX_NR_TYPES then Some (if hyp = cand_id then 1 else 0, d)
            else do {
              (err, d) \<leftarrow> btf_dedup_hypot_map_add d canon_id cand_id;
              if err \<noteq> 0 then Some (- ENOMEM, d)
              else do {
                cand \<leftarrow> at (d_types d) cand_id;
                canon \<leftarrow> at (d_types d) canon_id;
                if name_off cand \<noteq> name_off canon then Some (0, d)
                else if \<not> dont_resolve_fwds d \<and> (kind cand = BTF_KIND_FWD \<or> kind canon = BTF_KIND_FWD) \<and> kind cand \<noteq> kind canon
                then Some (if (if kind cand = BTF_KIND_FWD then btf_fwd_kind cand = kind canon else btf_fwd_kind canon = kind cand)
                           then 1 else 0, d)
                else if type_info cand \<noteq> type_info canon then Some (0, d)
                else equiv_kind (is_equiv n) cand canon d } } } }"

definition btf_dedup_is_equiv :: "btf_dedup \<Rightarrow> u32 \<Rightarrow> u32 \<Rightarrow> (int \<times> btf_dedup) option" where
  "btf_dedup_is_equiv d cand_id canon_id = is_equiv (Suc (length (hypot_map d))) cand_id canon_id d"

text \<open>One turn of the loop of \<open>btf_dedup_merge_hypot_map\<close>.\<close>

definition merge_hypot :: "u32 \<Rightarrow> btf_dedup \<Rightarrow> btf_dedup option" where
  "merge_hypot cand_type_id d =
     do { targ_type_id \<leftarrow> at (hypot_map d) cand_type_id;
          t_id \<leftarrow> resolve_type_id d targ_type_id;
          c_id \<leftarrow> resolve_type_id d cand_type_id;
          t \<leftarrow> at (d_types d) t_id;
          c \<leftarrow> at (d_types d) c_id;
          d \<leftarrow> (if kind t \<noteq> BTF_KIND_FWD \<and> kind c = BTF_KIND_FWD then set_map d c_id t_id
               else if kind t = BTF_KIND_FWD \<and> kind c \<noteq> BTF_KIND_FWD then set_map d t_id c_id
               else Some d);
          c_mapped \<leftarrow> is_type_mapped d c_id;
          t_mapped \<leftarrow> is_type_mapped d t_id;
          if (kind t = BTF_KIND_STRUCT \<or> kind t = BTF_KIND_UNION) \<and> kind c \<noteq> BTF_KIND_FWD \<and> c_mapped \<and> \<not> t_mapped
          then set_map d t_id c_id else Some d }"

fun merge_all :: "u32 list \<Rightarrow> btf_dedup \<Rightarrow> btf_dedup option" where
  "merge_all [] d = Some d"
| "merge_all (i # is) d = do { d \<leftarrow> merge_hypot i d; merge_all is d }"

definition btf_dedup_merge_hypot_map :: "btf_dedup \<Rightarrow> btf_dedup option" where
  "btf_dedup_merge_hypot_map d = merge_all (hypot_list d) d"

text \<open>The loop over the candidates: an error, or the representative.\<close>

fun struct_cands :: "dtype \<Rightarrow> u32 \<Rightarrow> u32 list \<Rightarrow> btf_dedup \<Rightarrow> (int \<times> u32 \<times> btf_dedup) option" where
  "struct_cands t type_id [] d = Some (0, type_id, d)"
| "struct_cands t type_id (c # cs) d =
     do { cand_type \<leftarrow> at (d_types d) c;
          same \<leftarrow> btf_shallow_equal_struct t cand_type;
          if \<not> same then struct_cands t type_id cs d
          else do {
            (eq, d) \<leftarrow> btf_dedup_is_equiv (btf_dedup_clear_hypot_map d) type_id c;
            if eq < 0 then Some (eq, type_id, d)
            else if eq = 0 then struct_cands t type_id cs d
            else do { d \<leftarrow> btf_dedup_merge_hypot_map d; Some (0, c, d) } } }"

definition btf_dedup_struct_type :: "btf_dedup \<Rightarrow> u32 \<Rightarrow> (int \<times> btf_dedup) option" where
  "btf_dedup_struct_type d type_id =
     do { mapped \<leftarrow> is_type_mapped d type_id;
          if mapped then Some (0, d)
          else do {
            t \<leftarrow> at (d_types d) type_id;
            if kind t \<noteq> BTF_KIND_STRUCT \<and> kind t \<noteq> BTF_KIND_UNION then Some (0, d)
            else do {
              h \<leftarrow> btf_hash_struct t;
              (err, new_id, d) \<leftarrow> struct_cands t type_id (dedup_cands d h) d;
              if err < 0 then Some (err, d) else map_and_add d h type_id new_id } } }"

definition btf_dedup_struct_types :: "btf_dedup \<Rightarrow> (int \<times> btf_dedup) option" where
  "btf_dedup_struct_types d = each_type btf_dedup_struct_type (type_ids d) d"

section \<open>References\<close>

definition set_ref :: "btf_dedup \<Rightarrow> u32 \<Rightarrow> u32 \<Rightarrow> btf_dedup option" where
  "set_ref d i v = do { t \<leftarrow> at (d_types d) i; Some (d\<lparr>d_types := (d_types d)[unat i := t\<lparr>size_or_type := v\<rparr>]\<rparr>) }"

definition set_word :: "btf_dedup \<Rightarrow> u32 \<Rightarrow> nat \<Rightarrow> u32 \<Rightarrow> btf_dedup option" where
  "set_word d i k v = do { t \<leftarrow> at (d_types d) i; Some (d\<lparr>d_types := (d_types d)[unat i := t\<lparr>extra := (extra t)[k := v]\<rparr>]\<rparr>) }"

text \<open>Replacing the type that a type refers to, and the types that some of its words refer to, by what \<open>f\<close> gives for them. \<open>f\<close> gives a negative error or a
  type.\<close>

definition replace_ref :: "(btf_dedup \<Rightarrow> u32 \<Rightarrow> (int \<times> btf_dedup) option) \<Rightarrow> u32 \<Rightarrow> btf_dedup \<Rightarrow> (int \<times> btf_dedup) option" where
  "replace_ref f i d =
     do { t \<leftarrow> at (d_types d) i;
          (r, d) \<leftarrow> f d (size_or_type t);
          if r < 0 then Some (r, d) else do { d \<leftarrow> set_ref d i (of_int r); Some (0, d) } }"

fun replace_words :: "(btf_dedup \<Rightarrow> u32 \<Rightarrow> (int \<times> btf_dedup) option) \<Rightarrow> u32 \<Rightarrow> nat list \<Rightarrow> btf_dedup \<Rightarrow> (int \<times> btf_dedup) option" where
  "replace_words f i [] d = Some (0, d)"
| "replace_words f i (k # ks) d =
     do { t \<leftarrow> at (d_types d) i;
          v \<leftarrow> nth_option (extra t) k;
          (r, d) \<leftarrow> f d v;
          if r < 0 then Some (r, d) else do { d \<leftarrow> set_word d i k (of_int r); replace_words f i ks d } }"

text \<open>The switch of \<open>btf_dedup_ref_type\<close> up to the hash: the error, and the state in which the references have been replaced.\<close>

definition replace_refs :: "(btf_dedup \<Rightarrow> u32 \<Rightarrow> (int \<times> btf_dedup) option) \<Rightarrow> dtype \<Rightarrow> u32 \<Rightarrow> btf_dedup \<Rightarrow> (int \<times> btf_dedup) option" where
  "replace_refs f t i d =
     (case kind t of
        BTF_KIND_CONST \<Rightarrow> replace_ref f i d | BTF_KIND_VOLATILE \<Rightarrow> replace_ref f i d | BTF_KIND_RESTRICT \<Rightarrow> replace_ref f i d
      | BTF_KIND_PTR \<Rightarrow> replace_ref f i d | BTF_KIND_TYPEDEF \<Rightarrow> replace_ref f i d | BTF_KIND_FUNC \<Rightarrow> replace_ref f i d
      | BTF_KIND_ARRAY \<Rightarrow> replace_words f i [0, 1] d
      | BTF_KIND_FUNC_PROTO \<Rightarrow>
          do { (r, d) \<leftarrow> replace_ref f i d; if r < 0 then Some (r, d) else replace_words f i (param_types t) d }
      | _ \<Rightarrow> Some (- EINVAL, d))"

definition ref_hash :: "dtype \<Rightarrow> u32 option" where
  "ref_hash t =
     (case kind t of
        BTF_KIND_ARRAY \<Rightarrow> btf_hash_array t
      | BTF_KIND_FUNC_PROTO \<Rightarrow> btf_hash_fnproto t
      | _ \<Rightarrow> Some (btf_hash_common t))"

definition ref_equal :: "dtype \<Rightarrow> dtype \<Rightarrow> bool option" where
  "ref_equal t cand =
     (case kind t of
        BTF_KIND_ARRAY \<Rightarrow> btf_equal_array t cand
      | BTF_KIND_FUNC_PROTO \<Rightarrow> btf_equal_fnproto t cand
      | _ \<Rightarrow> Some (btf_equal_common t cand))"

fun ref_type :: "nat \<Rightarrow> btf_dedup \<Rightarrow> u32 \<Rightarrow> (int \<times> btf_dedup) option" where
  "ref_type 0 d type_id = None"
| "ref_type (Suc n) d type_id =
     do { m \<leftarrow> at (d_map d) type_id;
          if m = BTF_IN_PROGRESS_ID then Some (- ELOOP, d)
          else if m \<le> MAX_NR_TYPES then do { r \<leftarrow> resolve_type_id d type_id; Some (sint r, d) }
          else do {
            t \<leftarrow> at (d_types d) type_id;
            d \<leftarrow> set_map d type_id BTF_IN_PROGRESS_ID;
            (r, d) \<leftarrow> replace_refs (ref_type n) t type_id d;
            if r < 0 then Some (r, d)
            else do {
              t \<leftarrow> at (d_types d) type_id;
              (err, new_id, d) \<leftarrow> dedup_equal d type_id (ref_hash t) (ref_equal t);
              Some (if err \<noteq> 0 then - ENOMEM else sint new_id, d) } } }"

definition btf_dedup_ref_type :: "btf_dedup \<Rightarrow> u32 \<Rightarrow> (int \<times> btf_dedup) option" where
  "btf_dedup_ref_type d type_id = ref_type (Suc (length (d_map d))) d type_id"

text \<open>The loops of the last passes, which stop at a negative number.\<close>

fun each_until_negative :: "(btf_dedup \<Rightarrow> u32 \<Rightarrow> (int \<times> btf_dedup) option) \<Rightarrow> nat list \<Rightarrow> btf_dedup \<Rightarrow> (int \<times> btf_dedup) option" where
  "each_until_negative f [] d = Some (0, d)"
| "each_until_negative f (i # is) d =
     do { (err, d) \<leftarrow> f d (of_nat i); if err < 0 then Some (err, d) else each_until_negative f is d }"

definition btf_dedup_ref_types :: "btf_dedup \<Rightarrow> (int \<times> btf_dedup) option" where
  "btf_dedup_ref_types d =
     do { (err, d) \<leftarrow> each_until_negative btf_dedup_ref_type (type_ids d) d;
          Some (err, if err < 0 then d else d\<lparr>dedup_table := (\<lambda>_. [])\<rparr>) }"

section \<open>Compaction\<close>

text \<open>The loop over the types from number \<open>i\<close> on: the types that stand for themselves in their order, the map from old to new numbers and the
  length of the types so far.\<close>

fun compact_loop :: "u32 list \<Rightarrow> nat \<Rightarrow> dtype list \<Rightarrow> nat \<Rightarrow> u32 list \<Rightarrow> nat \<Rightarrow> (int \<times> dtype list \<times> u32 list \<times> nat) option" where
  "compact_loop m i [] next_id hyp len = Some (0, [], hyp, len)"
| "compact_loop m i (t # ts) next_id hyp len =
     do { v \<leftarrow> nth_option m i;
          if unat v \<noteq> i then compact_loop m (Suc i) ts next_id hyp len
          else
          let sz = btf_type_size (type_info t) in
          if sz < 0 then Some (sz, t # ts, hyp, len)
          else if i < length hyp
          then do { (err, kept, hyp, len) \<leftarrow> compact_loop m (Suc i) ts (Suc next_id) (hyp[i := of_nat next_id]) (len + nat sz);
                    Some (err, t # kept, hyp, len) }
          else None }"

definition btf_dedup_compact_types :: "btf_dedup \<Rightarrow> (int \<times> btf_dedup) option" where
  "btf_dedup_compact_types d =
     (if hypot_map d = [] then None
      else do {
        (err, kept, hyp, len) \<leftarrow> compact_loop (d_map d) 1 (tl (d_types d)) 1 (0 # replicate (length (hypot_map d) - 1) BTF_UNPROCESSED_ID) 0;
        if err < 0 then Some (err, d\<lparr>hypot_map := hyp\<rparr>)
        else
        let d = d\<lparr>d_types := take 1 (d_types d) @ kept, hypot_map := hyp, hdr_type_len := len\<rparr> in
        case alloc d of (ok, d) \<Rightarrow>
          Some (if \<not> ok then (- ENOMEM, d) else (0, d\<lparr>hdr_str_off := hdr_type_off d + len\<rparr>)) })"

definition btf_dedup_remap_type_id :: "btf_dedup \<Rightarrow> u32 \<Rightarrow> (int \<times> btf_dedup) option" where
  "btf_dedup_remap_type_id d type_id =
     do { r \<leftarrow> resolve_type_id d type_id;
          v \<leftarrow> at (hypot_map d) r;
          Some (if v > MAX_NR_TYPES then - EINVAL else sint v, d) }"

definition btf_dedup_remap_type :: "btf_dedup \<Rightarrow> u32 \<Rightarrow> (int \<times> btf_dedup) option" where
  "btf_dedup_remap_type d type_id =
     (let f = btf_dedup_remap_type_id in
      do { t \<leftarrow> at (d_types d) type_id;
           case kind t of
             BTF_KIND_INT \<Rightarrow> Some (0, d)
           | BTF_KIND_ENUM \<Rightarrow> Some (0, d)
           | BTF_KIND_ARRAY \<Rightarrow> replace_words f type_id [0, 1] d
           | BTF_KIND_STRUCT \<Rightarrow> replace_words f type_id (member_types t) d
           | BTF_KIND_UNION \<Rightarrow> replace_words f type_id (member_types t) d
           | BTF_KIND_FUNC_PROTO \<Rightarrow>
               do { (r, d) \<leftarrow> replace_ref f type_id d; if r < 0 then Some (r, d) else replace_words f type_id (param_types t) d }
           | BTF_KIND_UNKN \<Rightarrow> Some (- EINVAL, d)
           | _ \<Rightarrow> replace_ref f type_id d })"

definition btf_dedup_remap_types :: "btf_dedup \<Rightarrow> (int \<times> btf_dedup) option" where
  "btf_dedup_remap_types d = each_until_negative btf_dedup_remap_type (type_ids d) d"

section \<open>All passes\<close>

fun run_passes :: "(btf_dedup \<Rightarrow> (int \<times> btf_dedup) option) list \<Rightarrow> btf_dedup \<Rightarrow> (int \<times> btf_dedup) option" where
  "run_passes [] d = Some (0, d)"
| "run_passes (f # fs) d = do { (err, d) \<leftarrow> f d; if err < 0 then Some (err, d) else run_passes fs d }"

text \<open>\<open>btf__dedup\<close> of the types and strings of a section, and the lines of \<open>.BTF.ext\<close> if there are any. A state that cannot be made is \<open>-EINVAL\<close>.\<close>

definition btf__dedup ::
  "((btf_str_ptr \<Rightarrow> btf_str_ptr \<Rightarrow> int) \<Rightarrow> btf_str_ptr list \<Rightarrow> btf_str_ptr list) \<Rightarrow>
     dtype list \<Rightarrow> bytes \<Rightarrow> line_sec list option \<Rightarrow> nat \<Rightarrow> u32 \<Rightarrow> bool \<Rightarrow> nat \<Rightarrow> (int \<times> btf_dedup option) option" where
  "btf__dedup qs types strs lines toff opt_size opt_no_fwds m =
     (case btf_dedup_new types strs lines toff opt_size opt_no_fwds m of
        Inl _ \<Rightarrow> Some (- EINVAL, None)
      | Inr d \<Rightarrow>
          do { (err, d) \<leftarrow> run_passes [btf_dedup_strings qs, btf_dedup_prim_types, btf_dedup_struct_types, btf_dedup_ref_types,
                              btf_dedup_compact_types, btf_dedup_remap_types] d;
               Some (err, Some d) })"

end
