(* ===== verification/Dedup_Strings.thy ===== *)
theory Dedup_Strings
  imports Btf_Dedup
begin

text \<open>
  The first pass of \<open>btf__dedup\<close> keeps every string that a type or a line record names, and stores each once, so that
  the later passes may compare offsets instead of strings.
\<close>

section \<open>The places that name strings\<close>

definition type_strs :: "dtype \<Rightarrow> u32 list" where
  "type_strs t = name_off t # map (\<lambda>k. extra t ! k) (str_positions t)"

definition sec_strs :: "line_sec \<Rightarrow> u32 list" where
  "sec_strs sec = sec_name_off sec # concat (map (\<lambda>l. [l ! 1, l ! 2]) (line_recs sec))"

definition str_offs :: "btf_dedup \<Rightarrow> u32 list" where
  "str_offs d = concat (map type_strs (tl (d_types d))) @ (case d_lines d of None \<Rightarrow> [] | Some secs \<Rightarrow> concat (map sec_strs secs))"

text \<open>Everything else: the words with those of the strings set to 0.\<close>

definition type_strip :: "dtype \<Rightarrow> dtype" where
  "type_strip t = t\<lparr>name_off := 0, extra := map (\<lambda>k. if k \<in> set (str_positions t) then 0 else extra t ! k) [0..<length (extra t)]\<rparr>"

definition sec_strip :: "line_sec \<Rightarrow> line_sec" where
  "sec_strip sec = sec\<lparr>sec_name_off := 0, line_recs := map (\<lambda>l. l[1 := 0, 2 := 0]) (line_recs sec)\<rparr>"

definition strip :: "btf_dedup \<Rightarrow> btf_dedup" where
  "strip d = d\<lparr>d_types := take 1 (d_types d) @ map type_strip (tl (d_types d)), d_lines := map_option (map sec_strip) (d_lines d)\<rparr>"

lemma str_positions_cong: "type_info t = type_info t' \<Longrightarrow> str_positions t = str_positions t'"
  by (simp add: str_positions_def kind_def vlen_def cong: btf_kind.case_cong)

lemma type_strip_update:
  "length ws = length (extra t) \<Longrightarrow> (\<And>k. k \<notin> set (str_positions t) \<Longrightarrow> ws ! k = extra t ! k) \<Longrightarrow>
     type_strip (t\<lparr>name_off := v, extra := ws\<rparr>) = type_strip t"
  using str_positions_cong [of "t\<lparr>name_off := v, extra := ws\<rparr>" t] by (simp add: type_strip_def)

lemma rec_strip_update:
  assumes "length l' = length l" "\<And>k. k \<notin> {1, 2} \<Longrightarrow> l' ! k = l ! k"
  shows "l'[1 := 0, 2 := 0] = l[1 := 0, 2 := (0 :: u32)]"
proof (rule nth_equalityI)
  show "l'[1 := 0, 2 := 0] ! i = l[1 := 0, 2 := 0] ! i" if "i < length (l'[1 := 0, 2 := 0])" for i
    using assms that by (cases "i = 1 \<or> i = 2") auto
qed (use assms in simp)

text \<open>What the passes over these places have in common: a relation between the old and the new offset that holds in the context after
  the call and in every later one.\<close>

locale visitor =
  fixes fn :: "'s str_off_fn" and R :: "'s \<Rightarrow> 's \<Rightarrow> bool" and rel :: "'s \<Rightarrow> u32 \<Rightarrow> u32 \<Rightarrow> bool"
  assumes step: "fn v s = Some (0, v', s') \<Longrightarrow> R s s' \<and> rel s' v v'"
    and later: "R s s' \<Longrightarrow> rel s v v' \<Longrightarrow> rel s' v v'"
    and trans: "R s s' \<Longrightarrow> R s' s'' \<Longrightarrow> R s s''"
    and refl: "R s s"
begin

lemma list_later: "R s s' \<Longrightarrow> list_all2 (rel s) vs vs' \<Longrightarrow> list_all2 (rel s') vs vs'"
  using list_all2_mono [of "rel s" vs vs' "rel s'"] later by blast

lemma visit_words_rel:
  "visit_words fn ks ws s = Some (0, ws', s') \<Longrightarrow> distinct ks \<Longrightarrow>
     R s s' \<and> length ws' = length ws \<and> (\<forall>k. k \<notin> set ks \<longrightarrow> ws' ! k = ws ! k) \<and>
     list_all2 (rel s') (map (\<lambda>k. ws ! k) ks) (map (\<lambda>k. ws' ! k) ks)"
proof (induction ks arbitrary: ws s)
  case Nil
  then show ?case by (simp add: refl)
next
  case (Cons k ks)
  then obtain v s1 where k: "k < length ws" and f: "fn (ws ! k) s = Some (0, v, s1)" and v: "visit_words fn ks (ws[k := v]) s1 = Some (0, ws', s')"
    by (auto simp: nth_option_def split: Option.bind_splits if_splits)
  have d: "distinct ks" "k \<notin> set ks" using Cons.prems(2) by auto
  from Cons.IH [OF v d(1)] have ih: "R s1 s'" "length ws' = length ws" "\<And>j. j \<notin> set ks \<Longrightarrow> ws' ! j = ws[k := v] ! j"
    "list_all2 (rel s') (map (\<lambda>j. ws[k := v] ! j) ks) (map (\<lambda>j. ws' ! j) ks)" by auto
  have same: "map (\<lambda>j. ws[k := v] ! j) ks = map (\<lambda>j. ws ! j) ks" using d(2) by (auto intro!: nth_list_update_neq)
  have "ws' ! k = v" using ih(3) [OF d(2)] k by simp
  moreover have "ws' ! j = ws ! j" if "j \<notin> set (k # ks)" for j using ih(3) [of j] that by simp
  moreover have "R s s1" "rel s' (ws ! k) v" using step [OF f] later [OF ih(1)] by auto
  ultimately show ?case using ih(1,2) ih(4) [unfolded same] trans [of s s1 s'] by auto
qed

lemma str_positions_distinct: "distinct (str_positions t)"
  by (auto simp: str_positions_def distinct_map inj_on_def split: btf_kind.split)

lemma visit_types_rel:
  "visit_types fn ts s = Some (0, ts', s') \<Longrightarrow>
     R s s' \<and> list_all2 (rel s') (concat (map type_strs ts)) (concat (map type_strs ts')) \<and> map type_strip ts' = map type_strip ts"
proof (induction ts arbitrary: ts' s)
  case Nil
  then show ?case by (simp add: refl)
next
  case (Cons t ts)
  obtain v s1 ws s2 ts2 where f: "fn (name_off t) s = Some (0, v, s1)"
    and w: "visit_words fn (str_positions (t\<lparr>name_off := v\<rparr>)) (extra t) s1 = Some (0, ws, s2)"
    and r: "visit_types fn ts s2 = Some (0, ts2, s')" and ts': "ts' = t\<lparr>name_off := v, extra := ws\<rparr> # ts2"
    using Cons.prems by (auto simp: Let_def split: Option.bind_splits if_splits)
  have p: "str_positions (t\<lparr>name_off := v\<rparr>) = str_positions t" "str_positions (t\<lparr>name_off := v, extra := ws\<rparr>) = str_positions t"
    by (simp_all add: str_positions_def split: btf_kind.split)
  note vw = visit_words_rel [OF w [unfolded p] str_positions_distinct]
  have strip: "type_strip (t\<lparr>name_off := v, extra := ws\<rparr>) = type_strip t" using vw by (intro type_strip_update) auto
  from vw Cons.IH [OF r] step [OF f]
  have ih: "R s1 s2" "list_all2 (rel s2) (map (\<lambda>k. extra t ! k) (str_positions t)) (map (\<lambda>k. ws ! k) (str_positions t))"
    "R s2 s'" "list_all2 (rel s') (concat (map type_strs ts)) (concat (map type_strs ts2))" "map type_strip ts2 = map type_strip ts"
    "R s s1" "rel s1 (name_off t) v" by auto
  have "rel s' (name_off t) v" using ih trans later by blast
  moreover have "R s s'" using ih trans by blast
  moreover have "type_strs t = name_off t # map (\<lambda>k. extra t ! k) (str_positions t)"
    "type_strs (t\<lparr>name_off := v, extra := ws\<rparr>) = v # map (\<lambda>k. ws ! k) (str_positions t)" by (simp_all add: type_strs_def p)
  ultimately show ?case
    using list_later [OF ih(3,2)] ih(4,5) strip by (simp add: ts' list_all2_appendI)
qed

lemma visit_recs_rel:
  "visit_recs fn ls s = Some (0, ls', s') \<Longrightarrow>
     R s s' \<and> list_all2 (rel s') (concat (map (\<lambda>l. [l ! 1, l ! 2]) ls)) (concat (map (\<lambda>l. [l ! 1, l ! 2]) ls')) \<and>
     map (\<lambda>l. l[1 := 0, 2 := 0]) ls' = map (\<lambda>l. l[1 := 0, 2 := 0]) ls"
proof (induction ls arbitrary: ls' s)
  case Nil
  then show ?case by (simp add: refl)
next
  case (Cons l ls)
  obtain l' s1 ls2 where w: "visit_words fn [1, 2] l s = Some (0, l', s1)"
    and r: "visit_recs fn ls s1 = Some (0, ls2, s')" and ls': "ls' = l' # ls2"
    using Cons.prems by (auto simp del: visit_words.simps split: Option.bind_splits if_splits)
  from visit_words_rel [OF w] have "l'[1 := 0, 2 := 0] = l[1 := 0, 2 := 0]" by (intro rec_strip_update) auto
  moreover from visit_words_rel [OF w] Cons.IH [OF r] have ih: "R s s1" "rel s1 (l ! 1) (l' ! 1)" "rel s1 (l ! 2) (l' ! 2)" "R s1 s'"
    "list_all2 (rel s') (concat (map (\<lambda>l. [l ! 1, l ! 2]) ls)) (concat (map (\<lambda>l. [l ! 1, l ! 2]) ls2))"
    "map (\<lambda>l. l[1 := 0, 2 := 0]) ls2 = map (\<lambda>l. l[1 := 0, 2 := 0]) ls" by auto
  ultimately show ?case using trans [of s s1 s'] later [OF ih(4)] by (auto simp: ls')
qed

lemma visit_lines_rel:
  "visit_lines fn secs s = Some (0, secs', s') \<Longrightarrow> R s s' \<and> list_all2 (rel s') (concat (map sec_strs secs)) (concat (map sec_strs secs')) \<and>
     map sec_strip secs' = map sec_strip secs"
proof (induction secs arbitrary: secs' s)
  case Nil
  then show ?case by (simp add: refl)
next
  case (Cons sec secs)
  obtain v s1 ls s2 secs2 where f: "fn (sec_name_off sec) s = Some (0, v, s1)" and w: "visit_recs fn (line_recs sec) s1 = Some (0, ls, s2)"
    and r: "visit_lines fn secs s2 = Some (0, secs2, s')" and secs': "secs' = sec\<lparr>sec_name_off := v, line_recs := ls\<rparr> # secs2"
    using Cons.prems by (auto simp: Let_def split: Option.bind_splits if_splits)
  from visit_recs_rel [OF w] Cons.IH [OF r] step [OF f]
  have ih: "R s1 s2" "list_all2 (rel s2) (concat (map (\<lambda>l. [l ! 1, l ! 2]) (line_recs sec))) (concat (map (\<lambda>l. [l ! 1, l ! 2]) ls))"
    "R s2 s'" "list_all2 (rel s') (concat (map sec_strs secs)) (concat (map sec_strs secs2))" "R s s1" "rel s1 (sec_name_off sec) v"
    "map sec_strip secs2 = map sec_strip secs" "map (\<lambda>l. l[1 := 0, 2 := 0]) ls = map (\<lambda>l. l[1 := 0, 2 := 0]) (line_recs sec)" by auto
  have strip: "sec_strip (sec\<lparr>sec_name_off := v, line_recs := ls\<rparr>) = sec_strip sec" using ih(8) by (simp add: sec_strip_def)
  have "rel s' (sec_name_off sec) v" using ih trans later by blast
  moreover have "R s s'" using ih trans by blast
  moreover have "sec_strs sec = sec_name_off sec # concat (map (\<lambda>l. [l ! 1, l ! 2]) (line_recs sec))"
    "sec_strs (sec\<lparr>sec_name_off := v, line_recs := ls\<rparr>) = v # concat (map (\<lambda>l. [l ! 1, l ! 2]) ls)" by (simp_all add: sec_strs_def)
  ultimately show ?case
    using list_later [OF ih(3,2)] ih(4,7) strip by (simp add: secs' list_all2_appendI)
qed

lemma for_each_rel:
  assumes "btf_for_each_str_off fn d s = Some (0, d', s')" "d_types d \<noteq> []"
  shows "R s s' \<and> list_all2 (rel s') (str_offs d) (str_offs d') \<and> strip d' = strip d"
proof -
  obtain t0 ts where t: "d_types d = t0 # ts" using assms(2) by (cases "d_types d") auto
  obtain ts' s1 where v: "visit_types fn ts s = Some (0, ts', s1)"
    and d': "case d_lines d of None \<Rightarrow> d' = d\<lparr>d_types := t0 # ts'\<rparr> \<and> s' = s1
      | Some secs \<Rightarrow> \<exists>secs'. visit_lines fn secs s1 = Some (0, secs', s') \<and> d' = d\<lparr>d_types := t0 # ts', d_lines := Some secs'\<rparr>"
    using assms(1) by (auto simp: btf_for_each_str_off_def Let_def t split: Option.bind_splits if_splits option.splits)
  note vt = visit_types_rel [OF v]
  show ?thesis
  proof (cases "d_lines d")
    case None
    then show ?thesis using vt d' by (simp add: str_offs_def strip_def t)
  next
    case (Some secs)
    then obtain secs' where l: "visit_lines fn secs s1 = Some (0, secs', s')" and e: "d' = d\<lparr>d_types := t0 # ts', d_lines := Some secs'\<rparr>"
      using d' by auto
    from visit_lines_rel [OF l] have vl: "R s1 s'" "list_all2 (rel s') (concat (map sec_strs secs)) (concat (map sec_strs secs'))"
      "map sec_strip secs' = map sec_strip secs" by auto
    have "list_all2 (rel s') (concat (map type_strs ts)) (concat (map type_strs ts'))" using vt list_later [OF vl(1)] by blast
    then show ?thesis
      using vt vl trans [of s s1 s'] by (auto simp: str_offs_def strip_def t e Some intro!: list_all2_appendI)
  qed
qed

end

text \<open>Where the words are there, the visits return.\<close>

definition strs_fit :: "btf_dedup \<Rightarrow> bool" where
  "strs_fit d \<longleftrightarrow> list_all (\<lambda>t. list_all (\<lambda>k. k < length (extra t)) (str_positions t)) (tl (d_types d)) \<and>
     (case d_lines d of None \<Rightarrow> True | Some secs \<Rightarrow> list_all (\<lambda>sec. list_all (\<lambda>l. 2 < length l) (line_recs sec)) secs)"

lemma map_eq_prop:
  assumes "\<And>x y. f x = f y \<Longrightarrow> P x = P y"
  shows "map f xs = map f ys \<Longrightarrow> list_all P xs = list_all P ys"
proof (induction xs arbitrary: ys)
  case (Cons x xs)
  then obtain y ys' where "ys = y # ys'" "f x = f y" "map f xs = map f ys'" by (cases ys) auto
  then show ?case using Cons.IH [of ys'] assms [of x y] by simp
qed simp

lemma strs_fit_strip:
  assumes "strip d' = strip d" "strs_fit d"
  shows "strs_fit d'"
proof -
  let ?T = "\<lambda>t. list_all (\<lambda>k. k < length (extra t)) (str_positions t)"
  let ?S = "\<lambda>sec. list_all (\<lambda>l. 2 < length l) (line_recs sec)"
  have T: "?T t = ?T t'" if "type_strip t = type_strip t'" for t t'
  proof -
    have "type_info (type_strip t) = type_info (type_strip t')" "length (extra (type_strip t)) = length (extra (type_strip t'))" using that by simp_all
    then show ?thesis using str_positions_cong [of t t'] by (simp add: type_strip_def)
  qed
  have S: "?S sec = ?S sec'" if e: "sec_strip sec = sec_strip sec'" for sec sec'
  proof -
    have "line_recs (sec_strip sec) = line_recs (sec_strip sec')" using e by simp
    then have "map (\<lambda>l. l[1 := 0, 2 := 0]) (line_recs sec) = map (\<lambda>l. l[1 := 0, 2 := 0]) (line_recs sec')" by (simp add: sec_strip_def)
    then show ?thesis by (rule map_eq_prop [rotated]) (metis length_list_update)
  qed
  have "tl (d_types (strip d')) = tl (d_types (strip d))" using assms(1) by simp
  moreover have "tl (d_types (strip x)) = map type_strip (tl (d_types x))" for x by (cases "d_types x") (simp_all add: strip_def)
  ultimately have "map type_strip (tl (d_types d')) = map type_strip (tl (d_types d))" by simp
  then have "list_all ?T (tl (d_types d')) = list_all ?T (tl (d_types d))" by (rule map_eq_prop [rotated]) (rule T)
  moreover have "d_lines (strip d') = d_lines (strip d)" using assms(1) by simp
  then have "case d_lines d' of None \<Rightarrow> True | Some secs \<Rightarrow> list_all ?S secs"
  proof (cases "d_lines d'")
    case (Some secs')
    then obtain secs where secs: "d_lines d = Some secs" "map sec_strip secs' = map sec_strip secs"
      using \<open>d_lines (strip d') = d_lines (strip d)\<close> by (cases "d_lines d") (simp_all add: strip_def)
    have "list_all ?S secs' = list_all ?S secs" using secs(2) by (rule map_eq_prop [rotated]) (rule S)
    then show ?thesis using Some assms(2) by (simp add: strs_fit_def secs(1))
  qed simp
  moreover have "list_all ?T (tl (d_types d))" using assms(2) by (simp add: strs_fit_def)
  ultimately show ?thesis by (simp add: strs_fit_def)
qed

locale total_visitor = visitor fn R rel
  for fn :: "'s str_off_fn" and R :: "'s \<Rightarrow> 's \<Rightarrow> bool" and rel :: "'s \<Rightarrow> u32 \<Rightarrow> u32 \<Rightarrow> bool" +
  fixes ok :: "'s \<Rightarrow> u32 \<Rightarrow> bool" and errs :: "int set"
  assumes runs: "ok s v \<Longrightarrow> \<exists>r v' s'. fn v s = Some (r, v', s') \<and> r \<in> errs"
    and ok_later: "R s s' \<Longrightarrow> ok s v \<Longrightarrow> ok s' v"
    and zero: "0 \<in> errs"
begin

lemma visit_words_runs:
  "list_all (\<lambda>k. k < length ws) ks \<Longrightarrow> distinct ks \<Longrightarrow> \<forall>k \<in> set ks. ok s (ws ! k) \<Longrightarrow>
     \<exists>r ws' s'. visit_words fn ks ws s = Some (r, ws', s') \<and> r \<in> errs"
proof (induction ks arbitrary: ws s)
  case Nil
  then show ?case by (simp add: zero)
next
  case (Cons k ks)
  obtain r v s1 where f: "fn (ws ! k) s = Some (r, v, s1)" "r \<in> errs" using Cons.prems(3) runs by fastforce
  show ?case
  proof (cases "r = 0")
    case True
    have "list_all (\<lambda>j. j < length (ws[k := v])) ks" "distinct ks" using Cons.prems by auto
    moreover have "ok s1 (ws[k := v] ! j)" if "j \<in> set ks" for j
      using Cons.prems(2,3) that step [OF f(1) [unfolded True]] ok_later [of s s1] by (metis distinct.simps(2) list.set_intros(2) nth_list_update_neq)
    ultimately show ?thesis using Cons.IH [of "ws[k := v]" s1] Cons.prems(1) f True by (simp add: nth_option_def)
  qed (use f Cons.prems(1) in \<open>simp add: nth_option_def\<close>)
qed

lemma visit_types_runs:
  "list_all (\<lambda>t. list_all (\<lambda>k. k < length (extra t)) (str_positions t)) ts \<Longrightarrow> \<forall>v \<in> set (concat (map type_strs ts)). ok s v \<Longrightarrow>
     \<exists>r ts' s'. visit_types fn ts s = Some (r, ts', s') \<and> r \<in> errs"
proof (induction ts arbitrary: s)
  case Nil
  then show ?case by (simp add: zero)
next
  case (Cons t ts)
  obtain r v s1 where f: "fn (name_off t) s = Some (r, v, s1)" "r \<in> errs" using Cons.prems(2) runs by (fastforce simp: type_strs_def)
  have p: "str_positions (t\<lparr>name_off := v\<rparr>) = str_positions t" by (simp add: str_positions_def split: btf_kind.split)
  show ?case
  proof (cases "r = 0")
    case True
    have R1: "R s s1" using step [OF f(1) [unfolded True]] by blast
    have "\<forall>k \<in> set (str_positions t). ok s1 (extra t ! k)" using Cons.prems(2) ok_later [OF R1] by (simp add: type_strs_def)
    then obtain r' ws s2 where w: "visit_words fn (str_positions t) (extra t) s1 = Some (r', ws, s2)" "r' \<in> errs"
      using visit_words_runs [of "extra t" "str_positions t" s1] Cons.prems(1) str_positions_distinct by auto
    show ?thesis
    proof (cases "r' = 0")
      case r': True
      have "R s1 s2" using visit_words_rel [OF w(1) [unfolded r'] str_positions_distinct] by blast
      then have "\<forall>v \<in> set (concat (map type_strs ts)). ok s2 v" using Cons.prems(2) ok_later R1 by auto
      then show ?thesis using Cons.IH [of s2] Cons.prems(1) f w True r' by (auto simp: p Let_def)
    qed (use f w True p in \<open>simp add: Let_def\<close>)
  qed (use f in \<open>simp add: Let_def\<close>)
qed

lemma visit_recs_runs:
  "list_all (\<lambda>l. 2 < length l) ls \<Longrightarrow> \<forall>v \<in> set (concat (map (\<lambda>l. [l ! 1, l ! 2]) ls)). ok s v \<Longrightarrow>
     \<exists>r ls' s'. visit_recs fn ls s = Some (r, ls', s') \<and> r \<in> errs"
proof (induction ls arbitrary: s)
  case Nil
  then show ?case by (simp add: zero)
next
  case (Cons l ls)
  obtain r l' s1 where w: "visit_words fn [1, 2] l s = Some (r, l', s1)" "r \<in> errs"
    using visit_words_runs [of l "[1, 2]" s] Cons.prems by auto
  show ?case
  proof (cases "r = 0")
    case True
    have "R s s1" using visit_words_rel [OF w(1) [unfolded True]] by simp
    then have "\<forall>v \<in> set (concat (map (\<lambda>l. [l ! 1, l ! 2]) ls)). ok s1 v" using Cons.prems(2) ok_later by simp
    then show ?thesis using Cons.IH [of s1] Cons.prems(1) w True by auto
  qed (use w in simp)
qed

lemma visit_lines_runs:
  "list_all (\<lambda>sec. list_all (\<lambda>l. 2 < length l) (line_recs sec)) secs \<Longrightarrow> \<forall>v \<in> set (concat (map sec_strs secs)). ok s v \<Longrightarrow>
     \<exists>r secs' s'. visit_lines fn secs s = Some (r, secs', s') \<and> r \<in> errs"
proof (induction secs arbitrary: s)
  case Nil
  then show ?case by (simp add: zero)
next
  case (Cons sec secs)
  obtain r v s1 where f: "fn (sec_name_off sec) s = Some (r, v, s1)" "r \<in> errs" using Cons.prems(2) runs by (fastforce simp: sec_strs_def)
  show ?case
  proof (cases "r = 0")
    case True
    have R1: "R s s1" using step [OF f(1) [unfolded True]] by blast
    have "\<forall>v \<in> set (concat (map (\<lambda>l. [l ! 1, l ! 2]) (line_recs sec))). ok s1 v"
      using Cons.prems(2) ok_later [OF R1] by (simp add: sec_strs_def)
    then obtain r' ls s2 where w: "visit_recs fn (line_recs sec) s1 = Some (r', ls, s2)" "r' \<in> errs"
      using visit_recs_runs [of "line_recs sec" s1] Cons.prems(1) by auto
    show ?thesis
    proof (cases "r' = 0")
      case r': True
      have "R s1 s2" using visit_recs_rel [OF w(1) [unfolded r']] by blast
      then have "\<forall>v \<in> set (concat (map sec_strs secs)). ok s2 v" using Cons.prems(2) ok_later R1 by auto
      then show ?thesis using Cons.IH [of s2] Cons.prems(1) f w True r' by (auto simp: Let_def)
    qed (use f w True in \<open>simp add: Let_def\<close>)
  qed (use f in \<open>simp add: Let_def\<close>)
qed

lemma for_each_runs:
  assumes "strs_fit d" "\<forall>v \<in> set (str_offs d). ok s v"
  shows "\<exists>r d' s'. btf_for_each_str_off fn d s = Some (r, d', s') \<and> r \<in> errs"
proof -
  have "list_all (\<lambda>t. list_all (\<lambda>k. k < length (extra t)) (str_positions t)) (tl (d_types d))"
    using assms(1) by (simp add: strs_fit_def)
  moreover have "\<forall>v \<in> set (concat (map type_strs (tl (d_types d)))). ok s v" using assms(2) by (simp add: str_offs_def)
  ultimately obtain r ts s1 where v: "visit_types fn (tl (d_types d)) s = Some (r, ts, s1)" "r \<in> errs"
    using visit_types_runs by blast
  show ?thesis
  proof (cases "r = 0 \<and> d_lines d \<noteq> None")
    case True
    then obtain secs where secs: "d_lines d = Some secs" by blast
    have "R s s1" using visit_types_rel v(1) True by blast
    then have "\<forall>v \<in> set (concat (map sec_strs secs)). ok s1 v" using assms(2) ok_later by (simp add: str_offs_def secs)
    then obtain r' secs' s2 where "visit_lines fn secs s1 = Some (r', secs', s2)" "r' \<in> errs"
      using visit_lines_runs [of secs s1] assms(1) by (auto simp: strs_fit_def secs)
    then show ?thesis using v True by (simp add: btf_for_each_str_off_def Let_def secs)
  next
    case False
    then show ?thesis using v zero by (auto simp: btf_for_each_str_off_def Let_def split: option.split)
  qed
qed

end

section \<open>The index\<close>

lemma str_at_append: "p + length a + 1 \<le> length s \<Longrightarrow> str_at s p = a \<Longrightarrow> str_at (s @ t) p = a"
proof -
  assume l: "p + length a + 1 \<le> length s" and a: "str_at s p = a"
  have "length a < length (drop p s)" using l by simp
  then have "takeWhile (\<lambda>x. x \<noteq> 0) (drop p s) \<noteq> drop p s" using a unfolding str_at_def by (metis less_irrefl)
  then obtain x where "x \<in> set (drop p s)" "\<not> x \<noteq> 0" unfolding takeWhile_eq_all_conv by blast
  then have "takeWhile (\<lambda>x. x \<noteq> 0) (drop p s @ t) = takeWhile (\<lambda>x. x \<noteq> 0) (drop p s)" by (rule takeWhile_append1)
  then show ?thesis using a l by (simp add: str_at_def)
qed

lemma str_at_new: "str_at (out @ str_at s p @ [0]) (length out) = str_at s p"
proof -
  have "takeWhile (\<lambda>x. x \<noteq> 0) (str_at s p @ [0]) = str_at s p @ takeWhile (\<lambda>x. x \<noteq> 0) [0]"
    by (rule takeWhile_append2) (auto simp: str_at_def dest: set_takeWhileD)
  then show ?thesis unfolding str_at_def [of "out @ _"] by simp
qed

lemma strlen_at_fits: "strlen_at s p = Some n \<Longrightarrow> n = length (str_at s p) \<and> p + n + 1 \<le> length s"
proof -
  assume "strlen_at s p = Some n"
  then have z: "0 \<in> set (drop p s)" and n: "n = length (str_at s p)" by (auto simp: strlen_at_def str_at_def split: if_splits)
  have "length (takeWhile (\<lambda>x. x \<noteq> 0) (drop p s)) < length (drop p s)"
    using z by (metis (mono_tags, lifting) length_takeWhile_le le_neq_implies_less nth_length_takeWhile takeWhile_eq_all_conv takeWhile_eq_take take_all_iff)
  then show ?thesis using n by (simp add: str_at_def)
qed

definition room :: "bytes \<Rightarrow> btf_str_ptr list \<Rightarrow> nat" where
  "room s ps = sum_list (map (\<lambda>q. length (str_at s (str q)) + 1) ps)"

lemma room_simps [simp]: "room s [] = 0" "room s (q # ps) = length (str_at s (str q)) + 1 + room s ps" "room s (ps @ ps') = room s ps + room s ps'"
  by (simp_all add: room_def)

lemma str_index_props:
  "str_index s p cnt cap m = Some (0, ps, m') \<Longrightarrow>
     list_all (\<lambda>q. \<not> used q \<and> new_off q = None \<and> p \<le> str q) ps \<and> sorted_wrt (<) (map str ps) \<and> room s ps = length s - p \<and>
     (p < length s \<longrightarrow> ps \<noteq> [] \<and> str (hd ps) = p)"
proof (induction s p cnt cap m arbitrary: ps m' rule: str_index.induct)
  case (1 s p cnt cap m)
  show ?case
  proof (cases "p < length s")
    case True
    define c where "c = (if cnt + 1 > cap then (cap + max (cnt div 2) 16, m - 1) else (cap, m))"
    have ok: "\<not> (cnt + 1 > cap \<and> m = 0)"
      using 1(2) True by (auto simp: str_index.simps [of s p] ENOMEM_def split: if_splits)
    obtain n qs where n: "strlen_at s p = Some n" and q: "str_index s (p + n + 1) (cnt + 1) (fst c) (snd c) = Some (0, qs, m')"
      and ps: "ps = \<lparr> str = p, new_off = None, used = False \<rparr> # qs"
      using 1(2) True ok by (auto simp: str_index.simps [of s p] c_def Let_def split: Option.bind_splits if_splits)
    have "list_all (\<lambda>q. \<not> used q \<and> new_off q = None \<and> p + n + 1 \<le> str q) qs \<and> sorted_wrt (<) (map str qs) \<and> room s qs = length s - (p + n + 1)"
      using 1(1) [OF True ok n _ _ , of c "fst c" "snd c"] q by (simp add: c_def)
    then show ?thesis using strlen_at_fits [OF n] by (auto simp: ps list_all_iff)
  next
    case False
    then show ?thesis using 1(2) by (simp add: str_index.simps [of s p])
  qed
qed

section \<open>Marking and replacing\<close>

lemma find_str_Some: "find_str off ps = Some i \<Longrightarrow> i < length ps \<and> str (ps ! i) = off"
  by (induction ps arbitrary: i) (auto split: if_splits)

definition marked_more :: "btf_str_ptr list \<Rightarrow> btf_str_ptr list \<Rightarrow> bool" where
  "marked_more ps ps' \<longleftrightarrow> map str ps' = map str ps \<and> map new_off ps' = map new_off ps \<and> (\<forall>i < length ps. used (ps ! i) \<longrightarrow> used (ps' ! i))"

definition marked :: "btf_str_ptr list \<Rightarrow> u32 \<Rightarrow> u32 \<Rightarrow> bool" where
  "marked ps v v' \<longleftrightarrow> v' = v \<and> (v = 0 \<or> (\<exists>i < length ps. str (ps ! i) = unat v \<and> used (ps ! i)))"

definition replaced :: "btf_str_ptr list \<Rightarrow> u32 \<Rightarrow> u32 \<Rightarrow> bool" where
  "replaced ps v v' \<longleftrightarrow> (if v = 0 then v' = 0 else \<exists>q \<in> set ps. str q = unat v \<and> new_off q = Some v')"

interpretation mark: visitor btf_str_mark_as_used marked_more marked
proof
  show "marked_more s s' \<and> marked s' v v'" if "btf_str_mark_as_used v s = Some (0, v', s')" for v s v' s'
    using that by (auto simp: btf_str_mark_as_used_def marked_more_def marked_def EINVAL_def map_update nth_list_update
        split: if_splits option.splits dest!: find_str_Some) (simp_all add: list_update_same_conv)
  show "marked s' v v'" if m: "marked_more s s'" "marked s v v'" for s s' v v'
  proof -
    have len: "length s' = length s" using m(1) by (metis marked_more_def length_map)
    have "map str s' ! i = map str s ! i" for i using m(1) by (simp add: marked_more_def)
    then have "str (s' ! i) = str (s ! i)" if "i < length s" for i using that len by (metis nth_map)
    then show ?thesis using m len by (auto simp: marked_def marked_more_def)
  qed
  show "marked_more s s''" if m: "marked_more s s'" "marked_more s' s''" for s s' s''
  proof -
    have "length s' = length s" using m(1) by (metis marked_more_def length_map)
    then show ?thesis using m by (auto simp: marked_more_def)
  qed
  show "marked_more s s" for s by (simp add: marked_more_def)
qed

interpretation remap: visitor btf_str_remap_offset "(=)" replaced
proof
  show "s = s' \<and> replaced s' v v'" if "btf_str_remap_offset v s = Some (0, v', s')" for v s v' s'
    using that by (auto simp: btf_str_remap_offset_def replaced_def EINVAL_def split: if_splits option.splits Option.bind_splits dest!: find_str_Some)
qed auto

section \<open>Groups\<close>

lemma strcmp_eq: "strcmp a b = 0 \<longleftrightarrow> a = b"
  by (induction a b rule: strcmp.induct) auto

lemma strcmp_antisym: "strcmp a b \<le> 0 \<Longrightarrow> strcmp b a \<le> 0 \<Longrightarrow> a = b"
  by (induction a b rule: strcmp.induct) (auto split: if_splits)

lemma strcmp_total: "strcmp a b \<le> 0 \<or> strcmp b a \<le> 0"
  by (induction a b rule: strcmp.induct) auto

lemma strcmp_trans: "strcmp a b \<le> 0 \<Longrightarrow> strcmp b c \<le> 0 \<Longrightarrow> strcmp a c \<le> 0"
proof (induction a b arbitrary: c rule: strcmp.induct)
  case (4 x xs y ys)
  then show ?case by (cases c) (auto split: if_splits)
next
  case (2 y ys)
  then show ?case by (cases c) auto
qed auto

lemma consistent_content: "consistent (str_sort_by_content s) A"
  using strcmp_total strcmp_trans by (fastforce simp: consistent_def str_sort_by_content_def)

text \<open>What the loop gives for its entries: the same strings in the same order, with an offset in the output for those
  of used groups, and the same offset for equal strings.\<close>

definition stored :: "bytes \<Rightarrow> bytes \<Rightarrow> btf_str_ptr \<Rightarrow> bool" where
  "stored s out q \<longleftrightarrow> (\<forall>v. new_off q = Some v \<longrightarrow> unat v + length (str_at s (str q)) + 1 \<le> length out \<and> str_at out (unat v) = str_at s (str q)) \<and>
     (used q \<longrightarrow> new_off q \<noteq> None)"

lemma stored_append: "stored s out q \<Longrightarrow> stored s (out @ ext) q"
  by (auto simp: stored_def intro!: str_at_append)

lemma same_image: "x \<in> set xs \<Longrightarrow> map f xs = map f ys \<Longrightarrow> \<exists>y \<in> set ys. f y = f x"
  by (metis imageE image_eqI set_map)

definition group_ok :: "bytes \<Rightarrow> bytes \<Rightarrow> btf_str_ptr list \<Rightarrow> bool \<Rightarrow> bool" where
  "group_ok s a grp u \<longleftrightarrow> grp \<noteq> [] \<and> (\<forall>q \<in> set grp. str_at s (str q) = a \<and> new_off q = None \<and> (used q \<longrightarrow> u))"

lemma flush_group_props:
  assumes "group_ok s a grp u" "flush_group s grp u out = (qs, out')" "length out' < 2 ^ 32"
  shows "map str qs = map str grp \<and> map used qs = map used grp \<and> list_all (stored s out') qs \<and> (\<exists>ext. out' = out @ ext \<and> length ext \<le> room s grp) \<and>
    (\<forall>q \<in> set qs. new_off q = (if u then Some (of_nat (length out)) else None))"
proof (cases u)
  case True
  obtain g gs where g: "grp = g # gs" using assms(1) by (cases grp) (auto simp: group_ok_def)
  have e: "qs = map (\<lambda>p. p\<lparr>new_off := Some (of_nat (length out))\<rparr>) grp" "out' = out @ str_at s (str (hd grp)) @ [0]"
    using assms(2) True by (auto simp: flush_group_def)
  have n: "unat (of_nat (length out) :: u32) = length out" using assms(3) e(2) by (simp add: unat_of_nat take_bit_nat_eq_self)
  have "list_all (stored s out') qs"
    using assms(1) by (auto simp: e list_all_iff stored_def n str_at_new group_ok_def)
  moreover have "length (str_at s (str (hd grp)) @ [0]) \<le> room s grp" by (simp add: g)
  ultimately show ?thesis using True e by (auto simp: comp_def)
next
  case False
  then show ?thesis using assms(1,2) by (auto simp: flush_group_def group_ok_def list_all_iff stored_def)
qed

lemma group_loop_props:
  "group_loop s grp u ps out = (qs, out') \<Longrightarrow> group_ok s a grp u \<Longrightarrow> list_all (\<lambda>q. new_off q = None) ps \<Longrightarrow>
     sorted_wrt (\<lambda>a b. str_sort_by_content s a b \<le> 0) (grp @ ps) \<Longrightarrow> length out + room s (grp @ ps) < 2 ^ 32 \<Longrightarrow>
     map str qs = map str (grp @ ps) \<and> map used qs = map used (grp @ ps) \<and> list_all (stored s out') qs \<and>
     (\<exists>ext. out' = out @ ext \<and> length ext \<le> room s (grp @ ps)) \<and>
     (\<forall>q \<in> set qs. \<forall>q' \<in> set qs. str_at s (str q) = str_at s (str q') \<longrightarrow> new_off q = new_off q') \<and>
     new_off (hd qs) \<in> {None, Some (of_nat (length out))}"
proof (induction s grp u ps out arbitrary: a qs out' rule: group_loop.induct)
  case (1 s grp u out)
  have f: "flush_group s grp u out = (qs, out')" using 1(1) by simp
  have "length out' < 2 ^ 32"
    using f 1(2,5) by (cases grp) (auto simp: flush_group_def group_ok_def split: if_splits)
  note p = flush_group_props [OF 1(2) f this]
  then have "qs \<noteq> []" using 1(2) by (auto simp: group_ok_def)
  then show ?case using p by auto
next
  case (2 s grp u p ps out)
  show ?case
  proof (cases "strcmp (str_at s (str p)) (str_at s (str (hd grp))) = 0")
    case True
    then have ok: "group_ok s a (grp @ [p]) (u \<or> used p)" using 2(4,5) by (auto simp: group_ok_def strcmp_eq)
    have "group_loop s (grp @ [p]) (u \<or> used p) ps out = (qs, out')" using 2(3) True by simp
    moreover have app: "(grp @ [p]) @ ps = grp @ p # ps" by simp
    moreover have "list_all (\<lambda>q. new_off q = None) ps" using 2(5) by simp
    ultimately show ?thesis using 2(1) [OF True _ ok, unfolded app] 2(6,7) by blast
  next
    case False
    obtain st out1 where f: "flush_group s grp u out = (st, out1)" by fastforce
    obtain rest where g: "group_loop s [p] (used p) ps out1 = (rest, out')" and qs: "qs = st @ rest"
      using 2(3) False f by (auto split: prod.splits)
    have l1: "length out1 \<le> length out + room s grp" using f 2(4) by (cases grp) (auto simp: flush_group_def group_ok_def split: if_splits)
    then have "length out1 < 2 ^ 32" using 2(7) by simp
    note P = flush_group_props [OF 2(4) f this]
    have ok: "group_ok s (str_at s (str p)) [p] (used p)" using 2(5) by (simp add: group_ok_def)
    have pre: "list_all (\<lambda>q. new_off q = None) ps" "sorted_wrt (\<lambda>a b. str_sort_by_content s a b \<le> 0) ([p] @ ps)"
      "length out1 + room s ([p] @ ps) < 2 ^ 32"
      using 2(5-7) l1 by (auto simp: sorted_wrt_append)
    have Q: "map str rest = map str (p # ps)" "map used rest = map used (p # ps)" "list_all (stored s out') rest"
      "\<exists>ext. out' = out1 @ ext \<and> length ext \<le> room s (p # ps)"
      "\<forall>q \<in> set rest. \<forall>q' \<in> set rest. str_at s (str q) = str_at s (str q') \<longrightarrow> new_off q = new_off q'"
      using 2(2) [OF False f [symmetric] g ok _ pre(2,3), unfolded append_Cons append_Nil] pre(1) by blast+
    obtain m1 m2 where m: "out1 = out @ m1" "length m1 \<le> room s grp" "out' = out1 @ m2" "length m2 \<le> room s (p # ps)"
      using P Q(4) by blast
    have st: "list_all (stored s out') st" using P m(3) stored_append by (auto simp: list_all_iff)
    have ne: "str_at s (str q) \<noteq> str_at s (str q')" if mem: "q \<in> set st" "q' \<in> set rest" for q q'
    proof
      assume eq: "str_at s (str q) = str_at s (str q')"
      obtain g where g: "g \<in> set grp" "str g = str q" using P same_image [of q st str grp] mem(1) by blast
      obtain r where r: "r \<in> set (p # ps)" "str r = str q'" using same_image [OF mem(2) Q(1)] by blast
      note gr = g r
      have h: "str_at s (str g) = str_at s (str (hd grp))" "hd grp \<in> set grp" using gr(1) 2(4) by (simp_all add: group_ok_def)
      have "strcmp (str_at s (str (hd grp))) (str_at s (str p)) \<le> 0" "r = p \<or> strcmp (str_at s (str p)) (str_at s (str r)) \<le> 0"
        using 2(6) h(2) gr(3) by (auto simp: sorted_wrt_append str_sort_by_content_def)
      moreover have "str_at s (str r) = str_at s (str (hd grp))" using eq gr h(1) by metis
      ultimately have "str_at s (str p) = str_at s (str (hd grp))" using strcmp_antisym by metis
      then show False using False by (simp add: strcmp_eq)
    qed
    have same: "new_off q = new_off q'" if "q \<in> set st" "q' \<in> set st" for q q' using P that by simp
    have "st \<noteq> []" using P 2(4) by (auto simp: group_ok_def)
    then have "new_off (hd qs) \<in> {None, Some (of_nat (length out))}" using P by (auto simp: qs)
    moreover have "\<forall>q \<in> set qs. \<forall>q' \<in> set qs. str_at s (str q) = str_at s (str q') \<longrightarrow> new_off q = new_off q'"
      unfolding qs set_append using same Q(5) ne by (metis Un_iff)
    moreover have "\<exists>ext. out' = out @ ext \<and> length ext \<le> room s (grp @ p # ps)" using m by (intro exI [of _ "m1 @ m2"]) simp
    moreover have "map str qs = map str (grp @ p # ps)" "map used qs = map used (grp @ p # ps)" "list_all (stored s out') qs"
      using P Q(1-3) st by (simp_all add: qs)
    ultimately show ?thesis by blast
  qed
qed

section \<open>The whole pass\<close>

interpretation mark_total: total_visitor btf_str_mark_as_used marked_more marked "\<lambda>_ _. True" "{0, - EINVAL}"
  by unfold_locales (auto simp: btf_str_mark_as_used_def split: option.split)

text \<open>The offsets that can be replaced.\<close>

definition known :: "btf_str_ptr list \<Rightarrow> u32 \<Rightarrow> bool" where
  "known ps v \<longleftrightarrow> v = 0 \<or> unat v \<in> str ` set ps \<and> (\<forall>q \<in> set ps. str q = unat v \<longrightarrow> new_off q \<noteq> None)"

lemma find_str_None: "find_str off ps = None \<longleftrightarrow> off \<notin> str ` set ps"
  by (induction ps) auto

interpretation remap_total: total_visitor btf_str_remap_offset "(=)" replaced known "{0}"
proof
  show "\<exists>r v' s'. btf_str_remap_offset v s = Some (r, v', s') \<and> r \<in> {0}" if k: "known s v" for s v
  proof (cases "v = 0")
    case False
    then obtain i where i: "find_str (unat v) s = Some i" using k by (cases "find_str (unat v) s") (auto simp: known_def find_str_None)
    with find_str_Some [OF this] k False have "new_off (s ! i) \<noteq> None" by (auto simp: known_def)
    then show ?thesis using i False by (auto simp: btf_str_remap_offset_def)
  qed (simp add: btf_str_remap_offset_def)
qed auto

lemma str_index_runs: "s \<noteq> [] \<Longrightarrow> last s = 0 \<Longrightarrow> \<exists>err ps m'. str_index s p cnt cap m = Some (err, ps, m') \<and> err \<in> {0, - ENOMEM}"
proof (induction s p cnt cap m rule: str_index.induct)
  case (1 s p cnt cap m)
  show ?case
  proof (cases "p < length s \<and> \<not> (cnt + 1 > cap \<and> m = 0)")
    case True
    define c where "c = (if cnt + 1 > cap then (cap + max (cnt div 2) 16, m - 1) else (cap, m))"
    have "last (drop p s) = 0" "drop p s \<noteq> []" using True 1(3) by auto
    then have "0 \<in> set (drop p s)" by (metis last_in_set)
    then obtain n where n: "strlen_at s p = Some n" by (simp add: strlen_at_def)
    have "\<exists>err ps m'. str_index s (p + n + 1) (cnt + 1) (fst c) (snd c) = Some (err, ps, m') \<and> err \<in> {0, - ENOMEM}"
      using 1(1) [OF _ _ n _ _ 1(2,3), of c "fst c" "snd c"] True by (simp add: c_def)
    then show ?thesis using True n by (auto simp: str_index.simps [of s p] c_def Let_def split: if_splits)
  qed (use 1 in \<open>auto simp: str_index.simps [of s p]\<close>)
qed

text \<open>From the marked entries to the entries with the new offsets.\<close>

lemma room_mset: "mset ps = mset ps' \<Longrightarrow> room s ps = room s ps'"
proof -
  have "room s xs = sum_mset (image_mset (\<lambda>q. length (str_at s (str q)) + 1) (mset xs))" for xs
    by (simp only: room_def sum_mset_sum_list flip: mset_map)
  then show "mset ps = mset ps' \<Longrightarrow> room s ps = room s ps'" by simp
qed

lemma room_strs: "map str ps = map str ps' \<Longrightarrow> room s ps = room s ps'"
proof -
  have "room s xs = sum_list (map (\<lambda>p. length (str_at s p) + 1) (map str xs))" for xs by (simp add: room_def comp_def)
  then show "map str ps = map str ps' \<Longrightarrow> room s ps = room s ps'" by metis
qed

lemma map_both: "map f xs = map f ys \<Longrightarrow> map g xs = map g ys \<Longrightarrow> map (\<lambda>x. (f x, g x)) xs = map (\<lambda>x. (f x, g x)) ys"
proof (induction xs arbitrary: ys)
  case (Cons x xs)
  from Cons.prems obtain y ys' where "ys = y # ys'" "f x = f y" "g x = g y" "map f xs = map f ys'" "map g xs = map g ys'" by (cases ys) auto
  then show ?case using Cons.IH [of ys'] by simp
qed simp

lemma strcmp_Nil: "strcmp a [] \<le> 0 \<Longrightarrow> a = []"
  by (cases a) auto

lemma store_props:
  assumes "sorting qs" and fresh: "list_all (\<lambda>q. new_off q = None) ps" and dist: "distinct (map str ps)" and fits: "room s ps < 2 ^ 32"
    and first: "q0 \<in> set ps" "str q0 = 0" "used q0" and empty: "str_at s 0 = []"
    and xs: "xs = qs (str_sort_by_content s) ps" and loop: "group_loop s [hd xs] (used (hd xs)) (tl xs) [] = (ps', out)"
  shows "length out \<le> room s ps" "marked ps w v \<Longrightarrow> known ps' v"
    "replaced ps' v v' \<Longrightarrow> \<exists>q \<in> set ps'. str q = unat v \<and> new_off q = Some v' \<and> str_at out (unat v') = str_at s (unat v)"
    "\<forall>q \<in> set ps'. \<forall>q' \<in> set ps'. str_at s (str q) = str_at s (str q') \<longrightarrow> new_off q = new_off q'"
proof -
  have xs_ps: "mset xs = mset ps" "set xs = set ps" using assms(1) xs by (auto simp: sorting.permutes sorting.qs_set)
  then have "xs \<noteq> []" using first(1) by auto
  then have ne: "xs \<noteq> []" "[hd xs] @ tl xs = xs" by simp_all
  have sorted: "sorted_wrt (\<lambda>a b. str_sort_by_content s a b \<le> 0) xs"
    unfolding xs by (rule sorting.sorts [OF assms(1) consistent_content])
  have n: "list_all (\<lambda>q. new_off q = None) xs" using fresh xs_ps(2) by (simp add: list_all_iff)
  have "group_ok s (str_at s (str (hd xs))) [hd xs] (used (hd xs))" using n ne(1) by (cases xs) (auto simp: group_ok_def)
  moreover have "list_all (\<lambda>q. new_off q = None) (tl xs)" using n ne(1) by (cases xs) auto
  moreover have "length ([] :: bytes) + room s ([hd xs] @ tl xs) < 2 ^ 32" using fits room_mset [OF xs_ps(1)] by (simp add: ne(2) del: append_Cons append_Nil)
  ultimately have G: "map str ps' = map str xs" "map used ps' = map used xs" "list_all (stored s out) ps'" "length out \<le> room s xs"
    "\<forall>q \<in> set ps'. \<forall>q' \<in> set ps'. str_at s (str q) = str_at s (str q') \<longrightarrow> new_off q = new_off q'"
    "new_off (hd ps') \<in> {None, Some (of_nat 0)}"
    using group_loop_props [OF loop, unfolded ne(2)] sorted by (auto simp only: ne(2) list.size append_Nil)
  show "length out \<le> room s ps" using G(4) room_mset [OF xs_ps(1)] by simp
  show "\<forall>q \<in> set ps'. \<forall>q' \<in> set ps'. str_at s (str q) = str_at s (str q') \<longrightarrow> new_off q = new_off q'" by (rule G(5))
  let ?k = "\<lambda>q. (str q, used q)"
  note both = map_both [OF G(1,2)]
  have new: "\<exists>q \<in> set ps'. ?k q = ?k p" if "p \<in> set ps" for p using same_image [OF _ both [symmetric]] that xs_ps(2) by simp
  have old: "\<exists>p \<in> set ps. ?k p = ?k q" if "q \<in> set ps'" for q using same_image [OF that both] xs_ps(2) by simp
  show "known ps' v" if m: "marked ps w v"
  proof (cases "v = 0")
    case False
    then obtain p where p: "p \<in> set ps" "str p = unat v" "used p" using m by (metis marked_def nth_mem)
    obtain q1 where "q1 \<in> set ps'" "str q1 = unat v" using new [OF p(1)] p(2) by auto
    moreover have "new_off q \<noteq> None" if q: "q \<in> set ps'" "str q = unat v" for q
    proof -
      obtain p' where p': "p' \<in> set ps" "str p' = str q" "used p' = used q" using old [OF q(1)] by auto
      then have "p' = p" using dist p q(2) by (metis distinct_map inj_onD)
      then show ?thesis using p' p(3) q(1) G(3) by (auto simp: list_all_iff stored_def)
    qed
    ultimately show ?thesis by (force simp: known_def)
  qed (simp add: known_def)
  show "\<exists>q \<in> set ps'. str q = unat v \<and> new_off q = Some v' \<and> str_at out (unat v') = str_at s (unat v)" if r: "replaced ps' v v'"
  proof -
    obtain q1 where q1: "q1 \<in> set ps'" "str q1 = 0" "used q1" using new [OF first(1)] first(2,3) by auto
    have "q0 \<in> set xs" using first(1) xs_ps(2) by simp
    then have "hd xs = q0 \<or> str_sort_by_content s (hd xs) q0 \<le> 0" using sorted by (cases xs) auto
    then have "str_at s (str (hd xs)) = []" using strcmp_Nil empty first(2) by (auto simp: str_sort_by_content_def)
    moreover have "ps' \<noteq> []" using q1(1) by auto
    then have hd: "str (hd ps') = str (hd xs)" "hd ps' \<in> set ps'" using G(1) ne(1) by (cases ps'; cases xs; simp)+
    ultimately have "new_off (hd ps') = new_off q1" using G(5) [rule_format, OF hd(2) q1(1)] q1(2) empty by simp
    moreover have "new_off q1 \<noteq> None" using q1 G(3) by (auto simp: list_all_iff stored_def)
    ultimately have z: "new_off q1 = Some 0" using G(6) by auto
    obtain q where "q \<in> set ps'" "str q = unat v" "new_off q = Some v'" using r q1 z by (cases "v = 0") (auto simp: replaced_def)
    then show ?thesis using G(3) by (force simp: list_all_iff stored_def)
  qed
qed

lemma known_set: "set ps = set ps' \<Longrightarrow> known ps = known ps'"
  by (intro ext) (simp add: known_def)

lemma replaced_set: "set ps = set ps' \<Longrightarrow> replaced ps = replaced ps'"
  by (intro ext) (simp add: replaced_def)

text \<open>A state in which the pass may begin: what \<open>btf__new\<close> has checked of the strings, and the words that the types and lines are followed by.\<close>

definition strings_ready :: "btf_dedup \<Rightarrow> bool" where
  "strings_ready d \<longleftrightarrow> d_types d \<noteq> [] \<and> strs_fit d \<and> d_strs d \<noteq> [] \<and> hd (d_strs d) = 0 \<and> last (d_strs d) = 0 \<and> length (d_strs d) < 2 ^ 32"

definition strings_done :: "btf_dedup \<Rightarrow> btf_dedup \<Rightarrow> bool" where
  "strings_done d d' \<longleftrightarrow>
     list_all2 (\<lambda>v v'. str_at (d_strs d') (unat v') = str_at (d_strs d) (unat v)) (str_offs d) (str_offs d') \<and>
     (\<forall>v \<in> set (str_offs d'). \<forall>v' \<in> set (str_offs d'). str_at (d_strs d') (unat v) = str_at (d_strs d') (unat v') \<longrightarrow> v = v') \<and>
     length (d_strs d') \<le> length (d_strs d) \<and> strip d' = strip (d\<lparr>d_strs := d_strs d', mem := mem d'\<rparr>)"

lemma stored_strings:
  assumes q: "sorting qs" and s: "s \<noteq> []" "hd s = 0" "length s < 2 ^ 32"
    and ix: "str_index s 0 0 0 m0 = Some (0, ps, m)" and mk: "marked_more (ps[0 := (ps ! 0)\<lparr>used := True\<rparr>]) ps2"
    and xs: "xs = qs (str_sort_by_content s) ps2" and loop: "group_loop s [hd xs] (used (hd xs)) (tl xs) [] = (ps', out)"
  shows "length out \<le> length s" "marked ps2 w v \<Longrightarrow> known ps' v"
    "replaced ps' v v' \<Longrightarrow> \<exists>q \<in> set ps'. str q = unat v \<and> new_off q = Some v' \<and> str_at out (unat v') = str_at s (unat v)"
    "\<forall>q \<in> set ps'. \<forall>q' \<in> set ps'. str_at s (str q) = str_at s (str q') \<longrightarrow> new_off q = new_off q'"
proof -
  from str_index_props [OF ix] s(1) obtain p ps1 where ps: "ps = p # ps1" "str p = 0" "room s ps = length s" "sorted_wrt (<) (map str ps)"
    "list_all (\<lambda>q. new_off q = None) ps" by (cases ps) (auto simp: list_all_iff)
  have strs: "map str ps2 = map str ps" and offs: "map new_off ps2 = map new_off ps" and u: "used (ps2 ! 0)"
    using mk by (auto simp: marked_more_def ps(1))
  have "ps2 \<noteq> []" using strs ps(1) by auto
  then have q0: "ps2 ! 0 \<in> set ps2" "str (ps2 ! 0) = 0" using strs ps(1,2) by (cases ps2; simp)+
  have fresh: "list_all (\<lambda>q. new_off q = None) ps2" using ps(5) offs by (metis (mono_tags, lifting) list_all_length length_map nth_map)
  have dist: "distinct (map str ps2)" using ps(4) strs by (metis strict_sorted_iff)
  have room: "room s ps2 = length s" using room_strs [OF strs] ps(3) by simp
  have empty: "str_at s 0 = []" using s by (cases s) (auto simp: str_at_def)
  have fits: "room s ps2 < 2 ^ 32" using s(3) room by simp
  note S = store_props [OF q fresh dist fits q0 u empty xs loop]
  show "length out \<le> length s" using S(1) room by simp
  show "marked ps2 w v \<Longrightarrow> known ps' v" by (rule S(2))
  show "replaced ps' v v' \<Longrightarrow> \<exists>q \<in> set ps'. str q = unat v \<and> new_off q = Some v' \<and> str_at out (unat v') = str_at s (unat v)"
    by (rule S(3))
  show "\<forall>q \<in> set ps'. \<forall>q' \<in> set ps'. str_at s (str q) = str_at s (str q') \<longrightarrow> new_off q = new_off q'" by (rule S(4))
qed

lemma replaced_done:
  assumes m: "list_all2 (marked ps2) vs vs1" and r: "list_all2 (replaced ps') vs1 vs2"
    and S: "\<And>v v'. replaced ps' v v' \<Longrightarrow> \<exists>q \<in> set ps'. str q = unat v \<and> new_off q = Some v' \<and> str_at out (unat v') = str_at s (unat v)"
    and same: "\<forall>q \<in> set ps'. \<forall>q' \<in> set ps'. str_at s (str q) = str_at s (str q') \<longrightarrow> new_off q = new_off q'"
  shows "list_all2 (\<lambda>v v'. str_at out (unat v') = str_at s (unat v)) vs vs2"
    "\<forall>v \<in> set vs2. \<forall>v' \<in> set vs2. str_at out (unat v) = str_at out (unat v') \<longrightarrow> v = v'"
proof -
  have "list_all2 (=) vs vs1" using m by (rule list_all2_mono) (simp add: marked_def)
  then have "vs1 = vs" by (simp add: list.rel_eq)
  then show "list_all2 (\<lambda>v v'. str_at out (unat v') = str_at s (unat v)) vs vs2" using r by (auto simp: list_all2_conv_all_nth dest: S)
  have found: "\<exists>q \<in> set ps'. new_off q = Some v' \<and> str_at out (unat v') = str_at s (str q)" if v: "v' \<in> set vs2" for v'
  proof -
    obtain i where "i < length vs2" "vs2 ! i = v'" using v by (auto simp: in_set_conv_nth)
    then have "replaced ps' (vs1 ! i) v'" using r by (auto simp: list_all2_conv_all_nth)
    from S [OF this] show ?thesis by metis
  qed
  show "\<forall>v \<in> set vs2. \<forall>v' \<in> set vs2. str_at out (unat v) = str_at out (unat v') \<longrightarrow> v = v'"
  proof (intro ballI impI)
    fix v v' assume v: "v \<in> set vs2" "v' \<in> set vs2" "str_at out (unat v) = str_at out (unat v')"
    obtain q q' where "q \<in> set ps'" "q' \<in> set ps'" "new_off q = Some v" "new_off q' = Some v'" "str_at s (str q) = str_at s (str q')"
      using found [OF v(1)] found [OF v(2)] v(3) by auto
    then show "v = v'" using same [rule_format, of q q'] by simp
  qed
qed

lemma strip_keeps: "strip d' = strip d \<Longrightarrow> d_strs d' = d_strs d \<and> mem d' = mem d \<and> (d_types d' = [] \<longleftrightarrow> d_types d = [])"
proof -
  have "d_strs (strip x) = d_strs x" "mem (strip x) = mem x" "d_types (strip x) = [] \<longleftrightarrow> d_types x = []" for x
    by (cases "d_types x"; simp add: strip_def)+
  then show "strip d' = strip d \<Longrightarrow> d_strs d' = d_strs d \<and> mem d' = mem d \<and> (d_types d' = [] \<longleftrightarrow> d_types d = [])" by metis
qed

lemma strip_update: "strip (d\<lparr>d_strs := s\<rparr>) = (strip d)\<lparr>d_strs := s\<rparr>" "strip (d\<lparr>mem := m\<rparr>) = (strip d)\<lparr>mem := m\<rparr>"
  by (simp_all add: strip_def)

text \<open>The errors of the pass, and what it has done when there is none.\<close>

lemma strings_pass:
  assumes "sorting qs" "strings_ready d"
  shows "\<exists>err d'. btf_dedup_strings qs d = Some (err, d') \<and> err \<in> {0, - ENOMEM, - EINVAL} \<and> (err = 0 \<longrightarrow> strings_done d d')"
proof -
  let ?s = "d_strs d"
  note rd = assms(2) [unfolded strings_ready_def]
  obtain err ps m where ix: "str_index ?s 0 0 0 (mem d) = Some (err, ps, m)" "err \<in> {0, - ENOMEM}" using str_index_runs rd by blast
  show ?thesis
  proof (cases "err = 0 \<and> m \<noteq> 0")
    case True
    then have err: "err = 0" by simp
    let ?d = "d\<lparr>mem := m - 1\<rparr>"
    let ?ps = "ps[0 := (ps ! 0)\<lparr>used := True\<rparr>]"
    have ne: "ps \<noteq> []" using str_index_props [of ?s 0 0 0 "mem d" ps m] ix True rd by auto
    have fit: "strs_fit ?d" "d_types ?d \<noteq> []" using rd by (auto simp: strs_fit_def)
    obtain r d1 ps2 where mk: "btf_for_each_str_off btf_str_mark_as_used ?d ?ps = Some (r, d1, ps2)" "r \<in> {0, - EINVAL}"
      using mark_total.for_each_runs [OF fit(1)] by blast
    show ?thesis
    proof (cases "r = 0")
      case r: True
      have M: "marked_more ?ps ps2" "list_all2 (marked ps2) (str_offs d) (str_offs d1)" "strip d1 = strip ?d"
        using mark.for_each_rel [OF mk(1) [unfolded r] fit(2)] by (auto simp: str_offs_def)
      note K = strip_keeps [OF M(3)] and fit1 = strs_fit_strip [OF M(3) fit(1)]
      define xs where "xs = qs (str_sort_by_content ?s) ps2"
      obtain ps' out where loop: "group_loop ?s [hd xs] (used (hd xs)) (tl xs) [] = (ps', out)" by fastforce
      note S = stored_strings [OF assms(1) _ _ _ ix(1) [unfolded err] M(1) xs_def loop]
      let ?d1 = "d1\<lparr>d_strs := out\<rparr>"
      let ?ps3 = "qs str_sort_by_offset ps'"
      have set3: "set ?ps3 = set ps'" by (rule sorting.qs_set [OF assms(1)])
      have offs: "str_offs ?d1 = str_offs d1" "strs_fit ?d1" "d_types ?d1 \<noteq> []"
        using fit1 K rd by (simp_all add: str_offs_def strs_fit_def)
      have "known ps' v" if v: "v \<in> set (str_offs d1)" for v
      proof -
        obtain w where "marked ps2 w v" using v M(2) by (auto simp: in_set_conv_nth list_all2_conv_all_nth)
        then show ?thesis using S(2) rd by blast
      qed
      then obtain d2 ps4 where rm: "btf_for_each_str_off btf_str_remap_offset ?d1 ?ps3 = Some (0, d2, ps4)"
        using remap_total.for_each_runs [OF offs(2), of ?ps3] offs(1) known_set [OF set3] by auto
      have "list_all2 (replaced ps') (str_offs d1) (str_offs d2)" and strip2: "strip d2 = strip ?d1"
        using remap.for_each_rel [OF rm offs(3)] offs(1) replaced_set [OF set3] by auto
      note D = replaced_done [OF M(2) this(1) S(3) S(4)]
      have out: "d_strs d2 = out" "mem d2 = m - 1" using strip_keeps [OF strip2] K by simp_all
      have "strip d2 = strip (d\<lparr>d_strs := out, mem := m - 1\<rparr>)" using strip2 M(3) by (simp add: strip_update)
      then have "strings_done d d2" unfolding strings_done_def out using D S(1) rd by blast
      moreover have "btf_dedup_strings qs d = Some (0, d2)"
        using ix(1) err mk(1) r ne rm loop K True by (simp add: btf_dedup_strings_def alloc_def Let_def xs_def)
      ultimately show ?thesis by simp
    qed (use mk ne True ix in \<open>auto simp: btf_dedup_strings_def alloc_def Let_def EINVAL_def\<close>)
  qed (use ix in \<open>auto simp: btf_dedup_strings_def alloc_def Let_def ENOMEM_def\<close>)
qed

text \<open>An example: an integer, a structure and a type name with repeated strings, and a line.\<close>

definition sample_dedup :: btf_dedup where
  "sample_dedup = \<lparr> d_types = [
       \<lparr> name_off = 0, type_info = 0, size_or_type = 0, extra = [] \<rparr>,
       \<lparr> name_off = 1, type_info = 0x01000000, size_or_type = 4, extra = [32] \<rparr>,
       \<lparr> name_off = 5, type_info = 0x04000001, size_or_type = 4, extra = [11, 1, 0] \<rparr>,
       \<lparr> name_off = 7, type_info = 0x08000000, size_or_type = 2, extra = [] \<rparr> ],
     d_strs = [0, 105, 110, 116, 0, 97, 0, 105, 110, 116, 0, 97, 0, 120, 0],
     d_lines = Some [\<lparr> sec_name_off = 11, line_recs = [[8, 7, 0, 1]] \<rparr>],
     dedup_table = (\<lambda>_. []), d_map = [0, - 1, - 1, - 1], hypot_map = [- 1, - 1, - 1, - 1], hypot_list = [], hypot_cap = 0, dont_resolve_fwds = False,
     dedup_table_size = 16384, mem = 100, hdr_type_off = 0, hdr_type_len = 0, hdr_str_off = 0 \<rparr>"

lemma sample_ready: "strings_ready sample_dedup"
proof -
  have "strs_fit sample_dedup" by code_simp
  then show ?thesis by (simp add: strings_ready_def sample_dedup_def)
qed

lemma sample_strings: "map_option (\<lambda>(err, d). (err, d_strs d, str_offs d)) (btf_dedup_strings cmp_sort sample_dedup) =
    Some (0, [0, 97, 0, 105, 110, 116, 0], [3, 1, 1, 3, 1, 3, 0])"
  by code_simp

text \<open>
  C13. The pass over the strings returns for types and lines that are all there and a section of strings that begins and ends with a zero byte, with any sort that the
  standard allows: with \<open>-ENOMEM\<close>, with \<open>-EINVAL\<close> for an offset that is not the beginning of a string, or with success. Then every place that named a string names
  an equal one in a section that is not longer, equal strings have one offset, and nothing else of the types and lines has changed.
\<close>

theorem dedup_strings_sound:
  assumes "sorting qs" "strings_ready d"
  shows "\<exists>err d'. btf_dedup_strings qs d = Some (err, d') \<and> err \<in> {0, - ENOMEM, - EINVAL} \<and> (err = 0 \<longrightarrow> strings_done d d')"
  using assms by (rule strings_pass)

theorem dedup_strings_sound_witness:
  "\<exists>d'. btf_dedup_strings cmp_sort sample_dedup = Some (0, d') \<and> strings_done sample_dedup d'"
proof -
  obtain err d' where "btf_dedup_strings cmp_sort sample_dedup = Some (err, d')" "err = 0 \<longrightarrow> strings_done sample_dedup d'"
    using dedup_strings_sound [OF insertion.sorting_axioms sample_ready] by blast
  then show ?thesis using sample_strings by auto
qed

end
