(* ===== verification/Dedup_Total.thy ===== *)
theory Dedup_Total
  imports Dedup_Strings
begin

text \<open>
  \<open>btf__dedup\<close> returns and stays inside its arrays when the types of the section refer to types of the section. The map from types to
  their representatives stays a forest, each comparison of two graphs enters a type in the hypothetical map at every call that goes deeper, and each step into a
  reference marks one more type as in progress, so that the three loops that follow the contents of arrays end.
\<close>

section \<open>Programs that return\<close>

definition runs :: "'a option \<Rightarrow> ('a \<Rightarrow> bool) \<Rightarrow> bool" where
  "runs m Q \<longleftrightarrow> (case m of None \<Rightarrow> False | Some x \<Rightarrow> Q x)"

lemma runs_simps [simp]:
  "runs (Some x) Q = Q x" "runs None Q = False" "runs (if b then m else m') Q = (if b then runs m Q else runs m' Q)"
  by (simp_all add: runs_def)

lemma runs_bind [simp]: "runs (Option.bind m f) Q = runs m (\<lambda>x. runs (f x) Q)"
  by (simp add: runs_def split: option.split Option.bind_split)

lemma runs_mono: "runs m P \<Longrightarrow> (\<And>x. P x \<Longrightarrow> Q x) \<Longrightarrow> runs m Q"
  by (auto simp: runs_def split: option.splits)

lemma runs_pair: "runs (case p of (a, b) \<Rightarrow> f a b) Q = (case p of (a, b) \<Rightarrow> runs (f a b) Q)"
  by (cases p) simp

lemma runs_at: "unat i < length xs \<Longrightarrow> runs (at xs i) Q = Q (xs ! unat i)"
  by (simp add: at_def nth_option_def)

lemma runs_nth: "k < length xs \<Longrightarrow> runs (nth_option xs k) Q = Q (xs ! k)"
  by (simp add: nth_option_def)

lemma unat_inj: "unat i = unat j \<longleftrightarrow> i = j"
  by (rule word_unat_eq_iff [symmetric])

section \<open>Representatives\<close>

definition is_root :: "u32 list \<Rightarrow> u32 \<Rightarrow> bool" where
  "is_root m i \<longleftrightarrow> unat i < length m \<and> \<not> (m ! unat i \<le> MAX_NR_TYPES \<and> m ! unat i \<noteq> i)"

inductive resolves :: "u32 list \<Rightarrow> u32 \<Rightarrow> u32 \<Rightarrow> bool" for m where
  here: "is_root m i \<Longrightarrow> resolves m i i"
| step: "unat i < length m \<Longrightarrow> m ! unat i \<le> MAX_NR_TYPES \<Longrightarrow> m ! unat i \<noteq> i \<Longrightarrow> resolves m (m ! unat i) r \<Longrightarrow> resolves m i r"

definition forest :: "u32 list \<Rightarrow> bool" where
  "forest m \<longleftrightarrow> (\<forall>i. unat i < length m \<longrightarrow> (\<exists>r. resolves m i r))"

lemma resolves_root: "resolves m i r \<Longrightarrow> is_root m r"
  by (induction rule: resolves.induct) auto

lemma forest_update:
  assumes "forest m" "unat c < length m" "t = c \<or> t > MAX_NR_TYPES \<or> is_root m t"
  shows "forest (m[unat c := t])" (is "forest ?m")
proof -
  have c: "\<exists>r. resolves ?m c r"
  proof (cases "t = c \<or> t > MAX_NR_TYPES")
    case True
    then have "is_root ?m c" using assms(2) by (auto simp: is_root_def)
    then show ?thesis using resolves.here by blast
  next
    case False
    then have "is_root ?m t" using assms(2,3) by (auto simp: is_root_def nth_list_update)
    then have "resolves ?m t t" by (rule resolves.here)
    then show ?thesis using resolves.step [of c ?m t] assms(2) False by (auto simp: not_less)
  qed
  have "\<exists>r'. resolves ?m i r'" if "resolves m i r" for i r
    using that
  proof (induction rule: resolves.induct)
    case (here i)
    show ?case
    proof (cases "i = c")
      case False
      then have "is_root ?m i" using here by (auto simp: is_root_def nth_list_update unat_inj)
      then show ?thesis using resolves.here by blast
    qed (use c in simp)
  next
    case (step i r)
    show ?case
    proof (cases "i = c")
      case False
      then have "?m ! unat i = m ! unat i" by (simp add: nth_list_update unat_inj)
      then show ?thesis using step resolves.step [of i ?m] by auto
    qed (use c in simp)
  qed
  then show ?thesis using assms(1) by (auto simp: forest_def)
qed

text \<open>As many steps as there are types are enough: a shortest way has a different length at each type that it passes.\<close>

lemma resolve_steps_mono: "resolve_steps k m i = Some r \<Longrightarrow> resolve_steps (k + j) m i = Some r"
  by (induction k arbitrary: i) (auto split: Option.bind_splits)

lemma resolve_steps_least:
  assumes "resolve_steps k m i \<noteq> None" "\<And>j. resolve_steps j m i \<noteq> None \<Longrightarrow> k \<le> j"
  shows "{1..k} \<subseteq> (\<lambda>i. LEAST k. resolve_steps k m i \<noteq> None) ` {i. unat i < length m}"
  using assms
proof (induction k arbitrary: i)
  case (Suc k)
  have i: "unat i < length m" using Suc.prems(1) by (auto simp: at_def nth_option_def split: if_splits)
  have l: "(LEAST k. resolve_steps k m i \<noteq> None) = Suc k" using Suc.prems by (blast intro: Least_equality)
  have last: "Suc k \<in> (\<lambda>i. LEAST k. resolve_steps k m i \<noteq> None) ` {i. unat i < length m}"
    by (rule image_eqI [of _ _ i], rule l [symmetric]) (simp add: i)
  show ?case
  proof (cases "is_root m i")
    case True
    then have "resolve_steps 1 m i \<noteq> None" using i by (auto simp: is_root_def at_def nth_option_def)
    then have "k = 0" using Suc.prems(2) [of 1] by simp
    then show ?thesis using last by simp
  next
    case False
    have next_step: "resolve_steps (Suc j) m i = resolve_steps j m (m ! unat i)" for j
      using False i by (simp add: is_root_def at_def nth_option_def)
    have "{1..k} \<subseteq> (\<lambda>i. LEAST k. resolve_steps k m i \<noteq> None) ` {i. unat i < length m}"
    proof (rule Suc.IH [of "m ! unat i"])
      show "resolve_steps k m (m ! unat i) \<noteq> None" using Suc.prems(1) by (simp only: next_step not_False_eq_True)
      show "k \<le> j" if "resolve_steps j m (m ! unat i) \<noteq> None" for j
        using Suc.prems(2) [of "Suc j"] that by (simp only: next_step not_False_eq_True Suc_le_mono)
    qed
    moreover note last
    moreover have "{1..Suc k} = insert (Suc k) {1..k}" by auto
    ultimately show ?thesis by (simp only: insert_subset)
  qed
qed simp

lemma resolve_steps_enough:
  assumes "resolves m i r"
  shows "resolve_steps (length m) m i = Some r"
proof -
  have "\<exists>k. resolve_steps k m i = Some r"
    using assms
  proof (induction rule: resolves.induct)
    case (here i)
    then have "resolve_steps 1 m i = Some i" by (auto simp: is_root_def at_def nth_option_def)
    then show ?case by blast
  next
    case (step i r)
    then obtain k where "resolve_steps k m (m ! unat i) = Some r" by blast
    then have "resolve_steps (Suc k) m i = Some r" using step by (simp add: at_def nth_option_def)
    then show ?case by blast
  qed
  then obtain k0 where k0: "resolve_steps k0 m i = Some r" by blast
  define k where "k = (LEAST k. resolve_steps k m i \<noteq> None)"
  have k: "resolve_steps k m i \<noteq> None" unfolding k_def by (rule LeastI [of _ k0]) (simp add: k0)
  have least: "k \<le> j" if "resolve_steps j m i \<noteq> None" for j unfolding k_def using that by (rule Least_le)
  let ?A = "{i :: u32. unat i < length m}"
  have "inj_on unat ?A" "unat ` ?A \<subseteq> {..<length m}" by (auto simp: inj_on_def unat_inj)
  then have fin: "finite ?A" "card ?A \<le> length m" by (metis finite_imageD finite_subset finite_lessThan, metis card_inj_on_le card_lessThan finite_lessThan)
  have "k \<le> card ((\<lambda>i. LEAST k. resolve_steps k m i \<noteq> None) ` ?A)"
    using card_mono [OF finite_imageI [OF fin(1)] resolve_steps_least [OF k least]] by simp
  also have "\<dots> \<le> length m" using card_image_le [OF fin(1)] fin(2) le_trans by blast
  finally obtain j where j: "length m = k + j" using le_Suc_ex by blast
  obtain r' where r': "resolve_steps k m i = Some r'" using k by blast
  have "k \<le> k0" using least k0 by simp
  then have "r' = r" using resolve_steps_mono [OF r', of "k0 - k"] k0 by simp
  then show ?thesis using resolve_steps_mono [OF r', of j] j by simp
qed

lemma resolve_runs:
  assumes "forest (d_map d)" "unat i < length (d_map d)" "\<And>r. resolves (d_map d) i r \<Longrightarrow> Q r"
  shows "runs (resolve_type_id d i) Q"
proof -
  obtain r where "resolves (d_map d) i r" using assms(1,2) by (auto simp: forest_def)
  then show ?thesis using assms(3) by (simp add: resolve_type_id_def resolve_steps_enough)
qed

section \<open>Types\<close>

text \<open>How many words follow a type, which of them refer to types, and the types that have their words and refer to one of \<open>n\<close> types. A forward declaration has a field for
  a type, which the last pass reads.\<close>

definition need_words :: "dtype \<Rightarrow> nat" where
  "need_words t =
     (case kind t of
        BTF_KIND_INT \<Rightarrow> 1 | BTF_KIND_ARRAY \<Rightarrow> 3 | BTF_KIND_STRUCT \<Rightarrow> 3 * vlen t | BTF_KIND_UNION \<Rightarrow> 3 * vlen t
      | BTF_KIND_ENUM \<Rightarrow> 2 * vlen t | BTF_KIND_FUNC_PROTO \<Rightarrow> 2 * vlen t | _ \<Rightarrow> 0)"

definition has_ref :: "dtype \<Rightarrow> bool" where
  "has_ref t \<longleftrightarrow> kind t \<in> {BTF_KIND_CONST, BTF_KIND_VOLATILE, BTF_KIND_RESTRICT, BTF_KIND_PTR, BTF_KIND_TYPEDEF, BTF_KIND_FUNC, BTF_KIND_FUNC_PROTO, BTF_KIND_FWD}"

definition ref_words :: "dtype \<Rightarrow> nat list" where
  "ref_words t =
     (case kind t of
        BTF_KIND_ARRAY \<Rightarrow> [0, 1] | BTF_KIND_STRUCT \<Rightarrow> member_types t | BTF_KIND_UNION \<Rightarrow> member_types t
      | BTF_KIND_FUNC_PROTO \<Rightarrow> param_types t | _ \<Rightarrow> [])"

definition type_ok :: "nat \<Rightarrow> dtype \<Rightarrow> bool" where
  "type_ok n t \<longleftrightarrow> need_words t \<le> length (extra t) \<and> (has_ref t \<longrightarrow> unat (size_or_type t) < n) \<and>
     list_all (\<lambda>k. unat (extra t ! k) < n) (ref_words t)"

lemma info_cong:
  "type_info t = type_info t' \<Longrightarrow> kind t = kind t' \<and> vlen t = vlen t' \<and> need_words t = need_words t' \<and> has_ref t = has_ref t' \<and> ref_words t = ref_words t'"
  by (simp add: kind_def vlen_def need_words_def has_ref_def ref_words_def member_types_def param_types_def cong: btf_kind.case_cong)

text \<open>The lists of words that the functions read.\<close>

lemma words_fit:
  "kind t = BTF_KIND_ENUM \<or> kind t = BTF_KIND_FUNC_PROTO \<Longrightarrow> list_all (\<lambda>k. k < need_words t) (pair_words t)"
  "kind t = BTF_KIND_STRUCT \<or> kind t = BTF_KIND_UNION \<Longrightarrow> list_all (\<lambda>k. k < need_words t) (member_words t)"
  "kind t = BTF_KIND_FUNC_PROTO \<Longrightarrow> list_all (\<lambda>k. k < need_words t) (param_names t)"
  "list_all (\<lambda>k. k < need_words t) (ref_words t)"
  "list_all (\<lambda>k. k < need_words t) (str_positions t)"
  by (auto simp: need_words_def pair_words_def member_words_def param_names_def ref_words_def member_types_def param_types_def str_positions_def
      list_all_iff split: btf_kind.split)

lemma words_at_fit: "list_all (\<lambda>k. k < need_words t) ks \<Longrightarrow> type_ok n t \<Longrightarrow> words_at ks t = Some (map (\<lambda>k. extra t ! k) ks)"
  by (auto simp: words_at_def type_ok_def list_all_iff)

text \<open>A comparison that returns, and holds of types with the same info only.\<close>

definition compares :: "nat \<Rightarrow> dtype \<Rightarrow> (dtype \<Rightarrow> bool option) \<Rightarrow> bool" where
  "compares n t eq \<longleftrightarrow> (\<forall>c. type_ok n c \<longrightarrow> runs (eq c) (\<lambda>b. b \<longrightarrow> type_info c = type_info t))"

lemma words_at_same:
  assumes "type_info t = type_info c" "list_all (\<lambda>k. k < need_words t) ks" "type_ok n c"
  shows "words_at ks c = Some (map (\<lambda>k. extra c ! k) ks)"
proof -
  have "need_words c = need_words t" using info_cong [OF assms(1)] by simp
  then show ?thesis using assms(2,3) by (intro words_at_fit) simp_all
qed

lemma equal_words_compares: "list_all (\<lambda>k. k < need_words t) ks \<Longrightarrow> type_ok n t \<Longrightarrow> compares n t (equal_words ks t)"
  using words_at_same [of t _ ks n] by (simp add: compares_def equal_words_def btf_equal_common_def)

lemma hash_words_runs: "list_all (\<lambda>k. k < need_words t) ks \<Longrightarrow> type_ok n t \<Longrightarrow> \<exists>h. hash_words ks t = Some h"
  by (simp add: hash_words_def words_at_fit)

lemma compares_prim:
  assumes "type_ok n t"
  shows "kind t = BTF_KIND_INT \<Longrightarrow> compares n t (btf_equal_int t)" "kind t = BTF_KIND_ENUM \<Longrightarrow> compares n t (btf_equal_enum t)"
    "compares n t (\<lambda>c. Some (btf_equal_common t c))" "kind t = BTF_KIND_INT \<Longrightarrow> \<exists>h. btf_hash_int t = Some h"
    "kind t = BTF_KIND_ENUM \<Longrightarrow> \<exists>h. btf_hash_enum t = Some h"
proof -
  show "kind t = BTF_KIND_INT \<Longrightarrow> compares n t (btf_equal_int t)" "kind t = BTF_KIND_INT \<Longrightarrow> \<exists>h. btf_hash_int t = Some h"
    using equal_words_compares [of t "[0]"] hash_words_runs [of t "[0]"] assms by (simp_all add: btf_equal_int_def [abs_def] btf_hash_int_def need_words_def)
  show "kind t = BTF_KIND_ENUM \<Longrightarrow> compares n t (btf_equal_enum t)" "kind t = BTF_KIND_ENUM \<Longrightarrow> \<exists>h. btf_hash_enum t = Some h"
    using equal_words_compares [OF words_fit(1)] hash_words_runs [OF words_fit(1)] assms by (simp_all add: btf_equal_enum_def [abs_def] btf_hash_enum_def)
  show "compares n t (\<lambda>c. Some (btf_equal_common t c))" by (simp add: compares_def btf_equal_common_def)
qed

lemma compares_struct:
  assumes "type_ok n t" "kind t = BTF_KIND_STRUCT \<or> kind t = BTF_KIND_UNION"
  shows "compares n t (btf_shallow_equal_struct t)" "\<exists>h. btf_hash_struct t = Some h"
  using equal_words_compares [OF words_fit(2)] hash_words_runs [OF words_fit(2)] assms by (simp_all add: btf_shallow_equal_struct_def [abs_def] btf_hash_struct_def)

lemma compares_ref:
  assumes "type_ok n t"
  shows "compares n t (ref_equal t)" "\<exists>h. ref_hash t = Some h"
proof -
  have a: "compares n t (btf_equal_array t)" "\<exists>h. btf_hash_array t = Some h" if "kind t = BTF_KIND_ARRAY"
    using equal_words_compares [of t "[0, 1, 2]"] hash_words_runs [of t "[0, 1, 2]"] assms that
    by (simp_all add: btf_equal_array_def [abs_def] btf_hash_array_def need_words_def)
  have f: "compares n t (btf_equal_fnproto t)" "\<exists>h. btf_hash_fnproto t = Some h" if "kind t = BTF_KIND_FUNC_PROTO"
    using equal_words_compares [OF words_fit(1)] hash_words_runs [OF words_fit(1)] assms that
    by (simp_all add: btf_equal_fnproto_def [abs_def] btf_hash_fnproto_def)
  show "compares n t (ref_equal t)"
    using a(1) f(1) compares_prim(3) [OF assms] by (cases "kind t") (simp_all add: ref_equal_def [abs_def])
  show "\<exists>h. ref_hash t = Some h"
    using a(2) f(2) by (auto simp: ref_hash_def split: btf_kind.split)
qed

lemma find_cand_runs:
  assumes "compares n t eq" "\<forall>c \<in> set cs. unat c < length ts \<and> type_ok n (ts ! unat c)"
  shows "runs (find_cand eq ts self cs) (\<lambda>r. r = self \<or> r \<in> set cs \<and> type_info (ts ! unat r) = type_info t)"
  using assms(2)
proof (induction cs)
  case (Cons c cs)
  then have "runs (eq (ts ! unat c)) (\<lambda>b. b \<longrightarrow> type_info (ts ! unat c) = type_info t)" using assms(1) by (simp add: compares_def)
  then show ?case using Cons by (auto simp: runs_at elim!: runs_mono)
qed simp

section \<open>The state\<close>

text \<open>A candidate of the table is a type that stands for itself; only a forward declaration may be mapped to a structure later.\<close>

definition table_ok :: "btf_dedup \<Rightarrow> bool" where
  "table_ok d \<longleftrightarrow> (\<forall>b. \<forall>c \<in> set (dedup_table d b). unat c < length (d_map d) \<and> (kind (d_types d ! unat c) \<noteq> BTF_KIND_FWD \<longrightarrow> d_map d ! unat c = c))"

definition hypot_ok :: "btf_dedup \<Rightarrow> bool" where
  "hypot_ok d \<longleftrightarrow> (\<forall>i \<in> set (hypot_list d). unat i < length (d_map d) \<and> unat (hypot_map d ! unat i) < length (d_map d))"

definition dd_ok :: "btf_dedup \<Rightarrow> bool" where
  "dd_ok d \<longleftrightarrow> length (d_types d) = length (d_map d) \<and> length (hypot_map d) = length (d_map d) \<and> d_map d \<noteq> [] \<and> length (d_map d) \<le> 2 ^ 31 \<and>
     forest (d_map d) \<and> list_all (type_ok (length (d_map d))) (d_types d) \<and> hypot_ok d \<and> table_ok d"

lemma dd_okD:
  fixes i :: u32
  assumes "dd_ok d"
  shows "length (d_types d) = length (d_map d)" "length (hypot_map d) = length (d_map d)" "length (d_map d) \<le> 2 ^ 31" "forest (d_map d)"
    "hypot_ok d" "table_ok d" "unat i < length (d_map d) \<Longrightarrow> type_ok (length (d_map d)) (d_types d ! unat i)"
  using assms by (auto simp: dd_ok_def list_all_length)

lemma id_le: "unat i < n \<Longrightarrow> n \<le> 2 ^ 31 \<Longrightarrow> i \<le> MAX_NR_TYPES"
  by (simp add: word_le_nat_alt MAX_NR_TYPES_def)

lemma table_root:
  assumes "dd_ok d" "c \<in> set (dedup_table d b)" "kind (d_types d ! unat c) \<noteq> BTF_KIND_FWD"
  shows "d_map d ! unat c = c" "is_root (d_map d) c"
  using assms by (auto simp: dd_ok_def table_ok_def is_root_def)

text \<open>A type that had no representative gets one, or a mark.\<close>

lemma unmapped_not_in_table:
  assumes "dd_ok d" "unat i < length (d_map d)" "d_map d ! unat i > MAX_NR_TYPES" "i \<in> set (dedup_table d b)"
  shows "kind (d_types d ! unat i) = BTF_KIND_FWD"
proof -
  have "i \<le> MAX_NR_TYPES" using assms(2) dd_okD(3) [OF assms(1)] by (rule id_le)
  then show ?thesis using table_root(1) [OF assms(1,4)] assms(3) by force
qed

lemma set_ok:
  assumes ok: "dd_ok d" and i: "unat i < length (d_map d)" "\<And>b. i \<in> set (dedup_table d b) \<Longrightarrow> kind (d_types d ! unat i) = BTF_KIND_FWD"
    and v: "v = i \<or> v > MAX_NR_TYPES \<or> is_root (d_map d) v"
    and tb: "\<And>b. set (tb b) \<subseteq> insert i (set (dedup_table d b))" "v = i \<or> tb = dedup_table d"
  shows "dd_ok (d\<lparr>d_map := (d_map d)[unat i := v], dedup_table := tb, mem := m\<rparr>)"
proof -
  have "unat c < length (d_map d) \<and> (kind (d_types d ! unat c) \<noteq> BTF_KIND_FWD \<longrightarrow> (d_map d)[unat i := v] ! unat c = c)" if c: "c \<in> set (tb b)" for b c
  proof (cases "c = i \<and> v = i")
    case False
    then have old: "c \<in> set (dedup_table d b)" using c tb by blast
    then have t: "unat c < length (d_map d)" "kind (d_types d ! unat c) \<noteq> BTF_KIND_FWD \<longrightarrow> d_map d ! unat c = c"
      using dd_okD(6) [OF ok] by (auto simp: table_ok_def)
    then show ?thesis using i(2) old by (cases "c = i") (auto simp: nth_list_update unat_inj)
  qed (use i in auto)
  then have "table_ok (d\<lparr>d_map := (d_map d)[unat i := v], dedup_table := tb, mem := m\<rparr>)" by (simp add: table_ok_def)
  moreover have "forest ((d_map d)[unat i := v])" using forest_update [OF dd_okD(4) [OF ok] i(1)] v by blast
  ultimately show ?thesis using ok by (simp add: dd_ok_def hypot_ok_def)
qed

lemma map_and_add_result:
  assumes "unat i < length (d_map d)"
  shows "\<exists>err tb m. map_and_add d h i v = Some (err, d\<lparr>d_map := (d_map d)[unat i := v], dedup_table := tb, mem := m\<rparr>) \<and> err \<le> 0 \<and>
    (\<forall>b. set (tb b) \<subseteq> insert i (set (dedup_table d b))) \<and> (v = i \<or> tb = dedup_table d)"
proof (cases "i = v \<and> mem d \<noteq> 0")
  case True
  let ?tb = "(dedup_table d)(bucket d h := i # dedup_table d (bucket d h))"
  have "map_and_add d h i v = Some (0, d\<lparr>d_map := (d_map d)[unat i := v], dedup_table := ?tb, mem := mem d - 1\<rparr>)"
    using True assms by (cases d) (simp add: map_and_add_def set_map_def btf_dedup_table_add_def alloc_def bucket_def)
  moreover have "\<forall>b. set (?tb b) \<subseteq> insert i (set (dedup_table d b))" by auto
  moreover have "(0 :: int) \<le> 0" by simp
  ultimately show ?thesis using True by blast
next
  case False
  then have "\<exists>err. map_and_add d h i v = Some (err, d\<lparr>d_map := (d_map d)[unat i := v], dedup_table := dedup_table d, mem := mem d\<rparr>) \<and> err \<le> 0"
    using assms by (cases d) (auto simp: map_and_add_def set_map_def btf_dedup_table_add_def alloc_def ENOMEM_def)
  then show ?thesis by blast
qed

lemma dedup_equal_runs:
  assumes ok: "dd_ok d" and i: "unat i < length (d_map d)" "d_map d ! unat i > MAX_NR_TYPES"
    and eq: "compares (length (d_map d)) (d_types d ! unat i) eq" and h: "hash = Some h"
    and roots: "\<And>c. c \<in> set (dedup_cands d h) \<Longrightarrow> type_info (d_types d ! unat c) = type_info (d_types d ! unat i) \<Longrightarrow> d_map d ! unat c = c"
  shows "runs (dedup_equal d i hash eq) (\<lambda>(err, v, d'). err \<le> 0 \<and> dd_ok d' \<and> unat v < length (d_map d) \<and>
    (\<exists>tb m. d' = d\<lparr>d_map := (d_map d)[unat i := v], dedup_table := tb, mem := m\<rparr> \<and>
      (\<forall>b. set (tb b) \<subseteq> insert i (set (dedup_table d b))) \<and> (v = i \<or> tb = dedup_table d)))"
proof -
  let ?P = "\<lambda>r. r = i \<or> r \<in> set (dedup_cands d h) \<and> type_info (d_types d ! unat r) = type_info (d_types d ! unat i)"
  have "\<forall>c \<in> set (dedup_cands d h). unat c < length (d_types d) \<and> type_ok (length (d_map d)) (d_types d ! unat c)"
    using dd_okD(1,6,7) [OF ok] by (auto simp: table_ok_def dedup_cands_def)
  then have f: "runs (find_cand eq (d_types d) i (dedup_cands d h)) ?P" using find_cand_runs [OF eq] by blast
  have step: "runs (map_and_add d h i v) (\<lambda>(err, d'). err \<le> 0 \<and> dd_ok d' \<and> unat v < length (d_map d) \<and>
    (\<exists>tb m. d' = d\<lparr>d_map := (d_map d)[unat i := v], dedup_table := tb, mem := m\<rparr> \<and>
      (\<forall>b. set (tb b) \<subseteq> insert i (set (dedup_table d b))) \<and> (v = i \<or> tb = dedup_table d)))" if v: "?P v" for v
  proof -
    have r: "v = i \<or> is_root (d_map d) v" "unat v < length (d_map d)"
      using v roots [of v] i dd_okD(6) [OF ok] by (auto simp: is_root_def table_ok_def dedup_cands_def)
    obtain err tb m where e: "map_and_add d h i v = Some (err, d\<lparr>d_map := (d_map d)[unat i := v], dedup_table := tb, mem := m\<rparr>)"
      and tb: "err \<le> 0" "\<And>b. set (tb b) \<subseteq> insert i (set (dedup_table d b))" "v = i \<or> tb = dedup_table d"
      using map_and_add_result [OF i(1)] by blast
    have "dd_ok (d\<lparr>d_map := (d_map d)[unat i := v], dedup_table := tb, mem := m\<rparr>)" using set_ok [OF ok i(1) _ _ tb(2,3)] unmapped_not_in_table [OF ok i] r(1) by blast
    then show ?thesis using r(2) tb by (auto simp: e)
  qed
  show ?thesis unfolding dedup_equal_def h
    using f by (auto elim!: runs_mono simp: runs_pair split: prod.splits dest!: step)
qed

section \<open>Primitive types\<close>

text \<open>A loop over types: an invariant for each number.\<close>

lemma each_type_runs:
  assumes step: "\<And>i d. a \<le> i \<Longrightarrow> i < n \<Longrightarrow> I i d \<Longrightarrow> runs (f d (of_nat i)) (\<lambda>(err, d'). err \<le> 0 \<and> (err = 0 \<longrightarrow> I (Suc i) d'))"
    and "I a d" "a \<le> n"
  shows "runs (each_type f [a..<n] d) (\<lambda>(err, d'). err \<le> 0 \<and> (err = 0 \<longrightarrow> I n d'))"
  using assms
proof (induction "n - a" arbitrary: a d)
  case 0
  then show ?case by simp
next
  case (Suc k)
  then have a: "a < n" "[a..<n] = a # [Suc a..<n]" by (simp_all add: upt_conv_Cons)
  have ih: "runs (each_type f [Suc a..<n] d') (\<lambda>(err, d'). err \<le> 0 \<and> (err = 0 \<longrightarrow> I n d'))" if "I (Suc a) d'" for d'
    using Suc(2) that a(1) by (intro Suc(1) Suc(3)) auto
  have "runs (f d (of_nat a)) (\<lambda>(err, d'). err \<le> 0 \<and> (err = 0 \<longrightarrow> I (Suc a) d'))" using Suc(3) [of a d] Suc(4) a(1) by simp
  then show ?case unfolding a(2) by (auto elim!: runs_mono split: prod.splits if_splits simp: ih)
qed

lemma unat_id: "i < n \<Longrightarrow> n \<le> 2 ^ 31 \<Longrightarrow> unat (of_nat i :: u32) = i"
  by (simp add: unat_of_nat take_bit_nat_eq_self)

definition prim_inv :: "nat \<Rightarrow> nat \<Rightarrow> btf_dedup \<Rightarrow> bool" where
  "prim_inv n i d \<longleftrightarrow> dd_ok d \<and> length (d_map d) = n \<and> (\<forall>j. i \<le> j \<longrightarrow> j < n \<longrightarrow> d_map d ! j > MAX_NR_TYPES) \<and>
     (\<forall>b. \<forall>c \<in> set (dedup_table d b). d_map d ! unat c = c)"

lemma prim_equal_runs:
  assumes inv: "prim_inv n i d" "i < n" and eq: "compares n (d_types d ! i) eq" "\<exists>h. hash = Some h"
  shows "runs (dedup_equal d (of_nat i) hash eq) (\<lambda>(err, v, d'). err \<le> 0 \<and> prim_inv n (Suc i) d')"
proof -
  note I = inv(1) [unfolded prim_inv_def]
  have ok: "dd_ok d" and n: "length (d_map d) = n" "n \<le> 2 ^ 31" using I dd_okD(3) [of d] by auto
  have ui: "unat (of_nat i :: u32) = i" using inv(2) n(2) by (rule unat_id)
  have m: "d_map d ! i > MAX_NR_TYPES" using I inv(2) by simp
  obtain h where h: "hash = Some h" using eq(2) by blast
  have "runs (dedup_equal d (of_nat i) hash eq) (\<lambda>(err, v, d'). err \<le> 0 \<and> dd_ok d' \<and> unat v < n \<and>
    (\<exists>tb m. d' = d\<lparr>d_map := (d_map d)[i := v], dedup_table := tb, mem := m\<rparr> \<and>
      (\<forall>b. set (tb b) \<subseteq> insert (of_nat i) (set (dedup_table d b))) \<and> (v = of_nat i \<or> tb = dedup_table d)))"
    using dedup_equal_runs [OF ok, of "of_nat i" eq hash h] I m inv(2) eq(1) h by (simp add: ui n(1) dedup_cands_def)
  then show ?thesis
  proof (rule runs_mono)
    fix x
    assume x: "case x of (err, v, d') \<Rightarrow> err \<le> 0 \<and> dd_ok d' \<and> unat v < n \<and> (\<exists>tb m. d' = d\<lparr>d_map := (d_map d)[i := v], dedup_table := tb, mem := m\<rparr> \<and>
      (\<forall>b. set (tb b) \<subseteq> insert (of_nat i) (set (dedup_table d b))) \<and> (v = of_nat i \<or> tb = dedup_table d))"
    obtain err v d' where xe: "x = (err, v, d')" by (cases x) auto
    obtain tb mm where d': "dd_ok d'" "d' = d\<lparr>d_map := (d_map d)[i := v], dedup_table := tb, mem := mm\<rparr>"
      and tb: "\<And>b. set (tb b) \<subseteq> insert (of_nat i) (set (dedup_table d b))" "v = of_nat i \<or> tb = dedup_table d" using x xe by auto
    have "(d_map d)[i := v] ! unat c = c" if c: "c \<in> set (tb b)" for b c
    proof (cases "c = of_nat i \<and> v = of_nat i")
      case False
      then have old: "c \<in> set (dedup_table d b)" using c tb by blast
      then have "d_map d ! unat c = c" "unat c < n" using I dd_okD(6) [OF ok] by (auto simp: table_ok_def)
      moreover from this have "unat c \<noteq> i" using m id_le [of c n] n(2) by auto
      ultimately show ?thesis by simp
    qed (use ui inv(2) n in auto)
    then show "case x of (err, v, d') \<Rightarrow> err \<le> 0 \<and> prim_inv n (Suc i) d'" using x d' I by (simp add: xe prim_inv_def)
  qed
qed

lemma prim_type_runs:
  assumes "prim_inv n i d" "i < n"
  shows "runs (btf_dedup_prim_type d (of_nat i)) (\<lambda>(err, d'). err \<le> 0 \<and> (err = 0 \<longrightarrow> prim_inv n (Suc i) d'))"
proof -
  have n: "length (d_map d) = n" "n \<le> 2 ^ 31" "length (d_types d) = n" using assms(1) dd_okD(1,3) [of d] by (auto simp: prim_inv_def)
  have ui: "unat (of_nat i :: u32) = i" using assms(2) n(2) by (rule unat_id)
  have t: "type_ok n (d_types d ! i)" using dd_okD(7) [of d "of_nat i"] assms n ui by (simp add: prim_inv_def)
  have skip: "prim_inv n (Suc i) d" using assms(1) by (simp add: prim_inv_def)
  have E: "runs (dedup_equal d (of_nat i) hash eq) (\<lambda>x. case x of (err, b) \<Rightarrow> err \<le> 0 \<and> (case b of (_, d') \<Rightarrow> err = 0 \<longrightarrow> prim_inv n (Suc i) d'))"
    if "compares n (d_types d ! i) eq" "\<exists>h. hash = Some h" for hash eq
    using prim_equal_runs [OF assms that] by (rule runs_mono) auto
  have "unat (of_nat i :: u32) < length (d_types d)" using ui assms(2) n(3) by simp
  then show ?thesis
    using skip by (cases "kind (d_types d ! i)") (simp_all add: btf_dedup_prim_type_def runs_at ui runs_pair E compares_prim [OF t] EINVAL_def)
qed

definition at_size :: "nat \<Rightarrow> btf_dedup \<Rightarrow> bool" where
  "at_size n d \<longleftrightarrow> dd_ok d \<and> length (d_map d) = n"

lemma prim_types_run:
  assumes "prim_inv n 1 d"
  shows "runs (btf_dedup_prim_types d) (\<lambda>(err, d'). err \<le> 0 \<and> (err = 0 \<longrightarrow> at_size n d'))"
proof -
  have n: "length (d_types d) = n" "1 \<le> n" using assms dd_okD(1) [of d] by (auto simp: prim_inv_def dd_ok_def Suc_le_eq)
  have "runs (each_type btf_dedup_prim_type [1..<n] d) (\<lambda>(err, d'). err \<le> 0 \<and> (err = 0 \<longrightarrow> prim_inv n n d'))"
    by (rule each_type_runs [where I = "prim_inv n"]) (use assms n prim_type_runs in auto)
  then show ?thesis unfolding btf_dedup_prim_types_def type_ids_def n(1) by (rule runs_mono) (auto simp: prim_inv_def at_size_def)
qed

section \<open>The comparison of graphs\<close>

text \<open>What the comparison leaves alone, and the types that are not yet in the hypothetical map.\<close>

definition core :: "btf_dedup \<Rightarrow> btf_dedup" where
  "core d = d\<lparr>hypot_map := [], hypot_list := [], hypot_cap := 0, mem := 0\<rparr>"

definition free :: "btf_dedup \<Rightarrow> nat" where
  "free d = length (filter (\<lambda>v. v > MAX_NR_TYPES) (hypot_map d))"

definition compared :: "btf_dedup \<Rightarrow> btf_dedup \<Rightarrow> bool" where
  "compared d0 d \<longleftrightarrow> dd_ok d \<and> core d = core d0 \<and> free d \<le> free d0"

lemma core_fields:
  assumes "core d' = core d"
  shows "d_types d' = d_types d" "d_map d' = d_map d" "dedup_table d' = dedup_table d"
proof -
  have "d_types (core x) = d_types x" "d_map (core x) = d_map x" "dedup_table (core x) = dedup_table x" for x by (simp_all add: core_def)
  then show "d_types d' = d_types d" "d_map d' = d_map d" "dedup_table d' = dedup_table d" using assms by metis+
qed

lemma compared_refl: "dd_ok d \<Longrightarrow> compared d d"
  by (simp add: compared_def)

lemma compared_trans: "compared d0 d1 \<Longrightarrow> compared d1 d2 \<Longrightarrow> compared d0 d2"
  by (auto simp: compared_def)

lemma filter_update:
  assumes "j < length xs" "P (xs ! j)" "\<not> P v"
  shows "length (filter P (xs[j := v])) < length (filter P xs)"
proof -
  have "xs = take j xs @ xs ! j # drop (Suc j) xs" using assms(1) by (rule id_take_nth_drop)
  then have "filter P xs = filter P (take j xs) @ xs ! j # filter P (drop (Suc j) xs)" using assms(2) by (metis filter.simps(2) filter_append)
  then show ?thesis using assms by (simp add: upd_conv_take_nth_drop)
qed

lemma hypot_map_add_runs:
  assumes ok: "dd_ok d" and i: "unat a < length (d_map d)" "unat b < length (d_map d)" and m: "hypot_map d ! unat a > MAX_NR_TYPES"
  shows "runs (btf_dedup_hypot_map_add d a b) (\<lambda>(err, d'). compared d d' \<and> (err = 0 \<longrightarrow> free d' < free d))"
proof -
  have len: "unat a < length (hypot_map d)" "b \<le> MAX_NR_TYPES" using i dd_okD(2,3) [OF ok] id_le by auto
  then have fr: "length (filter (\<lambda>v. v > MAX_NR_TYPES) ((hypot_map d)[unat a := b])) < free d"
    unfolding free_def using m by (intro filter_update) auto
  let ?d = "\<lambda>c m. d\<lparr>hypot_cap := c, mem := m, hypot_list := hypot_list d @ [a], hypot_map := (hypot_map d)[unat a := b]\<rparr>"
  have grown: "dd_ok (d\<lparr>hypot_cap := c, mem := m\<rparr>)" "core (d\<lparr>hypot_cap := c, mem := m\<rparr>) = core d" "free (d\<lparr>hypot_cap := c, mem := m\<rparr>) = free d" for c m
    using ok by (simp_all add: dd_ok_def core_def free_def hypot_ok_def table_ok_def)
  have "hypot_ok (?d c m)" for c m
    using dd_okD(5) [OF ok] i len(1) by (auto simp: hypot_ok_def nth_list_update unat_inj)
  then have added: "dd_ok (?d c m)" "core (?d c m) = core d" "free (?d c m) < free d" for c m
    using ok fr by (simp_all add: dd_ok_def core_def free_def table_ok_def)
  have e: "\<exists>err c m. btf_dedup_hypot_map_add d a b = Some (err, if err = 0 then ?d c m else d\<lparr>hypot_cap := c, mem := m\<rparr>)"
    using len(1) by (cases d) (auto simp: btf_dedup_hypot_map_add_def Let_def alloc_def ENOMEM_def)
  then obtain err c m where "btf_dedup_hypot_map_add d a b = Some (err, if err = 0 then ?d c m else d\<lparr>hypot_cap := c, mem := m\<rparr>)" by blast
  then show ?thesis using grown added by (auto simp: compared_def less_imp_le)
qed

lemma equiv_all_runs:
  assumes "\<And>p d. p \<in> set ps \<Longrightarrow> compared d0 d \<Longrightarrow> runs (f (fst p) (snd p) d) (\<lambda>(r, d'). compared d0 d')" "compared d0 d"
  shows "runs (equiv_all f ps d) (\<lambda>(r, d'). compared d0 d')"
  using assms
proof (induction ps arbitrary: d)
  case (Cons p ps)
  have ih: "runs (equiv_all f ps d') (\<lambda>(r, d'). compared d0 d')" if "compared d0 d'" for d' using Cons that by simp
  have "runs (f (fst p) (snd p) d) (\<lambda>(r, d'). compared d0 d')" using Cons.prems by simp
  then show ?case by (auto simp: runs_pair ih elim!: runs_mono)
qed simp

lemma equiv_kind_runs:
  assumes f: "\<And>a b d. unat a < n \<Longrightarrow> unat b < n \<Longrightarrow> compared d0 d \<Longrightarrow> runs (f a b d) (\<lambda>(r, d'). compared d0 d')"
    and t: "type_ok n cand" "type_ok n canon" "type_info cand = type_info canon" and d: "compared d0 d"
  shows "runs (equiv_kind f cand canon d) (\<lambda>(r, d'). compared d0 d')"
proof -
  note same = info_cong [OF t(3)]
  have ref: "runs (f (size_or_type cand) (size_or_type canon) d) (\<lambda>(r, d'). compared d0 d')" if "has_ref cand"
    using that f d t same by (simp add: type_ok_def)
  have pairs: "words_at ks cand = Some (map (\<lambda>k. extra cand ! k) ks) \<and> words_at ks canon = Some (map (\<lambda>k. extra canon ! k) ks) \<and>
    runs (equiv_all f (zip (map (\<lambda>k. extra cand ! k) ks) (map (\<lambda>k. extra canon ! k) ks)) d') (\<lambda>(r, d'). compared d0 d')"
    if ks: "set ks \<subseteq> set (ref_words cand)" and d': "compared d0 d'" for ks d'
  proof -
    have fit: "list_all (\<lambda>k. k < need_words cand) ks" using words_fit(4) [of cand] ks by (auto simp: list_all_iff)
    have "unat (extra cand ! k) < n \<and> unat (extra canon ! k) < n" if "k \<in> set ks" for k
      using that ks t same by (auto simp: type_ok_def list_all_iff)
    then have "runs (equiv_all f (zip (map (\<lambda>k. extra cand ! k) ks) (map (\<lambda>k. extra canon ! k) ks)) d') (\<lambda>(r, d'). compared d0 d')"
      using d' f by (intro equiv_all_runs) (auto simp: zip_map_map set_zip)
    then show ?thesis using words_at_fit [OF fit t(1)] words_at_same [OF t(3) fit t(2)] by simp
  qed
  have c: "runs (btf_equal_int cand canon) (\<lambda>_. True)" if "kind cand = BTF_KIND_INT"
    using compares_prim(1) [OF t(1) that] t(2) by (auto simp: compares_def elim!: runs_mono)
  have e: "runs (btf_equal_enum cand canon) (\<lambda>_. True)" if "kind cand = BTF_KIND_ENUM"
    using compares_prim(2) [OF t(1) that] t(2) by (auto simp: compares_def elim!: runs_mono)
  have st: "runs (btf_shallow_equal_struct cand canon) (\<lambda>_. True)" if "kind cand = BTF_KIND_STRUCT \<or> kind cand = BTF_KIND_UNION"
    using compares_struct(1) [OF t(1) that] t(2) by (auto simp: compares_def elim!: runs_mono)
  have ar: "runs (btf_compat_array cand canon) (\<lambda>_. True)" if "kind cand = BTF_KIND_ARRAY"
    using equal_words_compares [of cand "[2]", OF _ t(1)] t(2) that by (auto simp: compares_def btf_compat_array_def need_words_def elim!: runs_mono)
  have fp: "runs (btf_compat_fnproto cand canon) (\<lambda>_. True)" if "kind cand = BTF_KIND_FUNC_PROTO"
    using words_at_fit [OF words_fit(3) [OF that] t(1)] words_at_same [OF t(3) words_fit(3) [OF that] t(2)] by (simp add: btf_compat_fnproto_def)
  have b: "runs (bool_result m d) (\<lambda>(r, d'). compared d0 d')" if "runs m (\<lambda>_. True)" for m
    using that d by (auto simp: bool_result_def elim!: runs_mono)
  have g: "runs m (\<lambda>c. runs (if \<not> c then Some (0, d) else x) (\<lambda>(r, d'). compared d0 d'))"
    if "runs m (\<lambda>_. True)" "runs x (\<lambda>(r, d'). compared d0 d')" for m x
    using that(1) by (rule runs_mono) (use d that(2) in simp)
  note ks = pairs [of "[1, 0]"] pairs [of "member_types cand"] pairs [of "param_types cand"]
  show ?thesis
  proof (cases "kind cand")
    case BTF_KIND_ARRAY
    then show ?thesis using ar d ks(1) [OF _ d] by (simp add: equiv_kind_def ref_words_def)
  next
    case BTF_KIND_FUNC_PROTO
    then have "runs (f (size_or_type cand) (size_or_type canon) d) (\<lambda>(r, d'). compared d0 d')" by (intro ref) (simp add: has_ref_def)
    then have "runs (f (size_or_type cand) (size_or_type canon) d) (\<lambda>(eq, d'). runs (if eq \<le> 0 then Some (eq, d')
        else do { a \<leftarrow> words_at (param_types cand) cand; b \<leftarrow> words_at (param_types cand) canon; equiv_all f (zip a b) d' }) (\<lambda>(r, d'). compared d0 d'))"
      using ks(3) BTF_KIND_FUNC_PROTO by (auto simp: ref_words_def elim!: runs_mono)
    then show ?thesis using fp d BTF_KIND_FUNC_PROTO by (simp add: equiv_kind_def runs_pair)
  qed (use d ref b c e g st ks(2) in \<open>simp_all add: equiv_kind_def has_ref_def ref_words_def\<close>)
qed

lemma resolve_fwd_runs:
  assumes "dd_ok d" "unat i < length (d_map d)"
  shows "runs (resolve_fwd_id d i) (\<lambda>r. unat r < length (d_map d))"
proof -
  have "runs (resolve_type_id d i) (\<lambda>r. runs (at (d_types d) r) (\<lambda>t. unat (if kind t \<noteq> BTF_KIND_FWD then r else i) < length (d_map d)))"
    using assms by (intro resolve_runs) (auto simp: dd_okD runs_at is_root_def dest!: resolves_root)
  then show ?thesis using assms by (simp add: resolve_fwd_id_def runs_at dd_okD(1))
qed

lemma is_equiv_runs:
  "dd_ok d \<Longrightarrow> unat cand < length (d_map d) \<Longrightarrow> unat canon < length (d_map d) \<Longrightarrow> free d < k \<Longrightarrow>
     runs (is_equiv k cand canon d) (\<lambda>(r, d'). compared d d')"
proof (induction k arbitrary: cand canon d)
  case (Suc k)
  let ?n = "length (d_map d)" and ?Q = "\<lambda>(r, d'). compared d d'"
  note ok = Suc.prems(1)
  define rest where "rest d = (\<lambda>canon. do {
                cand_t \<leftarrow> at (d_types d) cand;
                canon_t \<leftarrow> at (d_types d) canon;
                if name_off cand_t \<noteq> name_off canon_t then Some (0, d)
                else if \<not> dont_resolve_fwds d \<and> (kind cand_t = BTF_KIND_FWD \<or> kind canon_t = BTF_KIND_FWD) \<and> kind cand_t \<noteq> kind canon_t
                then Some (if (if kind cand_t = BTF_KIND_FWD then btf_fwd_kind cand_t = kind canon_t else btf_fwd_kind canon_t = kind cand_t)
                           then 1 else 0, d)
                else if type_info cand_t \<noteq> type_info canon_t then Some (0, d)
                else equiv_kind (is_equiv k) cand_t canon_t d })" for d
  have rest: "runs (rest d1 c) ?Q" if d1: "compared d d1" "free d1 < free d" and c: "unat c < ?n" for d1 c
  proof -
    have ok1: "dd_ok d1" and m: "d_map d1 = d_map d" "d_types d1 = d_types d" using d1(1) core_fields [of d1 d] by (auto simp: compared_def)
    have go: "runs (is_equiv k a b d2) (\<lambda>(r, d'). compared d1 d')" if "unat a < ?n" "unat b < ?n" "compared d1 d2" for a b d2
    proof -
      have "dd_ok d2" "d_map d2 = d_map d" "free d2 < k" using that(3) d1 Suc.prems(4) core_fields [of d2 d1] m by (auto simp: compared_def)
      then have "runs (is_equiv k a b d2) (\<lambda>(r, d'). compared d2 d')" using Suc.IH that(1,2) by simp
      then show ?thesis by (rule runs_mono) (use that(3) compared_trans in auto)
    qed
    have t: "type_ok ?n (d_types d ! unat cand)" "type_ok ?n (d_types d ! unat c)" using dd_okD(7) [OF ok] Suc.prems(2) c by auto
    have "runs (equiv_kind (is_equiv k) (d_types d ! unat cand) (d_types d ! unat c) d1) ?Q"
      if "type_info (d_types d ! unat cand) = type_info (d_types d ! unat c)"
      using equiv_kind_runs [OF go t that compared_refl [OF ok1]] by (rule runs_mono) (use d1(1) compared_trans in auto)
    then show ?thesis using Suc.prems(2) c d1(1) dd_okD(1) [OF ok] by (simp add: rest_def runs_at m)
  qed
  define add where "add = (\<lambda>canon. do { hyp \<leftarrow> at (hypot_map d) canon;
      if hyp \<le> MAX_NR_TYPES then Some (if hyp = cand then 1 else 0, d)
      else do { (err, d) \<leftarrow> btf_dedup_hypot_map_add d canon cand; if err \<noteq> 0 then Some (- ENOMEM, d) else rest d canon } })"
  have add: "runs (add c) ?Q" if c: "unat c < ?n" for c
  proof (cases "hypot_map d ! unat c \<le> MAX_NR_TYPES")
    case False
    then have "runs (btf_dedup_hypot_map_add d c cand) (\<lambda>(err, d'). compared d d' \<and> (err = 0 \<longrightarrow> free d' < free d))"
      using hypot_map_add_runs [OF ok c Suc.prems(2)] by (simp add: not_le)
    then have "runs (btf_dedup_hypot_map_add d c cand) (\<lambda>(err, d'). runs (if err \<noteq> 0 then Some (- ENOMEM, d') else rest d' c) ?Q)"
      by (rule runs_mono) (use rest c in auto)
    then show ?thesis using False c dd_okD(2) [OF ok] by (simp add: add_def runs_at runs_pair)
  qed (use c ok in \<open>simp add: add_def runs_at dd_okD(2) compared_refl\<close>)
  have fwd: "runs (Option.bind (resolve_fwd_id d canon) add) ?Q"
    using resolve_fwd_runs [OF ok Suc.prems(3)] add by (auto elim!: runs_mono)
  have "is_equiv (Suc k) cand canon d =
    do { r1 \<leftarrow> resolve_type_id d cand; r2 \<leftarrow> resolve_type_id d canon; if r1 = r2 then Some (1, d) else Option.bind (resolve_fwd_id d canon) add }"
    unfolding add_def rest_def is_equiv.simps ..
  moreover have "runs (do { r1 \<leftarrow> resolve_type_id d cand; r2 \<leftarrow> resolve_type_id d canon; if r1 = r2 then Some (1, d) else Option.bind (resolve_fwd_id d canon) add }) ?Q"
    unfolding runs_bind using Suc.prems(2,3) dd_okD(4) [OF ok] fwd compared_refl [OF ok] by (intro resolve_runs) (auto intro!: resolve_runs)
  ultimately show ?case by simp
qed simp

section \<open>Structures and unions\<close>

text \<open>What a merge keeps: everything but the map, and in the map the types that have a representative and are not forward declarations.\<close>

definition kept :: "btf_dedup \<Rightarrow> btf_dedup \<Rightarrow> bool" where
  "kept d d' \<longleftrightarrow> dd_ok d' \<and> d_types d' = d_types d \<and> dedup_table d' = dedup_table d \<and> length (d_map d') = length (d_map d)"

lemma kept_trans: "kept d d' \<Longrightarrow> kept d' d'' \<Longrightarrow> kept d d''"
  by (simp add: kept_def)

lemma compared_kept: "compared d d' \<Longrightarrow> kept d d'"
  using core_fields [of d' d] by (simp add: compared_def kept_def)

lemma link_ok:
  fixes c :: u32
  assumes ok: "dd_ok d" and c: "unat c < length (d_map d)" "kind (d_types d ! unat c) = BTF_KIND_FWD \<or> d_map d ! unat c > MAX_NR_TYPES"
    and t: "is_root (d_map d) t"
  shows "kept d (d\<lparr>d_map := (d_map d)[unat c := t]\<rparr>)"
proof -
  have "kind (d_types d ! unat c) = BTF_KIND_FWD" if "c \<in> set (dedup_table d b)" for b
    using c(2) unmapped_not_in_table [OF ok c(1) _ that] by blast
  then have "dd_ok (d\<lparr>d_map := (d_map d)[unat c := t], dedup_table := dedup_table d, mem := mem d\<rparr>)"
    using ok c(1) t by (intro set_ok) auto
  then show ?thesis by (simp add: kept_def)
qed

lemma merge_hypot_runs:
  assumes ok: "dd_ok d" and i: "i \<in> set (hypot_list d)"
  shows "runs (merge_hypot i d) (\<lambda>d'. kept d d' \<and> hypot_list d' = hypot_list d)"
proof -
  have n: "unat i < length (d_map d)" "unat (hypot_map d ! unat i) < length (d_map d)" using dd_okD(5) [OF ok] i by (auto simp: hypot_ok_def)
  let ?K = "\<lambda>j. kind (d_types d ! unat j)"
  define body where "body t_id c_id = do {
          t \<leftarrow> at (d_types d) t_id;
          c \<leftarrow> at (d_types d) c_id;
          d \<leftarrow> (if kind t \<noteq> BTF_KIND_FWD \<and> kind c = BTF_KIND_FWD then set_map d c_id t_id
               else if kind t = BTF_KIND_FWD \<and> kind c \<noteq> BTF_KIND_FWD then set_map d t_id c_id
               else Some d);
          c_mapped \<leftarrow> is_type_mapped d c_id;
          t_mapped \<leftarrow> is_type_mapped d t_id;
          if (kind t = BTF_KIND_STRUCT \<or> kind t = BTF_KIND_UNION) \<and> kind c \<noteq> BTF_KIND_FWD \<and> c_mapped \<and> \<not> t_mapped
          then set_map d t_id c_id else Some d }" for t_id c_id
  have body: "runs (body t_id c_id) (\<lambda>d'. kept d d' \<and> hypot_list d' = hypot_list d)" if r: "is_root (d_map d) t_id" "is_root (d_map d) c_id" for t_id c_id
  proof -
    have u: "unat t_id < length (d_map d)" "unat c_id < length (d_map d)" using r by (auto simp: is_root_def)
    have "kept d d" using ok by (simp add: kept_def)
    moreover have "?K c_id = BTF_KIND_FWD \<Longrightarrow> kept d (d\<lparr>d_map := (d_map d)[unat c_id := t_id]\<rparr>)" using link_ok [OF ok u(2) _ r(1)] by blast
    moreover have "?K t_id = BTF_KIND_FWD \<or> d_map d ! unat t_id > MAX_NR_TYPES \<Longrightarrow> kept d (d\<lparr>d_map := (d_map d)[unat t_id := c_id]\<rparr>)"
      using link_ok [OF ok u(1) _ r(2)] by blast
    ultimately show ?thesis
      using u dd_okD(1) [OF ok] by (auto simp: body_def runs_at set_map_def is_type_mapped_def not_le)
  qed
  have "merge_hypot i d = do { targ \<leftarrow> at (hypot_map d) i; t_id \<leftarrow> resolve_type_id d targ; c_id \<leftarrow> resolve_type_id d i; body t_id c_id }"
    unfolding merge_hypot_def body_def ..
  moreover have "runs (resolve_type_id d (hypot_map d ! unat i)) (\<lambda>t_id. runs (resolve_type_id d i) (\<lambda>c_id.
      runs (body t_id c_id) (\<lambda>d'. kept d d' \<and> hypot_list d' = hypot_list d)))"
    using n dd_okD(4) [OF ok] body by (intro resolve_runs) (auto dest!: resolves_root)
  ultimately show ?thesis using n dd_okD(2) [OF ok] by (simp add: runs_at)
qed

lemma merge_all_runs:
  "dd_ok d \<Longrightarrow> set is \<subseteq> set (hypot_list d) \<Longrightarrow> runs (merge_all is d) (kept d)"
proof (induction "is" arbitrary: d)
  case (Cons i "is")
  have "runs (merge_hypot i d) (\<lambda>d'. kept d d' \<and> hypot_list d' = hypot_list d)" using Cons.prems by (intro merge_hypot_runs) auto
  then have "runs (merge_hypot i d) (\<lambda>d'. runs (merge_all is d') (kept d))"
  proof (rule runs_mono)
    fix d' assume d': "kept d d' \<and> hypot_list d' = hypot_list d"
    then have "runs (merge_all is d') (kept d')" using Cons.prems(2) by (intro Cons.IH) (auto simp: kept_def)
    then show "runs (merge_all is d') (kept d)" by (rule runs_mono) (use d' kept_trans in blast)
  qed
  then show ?case by simp
qed (simp add: kept_def)

lemma clear_ok:
  assumes "dd_ok d"
  shows "kept d (btf_dedup_clear_hypot_map d)"
proof -
  have "length (fold (\<lambda>i m. m[unat i := BTF_UNPROCESSED_ID]) is m) = length m" for "is" m :: "u32 list"
    by (induction "is" arbitrary: m) simp_all
  then show ?thesis using assms by (simp add: kept_def dd_ok_def hypot_ok_def table_ok_def btf_dedup_clear_hypot_map_def)
qed

lemma struct_cands_run:
  assumes "unat i < length (d_map d)" "dd_ok d" "compares (length (d_map d)) t (btf_shallow_equal_struct t)" "kind t = BTF_KIND_STRUCT \<or> kind t = BTF_KIND_UNION"
    "\<forall>c \<in> set cs. \<exists>b. c \<in> set (dedup_table d b)"
  shows "runs (struct_cands t i cs d) (\<lambda>(err, v, d'). kept d d' \<and> unat v < length (d_map d) \<and> (v = i \<or> is_root (d_map d') v))"
  using assms
proof (induction cs arbitrary: d)
  case (Cons c cs)
  let ?n = "length (d_map d)" and ?Q = "\<lambda>(err, v, d'). kept d d' \<and> unat v < length (d_map d) \<and> (v = i \<or> is_root (d_map d') v)"
  note ok = Cons.prems(2)
  obtain b where b: "c \<in> set (dedup_table d b)" using Cons.prems(5) by auto
  then have c: "unat c < ?n" using dd_okD(6) [OF ok] by (auto simp: table_ok_def)
  have again: "runs (struct_cands t i cs d') ?Q" if d': "kept d d'" for d'
  proof -
    have e: "length (d_map d') = ?n" "dedup_table d' = dedup_table d" "dd_ok d'" using d' by (auto simp: kept_def)
    have "runs (struct_cands t i cs d') (\<lambda>(err, v, d''). kept d' d'' \<and> unat v < length (d_map d') \<and> (v = i \<or> is_root (d_map d'') v))"
      using Cons.prems by (intro Cons.IH) (auto simp: e)
    then show ?thesis by (rule runs_mono) (use d' kept_trans e in auto)
  qed
  let ?d0 = "btf_dedup_clear_hypot_map d"
  have k0: "kept d ?d0" by (rule clear_ok [OF ok])
  have eqv: "runs (btf_dedup_is_equiv ?d0 i c) (\<lambda>(r, d'). kept d d')"
  proof -
    have "dd_ok ?d0" "length (d_map ?d0) = ?n" using k0 by (auto simp: kept_def)
    moreover have "free ?d0 < Suc (length (hypot_map ?d0))" by (simp add: free_def less_Suc_eq_le)
    ultimately have "runs (btf_dedup_is_equiv ?d0 i c) (\<lambda>(r, d'). compared ?d0 d')"
      unfolding btf_dedup_is_equiv_def using Cons.prems(1) c by (intro is_equiv_runs) auto
    then show ?thesis by (rule runs_mono) (use k0 compared_kept kept_trans in blast)
  qed
  have merge: "runs (btf_dedup_merge_hypot_map d') (\<lambda>d'. kept d d' \<and> is_root (d_map d') c)"
    if d': "kept d d'" and k: "kind (d_types d ! unat c) \<noteq> BTF_KIND_FWD" for d'
  proof -
    have "runs (btf_dedup_merge_hypot_map d') (kept d')"
      unfolding btf_dedup_merge_hypot_map_def using d' by (intro merge_all_runs) (auto simp: kept_def)
    then show ?thesis
    proof (rule runs_mono)
      fix d'' assume "kept d' d''"
      then have "kept d d''" using d' kept_trans by blast
      then show "kept d d'' \<and> is_root (d_map d'') c" using table_root(2) [of d'' c b] b k by (simp add: kept_def)
    qed
  qed
  have "runs (btf_shallow_equal_struct t (d_types d ! unat c)) (\<lambda>same. same \<longrightarrow> type_info (d_types d ! unat c) = type_info t)"
    using Cons.prems(3) dd_okD(7) [OF ok c] by (simp add: compares_def)
  then have "runs (btf_shallow_equal_struct t (d_types d ! unat c)) (\<lambda>same. runs (if \<not> same then struct_cands t i cs d
          else do {
            (eq, d) \<leftarrow> btf_dedup_is_equiv ?d0 i c;
            if eq < 0 then Some (eq, i, d)
            else if eq = 0 then struct_cands t i cs d
            else do { d \<leftarrow> btf_dedup_merge_hypot_map d; Some (0, c, d) } }) ?Q)"
  proof (rule runs_mono)
    fix same assume same: "same \<longrightarrow> type_info (d_types d ! unat c) = type_info t"
    have k: "kind (d_types d ! unat c) \<noteq> BTF_KIND_FWD" if same using Cons.prems(4) same that info_cong [of "d_types d ! unat c" t] by auto
    have "runs (btf_dedup_is_equiv ?d0 i c) (\<lambda>(eq, d'). runs (if eq < 0 then Some (eq, i, d')
            else if eq = 0 then struct_cands t i cs d'
            else do { d \<leftarrow> btf_dedup_merge_hypot_map d'; Some (0, c, d) }) ?Q)" if same
      using eqv
    proof (rule runs_mono, clarify)
      fix r d' assume d': "kept d d'"
      have "runs (btf_dedup_merge_hypot_map d') (\<lambda>d''. kept d d'' \<and> unat c < ?n \<and> (c = i \<or> is_root (d_map d'') c))"
        using merge [OF d' k [OF that]] by (rule runs_mono) (use c in auto)
      then show "runs (if r < 0 then Some (r, i, d') else if r = 0 then struct_cands t i cs d'
            else do { d \<leftarrow> btf_dedup_merge_hypot_map d'; Some (0, c, d) }) ?Q"
        using again [OF d'] d' Cons.prems(1) by simp
    qed
    moreover have "runs (struct_cands t i cs d) ?Q" using again ok by (simp add: kept_def)
    ultimately show "runs (if \<not> same then struct_cands t i cs d
          else do {
            (eq, d) \<leftarrow> btf_dedup_is_equiv ?d0 i c;
            if eq < 0 then Some (eq, i, d)
            else if eq = 0 then struct_cands t i cs d
            else do { d \<leftarrow> btf_dedup_merge_hypot_map d; Some (0, c, d) } }) ?Q" by (simp add: runs_pair)
  qed
  then show ?case using c dd_okD(1) [OF ok] by (simp add: runs_at)
qed (simp add: kept_def)

lemma struct_type_runs:
  assumes "at_size n d" "i < n"
  shows "runs (btf_dedup_struct_type d (of_nat i)) (\<lambda>(err, d'). err \<le> 0 \<and> (err = 0 \<longrightarrow> at_size n d'))"
proof -
  have ok: "dd_ok d" and n: "length (d_map d) = n" "n \<le> 2 ^ 31" "length (d_types d) = n" using assms(1) dd_okD(1,3) [of d] by (auto simp: at_size_def)
  let ?i = "of_nat i :: u32" and ?t = "d_types d ! i"
  have ui: "unat ?i = i" using assms(2) n(2) by (rule unat_id)
  have t: "type_ok n ?t" using dd_okD(7) [OF ok, of ?i] assms(2) ui n(1) by simp
  have work: "runs (do { h \<leftarrow> btf_hash_struct ?t;
              (err, new_id, d) \<leftarrow> struct_cands ?t ?i (dedup_cands d h) d;
              if err < 0 then Some (err, d) else map_and_add d h ?i new_id }) (\<lambda>(err, d'). err \<le> 0 \<and> (err = 0 \<longrightarrow> at_size n d'))"
    if k: "kind ?t = BTF_KIND_STRUCT \<or> kind ?t = BTF_KIND_UNION" and m: "d_map d ! i > MAX_NR_TYPES"
  proof -
    obtain h where h: "btf_hash_struct ?t = Some h" using compares_struct(2) [OF t k] by blast
    have "runs (struct_cands ?t ?i (dedup_cands d h) d) (\<lambda>(err, v, d'). kept d d' \<and> unat v < length (d_map d) \<and> (v = ?i \<or> is_root (d_map d') v))"
      using ok k compares_struct(1) [OF t k] assms(2) by (intro struct_cands_run) (auto simp: n(1) ui dedup_cands_def)
    then have "runs (struct_cands ?t ?i (dedup_cands d h) d) (\<lambda>(err, v, d'). runs (if err < 0 then Some (err, d') else map_and_add d' h ?i v) (\<lambda>(err, d'). err \<le> 0 \<and> (err = 0 \<longrightarrow> at_size n d')))"
    proof (rule runs_mono, clarify)
      fix err v d' assume d': "kept d d'" and v: "unat v < length (d_map d)" "v = ?i \<or> is_root (d_map d') v"
      have e: "dd_ok d'" "unat ?i < length (d_map d')" "length (d_map d') = n" using d' n(1) ui assms(2) by (auto simp: kept_def)
      have "kind (d_types d' ! unat ?i) = BTF_KIND_FWD" if "?i \<in> set (dedup_table d' b)" for b
        using unmapped_not_in_table [OF ok, of ?i b] d' that m assms(2) n(1) ui by (simp add: kept_def)
      moreover obtain e' tb mm where r: "map_and_add d' h ?i v = Some (e', d'\<lparr>d_map := (d_map d')[unat ?i := v], dedup_table := tb, mem := mm\<rparr>)"
        "\<forall>b. set (tb b) \<subseteq> insert ?i (set (dedup_table d' b))" "v = ?i \<or> tb = dedup_table d'" "e' \<le> 0" using map_and_add_result [OF e(2), of h v] by blast
      ultimately have "dd_ok (d'\<lparr>d_map := (d_map d')[unat ?i := v], dedup_table := tb, mem := mm\<rparr>)" using e(1,2) v(2) by (intro set_ok) auto
      then show "runs (if err < 0 then Some (err, d') else map_and_add d' h ?i v) (\<lambda>(err, d'). err \<le> 0 \<and> (err = 0 \<longrightarrow> at_size n d'))"
        using e(3) r(4) by (simp add: r(1) at_size_def)
    qed
    then show ?thesis by (simp add: h runs_pair)
  qed
  have "at (d_map d) ?i = Some (d_map d ! i)" "at (d_types d) ?i = Some ?t" using ui assms(2) n by (simp_all add: at_def nth_option_def)
  then show ?thesis
    using work assms(1) by (auto simp: btf_dedup_struct_type_def is_type_mapped_def not_le simp del: runs_bind)
qed

lemma struct_types_run:
  assumes "at_size n d"
  shows "runs (btf_dedup_struct_types d) (\<lambda>(err, d'). err \<le> 0 \<and> (err = 0 \<longrightarrow> at_size n d'))"
proof -
  have n: "length (d_types d) = n" "1 \<le> n" using assms dd_okD(1) [of d] by (auto simp: at_size_def dd_ok_def Suc_le_eq)
  show ?thesis unfolding btf_dedup_struct_types_def type_ids_def n(1)
    by (rule each_type_runs [where I = "\<lambda>_. at_size n"]) (use assms n struct_type_runs in auto)
qed

section \<open>References\<close>

definition marks :: "btf_dedup \<Rightarrow> nat" where
  "marks d = length (filter (\<lambda>v. v > MAX_NR_TYPES \<and> v \<noteq> BTF_IN_PROGRESS_ID) (d_map d))"

text \<open>What a step into a reference keeps: the infos of the types, the types in progress, and the number of types that have not been visited does not grow.\<close>

definition stepped :: "btf_dedup \<Rightarrow> btf_dedup \<Rightarrow> bool" where
  "stepped d d' \<longleftrightarrow> at_size (length (d_map d)) d' \<and> map type_info (d_types d') = map type_info (d_types d) \<and> marks d' \<le> marks d \<and>
     (\<forall>j < length (d_map d). d_map d ! j = BTF_IN_PROGRESS_ID \<longrightarrow> d_map d' ! j = BTF_IN_PROGRESS_ID)"

lemma stepped_refl: "dd_ok d \<Longrightarrow> stepped d d"
  by (simp add: stepped_def at_size_def)

lemma stepped_trans: "stepped d d' \<Longrightarrow> stepped d' d'' \<Longrightarrow> stepped d d''"
  by (auto simp: stepped_def at_size_def)

lemma types_ok:
  assumes "dd_ok d" "list_all (type_ok (length (d_map d))) ts" "map type_info ts = map type_info (d_types d)"
  shows "stepped d (d\<lparr>d_types := ts\<rparr>)"
proof -
  have len: "length ts = length (d_types d)" using assms(3) by (metis length_map)
  have "kind (ts ! j) = kind (d_types d ! j)" if "j < length ts" for j
  proof -
    have "type_info (ts ! j) = type_info (d_types d ! j)" using that assms(3) len by (metis nth_map)
    then show ?thesis using info_cong by blast
  qed
  then have "table_ok (d\<lparr>d_types := ts\<rparr>)" using assms(1) len by (auto simp: dd_ok_def table_ok_def)
  then show ?thesis using assms len by (simp add: stepped_def at_size_def dd_ok_def hypot_ok_def marks_def)
qed

lemma replace_ok:
  assumes ok: "dd_ok d" and i: "unat i < length (d_map d)" and v: "unat v < length (d_map d)"
  shows "runs (set_ref d i v) (stepped d)" "runs (set_word d i k v) (stepped d)"
proof -
  let ?t = "d_types d ! unat i"
  have t: "type_ok (length (d_map d)) ?t" using dd_okD(7) [OF ok i] .
  have len: "unat i < length (d_types d)" using i dd_okD(1) [OF ok] by simp
  have all: "list_all (type_ok (length (d_map d))) (d_types d)" using ok by (simp add: dd_ok_def)
  have upd: "stepped d (d\<lparr>d_types := (d_types d)[unat i := t']\<rparr>)" if "type_ok (length (d_map d)) t'" "type_info t' = type_info ?t" for t'
    using ok all that len by (intro types_ok) (auto simp: list_all_length nth_list_update map_update list_update_same_conv)
  have "type_ok (length (d_map d)) (?t\<lparr>size_or_type := v\<rparr>)"
    using t v info_cong [of "?t\<lparr>size_or_type := v\<rparr>" ?t] by (simp add: type_ok_def)
  then show "runs (set_ref d i v) (stepped d)" using upd len by (simp add: set_ref_def runs_at)
  have "unat ((extra ?t)[k := v] ! j) < length (d_map d)" if "j \<in> set (ref_words ?t)" for j
    using that t v words_fit(4) [of ?t] by (cases "j = k") (auto simp: type_ok_def list_all_iff)
  then have "type_ok (length (d_map d)) (?t\<lparr>extra := (extra ?t)[k := v]\<rparr>)"
    using t info_cong [of "?t\<lparr>extra := (extra ?t)[k := v]\<rparr>" ?t] by (simp add: type_ok_def list_all_iff)
  then show "runs (set_word d i k v) (stepped d)" using upd len by (simp add: set_word_def runs_at)
qed

lemma stepped_info: "stepped d d' \<Longrightarrow> unat i < length (d_map d) \<Longrightarrow> dd_ok d \<Longrightarrow> type_info (d_types d' ! unat i) = type_info (d_types d ! unat i)"
proof -
  assume s: "stepped d d'" "unat i < length (d_map d)" "dd_ok d"
  then have "length (d_types d') = length (d_types d)" "unat i < length (d_types d)" "map type_info (d_types d') = map type_info (d_types d)"
    using dd_okD(1) [of d] dd_okD(1) [of d'] by (auto simp: stepped_def at_size_def)
  then show ?thesis by (metis nth_map)
qed

lemma unat_result: "0 \<le> r \<Longrightarrow> nat r < n \<Longrightarrow> n \<le> 2 ^ 31 \<Longrightarrow> unat (of_int r :: u32) = nat r"
  using unat_id [of "nat r" n] by simp

text \<open>The contract of the function that finds the representative of a reference, when there are fewer than \<open>k\<close> types to visit.\<close>

locale ref_step =
  fixes f :: "btf_dedup \<Rightarrow> u32 \<Rightarrow> (int \<times> btf_dedup) option" and n k :: nat
  assumes f_runs: "at_size n d \<Longrightarrow> marks d < k \<Longrightarrow> unat v < n \<Longrightarrow> runs (f d v) (\<lambda>(r, d'). stepped d d' \<and> (0 \<le> r \<longrightarrow> nat r < n))"
begin

lemma later: "stepped d d' \<Longrightarrow> at_size n d \<Longrightarrow> marks d < k \<Longrightarrow> at_size n d' \<and> marks d' < k"
  by (auto simp: stepped_def at_size_def)

lemma store:
  assumes "at_size n d" "unat i < n" "0 \<le> r" "nat r < n"
  shows "runs (set_ref d i (of_int r)) (stepped d)" "runs (set_word d i j (of_int r)) (stepped d)"
proof -
  have "n \<le> 2 ^ 31" using assms(1) dd_okD(3) [of d] by (auto simp: at_size_def)
  then have "unat (of_int r :: u32) = nat r" using assms(3,4) by (intro unat_result)
  then show "runs (set_ref d i (of_int r)) (stepped d)" "runs (set_word d i j (of_int r)) (stepped d)"
    using replace_ok [of d i "of_int r"] assms by (simp_all add: at_size_def)
qed

lemma replace_ref_runs:
  assumes d: "at_size n d" "marks d < k" and i: "unat i < n" "has_ref (d_types d ! unat i)"
  shows "runs (replace_ref f i d) (\<lambda>(r, d'). stepped d d')"
proof -
  have len: "unat i < length (d_types d)" and t: "type_ok n (d_types d ! unat i)" using d(1) i(1) dd_okD(1,7) [of d] by (auto simp: at_size_def)
  then have "runs (f d (size_or_type (d_types d ! unat i))) (\<lambda>(r, d'). stepped d d' \<and> (0 \<le> r \<longrightarrow> nat r < n))"
    using d i(2) by (intro f_runs) (auto simp: type_ok_def)
  then have "runs (f d (size_or_type (d_types d ! unat i))) (\<lambda>(r, d'). runs (if r < 0 then Some (r, d') else do { d \<leftarrow> set_ref d' i (of_int r); Some (0, d) }) (\<lambda>(r, d'). stepped d d'))"
  proof (rule runs_mono, clarify)
    fix r d' assume s: "stepped d d'" "0 \<le> r \<longrightarrow> nat r < n"
    have "runs (set_ref d' i (of_int r)) (stepped d)" if "0 \<le> r"
      using store(1) [of d' i r] later [OF s(1) d] i(1) s that by (auto elim!: runs_mono intro: stepped_trans)
    then show "runs (if r < 0 then Some (r, d') else do { d \<leftarrow> set_ref d' i (of_int r); Some (0, d) }) (\<lambda>(r, d'). stepped d d')" using s by simp
  qed
  then show ?thesis using len by (simp add: replace_ref_def runs_at runs_pair)
qed

lemma replace_words_runs:
  "at_size n d \<Longrightarrow> marks d < k \<Longrightarrow> unat i < n \<Longrightarrow> set ks \<subseteq> set (ref_words (d_types d ! unat i)) \<Longrightarrow>
     runs (replace_words f i ks d) (\<lambda>(r, d'). stepped d d')"
proof (induction ks arbitrary: d)
  case (Cons j ks)
  note d = Cons.prems(1,2) and i = Cons.prems(3)
  let ?t = "d_types d ! unat i"
  have len: "unat i < length (d_types d)" and t: "type_ok n ?t" and ok: "dd_ok d" "length (d_map d) = n"
    using d(1) i dd_okD(1,7) [of d] by (auto simp: at_size_def)
  have j: "j < length (extra ?t)" "unat (extra ?t ! j) < n" using t Cons.prems(4) words_fit(4) [of ?t] by (auto simp: type_ok_def list_all_iff)
  have "runs (f d (extra ?t ! j)) (\<lambda>(r, d'). stepped d d' \<and> (0 \<le> r \<longrightarrow> nat r < n))" using d j(2) by (intro f_runs)
  then have "runs (f d (extra ?t ! j)) (\<lambda>(r, d'). runs (if r < 0 then Some (r, d') else do { d \<leftarrow> set_word d' i j (of_int r); replace_words f i ks d }) (\<lambda>(r, d'). stepped d d'))"
  proof (rule runs_mono, clarify)
    fix r d' assume s: "stepped d d'" "0 \<le> r \<longrightarrow> nat r < n"
    have "runs (set_word d' i j (of_int r)) (\<lambda>d''. runs (replace_words f i ks d'') (\<lambda>(r, d'). stepped d d'))" if "0 \<le> r"
    proof -
      have "runs (set_word d' i j (of_int r)) (stepped d')" using store(2) [of d' i r] later [OF s(1) d] i s(2) that by simp
      then show ?thesis
      proof (rule runs_mono)
        fix d'' assume "stepped d' d''"
        then have s2: "stepped d d''" using s(1) stepped_trans by blast
        have "ref_words (d_types d'' ! unat i) = ref_words ?t" using stepped_info [OF s2 _ ok(1)] i ok(2) info_cong by metis
        then have "runs (replace_words f i ks d'') (\<lambda>(r, d'). stepped d'' d')" using later [OF s2 d] i Cons.prems(4) by (intro Cons.IH) auto
        then show "runs (replace_words f i ks d'') (\<lambda>(r, d'). stepped d d')" by (rule runs_mono) (use s2 stepped_trans in auto)
      qed
    qed
    then show "runs (if r < 0 then Some (r, d') else do { d \<leftarrow> set_word d' i j (of_int r); replace_words f i ks d }) (\<lambda>(r, d'). stepped d d')" using s by simp
  qed
  then show ?case using len j(1) by (simp add: runs_at runs_nth runs_pair)
qed (simp add: stepped_refl at_size_def)

lemma replace_refs_run:
  assumes d: "at_size n d" "marks d < k" and i: "unat i < n"
  shows "runs (replace_refs f (d_types d ! unat i) i d) (\<lambda>(r, d'). stepped d d' \<and> (0 \<le> r \<longrightarrow> kind (d_types d ! unat i) \<noteq> BTF_KIND_FWD))"
proof -
  let ?t = "d_types d ! unat i"
  have ok: "dd_ok d" "length (d_map d) = n" using d(1) by (auto simp: at_size_def)
  have ref: "runs (replace_ref f i d) (\<lambda>(r, d'). stepped d d')" if "has_ref ?t" using d i that by (rule replace_ref_runs)
  have words: "runs (replace_words f i (ref_words ?t) d') (\<lambda>(r, d'). stepped d d')" if s: "stepped d d'" for d'
  proof -
    have "ref_words (d_types d' ! unat i) = ref_words ?t" using stepped_info [OF s _ ok(1)] i ok(2) info_cong by metis
    then have "runs (replace_words f i (ref_words ?t) d') (\<lambda>(r, d''). stepped d' d'')" using later [OF s d] i by (intro replace_words_runs) auto
    then show ?thesis by (rule runs_mono) (use s stepped_trans in auto)
  qed
  have both: "runs (do { (r, d) \<leftarrow> replace_ref f i d; if r < 0 then Some (r, d) else replace_words f i (ref_words ?t) d }) (\<lambda>(r, d'). stepped d d')" if "has_ref ?t"
    unfolding runs_bind using ref [OF that] by (rule runs_mono) (use words in \<open>auto simp: runs_pair\<close>)
  note w = words [OF stepped_refl [OF ok(1)]]
  show ?thesis
  proof (cases "kind ?t")
    case BTF_KIND_FUNC_PROTO
    then have "ref_words ?t = param_types ?t" by (simp add: ref_words_def)
    from both [unfolded this] BTF_KIND_FUNC_PROTO show ?thesis by (simp add: replace_refs_def has_ref_def)
  qed (use ref w stepped_refl [OF ok(1)] in \<open>simp_all add: replace_refs_def has_ref_def ref_words_def EINVAL_def\<close>)
qed

end

lemma marked_step:
  fixes i :: u32
  assumes ok: "dd_ok d" and i: "unat i < length (d_map d)" and m: "d_map d ! unat i > MAX_NR_TYPES" "d_map d ! unat i \<noteq> BTF_IN_PROGRESS_ID"
  shows "dd_ok (d\<lparr>d_map := (d_map d)[unat i := BTF_IN_PROGRESS_ID]\<rparr>)" "marks (d\<lparr>d_map := (d_map d)[unat i := BTF_IN_PROGRESS_ID]\<rparr>) < marks d"
proof -
  have "BTF_IN_PROGRESS_ID > MAX_NR_TYPES" by (simp add: BTF_IN_PROGRESS_ID_def MAX_NR_TYPES_def)
  then have "dd_ok (d\<lparr>d_map := (d_map d)[unat i := BTF_IN_PROGRESS_ID], dedup_table := dedup_table d, mem := mem d\<rparr>)"
    using ok i unmapped_not_in_table [OF ok i m(1)] by (intro set_ok) auto
  then show "dd_ok (d\<lparr>d_map := (d_map d)[unat i := BTF_IN_PROGRESS_ID]\<rparr>)" by simp
  show "marks (d\<lparr>d_map := (d_map d)[unat i := BTF_IN_PROGRESS_ID]\<rparr>) < marks d"
    unfolding marks_def using i m by (simp add: filter_update)
qed

lemma ref_equal_runs:
  assumes d: "at_size n d" and i: "unat i < n" "d_map d ! unat i = BTF_IN_PROGRESS_ID" and k: "kind (d_types d ! unat i) \<noteq> BTF_KIND_FWD"
  shows "runs (dedup_equal d i (ref_hash (d_types d ! unat i)) (ref_equal (d_types d ! unat i)))
    (\<lambda>(err, v, d'). at_size n d' \<and> unat v < n \<and> d_types d' = d_types d \<and> d_map d' = (d_map d)[unat i := v])"
proof -
  have ok: "dd_ok d" "length (d_map d) = n" using d by (auto simp: at_size_def)
  let ?t = "d_types d ! unat i"
  have t: "type_ok (length (d_map d)) ?t" using dd_okD(7) [OF ok(1)] i(1) ok(2) by simp
  obtain h where h: "ref_hash ?t = Some h" using compares_ref(2) [OF t] by blast
  have m: "d_map d ! unat i > MAX_NR_TYPES" using i(2) by (simp add: BTF_IN_PROGRESS_ID_def MAX_NR_TYPES_def)
  have "d_map d ! unat c = c" if "c \<in> set (dedup_cands d h)" "type_info (d_types d ! unat c) = type_info ?t" for c
  proof -
    have "kind (d_types d ! unat c) \<noteq> BTF_KIND_FWD" using info_cong [OF that(2)] k by simp
    then show ?thesis using table_root(1) [OF ok(1)] that(1) by (simp add: dedup_cands_def)
  qed
  note r = dedup_equal_runs [OF ok(1) i(1) [folded ok(2)] m compares_ref(1) [OF t] h this]
  show ?thesis by (rule runs_mono [OF r]) (use ok(2) in \<open>auto simp: at_size_def\<close>)
qed

lemma sint_id: "unat v < n \<Longrightarrow> n \<le> 2 ^ 31 \<Longrightarrow> sint (v :: u32) = int (unat v)"
proof -
  assume "unat v < n" "n \<le> 2 ^ 31"
  then have "int (unat v) < int (2 ^ 31)" by (simp only: of_nat_less_iff)
  then have "int (unat v) < 2 ^ 31" by (simp only: of_nat_power of_nat_numeral)
  then have "uint v < 2 ^ 31" by (simp only: of_nat_unat)
  moreover have "- (2 ^ 31) \<le> uint v" by (rule order_trans [of _ 0]) simp_all
  ultimately have "signed_take_bit 31 (uint v) = uint v" by (intro signed_take_bit_int_eq_self)
  then show ?thesis by (simp add: sint_uint)
qed

lemma filter_same:
  assumes "j < length xs" "\<not> P (xs ! j)" "\<not> P v"
  shows "filter P (xs[j := v]) = filter P xs"
proof -
  have "xs = take j xs @ xs ! j # drop (Suc j) xs" using assms(1) by (rule id_take_nth_drop)
  then have "filter P xs = filter P (take j xs) @ filter P (drop (Suc j) xs)" using assms(2) by (metis filter.simps(2) filter_append)
  then show ?thesis using assms by (simp add: upd_conv_take_nth_drop)
qed

lemma started_step:
  fixes i :: u32
  assumes d: "at_size n d" and i: "unat i < n" "d_map d ! unat i > MAX_NR_TYPES" "d_map d ! unat i \<noteq> BTF_IN_PROGRESS_ID"
  shows "stepped d (d\<lparr>d_map := (d_map d)[unat i := BTF_IN_PROGRESS_ID]\<rparr>)"
  using marked_step [of d i] d i by (auto simp: stepped_def at_size_def nth_list_update)

lemma finished_step:
  fixes i :: u32
  assumes d: "at_size n d" and i: "unat i < n" "d_map d ! unat i > MAX_NR_TYPES" "d_map d ! unat i \<noteq> BTF_IN_PROGRESS_ID"
    and d2: "stepped (d\<lparr>d_map := (d_map d)[unat i := BTF_IN_PROGRESS_ID]\<rparr>) d2"
    and d3: "at_size n d3" "d_types d3 = d_types d2" "d_map d3 = (d_map d2)[unat i := v]" "unat v < n"
  shows "stepped d d3"
proof -
  let ?d1 = "d\<lparr>d_map := (d_map d)[unat i := BTF_IN_PROGRESS_ID]\<rparr>"
  have n: "n \<le> 2 ^ 31" "length (d_map d) = n" "length (d_map d2) = n" using d d2 dd_okD(3) by (auto simp: at_size_def stepped_def)
  have v: "v \<le> MAX_NR_TYPES" using d3(4) n(1) id_le by blast
  have keep: "d_map d2 ! j = BTF_IN_PROGRESS_ID" if "d_map ?d1 ! j = BTF_IN_PROGRESS_ID" "j < n" for j
    using d2 that n by (simp add: stepped_def)
  have prog: "d_map d2 ! unat i = BTF_IN_PROGRESS_ID" using keep [of "unat i"] i(1) n by simp
  have "marks d3 = marks d2" unfolding marks_def d3(3) using filter_same [of "unat i" "d_map d2"] i(1) n prog v by (simp add: not_less)
  moreover have "marks d2 \<le> marks ?d1" "marks ?d1 \<le> marks d" using d2 started_step [OF d i] by (auto simp: stepped_def)
  moreover have "d_map d3 ! j = BTF_IN_PROGRESS_ID" if "d_map d ! j = BTF_IN_PROGRESS_ID" "j < n" for j
    using keep [of j] that i n by (cases "j = unat i") (auto simp: d3(3))
  moreover have "map type_info (d_types d3) = map type_info (d_types d)" using d2 d3(2) by (simp add: stepped_def)
  ultimately show ?thesis using d3(1) n by (simp add: stepped_def)
qed

lemma ref_type_step: "ref_step (ref_type k) n k"
proof (induction k)
  case 0
  show ?case by unfold_locales simp
next
  case (Suc k)
  show ?case
  proof
    fix d :: btf_dedup and v :: u32
    assume d: "at_size n d" "marks d < Suc k" and i: "unat v < n"
    have ok: "dd_ok d" and n: "length (d_map d) = n" "n \<le> 2 ^ 31" "length (d_types d) = n" using d(1) dd_okD(1,3) [of d] by (auto simp: at_size_def)
    let ?Q = "\<lambda>(r, d'). stepped d d' \<and> (0 \<le> r \<longrightarrow> nat r < n)"
    have m: "at (d_map d) v = Some (d_map d ! unat v)" "at (d_types d) v = Some (d_types d ! unat v)" using i n by (simp_all add: at_def nth_option_def)
    consider "d_map d ! unat v = BTF_IN_PROGRESS_ID" | "d_map d ! unat v \<noteq> BTF_IN_PROGRESS_ID" "d_map d ! unat v \<le> MAX_NR_TYPES"
      | "d_map d ! unat v > MAX_NR_TYPES" "d_map d ! unat v \<noteq> BTF_IN_PROGRESS_ID" by force
    then show "runs (ref_type (Suc k) d v) ?Q"
    proof cases
      case 1
      then show ?thesis using stepped_refl [OF ok] by (simp add: m ELOOP_def)
    next
      case 2
      have "runs (resolve_type_id d v) (\<lambda>r. stepped d d \<and> nat (sint r) < n)"
        using i n dd_okD(4) [OF ok] stepped_refl [OF ok] by (intro resolve_runs) (auto simp: is_root_def sint_id [of _ n] dest!: resolves_root)
      then show ?thesis using 2 by (auto simp: m elim!: runs_mono)
    next
      case 3
      let ?d1 = "d\<lparr>d_map := (d_map d)[unat v := BTF_IN_PROGRESS_ID]\<rparr>" and ?t = "d_types d ! unat v"
      have d1: "at_size n ?d1" "marks ?d1 < k" using marked_step [OF ok _ 3] i n d(2) by (auto simp: at_size_def)
      from ref_step.replace_refs_run [OF Suc.IH d1 i]
      have "runs (replace_refs (ref_type k) ?t v ?d1) (\<lambda>(r, d'). stepped ?d1 d' \<and> (0 \<le> r \<longrightarrow> kind ?t \<noteq> BTF_KIND_FWD))" by simp
      then have "runs (replace_refs (ref_type k) ?t v ?d1) (\<lambda>(r, d2). runs (if r < 0 then Some (r, d2)
            else do {
              t \<leftarrow> at (d_types d2) v;
              (err, new_id, d3) \<leftarrow> dedup_equal d2 v (ref_hash t) (ref_equal t);
              Some (if err \<noteq> 0 then - ENOMEM else sint new_id, d3) }) ?Q)"
      proof (rule runs_mono, clarify)
        fix r :: int and d2 assume s: "stepped ?d1 d2" "0 \<le> r \<longrightarrow> kind ?t \<noteq> BTF_KIND_FWD"
        have s2: "stepped d d2" using started_step [OF d(1) i 3] s(1) stepped_trans by blast
        then have d2: "at_size n d2" "length (d_types d2) = n" using n dd_okD(1) [of d2] by (auto simp: stepped_def at_size_def)
        have p: "d_map d2 ! unat v = BTF_IN_PROGRESS_ID" using s(1) i n by (simp add: stepped_def)
        have k: "kind (d_types d2 ! unat v) = kind ?t" using stepped_info [OF s2 _ ok] i n info_cong by metis
        have "runs (dedup_equal d2 v (ref_hash (d_types d2 ! unat v)) (ref_equal (d_types d2 ! unat v)))
            (\<lambda>(err, new_id, d3). ?Q (if err \<noteq> 0 then - ENOMEM else sint new_id, d3))" if "0 \<le> r"
          using ref_equal_runs [OF d2(1) i p] k s(2) that n(2)
          by (auto elim!: runs_mono simp: ENOMEM_def sint_id [of _ n] intro: finished_step [OF d(1) i 3 s(1)])
        then show "runs (if r < 0 then Some (r, d2)
            else do {
              t \<leftarrow> at (d_types d2) v;
              (err, new_id, d3) \<leftarrow> dedup_equal d2 v (ref_hash t) (ref_equal t);
              Some (if err \<noteq> 0 then - ENOMEM else sint new_id, d3) }) ?Q" using s2 i d2(2) by (simp add: runs_at runs_pair)
      qed
      moreover have "\<not> d_map d ! unat v \<le> MAX_NR_TYPES" using 3(1) by simp
      ultimately show ?thesis using 3(2) i n(1) by (simp add: m set_map_def runs_pair)
    qed
  qed
qed

interpretation ref_types: ref_step "ref_type k" n k for n k
  by (rule ref_type_step)

lemma each_until_negative_runs:
  assumes step: "\<And>i d. a \<le> i \<Longrightarrow> i < n \<Longrightarrow> I i d \<Longrightarrow> runs (f d (of_nat i)) (\<lambda>(err, d'). 0 \<le> err \<longrightarrow> I (Suc i) d')"
    and "I a d" "a \<le> n"
  shows "runs (each_until_negative f [a..<n] d) (\<lambda>(err, d'). err \<le> 0 \<and> (err = 0 \<longrightarrow> I n d'))"
  using assms
proof (induction "n - a" arbitrary: a d)
  case 0
  then show ?case by simp
next
  case (Suc k)
  then have a: "a < n" "[a..<n] = a # [Suc a..<n]" by (simp_all add: upt_conv_Cons)
  have ih: "runs (each_until_negative f [Suc a..<n] d') (\<lambda>(err, d'). err \<le> 0 \<and> (err = 0 \<longrightarrow> I n d'))" if "I (Suc a) d'" for d'
    using Suc(2) that a(1) by (intro Suc(1) Suc(3)) auto
  have "runs (f d (of_nat a)) (\<lambda>(err, d'). 0 \<le> err \<longrightarrow> I (Suc a) d')" using Suc(3) [of a d] Suc(4) a(1) by simp
  then show ?case unfolding a(2) by (auto elim!: runs_mono split: prod.splits if_splits simp: ih)
qed

lemma ref_types_run:
  assumes "at_size n d"
  shows "runs (btf_dedup_ref_types d) (\<lambda>(err, d'). err \<le> 0 \<and> (err = 0 \<longrightarrow> at_size n d'))"
proof -
  have n: "length (d_types d) = n" "1 \<le> n" "n \<le> 2 ^ 31" using assms dd_okD(1,3) [of d] by (auto simp: at_size_def dd_ok_def Suc_le_eq)
  have step: "runs (btf_dedup_ref_type d (of_nat i)) (\<lambda>(err, d'). 0 \<le> err \<longrightarrow> at_size n d')" if "at_size n d" "i < n" for d i
  proof -
    have "marks d < Suc (length (d_map d))" by (simp add: marks_def less_Suc_eq_le)
    then have "runs (btf_dedup_ref_type d (of_nat i)) (\<lambda>(r, d'). stepped d d' \<and> (0 \<le> r \<longrightarrow> nat r < n))"
      unfolding btf_dedup_ref_type_def using that n(3) by (intro ref_types.f_runs) (simp_all add: unat_id)
    then show ?thesis by (rule runs_mono) (use that in \<open>auto simp: stepped_def at_size_def\<close>)
  qed
  have "runs (each_until_negative btf_dedup_ref_type [1..<n] d) (\<lambda>(err, d'). err \<le> 0 \<and> (err = 0 \<longrightarrow> at_size n d'))"
    by (rule each_until_negative_runs [where I = "\<lambda>_. at_size n"]) (use assms n step in auto)
  then show ?thesis
    unfolding btf_dedup_ref_types_def type_ids_def n(1)
    by (auto elim!: runs_mono simp: at_size_def dd_ok_def hypot_ok_def table_ok_def)
qed

section \<open>Compaction\<close>

lemma compact_loop_runs:
  "i + length ts \<le> length m \<Longrightarrow> length hyp = length m \<Longrightarrow> length m \<le> 2 ^ 31 \<Longrightarrow> next_id \<le> i \<Longrightarrow> (\<forall>v \<in> set hyp. v \<le> MAX_NR_TYPES \<longrightarrow> unat v < next_id) \<Longrightarrow>
     runs (compact_loop m i ts next_id hyp len) (\<lambda>(err, ts', hyp', len'). err \<le> 0 \<and> length hyp' = length m \<and> set ts' \<subseteq> set ts \<and> length ts' \<le> length ts \<and>
       (err = 0 \<longrightarrow> (\<forall>v \<in> set hyp'. v \<le> MAX_NR_TYPES \<longrightarrow> unat v < next_id + length ts')))"
proof (induction ts arbitrary: i next_id hyp len)
  case (Cons t ts)
  have i: "i < length m" using Cons.prems(1) by simp
  let ?Q = "\<lambda>(err, ts', hyp', len'). err \<le> 0 \<and> length hyp' = length m \<and> set ts' \<subseteq> set (t # ts) \<and> length ts' \<le> length (t # ts) \<and>
       (err = 0 \<longrightarrow> (\<forall>v \<in> set hyp'. v \<le> MAX_NR_TYPES \<longrightarrow> unat v < next_id + length ts'))"
  have skip: "runs (compact_loop m (Suc i) ts next_id hyp len) ?Q"
    using Cons.IH [of "Suc i" hyp next_id len] Cons.prems by (auto elim!: runs_mono)
  let ?h = "hyp[i := of_nat next_id]"
  have "unat (of_nat next_id :: u32) = next_id" using Cons.prems i by (intro unat_id [of _ "length m"]) auto
  then have "\<forall>v \<in> set ?h. v \<le> MAX_NR_TYPES \<longrightarrow> unat v < Suc next_id"
    using Cons.prems(5) set_update_subset_insert [of hyp i "of_nat next_id"] by (auto simp: less_Suc_eq)
  then have keep: "runs (compact_loop m (Suc i) ts (Suc next_id) ?h l) (\<lambda>(err, ts', hyp', len'). err \<le> 0 \<and> length hyp' = length m \<and> set ts' \<subseteq> set ts \<and> length ts' \<le> length ts \<and>
       (err = 0 \<longrightarrow> (\<forall>v \<in> set hyp'. v \<le> MAX_NR_TYPES \<longrightarrow> unat v < Suc next_id + length ts')))" for l
    using Cons.prems by (intro Cons.IH) auto
  have keep': "runs (do { (err, kept, hyp, len) \<leftarrow> compact_loop m (Suc i) ts (Suc next_id) ?h l; Some (err, t # kept, hyp, len) }) ?Q" for l
    unfolding runs_bind using keep by (rule runs_mono) auto
  have e: "nth_option m i = Some (m ! i)" using i by (simp add: nth_option_def)
  consider "unat (m ! i) \<noteq> i" | "unat (m ! i) = i" "btf_type_size (type_info t) < 0" | "unat (m ! i) = i" "\<not> btf_type_size (type_info t) < 0" by blast
  then show ?case
  proof cases
    case 1
    then have "compact_loop m i (t # ts) next_id hyp len = compact_loop m (Suc i) ts next_id hyp len" by (simp add: e)
    then show ?thesis using skip by (simp only:)
  next
    case 2
    then show ?thesis using Cons.prems(2) by (simp add: e Let_def)
  next
    case 3
    then have "compact_loop m i (t # ts) next_id hyp len =
      do { (err, kept, hyp, len) \<leftarrow> compact_loop m (Suc i) ts (Suc next_id) ?h (len + nat (btf_type_size (type_info t))); Some (err, t # kept, hyp, len) }"
      using i Cons.prems(2) by (simp add: e Let_def)
    then show ?thesis using keep' by (simp only:)
  qed
qed auto

definition remap_ok :: "nat \<Rightarrow> nat \<Rightarrow> btf_dedup \<Rightarrow> bool" where
  "remap_ok n n' d \<longleftrightarrow> length (d_map d) = n \<and> n \<le> 2 ^ 31 \<and> forest (d_map d) \<and> length (hypot_map d) = n \<and>
     (\<forall>v \<in> set (hypot_map d). v \<le> MAX_NR_TYPES \<longrightarrow> unat v < n') \<and> n' \<le> n \<and> length (d_types d) = n'"

lemma unprocessed_gt: "\<not> BTF_UNPROCESSED_ID \<le> MAX_NR_TYPES"
  by (simp add: BTF_UNPROCESSED_ID_def MAX_NR_TYPES_def not_le)

lemma compact_types_run:
  assumes "at_size n d"
  shows "runs (btf_dedup_compact_types d) (\<lambda>(err, d'). err \<le> 0 \<and> (err = 0 \<longrightarrow> (\<exists>n'. remap_ok n n' d' \<and> 1 \<le> n' \<and> list_all (type_ok n) (d_types d'))))"
proof -
  have ok: "dd_ok d" and "length (d_map d) = n" using assms by (simp_all add: at_size_def)
  then have n: "length (d_map d) = n" "length (hypot_map d) = n" "length (d_types d) = n" "n \<le> 2 ^ 31" "forest (d_map d)" "list_all (type_ok n) (d_types d)"
    using dd_okD(1-4) [OF ok] by (simp_all add: dd_ok_def)
  obtain t0 ts where t: "d_types d = t0 # ts" using ok by (cases "d_types d") (auto simp: dd_ok_def)
  then have len: "n = Suc (length ts)" using n(3) by simp
  let ?hyp = "0 # replicate (length (hypot_map d) - 1) BTF_UNPROCESSED_ID"
  have "\<forall>v \<in> set ?hyp. v \<le> MAX_NR_TYPES \<longrightarrow> unat v < 1" using unprocessed_gt by auto
  then have "runs (compact_loop (d_map d) 1 ts 1 ?hyp 0) (\<lambda>(err, ts', hyp', len'). err \<le> 0 \<and> length hyp' = length (d_map d) \<and> set ts' \<subseteq> set ts \<and> length ts' \<le> length ts \<and>
       (err = 0 \<longrightarrow> (\<forall>v \<in> set hyp'. v \<le> MAX_NR_TYPES \<longrightarrow> unat v < 1 + length ts')))"
    using n(1,2,4) len by (intro compact_loop_runs) simp_all
  moreover have "hypot_map d \<noteq> []" using n(2) len by auto
  ultimately show ?thesis
    using n(4-6) len
    by (auto simp: btf_dedup_compact_types_def t Let_def alloc_def ENOMEM_def remap_ok_def n(1) list_all_iff elim!: runs_mono) blast
qed

section \<open>New numbers\<close>

lemma remap_id_runs:
  assumes d: "remap_ok n n' d" and v: "unat v < n"
  shows "runs (btf_dedup_remap_type_id d v) (\<lambda>(r, d'). d' = d \<and> (0 \<le> r \<longrightarrow> nat r < n'))"
proof -
  have "runs (resolve_type_id d v) (\<lambda>r. runs (at (hypot_map d) r) (\<lambda>w. 0 \<le> (if w > MAX_NR_TYPES then - EINVAL else sint w) \<longrightarrow> nat (if w > MAX_NR_TYPES then - EINVAL else sint w) < n'))"
  proof (rule resolve_runs)
    fix r assume "resolves (d_map d) v r"
    then have r: "unat r < n" using resolves_root d by (auto simp: is_root_def remap_ok_def)
    let ?w = "hypot_map d ! unat r"
    have "unat ?w < n'" "n' \<le> 2 ^ 31" if "?w \<le> MAX_NR_TYPES" using d r that nth_mem [of "unat r" "hypot_map d"] by (auto simp: remap_ok_def)
    then have "sint ?w = int (unat ?w) \<and> unat ?w < n'" if "?w \<le> MAX_NR_TYPES" using that sint_id by blast
    then show "runs (at (hypot_map d) r) (\<lambda>w. 0 \<le> (if w > MAX_NR_TYPES then - EINVAL else sint w) \<longrightarrow> nat (if w > MAX_NR_TYPES then - EINVAL else sint w) < n')"
      using d r by (auto simp: runs_at remap_ok_def EINVAL_def not_less)
  qed (use d v in \<open>auto simp: remap_ok_def\<close>)
  then show ?thesis by (simp add: btf_dedup_remap_type_id_def)
qed

lemma remap_result: "remap_ok n n' d \<Longrightarrow> 0 \<le> r \<Longrightarrow> nat r < n' \<Longrightarrow> unat (of_int r :: u32) < n'"
  using unat_result [of r n'] by (simp add: remap_ok_def)

lemma remap_ref_runs:
  assumes d: "remap_ok n n' d" and i: "unat i < n'" and v: "unat (size_or_type (d_types d ! unat i)) < n"
  shows "runs (replace_ref btf_dedup_remap_type_id i d)
    (\<lambda>(r, d'). 0 \<le> r \<longrightarrow> (\<exists>w. unat w < n' \<and> d' = d\<lparr>d_types := (d_types d)[unat i := (d_types d ! unat i)\<lparr>size_or_type := w\<rparr>]\<rparr>))"
proof -
  have l: "at (d_types d) i = Some (d_types d ! unat i)" using d i by (simp add: remap_ok_def at_def nth_option_def)
  let ?Q = "\<lambda>(r, d'). 0 \<le> r \<longrightarrow> (\<exists>w. unat w < n' \<and> d' = d\<lparr>d_types := (d_types d)[unat i := (d_types d ! unat i)\<lparr>size_or_type := w\<rparr>]\<rparr>)"
  have "runs (btf_dedup_remap_type_id d (size_or_type (d_types d ! unat i))) (\<lambda>(r, d'). runs (if r < 0 then Some (r, d') else do { d \<leftarrow> set_ref d' i (of_int r); Some (0, d) }) ?Q)"
  proof (rule runs_mono [OF remap_id_runs [OF d v]], clarify)
    fix r :: int assume "0 \<le> r \<longrightarrow> nat r < n'"
    then have "0 \<le> r \<Longrightarrow> unat (of_int r :: u32) < n'" using remap_result [OF d] by blast
    then show "runs (if r < 0 then Some (r, d) else do { d \<leftarrow> set_ref d i (of_int r); Some (0, d) }) ?Q"
      by (cases "r < 0") (simp, simp add: l set_ref_def, blast)
  qed
  then show ?thesis by (simp add: replace_ref_def l runs_pair)
qed

lemma remap_words_run:
  "remap_ok n n' d \<Longrightarrow> unat i < n' \<Longrightarrow> t = d_types d ! unat i \<Longrightarrow> \<forall>k \<in> set ks. k < length (extra t) \<and> unat (extra t ! k) < n \<Longrightarrow>
     runs (replace_words btf_dedup_remap_type_id i ks d)
       (\<lambda>(r, d'). 0 \<le> r \<longrightarrow> (\<exists>ws. d' = d\<lparr>d_types := (d_types d)[unat i := t\<lparr>extra := ws\<rparr>]\<rparr> \<and> length ws = length (extra t) \<and>
          (\<forall>k < length ws. if k \<in> set ks then unat (ws ! k) < n' else ws ! k = extra t ! k)))"
proof (induction ks arbitrary: d t)
  case Nil
  then show ?case by (auto simp: intro!: exI [of _ "extra t"])
next
  case (Cons k ks)
  have "n' \<le> n" using Cons.prems(1) by (simp add: remap_ok_def)
  have l: "at (d_types d) i = Some t" using Cons.prems(1-3) by (simp add: remap_ok_def at_def nth_option_def)
  have k: "k < length (extra t)" "unat (extra t ! k) < n" using Cons.prems(4) by auto
  let ?Q = "\<lambda>(r, d'). 0 \<le> r \<longrightarrow> (\<exists>ws. d' = d\<lparr>d_types := (d_types d)[unat i := t\<lparr>extra := ws\<rparr>]\<rparr> \<and> length ws = length (extra t) \<and>
          (\<forall>j < length ws. if j \<in> set (k # ks) then unat (ws ! j) < n' else ws ! j = extra t ! j))"
  have rest: "runs (replace_words btf_dedup_remap_type_id i ks (d\<lparr>d_types := (d_types d)[unat i := t\<lparr>extra := (extra t)[k := w]\<rparr>]\<rparr>)) ?Q" if w: "unat w < n'" for w
  proof -
    let ?t = "t\<lparr>extra := (extra t)[k := w]\<rparr>"
    let ?d = "d\<lparr>d_types := (d_types d)[unat i := ?t]\<rparr>"
    have "remap_ok n n' ?d" "?t = d_types ?d ! unat i" using Cons.prems(1,2) by (auto simp: remap_ok_def)
    moreover have "\<forall>j \<in> set ks. j < length (extra ?t) \<and> unat (extra ?t ! j) < n" using Cons.prems(4) w \<open>n' \<le> n\<close> by (auto simp: nth_list_update)
    ultimately have "runs (replace_words btf_dedup_remap_type_id i ks ?d)
       (\<lambda>(r, d'). 0 \<le> r \<longrightarrow> (\<exists>ws. d' = ?d\<lparr>d_types := (d_types ?d)[unat i := ?t\<lparr>extra := ws\<rparr>]\<rparr> \<and> length ws = length (extra ?t) \<and>
          (\<forall>k < length ws. if k \<in> set ks then unat (ws ! k) < n' else ws ! k = extra ?t ! k)))" using Cons.prems(2) by (intro Cons.IH)
    then show ?thesis
    proof (rule runs_mono, clarify)
      fix r :: int and ws
      assume ws: "length ws = length (extra ?t)" "\<forall>j < length ws. if j \<in> set ks then unat (ws ! j) < n' else ws ! j = extra ?t ! j"
      have "if j \<in> set (k # ks) then unat (ws ! j) < n' else ws ! j = extra t ! j" if "j < length ws" for j
        using ws that w by (cases "j = k") (auto split: if_splits)
      then show "\<exists>ws'. ?d\<lparr>d_types := (d_types ?d)[unat i := ?t\<lparr>extra := ws\<rparr>]\<rparr> = d\<lparr>d_types := (d_types d)[unat i := t\<lparr>extra := ws'\<rparr>]\<rparr> \<and>
          length ws' = length (extra t) \<and> (\<forall>j < length ws'. if j \<in> set (k # ks) then unat (ws' ! j) < n' else ws' ! j = extra t ! j)"
        using ws(1) by (intro exI [of _ ws]) simp
    qed
  qed
  have "runs (btf_dedup_remap_type_id d (extra t ! k)) (\<lambda>(r, d'). runs (if r < 0 then Some (r, d') else do { d \<leftarrow> set_word d' i k (of_int r); replace_words btf_dedup_remap_type_id i ks d }) ?Q)"
  proof (rule runs_mono [OF remap_id_runs [OF Cons.prems(1) k(2)]], clarify)
    fix r :: int assume "0 \<le> r \<longrightarrow> nat r < n'"
    then have "0 \<le> r \<Longrightarrow> unat (of_int r :: u32) < n'" using remap_result [OF Cons.prems(1)] by blast
    then show "runs (if r < 0 then Some (r, d) else do { d \<leftarrow> set_word d i k (of_int r); replace_words btf_dedup_remap_type_id i ks d }) ?Q"
      using rest by (cases "r < 0") (simp, simp add: l set_word_def)
  qed
  then show ?case using k(1) by (simp add: l runs_nth runs_pair)
qed

lemma remap_type_runs:
  assumes d: "remap_ok n n' d" and i: "unat i < n'" and t: "type_ok n (d_types d ! unat i)"
  shows "runs (btf_dedup_remap_type d i) (\<lambda>(r, d'). 0 \<le> r \<longrightarrow> (\<exists>t'. type_ok n' t' \<and> d' = d\<lparr>d_types := (d_types d)[unat i := t']\<rparr>))"
proof -
  let ?t = "d_types d ! unat i"
  let ?Q = "\<lambda>(r, d'). 0 \<le> r \<longrightarrow> (\<exists>t'. type_ok n' t' \<and> d' = d\<lparr>d_types := (d_types d)[unat i := t']\<rparr>)"
  have l: "at (d_types d) i = Some ?t" using d i by (simp add: remap_ok_def at_def nth_option_def)
  have fit: "\<forall>k \<in> set (ref_words ?t). k < length (extra ?t) \<and> unat (extra ?t ! k) < n" "need_words ?t \<le> length (extra ?t)"
    using t words_fit(4) [of ?t] by (auto simp: type_ok_def list_all_iff)
  have ok: "type_ok n' t'" if "type_info t' = type_info ?t" "length (extra t') = length (extra ?t)" "has_ref ?t \<longrightarrow> unat (size_or_type t') < n'"
    "\<forall>k \<in> set (ref_words ?t). unat (extra t' ! k) < n'" for t'
    using info_cong [OF that(1)] that(2-4) fit(2) by (simp add: type_ok_def list_all_iff)
  have keep: "?Q (0, d)" if "\<not> has_ref ?t" "ref_words ?t = []" using ok [of ?t] that by (auto intro!: exI [of _ ?t])
  have words: "runs (replace_words btf_dedup_remap_type_id i (ref_words ?t) (d\<lparr>d_types := (d_types d)[unat i := ?t\<lparr>size_or_type := w\<rparr>]\<rparr>)) ?Q"
    if w: "has_ref ?t \<longrightarrow> unat w < n'" for w
  proof -
    let ?d = "d\<lparr>d_types := (d_types d)[unat i := ?t\<lparr>size_or_type := w\<rparr>]\<rparr>"
    have d1: "remap_ok n n' ?d" "?t\<lparr>size_or_type := w\<rparr> = d_types ?d ! unat i" using d i by (auto simp: remap_ok_def)
    have fit': "\<forall>k \<in> set (ref_words ?t). k < length (extra (?t\<lparr>size_or_type := w\<rparr>)) \<and> unat (extra (?t\<lparr>size_or_type := w\<rparr>) ! k) < n" using fit(1) by simp
    show ?thesis
    proof (rule runs_mono [OF remap_words_run [OF d1(1) i d1(2) fit']], clarify)
      fix ws
      assume ws: "length ws = length (extra (?t\<lparr>size_or_type := w\<rparr>))"
        "\<forall>k < length ws. if k \<in> set (ref_words ?t) then unat (ws ! k) < n' else ws ! k = extra (?t\<lparr>size_or_type := w\<rparr>) ! k"
      have "\<forall>k \<in> set (ref_words ?t). unat (ws ! k) < n'" using ws fit(1) by force
      then have "type_ok n' (?t\<lparr>size_or_type := w, extra := ws\<rparr>)" using ws(1) w by (intro ok) simp_all
      then show "\<exists>t'. type_ok n' t' \<and> ?d\<lparr>d_types := (d_types ?d)[unat i := ?t\<lparr>size_or_type := w\<rparr>\<lparr>extra := ws\<rparr>]\<rparr> = d\<lparr>d_types := (d_types d)[unat i := t']\<rparr>"
        by (intro exI [of _ "?t\<lparr>size_or_type := w, extra := ws\<rparr>"]) simp
    qed
  qed
  have same: "d\<lparr>d_types := (d_types d)[unat i := ?t\<lparr>size_or_type := size_or_type ?t\<rparr>]\<rparr> = d" by simp
  have ref: "runs (replace_ref btf_dedup_remap_type_id i d)
    (\<lambda>(r, d'). 0 \<le> r \<longrightarrow> (\<exists>w. unat w < n' \<and> d' = d\<lparr>d_types := (d_types d)[unat i := ?t\<lparr>size_or_type := w\<rparr>]\<rparr>))" if "has_ref ?t"
    using t that by (intro remap_ref_runs [OF d i]) (simp add: type_ok_def)
  have only: "runs (replace_ref btf_dedup_remap_type_id i d) ?Q" if h: "has_ref ?t" "ref_words ?t = []"
  proof (rule runs_mono [OF ref [OF h(1)]], clarify)
    fix w :: u32 assume "unat w < n'"
    then have "type_ok n' (?t\<lparr>size_or_type := w\<rparr>)" using h by (intro ok) simp_all
    then show "\<exists>t'. type_ok n' t' \<and> d\<lparr>d_types := (d_types d)[unat i := ?t\<lparr>size_or_type := w\<rparr>]\<rparr> = d\<lparr>d_types := (d_types d)[unat i := t']\<rparr>" by blast
  qed
  have both: "runs (do { (r, d) \<leftarrow> replace_ref btf_dedup_remap_type_id i d; if r < 0 then Some (r, d) else replace_words btf_dedup_remap_type_id i (ref_words ?t) d }) ?Q"
    if h: "has_ref ?t"
    unfolding runs_bind by (rule runs_mono [OF ref [OF h]]) (use words in \<open>auto simp: not_less\<close>)
  note w = words [of "size_or_type ?t", unfolded same]
  show ?thesis
  proof (cases "kind ?t")
    case BTF_KIND_FUNC_PROTO
    then have "ref_words ?t = param_types ?t" "has_ref ?t" by (simp_all add: ref_words_def has_ref_def)
    from both [OF this(2), unfolded this(1)] BTF_KIND_FUNC_PROTO show ?thesis by (simp add: btf_dedup_remap_type_def l)
  qed (use keep w only in \<open>simp_all add: btf_dedup_remap_type_def l has_ref_def ref_words_def EINVAL_def\<close>)
qed

definition remap_inv :: "nat \<Rightarrow> nat \<Rightarrow> nat \<Rightarrow> btf_dedup \<Rightarrow> bool" where
  "remap_inv n n' i d \<longleftrightarrow> remap_ok n n' d \<and> (\<forall>j. 1 \<le> j \<longrightarrow> j < n' \<longrightarrow> type_ok (if j < i then n' else n) (d_types d ! j))"

lemma remap_types_run:
  assumes "remap_ok n n' d" "list_all (type_ok n) (d_types d)" "1 \<le> n'"
  shows "runs (btf_dedup_remap_types d) (\<lambda>(err, d'). err \<le> 0 \<and> (err = 0 \<longrightarrow> length (d_types d') = n' \<and> n' \<le> n \<and> list_all (type_ok n') (tl (d_types d'))))"
proof -
  have n: "length (d_types d) = n'" "n' \<le> n" "n' \<le> 2 ^ 31" using assms(1) by (auto simp: remap_ok_def)
  have step: "runs (btf_dedup_remap_type d (of_nat i)) (\<lambda>(err, d'). 0 \<le> err \<longrightarrow> remap_inv n n' (Suc i) d')" if d: "remap_inv n n' i d" and i: "1 \<le> i" "i < n'" for d i
  proof -
    have ui: "unat (of_nat i :: u32) = i" using i(2) n(3) by (rule unat_id)
    have "remap_ok n n' d" "type_ok n (d_types d ! i)" using d i by (auto simp: remap_inv_def dest: spec [of _ i])
    from remap_type_runs [OF this(1), of "of_nat i"] this(2) i(2)
    have "runs (btf_dedup_remap_type d (of_nat i)) (\<lambda>(r, d'). 0 \<le> r \<longrightarrow> (\<exists>t'. type_ok n' t' \<and> d' = d\<lparr>d_types := (d_types d)[i := t']\<rparr>))" by (simp add: ui)
    then show ?thesis
    proof (rule runs_mono, clarify)
      fix t' assume "type_ok n' t'"
      then show "remap_inv n n' (Suc i) (d\<lparr>d_types := (d_types d)[i := t']\<rparr>)"
        using d i(2) by (auto simp: remap_inv_def remap_ok_def nth_list_update less_Suc_eq)
    qed
  qed
  have "remap_inv n n' 1 d" using assms n(1) by (auto simp: remap_inv_def list_all_length)
  then have "runs (each_until_negative btf_dedup_remap_type [1..<n'] d) (\<lambda>(err, d'). err \<le> 0 \<and> (err = 0 \<longrightarrow> remap_inv n n' n' d'))"
    using assms(3) step by (intro each_until_negative_runs [where I = "remap_inv n n'"]) auto
  then show ?thesis unfolding btf_dedup_remap_types_def type_ids_def n(1)
    by (rule runs_mono) (auto simp: remap_inv_def remap_ok_def list_all_length nth_tl)
qed

section \<open>All passes\<close>

lemma type_ok_strip:
  assumes "type_strip t = type_strip t'"
  shows "type_ok n t = type_ok n t'"
proof -
  have f: "type_info (type_strip x) = type_info x" "size_or_type (type_strip x) = size_or_type x" "length (extra (type_strip x)) = length (extra x)" for x
    by (simp_all add: type_strip_def)
  have same: "type_info t = type_info t'" "size_or_type t = size_or_type t'" "length (extra t) = length (extra t')" using f assms by metis+
  have "k \<notin> set (str_positions x)" if "k \<in> set (ref_words x)" for k x
    using that by (auto simp: str_positions_def ref_words_def member_types_def param_types_def split: btf_kind.splits) presburger+
  then have w: "extra (type_strip x) ! k = extra x ! k" if "k \<in> set (ref_words x)" "need_words x \<le> length (extra x)" for k x
    using that words_fit(4) [of x] by (auto simp: type_strip_def list_all_iff)
  have "extra t ! k = extra t' ! k" if "k \<in> set (ref_words t)" "need_words t \<le> length (extra t)" for k
    using w [of k t] w [of k t'] that same info_cong [OF same(1)] assms by auto
  then show ?thesis using same info_cong [OF same(1)] by (auto simp: type_ok_def list_all_iff)
qed

text \<open>What the sections have to be for the passes to return.\<close>

definition dedup_input :: "dtype list \<Rightarrow> bytes \<Rightarrow> line_sec list option \<Rightarrow> bool" where
  "dedup_input types strs lines \<longleftrightarrow> types \<noteq> [] \<and> length types \<le> 2 ^ 31 \<and> list_all (type_ok (length types)) types \<and>
     (case lines of None \<Rightarrow> True | Some secs \<Rightarrow> list_all (\<lambda>sec. list_all (\<lambda>l. 2 < length l) (line_recs sec)) secs) \<and>
     strs \<noteq> [] \<and> hd strs = 0 \<and> last strs = 0 \<and> length strs < 2 ^ 32"

lemma strings_run:
  assumes q: "sorting qs" and d: "prim_inv n 1 d" "strings_ready d"
  shows "runs (btf_dedup_strings qs d) (\<lambda>(err, d'). err \<le> 0 \<and> (err = 0 \<longrightarrow> prim_inv n 1 d'))"
proof -
  obtain err d' where r: "btf_dedup_strings qs d = Some (err, d')" "err \<in> {0, - ENOMEM, - EINVAL}" "err = 0 \<longrightarrow> strings_done d d'"
    using strings_pass [OF q d(2)] by blast
  have "prim_inv n 1 d'" if "err = 0"
  proof -
    have st: "strip d' = strip (d\<lparr>d_strs := d_strs d', mem := mem d'\<rparr>)" using r(3) that by (simp add: strings_done_def)
    have f: "d_map (strip x) = d_map x" "hypot_map (strip x) = hypot_map x" "hypot_list (strip x) = hypot_list x" "dedup_table (strip x) = dedup_table x"
      "d_types (strip x) = take 1 (d_types x) @ map type_strip (tl (d_types x))" for x by (simp_all add: strip_def)
    have e: "d_map d' = d_map d" "hypot_map d' = hypot_map d" "hypot_list d' = hypot_list d" "dedup_table d' = dedup_table d"
      "d_types (strip d') = d_types (strip d)" using arg_cong [OF st, of d_map] arg_cong [OF st, of hypot_map] arg_cong [OF st, of hypot_list]
        arg_cong [OF st, of dedup_table] arg_cong [OF st, of d_types] by (simp_all add: f)
    have ok: "dd_ok d" "length (d_map d) = n" using d(1) by (simp_all add: prim_inv_def)
    obtain t0 ts where t: "d_types d = t0 # ts" using d(2) by (cases "d_types d") (auto simp: strings_ready_def)
    obtain ts' where t': "d_types d' = t0 # ts'" "map type_strip ts' = map type_strip ts"
      using e(5) by (cases "d_types d'") (auto simp: f t)
    have "list_all (type_ok n) ts' = list_all (type_ok n) ts" using t'(2) by (rule map_eq_prop [rotated]) (rule type_ok_strip)
    moreover have "length ts' = length ts" using t'(2) by (metis length_map)
    ultimately have "dd_ok d'" using ok d(1) by (auto simp: dd_ok_def hypot_ok_def table_ok_def prim_inv_def e t t')
    then show ?thesis using d(1) by (simp add: prim_inv_def e)
  qed
  then show ?thesis using r(2) by (auto simp: r(1) ENOMEM_def EINVAL_def)
qed

lemma run_passes_step:
  assumes "runs (f d) (\<lambda>(err, d'). err \<le> 0 \<and> (err = 0 \<longrightarrow> P d'))" "\<And>d'. P d' \<Longrightarrow> runs (run_passes fs d') (\<lambda>(err, d'). err = 0 \<longrightarrow> Q d')"
  shows "runs (run_passes (f # fs) d) (\<lambda>(err, d'). err = 0 \<longrightarrow> Q d')"
  unfolding run_passes.simps runs_bind by (rule runs_mono [OF assms(1)]) (use assms(2) in auto)

lemma new_ready:
  assumes "dedup_input types strs lines" "btf_dedup_new types strs lines toff sz nf m = Inr d"
  shows "prim_inv (length types) 1 d" "strings_ready d"
proof -
  let ?m = "0 # replicate (length types - 1) BTF_UNPROCESSED_ID"
  have ne: "types \<noteq> []" "length types \<le> 2 ^ 31" "list_all (type_ok (length types)) types" using assms(1) by (auto simp: dedup_input_def)
  have e: "d_types d = types" "d_strs d = strs" "d_lines d = lines" "d_map d = ?m" "hypot_map d = replicate (length types) BTF_UNPROCESSED_ID" "hypot_list d = []" "dedup_table d = (\<lambda>_. [])"
    using assms(2) ne(1) by (auto simp: btf_dedup_new_def max_def Suc_le_eq split: if_splits)
  have at: "?m ! j = (if j = 0 then 0 else BTF_UNPROCESSED_ID)" if "j < length types" for j using that by (cases j) auto
  have len: "length ?m = length types" using ne(1) by (cases types) auto
  have "is_root ?m i" if "unat i < length ?m" for i
    using that at [of "unat i"] len unprocessed_gt by (auto simp: is_root_def unat_eq_0 split: if_splits)
  then have "forest ?m" using resolves.here by (auto simp: forest_def)
  then have "dd_ok d" using ne len by (simp add: dd_ok_def e hypot_ok_def table_ok_def)
  then show "prim_inv (length types) 1 d" using at len unprocessed_gt by (simp add: prim_inv_def e not_le)
  have "list_all (\<lambda>k. k < length (extra t)) (str_positions t)" if "type_ok n t" for t n
    using words_fit(5) [of t] that by (auto simp: list_all_iff type_ok_def)
  then have "list_all (\<lambda>t. list_all (\<lambda>k. k < length (extra t)) (str_positions t)) (tl types)" using ne(3) by (cases types) (auto simp: list_all_iff)
  then have "strs_fit d" using assms(1) by (simp add: strs_fit_def e dedup_input_def)
  then show "strings_ready d" using assms(1) by (simp add: strings_ready_def e dedup_input_def)
qed

lemma passes_run:
  assumes "sorting qs" "prim_inv n 1 d" "strings_ready d"
  shows "runs (run_passes [btf_dedup_strings qs, btf_dedup_prim_types, btf_dedup_struct_types, btf_dedup_ref_types, btf_dedup_compact_types, btf_dedup_remap_types] d)
    (\<lambda>(err, d'). err = 0 \<longrightarrow> length (d_types d') \<le> n \<and> list_all (type_ok (length (d_types d'))) (tl (d_types d')))"
proof -
  let ?Q = "\<lambda>d'. length (d_types d') \<le> n \<and> list_all (type_ok (length (d_types d'))) (tl (d_types d'))"
  let ?R = "\<lambda>d. \<exists>n'. remap_ok n n' d \<and> 1 \<le> n' \<and> list_all (type_ok n) (d_types d)"
  let ?T = "\<lambda>(err, d'). err = 0 \<longrightarrow> ?Q d'"
  have p6: "runs (run_passes [btf_dedup_remap_types] d) ?T" if r: "?R d" for d
  proof -
    obtain n' where n': "remap_ok n n' d" "list_all (type_ok n) (d_types d)" "1 \<le> n'" using r by blast
    have "runs (btf_dedup_remap_types d) (\<lambda>(err, d'). err \<le> 0 \<and> (err = 0 \<longrightarrow> ?Q d'))" by (rule runs_mono [OF remap_types_run [OF n']]) auto
    then show ?thesis by (rule run_passes_step [where P = ?Q]) simp
  qed
  have p5: "runs (run_passes [btf_dedup_compact_types, btf_dedup_remap_types] d) ?T" if "at_size n d" for d
    using compact_types_run [OF that] p6 by (rule run_passes_step [where P = ?R])
  have p4: "runs (run_passes [btf_dedup_ref_types, btf_dedup_compact_types, btf_dedup_remap_types] d) ?T" if "at_size n d" for d
    using ref_types_run [OF that] p5 by (rule run_passes_step [where P = "at_size n"])
  have p3: "runs (run_passes [btf_dedup_struct_types, btf_dedup_ref_types, btf_dedup_compact_types, btf_dedup_remap_types] d) ?T" if "at_size n d" for d
    using struct_types_run [OF that] p4 by (rule run_passes_step [where P = "at_size n"])
  have p2: "runs (run_passes [btf_dedup_prim_types, btf_dedup_struct_types, btf_dedup_ref_types, btf_dedup_compact_types, btf_dedup_remap_types] d) ?T"
    if "prim_inv n 1 d" for d
    using prim_types_run [OF that] p3 by (rule run_passes_step [where P = "at_size n"])
  show ?thesis using strings_run [OF assms] p2 by (rule run_passes_step [where P = "prim_inv n 1"])
qed

definition refs_in_range :: "dtype list \<Rightarrow> bool" where
  "refs_in_range ts \<longleftrightarrow> list_all (type_ok (length ts)) (tl ts)"

text \<open>
  C21. For types that have all their words and refer to types of the section, and strings between zero bytes, \<open>btf__dedup\<close> returns, whatever memory and options it is given
  and whichever sort of the library it uses: no loop runs forever and no array is read or written outside of its bounds. When it succeeds, there are not more types than
  before, and every type refers to one of them.
\<close>

theorem dedup_returns:
  assumes "sorting qs" "dedup_input types strs lines"
  shows "\<exists>err d. btf__dedup qs types strs lines toff opt_size opt_no_fwds m = Some (err, d) \<and>
    (err = 0 \<longrightarrow> (\<exists>d'. d = Some d' \<and> length (d_types d') \<le> length types \<and> refs_in_range (d_types d')))"
proof (cases "btf_dedup_new types strs lines toff opt_size opt_no_fwds m")
  case (Inl e)
  then show ?thesis by (simp add: btf__dedup_def EINVAL_def)
next
  case (Inr d)
  let ?passes = "[btf_dedup_strings qs, btf_dedup_prim_types, btf_dedup_struct_types, btf_dedup_ref_types, btf_dedup_compact_types, btf_dedup_remap_types]"
  obtain err d' where "run_passes ?passes d = Some (err, d')"
    "err = 0 \<longrightarrow> length (d_types d') \<le> length types \<and> list_all (type_ok (length (d_types d'))) (tl (d_types d'))"
    using passes_run [OF assms(1) new_ready [OF assms(2) Inr]] by (auto simp: runs_def simp del: run_passes.simps split: option.splits)
  then show ?thesis by (simp add: btf__dedup_def Inr refs_in_range_def del: run_passes.simps)
qed

text \<open>Two integers, two structures with a member of each and two pointers: three types are left.\<close>

definition sample_types :: "dtype list" where
  "sample_types = [
     \<lparr> name_off = 0, type_info = 0, size_or_type = 0, extra = [] \<rparr>,
     \<lparr> name_off = 1, type_info = 0x01000000, size_or_type = 4, extra = [32] \<rparr>,
     \<lparr> name_off = 1, type_info = 0x01000000, size_or_type = 4, extra = [32] \<rparr>,
     \<lparr> name_off = 5, type_info = 0x04000001, size_or_type = 4, extra = [7, 1, 0] \<rparr>,
     \<lparr> name_off = 5, type_info = 0x04000001, size_or_type = 4, extra = [7, 2, 0] \<rparr>,
     \<lparr> name_off = 0, type_info = 0x02000000, size_or_type = 4, extra = [] \<rparr>,
     \<lparr> name_off = 0, type_info = 0x02000000, size_or_type = 3, extra = [] \<rparr> ]"

definition sample_strs :: bytes where
  "sample_strs = [0, 105, 110, 116, 0, 97, 0, 120, 0]"

lemma sample_input: "dedup_input sample_types sample_strs None"
proof -
  have "list_all (type_ok (length sample_types)) sample_types" by code_simp
  then show ?thesis by (simp add: dedup_input_def sample_types_def sample_strs_def)
qed

lemma sample_run:
  "map_option (\<lambda>(err, d). (err, map_option (\<lambda>d. map (\<lambda>t. (size_or_type t, extra t)) (d_types d)) d))
     (btf__dedup cmp_sort sample_types sample_strs None 0 0 False 100) =
   Some (0, Some [(0, []), (4, [32]), (4, [7, 1, 0]), (2, [])])"
  by code_simp

theorem dedup_returns_witness:
  "\<exists>d. btf__dedup cmp_sort sample_types sample_strs None 0 0 False 100 = Some (0, Some d) \<and> refs_in_range (d_types d)"
  using dedup_returns [OF insertion.sorting_axioms sample_input, of 0 0 False 100] sample_run by auto

end
