(* ===== verification/Spec2Isabelle.thy ===== *)
theory Spec2Isabelle
  imports Syncookie Endian Parsing_Helpers Rewrite_Helpers Jhash Xdp_Stats Xdp_Hook Relocate Loader Xsk_Life Linfo Probes Elf_Fds Dedup_Total
begin

text \<open>
  A verification library for a SYN-cookie filter that runs in the XDP hook of a network interface, and for the programs and
  the library that load it.

  \<^bold>\<open>The program.\<close> The filter (\<open>src/src\<close>) is run by the kernel for every received frame. It parses the Ethernet, IPv4 and TCP
  headers, answers a SYN with a SYN-ACK whose sequence number is a cookie, recognises the cookie in the ACK, enters the
  connection in a table and resets it, and lets the packets of known connections pass. Next to it are helpers that other
  XDP programs share (\<open>src/common\<close>, \<open>src/headers\<close>), two sample programs that count packets, and the user programs of
  \<open>src/loader\<close>: one loads an object file, attaches a program to an interface and pins the maps; the other reads the
  counters from a pinned map. They work through libbpf (\<open>src/libbpf/src\<close>), which reads object files, creates maps,
  patches and loads programs with the \<open>bpf\<close> system call, pins to the BPF file system, and speaks netlink with the kernel to
  attach a program.

  \<^bold>\<open>How it is modelled.\<close> Functions that only compute are HOL functions. Packets, messages and sections are byte lists;
  integers in them are words in the byte order of the target (\<open>Prelude\<close>), and an access outside of a buffer is \<open>None\<close>. User
  programs and the parts of libbpf that call the system run in a state monad with four outcomes: a normal return, an
  exit, a fault and a call that never returns (\<open>Process\<close>). Error returns are the negative numbers of the code. The
  kernel and the C library are parameters: records of functions over a state of the world, with what the code relies
  on as the assumptions of locales (\<open>percpu_array\<close>, \<open>pin_fs\<close>, \<open>fd_table\<close>, \<open>elf_system\<close>, \<open>probe_kernel\<close>, \<open>xsk_kernel\<close>, \<open>xdp_hook\<close>, \<open>sorting\<close>).
  Each of them is interpreted, on the code's own functions where those provide it and on a small executable system otherwise.

  \<^bold>\<open>The filter.\<close>
  \<^item> \<open>Prelude\<close>: bytes, words, encoding and decoding; the locale \<open>layout\<close> for a structure with a fixed layout.
  \<^item> \<open>Uapi\<close>: \<open>enum xdp_action\<close>, \<open>struct xdp_md\<close>, map types (\<open>src/headers/linux/bpf.h\<close>).
  \<^item> \<open>Headers\<close> (\<open>headers.h\<close>): the packed headers with their bit-fields; layouts are bijective (C8).
  \<^item> \<open>Parser\<close> (\<open>parser.h\<close>): the parsers; what they accept lies in the packet (C9), once for the locale \<open>header_parser\<close>.
  \<^item> \<open>Controller\<close> (\<open>controller.c\<close>): cookie, answers and the state machine of a packet.
  \<^item> \<open>Syncookie\<close> (\<open>syncookie.c\<close>): the whole program; it refines a description of the answers on the wire (C1), faults exactly
    on frames that end before the TCP header (C2), completes a handshake (C3), and what its table does (C4, C5); on a
    little-endian target it passes everything (C6); the bytes of the answer to a SYN (C7).

  \<^bold>\<open>Helpers and counters.\<close>
  \<^item> \<open>Endian\<close> (\<open>bpf_endian.h\<close>): the macros convert to and from network order.
  \<^item> \<open>Parsing_Helpers\<close> (\<open>parsing_helpers.h\<close>): parsers with VLAN tags (C11) and getters; what \<open>parse_iphdr\<close> does with the length field.
  \<^item> \<open>Rewrite_Helpers\<close> (\<open>rewrite_helpers.h\<close>): push and pop are inverse, exchanges are involutions (locale \<open>field_exchange\<close>).
  \<^item> \<open>Jhash\<close> (\<open>jhash.h\<close>): the hash of a key returns for every length (C17), its variants agree (C18), mixing is a bijection.
  \<^item> \<open>Xdp_Stats\<close> (\<open>xdp_stats_kern.h\<close>, \<open>xdp_prog_kern.c\<close>, \<open>xdp_stats.c\<close>): both recorders agree, every packet is counted
    (C20), and what is printed are the rates.

  \<^bold>\<open>User programs and libbpf.\<close>
  \<^item> \<open>Params\<close> (\<open>common_params.c\<close>): options and their effect on the configuration (C22, C23).
  \<^item> \<open>Errno\<close> (\<open>libbpf_errno.c\<close>, \<open>str_error.c\<close>): error numbers and texts.
  \<^item> \<open>Btf\<close> (\<open>btf.c\<close>): parsing type information, names, sizes of types (C16) and the records of programs.
  \<^item> \<open>Btf_Dedup\<close> (\<open>btf.c\<close>): the deduplication of types with its six passes, from \<open>btf__dedup\<close> to the new numbers of the types. \<open>Dedup_Strings\<close>
    shows that the pass over the strings returns, keeps every string and gives equal strings one offset (C13), over the locale \<open>visitor\<close> for a pass over
    the places that name strings; \<open>Dedup_Total\<close> shows that all passes return and what the result refers to (C21).
  \<^item> \<open>Bpf_Object\<close> (\<open>libbpf.c\<close>): objects, iterators, section names, the collection of relocations (C27).
  \<^item> \<open>Elf_Open\<close> (\<open>libbpf.c\<close>): \<open>bpf_object__open\<close> and its variants over the answers of libelf. \<open>Elf_Wf\<close> and \<open>Elf_Fds\<close>: the object is well-formed (C19), and
    opening and loading account for every descriptor (C30). \<open>Qsort\<close> has the sort of the C library as the locale \<open>sorting\<close>.
  \<^item> \<open>Bpf_Sys\<close>, \<open>Bpf_Cmds\<close> (\<open>bpf.c\<close>): the wrappers of the system call, with the repeated attempts to load a program.
  \<^item> \<open>Obj_Load\<close> (\<open>libbpf.c\<close>): the stages of \<open>bpf_object__load\<close>; \<open>Relocate\<close> compares patching with a reference that changes one
    instruction at a time (C26), \<open>Load_Fds\<close> accounts for the descriptors of a load (C40).
  \<^item> \<open>Pinning\<close> (\<open>libbpf.c\<close>): pinning everything or nothing (C28), unpinning; the locale \<open>rollback\<close> is the pattern of its loops.
  \<^item> \<open>Load_Prog\<close> (\<open>libbpf.c\<close>, \<open>common_libbpf.c\<close>): \<open>bpf_prog_load_xattr\<close> and the variant with pinned maps (C31), over an object that has been opened.
  \<^item> \<open>Linfo\<close> (\<open>bpf_prog_linfo.c\<close>): the lines of a loaded program and the search for the line of an address (C14).
  \<^item> \<open>Probes\<close> (\<open>libbpf_probes.c\<close>): the probes for types of programs and maps and for helpers.
  \<^item> \<open>Xsk_Ring\<close> (\<open>xsk.h\<close>): the rings of an AF\_XDP socket between two sides that run in any order; they refine a queue (C10), deliver entries in order
    (C12) and reserve exactly when there is room (C15). \<open>Xsk\<close> (\<open>xsk.c\<close>): user memory and sockets; \<open>Xsk_Prog\<close>: the program for them does what its comment says (C29);
    \<open>Xsk_Life\<close>: creating user memory (C25) and the life of sockets on it (C24).
  \<^item> \<open>Nlattr\<close>, \<open>Netlink\<close> (\<open>nlattr.c\<close>, \<open>netlink.c\<close>): attributes (C32, C33), the request to attach (C34) and its answer (C35).
  \<^item> \<open>Xdp_Link\<close> (\<open>common_user_bpf_xdp.c\<close>): attaching and detaching over the locale \<open>xdp_hook\<close>; \<open>Xdp_Hook\<close> interprets it with the
    functions of \<open>Netlink\<close> over a model of the kernel's side and gives what attaching and detaching do (C36 to C38).
  \<^item> \<open>Loader\<close> (\<open>xdp_loader.c\<close>, \<open>xdp_stats.c\<close>): both \<open>main\<close> functions; pinning again after an earlier run (C39).

  \<^bold>\<open>Loops and bounds.\<close> Loops over lists and buffers are terminating recursions; \<open>btf__resolve_size\<close> keeps the 32 steps of
  the code. Receiving from netlink and loading a program may wait forever: \<open>partial_function\<close> on options, where
  \<open>None\<close> is not returning. The endless loop of the statistics reader is modelled for any number of rounds. The hash is
  shown to return. The program for AF\_XDP sockets has forward jumps only and is run for as many steps as it has instructions. In the deduplication three loops
  follow the contents of arrays: the way to a representative takes at most as many steps as there are types, and the two recursions at most one more than there are
  types, which C21 shows to be enough.

  \<^bold>\<open>Not modelled.\<close> The answers of libelf are a parameter. \<open>btf__get_from_id\<close>, the reader of perf events and the list of all opened objects are left out: no program here
  uses them. So are messages, private data of callers, the descriptor a preprocessor asks to be told, the declarations of helpers for other
  programs (\<open>bpf_helpers.h\<close>), the parts of the kernel's headers that no code here names, and the build and test scripts. Memory is not modelled as such: a failing
  allocation is an input, releasing memory is left out, and pointers that would be used after they have been freed are faults where they occur.
\<close>

end
